(* ===== verification/Prelude.thy ===== *)
theory Prelude
  imports Main "HOL-Library.Word"
begin

text \<open>
  Shared base of the development: machine integers, the outcomes of a call that may stop the
  process, byte buffers with checked reads, C strings and the part of \<open>printf\<close> the program
  uses, and one locale for components that are state machines.

  A call either returns or ends in a \<open>fault\<close>: \<open>Abort\<close> is \<open>AMS_ABORT\<close> (the process is
  terminated on purpose), \<open>OutOfBounds\<close> is a read or a write outside the object it was meant
  for (undefined behaviour of the program). \<open>OutOfFuel\<close> only marks a loop that was
  given too little fuel; every theorem that a loop returns says how much is enough.
\<close>

unbundle bit_operations_syntax

section \<open>Machine integers\<close>

type_synonym u8 = "8 word"
type_synonym u16 = "16 word"
type_synonym u32 = "32 word"
type_synonym u64 = "64 word"

named_theorems run_simps "equations of the outcome combinators"
named_theorems fmt_simps "lengths and characters of printed numbers"

section \<open>Outcomes\<close>

datatype fault = Abort | OutOfBounds | OutOfFuel

type_synonym 'a run = "fault + 'a"

definition then_run :: "'a run \<Rightarrow> ('a \<Rightarrow> 'b run) \<Rightarrow> 'b run" where
  "then_run m k = (case m of Inl f \<Rightarrow> Inl f | Inr a \<Rightarrow> k a)"

definition returns :: "'a run \<Rightarrow> bool" where
  "returns m \<longleftrightarrow> (case m of Inl _ \<Rightarrow> False | Inr _ \<Rightarrow> True)"

lemma then_run_Inl [simp, run_simps]: "then_run (Inl f) k = Inl f"
  by (simp add: then_run_def)

lemma then_run_Inr [simp, run_simps]: "then_run (Inr a) k = k a"
  by (simp add: then_run_def)

lemma returns_simps [simp, run_simps]: "returns (Inl f) = False" "returns (Inr a) = True"
  by (simp_all add: returns_def)

lemma then_run_eq_Inr [run_simps]:
  "then_run m k = Inr b \<longleftrightarrow> (\<exists>a. m = Inr a \<and> k a = Inr b)"
  by (cases m) auto

lemma then_run_eq_Inl:
  "then_run m k = Inl f \<longleftrightarrow> m = Inl f \<or> (\<exists>a. m = Inr a \<and> k a = Inl f)"
  by (cases m) auto

lemma returnsE: "returns m \<Longrightarrow> (\<And>a. m = Inr a \<Longrightarrow> P) \<Longrightarrow> P"
  by (cases m) auto

lemma then_run_assoc: "then_run (then_run m k) l = then_run m (\<lambda>a. then_run (k a) l)"
  by (cases m) auto

section \<open>Byte buffers\<close>

definition byte_at :: "u8 list \<Rightarrow> nat \<Rightarrow> u8 run" where
  "byte_at bs i = (if i < length bs then Inr (bs ! i) else Inl OutOfBounds)"

lemma byte_at_in [simp]: "i < length bs \<Longrightarrow> byte_at bs i = Inr (bs ! i)"
  by (simp add: byte_at_def)

lemma byte_at_out [simp]: "length bs \<le> i \<Longrightarrow> byte_at bs i = Inl OutOfBounds"
  by (simp add: byte_at_def)

text \<open>A block of \<open>n\<close> bytes read from offset \<open>i\<close>, as \<open>memcpy\<close> or a hash would read it.\<close>

definition bytes_at :: "u8 list \<Rightarrow> nat \<Rightarrow> nat \<Rightarrow> u8 list run" where
  "bytes_at bs i n = (if i + n \<le> length bs then Inr (take n (drop i bs)) else Inl OutOfBounds)"

lemma bytes_at_in [simp]: "i + n \<le> length bs \<Longrightarrow> bytes_at bs i n = Inr (take n (drop i bs))"
  by (simp add: bytes_at_def)

lemma bytes_at_out [simp]: "length bs < i + n \<Longrightarrow> bytes_at bs i n = Inl OutOfBounds"
  by (simp add: bytes_at_def)

lemma bytes_at_length: "bytes_at bs i n = Inr xs \<Longrightarrow> length xs = n"
  by (auto simp: bytes_at_def split: if_splits)

text \<open>Writing a run of elements into a buffer at an offset; the buffer keeps its length.\<close>

definition poke :: "nat \<Rightarrow> 'a list \<Rightarrow> 'a list \<Rightarrow> 'a list" where
  "poke off xs buf = take off buf @ xs @ drop (off + length xs) buf"

lemma length_poke [simp]: "off + length xs \<le> length buf \<Longrightarrow> length (poke off xs buf) = length buf"
  by (simp add: poke_def)

lemma take_poke [simp]:
  "off + length xs \<le> length buf \<Longrightarrow> take (off + length xs) (poke off xs buf) = take off buf @ xs"
  by (simp add: poke_def)

lemma bit_below:
  assumes "unat (w :: 'a::len word) < 2 ^ n" and "bit w k"
  shows "k < n"
proof (rule ccontr)
  assume "\<not> k < n"
  have "bit (unat w) k" using assms(2) by (simp add: bit_unsigned_iff)
  then have "odd (unat w div 2 ^ k)" by (simp add: bit_iff_odd)
  then have "unat w div 2 ^ k \<noteq> 0" by (metis even_zero)
  then have "2 ^ k \<le> unat w" by (metis div_less not_less)
  moreover have "(2::nat) ^ n \<le> 2 ^ k" using \<open>\<not> k < n\<close> by simp
  ultimately show False using assms(1) by linarith
qed

text \<open>Little-endian byte encodings of the integers, as the target machine stores them.\<close>

definition le_bytes :: "nat \<Rightarrow> 'a::len word \<Rightarrow> u8 list" where
  "le_bytes n w = map (\<lambda>i. ucast (drop_bit (8 * i) w)) [0..<n]"

fun le_word :: "u8 list \<Rightarrow> 'a::len word" where
  "le_word [] = 0"
| "le_word (b # bs) = ucast b OR push_bit 8 (le_word bs)"

lemma length_le_bytes [simp]: "length (le_bytes n w) = n"
  by (simp add: le_bytes_def)

lemma bit_le_word:
  "bit (le_word bs :: 'a::len word) k \<longleftrightarrow>
     k < LENGTH('a) \<and> k div 8 < length bs \<and> bit (bs ! (k div 8)) (k mod 8)"
proof (induction bs arbitrary: k)
  case Nil
  then show ?case by simp
next
  case (Cons b bs)
  have b8: "bit b n \<Longrightarrow> n < 8" for n using bit_imp_le_length [of b n] by simp
  show ?case
  proof (cases "k < 8")
    case True
    then show ?thesis by (auto simp: bit_simps)
  next
    case False
    then obtain j where k: "k = 8 + j" by (metis le_add_diff_inverse not_less)
    have "(8 + j) div 8 = Suc (j div 8)" by simp
    with k False b8 [of k] show ?thesis by (auto simp: bit_simps Cons.IH)
  qed
qed

lemma bit_le_bytes: "i < n \<Longrightarrow> bit (le_bytes n w ! i) k \<longleftrightarrow> k < 8 \<and> bit w (8 * i + k)"
  by (auto simp: le_bytes_def bit_simps)

lemma le_word_le_bytes [simp]: "LENGTH('a) \<le> 8 * n \<Longrightarrow> le_word (le_bytes n w) = (w :: 'a::len word)"
  by (intro bit_word_eqI) (auto simp: bit_le_word bit_le_bytes mult.commute)

lemma le_bytes_le_word [simp]:
  "LENGTH('a) = 8 * length bs \<Longrightarrow> le_bytes (length bs) (le_word bs :: 'a::len word) = bs"
proof (intro nth_equalityI bit_word_eqI)
  fix i k
  assume "LENGTH('a) = 8 * length bs" "i < length (le_bytes (length bs) (le_word bs :: 'a word))"
    "k < LENGTH(8)"
  then show "bit (le_bytes (length bs) (le_word bs :: 'a word) ! i) k = bit (bs ! i) k"
    by (simp add: bit_le_bytes bit_le_word)
qed simp_all

section \<open>C strings\<close>

text \<open>
  A \<open>char\<close> buffer is a list of characters; the string in it ends before the first NUL.
  \<open>char\<close> is unsigned on the target (AArch64), so \<open>char_code\<close> lies in 0..255.
\<close>

abbreviation NUL :: char where
  "NUL \<equiv> CHR 0x00"

definition c_str :: "string \<Rightarrow> string" where
  "c_str buf = takeWhile (\<lambda>c. c \<noteq> NUL) buf"

definition char_code :: "char \<Rightarrow> int" where
  "char_code c = int (of_char c)"

lemma char_code_range: "0 \<le> char_code c" "char_code c < 256"
  using nat_of_char_less_256 [of c] by (simp_all add: char_code_def)

lemma c_str_append_NUL [simp]: "NUL \<notin> set s \<Longrightarrow> c_str (s @ NUL # rest) = s"
  by (induction s) (auto simp: c_str_def)

lemma c_str_no_NUL: "NUL \<notin> set (c_str s)"
  by (auto simp: c_str_def dest: set_takeWhileD)

section \<open>Formatted printing\<close>

definition digit_char :: "nat \<Rightarrow> char" where
  "digit_char d = char_of (if d < 10 then 48 + d else 55 + d)"

fun show_base :: "nat \<Rightarrow> nat \<Rightarrow> string" where
  "show_base b n =
     (if b < 2 \<or> n < b then [digit_char n] else show_base b (n div b) @ [digit_char (n mod b)])"

declare show_base.simps [simp del]

definition pad_zero :: "nat \<Rightarrow> string \<Rightarrow> string" where
  "pad_zero w s = replicate (w - length s) (CHR ''0'') @ s"

text \<open>\<open>%0<w>d\<close> of a non-negative number, \<open>%0<w>X\<close>, and \<open>%016lX\<close>.\<close>

definition fmt_d :: "nat \<Rightarrow> nat \<Rightarrow> string" where
  "fmt_d w n = pad_zero w (show_base 10 n)"

definition fmt_X :: "nat \<Rightarrow> nat \<Rightarrow> string" where
  "fmt_X w n = pad_zero w (show_base 16 n)"

text \<open>
  \<open>snprintf\<close> at an offset of a buffer, with room for \<open>n\<close> characters: at most
  \<open>n - 1\<close> characters and a NUL are written; the length of the whole text is returned.
\<close>

definition snprintf_at :: "string \<Rightarrow> nat \<Rightarrow> nat \<Rightarrow> string \<Rightarrow> string \<times> nat" where
  "snprintf_at buf off n s =
     (if n = 0 then buf else poke off (take (n - 1) s @ [NUL]) buf, length s)"

lemma show_base_length_le: "2 \<le> b \<Longrightarrow> n < b ^ Suc k \<Longrightarrow> length (show_base b n) \<le> Suc k"
proof (induction k arbitrary: n)
  case 0
  then show ?case by (simp add: show_base.simps)
next
  case (Suc k)
  show ?case
  proof (cases "n < b")
    case True
    then show ?thesis by (simp add: show_base.simps)
  next
    case False
    from Suc.prems have "n div b < b ^ Suc k"
      by (simp add: less_mult_imp_div_less mult.commute)
    with Suc.IH Suc.prems(1) have "length (show_base b (n div b)) \<le> Suc k" by blast
    with False Suc.prems(1) show ?thesis by (subst show_base.simps) simp
  qed
qed

lemma fmt_d_length [fmt_simps]: "n < 10 ^ Suc k \<Longrightarrow> length (fmt_d (Suc k) n) = Suc k"
  using show_base_length_le [of 10 n k] by (simp add: fmt_d_def pad_zero_def)

lemma fmt_X_length [fmt_simps]: "n < 16 ^ Suc k \<Longrightarrow> length (fmt_X (Suc k) n) = Suc k"
  using show_base_length_le [of 16 n k] by (simp add: fmt_X_def pad_zero_def)

text \<open>Every printed character is a digit (or one of A..F), never a NUL.\<close>

definition is_digit_char :: "nat \<Rightarrow> char \<Rightarrow> bool" where
  "is_digit_char b c \<longleftrightarrow> (\<exists>d < b. c = digit_char d)"

lemma show_base_digits: "2 \<le> b \<Longrightarrow> c \<in> set (show_base b n) \<Longrightarrow> is_digit_char b c"
proof (induction b n rule: show_base.induct)
  case (1 b n)
  show ?case
  proof (cases "n < b")
    case True
    with "1.prems" show ?thesis by (auto simp: show_base.simps [of b n] is_digit_char_def)
  next
    case False
    with "1.prems" have "c \<in> set (show_base b (n div b)) \<or> c = digit_char (n mod b)"
      by (auto simp: show_base.simps [of b n])
    moreover have "n mod b < b" using "1.prems"(1) by simp
    ultimately show ?thesis
      using "1.IH" "1.prems" False by (metis is_digit_char_def not_less)
  qed
qed

lemma pad_zero_digits:
  assumes "2 \<le> b" and "c \<in> set (pad_zero w (show_base b n))"
  shows "is_digit_char b c"
proof -
  have "is_digit_char b (CHR ''0'')"
    unfolding is_digit_char_def using assms(1)
    by (intro exI [of _ 0]) (simp add: digit_char_def char_of_def bit_0)
  with assms(2) show ?thesis
    using show_base_digits [OF assms(1), of c n] by (auto simp: pad_zero_def split: if_splits)
qed

lemma digit_char_code:
  "d < 16 \<Longrightarrow> of_char (digit_char d) = (if d < 10 then 48 + d else 55 + d)"
  by (simp add: digit_char_def)

lemma digit_char_not_NUL: "d < 16 \<Longrightarrow> digit_char d \<noteq> NUL"
proof
  assume "d < 16" and "digit_char d = NUL"
  then have "of_char NUL = (if d < 10 then 48 + d else 55 + d)"
    using digit_char_code by metis
  then show False by (simp split: if_splits)
qed

lemma fmt_d_no_NUL [fmt_simps]: "NUL \<notin> set (fmt_d w n)"
proof
  assume "NUL \<in> set (fmt_d w n)"
  then obtain d where "d < 10" and "NUL = digit_char d"
    using pad_zero_digits [of 10 NUL w n] by (auto simp: fmt_d_def is_digit_char_def)
  then show False using digit_char_not_NUL [of d] by simp
qed

lemma fmt_X_no_NUL [fmt_simps]: "NUL \<notin> set (fmt_X w n)"
proof
  assume "NUL \<in> set (fmt_X w n)"
  then obtain d where "d < 16" and "NUL = digit_char d"
    using pad_zero_digits [of 16 NUL w n] by (auto simp: fmt_X_def is_digit_char_def)
  then show False using digit_char_not_NUL [of d] by simp
qed

section \<open>State machines\<close>

text \<open>
  The interface of a component that is driven through its operations: a predicate for the states
  it starts in, the relation of its single operations, and an invariant both keep. Every component
  with private state interprets it on its own operations; the reachable states then satisfy the
  invariant.
\<close>

locale state_machine =
  fixes init :: "'s \<Rightarrow> bool"
    and step :: "'s \<Rightarrow> 's \<Rightarrow> bool"
    and inv :: "'s \<Rightarrow> bool"
  assumes init_inv: "init s \<Longrightarrow> inv s"
    and step_inv: "inv s \<Longrightarrow> step s t \<Longrightarrow> inv t"
begin

lemma steps_inv: "step\<^sup>*\<^sup>* s t \<Longrightarrow> inv s \<Longrightarrow> inv t"
  by (induction rule: rtranclp_induct) (auto intro: step_inv)

lemma reachable_inv: "init s \<Longrightarrow> step\<^sup>*\<^sup>* s t \<Longrightarrow> inv t"
  by (rule steps_inv [OF _ init_inv])

end

end
