(* ===== verification/Results.thy ===== *)
theory Results
  imports Prelude
begin

text \<open>
  Result codes (\<open>vapours/results/results_common.hpp\<close>, \<open>capsrv_results.hpp\<close> and the part of
  \<open>fs_results.hpp\<close> the program names): a 32-bit value made of a module and a description, zero
  for success, the ranges \<open>R_CATCH\<close> tests, and the early return \<open>R_TRY\<close>.
\<close>

section \<open>Encoding\<close>

type_synonym result = u32

definition MakeValue :: "u32 \<Rightarrow> u32 \<Rightarrow> result" where
  "MakeValue module description = module OR push_bit 9 description"

definition GetModuleFromValue :: "result \<Rightarrow> u32" where
  "GetModuleFromValue value = value AND NOT (push_bit 9 (NOT 0))"

definition GetDescriptionFromValue :: "result \<Rightarrow> u32" where
  "GetDescriptionFromValue value = drop_bit 9 value AND NOT (push_bit 13 (NOT 0))"

abbreviation ResultSuccess :: result where
  "ResultSuccess \<equiv> 0"

definition R_SUCCEEDED :: "result \<Rightarrow> bool" where
  "R_SUCCEEDED rc \<longleftrightarrow> rc = ResultSuccess"

definition R_FAILED :: "result \<Rightarrow> bool" where
  "R_FAILED rc \<longleftrightarrow> \<not> R_SUCCEEDED rc"

text \<open>A result type of \<open>R_DEFINE_ERROR_RANGE\<close>: its module and its first and last description.\<close>

datatype error_range = ErrorRange (range_module: u32) (range_start: u32) (range_end: u32)

definition Includes :: "error_range \<Rightarrow> result \<Rightarrow> bool" where
  "Includes r value \<longleftrightarrow>
     MakeValue (range_module r) (range_start r) \<le> value \<and>
     value \<le> MakeValue (range_module r) (range_end r)"

section \<open>Early returns\<close>

text \<open>
  An operation returns its result code, its output parameters and the new state.
  \<open>R_TRY m out k\<close> runs \<open>m\<close>; when it failed, the caller returns that code with its own
  output parameters as they stand (\<open>out\<close>), otherwise it goes on with \<open>k\<close>.
\<close>

type_synonym ('a, 's) outcome = "(result \<times> 'a \<times> 's) run"

definition R_TRY ::
  "('a, 's) outcome \<Rightarrow> 'b \<Rightarrow> ('a \<Rightarrow> 's \<Rightarrow> ('b, 's) outcome) \<Rightarrow> ('b, 's) outcome" where
  "R_TRY m out k =
     then_run m (\<lambda>(rc, a, s). if R_FAILED rc then Inr (rc, out, s) else k a s)"

text \<open>Code that runs when the scope is left, whatever the result (\<open>ON_SCOPE_EXIT\<close>).\<close>

definition ON_SCOPE_EXIT :: "('s \<Rightarrow> 's) \<Rightarrow> ('a, 's) outcome \<Rightarrow> ('a, 's) outcome" where
  "ON_SCOPE_EXIT f m = then_run m (\<lambda>(rc, a, s). Inr (rc, a, f s))"

text \<open>A guard that is cancelled on the success path (\<open>SCOPE_GUARD\<close>): it runs on failures only.\<close>

definition SCOPE_GUARD :: "('a \<Rightarrow> 's \<Rightarrow> 'a \<times> 's) \<Rightarrow> ('a, 's) outcome \<Rightarrow> ('a, 's) outcome" where
  "SCOPE_GUARD f m =
     then_run m (\<lambda>(rc, a, s). if R_FAILED rc then Inr (rc, f a s) else Inr (rc, a, s))"

section \<open>The album service's results\<close>

definition ResultAlbumError :: result where "ResultAlbumError = MakeValue 206 2"
definition ResultAlbumWorkMemoryError :: result where "ResultAlbumWorkMemoryError = MakeValue 206 3"
definition ResultAlbumUnsupportedVersion :: result where "ResultAlbumUnsupportedVersion = MakeValue 206 4"
definition ResultAlbumInvalidState :: result where "ResultAlbumInvalidState = MakeValue 206 7"
definition ResultAlbumOutOfRange :: result where "ResultAlbumOutOfRange = MakeValue 206 8"
definition ResultAlbumInvalidFileId :: result where "ResultAlbumInvalidFileId = MakeValue 206 10"
definition ResultAlbumInvalidApplicationId :: result where "ResultAlbumInvalidApplicationId = MakeValue 206 11"
definition ResultAlbumInvalidStorage :: result where "ResultAlbumInvalidStorage = MakeValue 206 13"
definition ResultAlbumInvalidFileContents :: result where "ResultAlbumInvalidFileContents = MakeValue 206 14"
definition ResultAlbumStorageUnavailable :: result where "ResultAlbumStorageUnavailable = MakeValue 206 20"
definition ResultAlbumIsNotMounted :: result where "ResultAlbumIsNotMounted = MakeValue 206 21"
definition ResultAlbumIsFull :: result where "ResultAlbumIsFull = MakeValue 206 22"
definition ResultAlbumFileNotFound :: result where "ResultAlbumFileNotFound = MakeValue 206 23"
definition ResultAlbumInvalidFileData :: result where "ResultAlbumInvalidFileData = MakeValue 206 24"
definition ResultAlbumUnexpected :: result where "ResultAlbumUnexpected = MakeValue 206 28"
definition ResultAlbumPathNotFound :: result where "ResultAlbumPathNotFound = MakeValue 206 29"
definition ResultAlbumReadBufferShortage :: result where "ResultAlbumReadBufferShortage = MakeValue 206 30"
definition ResultAlbumPathUnavailable :: result where "ResultAlbumPathUnavailable = MakeValue 206 71"
definition ResultAlbumUnknown72 :: result where "ResultAlbumUnknown72 = MakeValue 206 72"
definition ResultAlbumUnknown73 :: result where "ResultAlbumUnknown73 = MakeValue 206 73"
definition ResultAlbumDestinationAccessCorrupted :: result where "ResultAlbumDestinationAccessCorrupted = MakeValue 206 96"
definition ResultControlResourceLimit :: result where "ResultControlResourceLimit = MakeValue 206 820"
definition ResultControlAlreadyOpen :: result where "ResultControlAlreadyOpen = MakeValue 206 821"
definition ResultControlNotOpened :: result where "ResultControlNotOpened = MakeValue 206 822"
definition ResultNotSupported :: result where "ResultNotSupported = MakeValue 206 1023"
definition ResultInternalError :: result where "ResultInternalError = MakeValue 206 1024"

definition ResultInternalFileDataVerificationError :: result where
  "ResultInternalFileDataVerificationError = MakeValue 206 1300"
definition ResultInternalFileDataVerificationEmptyFileData :: result where
  "ResultInternalFileDataVerificationEmptyFileData = MakeValue 206 1301"
definition ResultInternalFileDataVerificationExifExtractionFailed :: result where
  "ResultInternalFileDataVerificationExifExtractionFailed = MakeValue 206 1302"
definition ResultInternalFileDataVerificationExifAnalyzationFailed :: result where
  "ResultInternalFileDataVerificationExifAnalyzationFailed = MakeValue 206 1303"
definition ResultInternalFileDataVerificationDateTimeExtractionFailed :: result where
  "ResultInternalFileDataVerificationDateTimeExtractionFailed = MakeValue 206 1304"
definition ResultInternalFileDataVerificationInvalidDateTimeLength :: result where
  "ResultInternalFileDataVerificationInvalidDateTimeLength = MakeValue 206 1305"
definition ResultInternalFileDataVerificationInconsistentDateTime :: result where
  "ResultInternalFileDataVerificationInconsistentDateTime = MakeValue 206 1306"
definition ResultInternalFileDataVerificationMakerNoteExtractionFailed :: result where
  "ResultInternalFileDataVerificationMakerNoteExtractionFailed = MakeValue 206 1307"
definition ResultInternalFileDataVerificationInconsistentApplicationId :: result where
  "ResultInternalFileDataVerificationInconsistentApplicationId = MakeValue 206 1308"
definition ResultInternalFileDataVerificationInconsistentSignature :: result where
  "ResultInternalFileDataVerificationInconsistentSignature = MakeValue 206 1309"
definition ResultInternalFileDataVerificationInconsistentOrientation :: result where
  "ResultInternalFileDataVerificationInconsistentOrientation = MakeValue 206 1312"
definition ResultInternalAlbumLimitationFileCountLimit :: result where
  "ResultInternalAlbumLimitationFileCountLimit = MakeValue 206 1401"
definition ResultInternalSignatureExifExtractionFailed :: result where
  "ResultInternalSignatureExifExtractionFailed = MakeValue 206 1501"
definition ResultInternalSignatureMakerNoteExtractionFailed :: result where
  "ResultInternalSignatureMakerNoteExtractionFailed = MakeValue 206 1502"
definition ResultInternalAlbumTemporaryFileCountLimit :: result where
  "ResultInternalAlbumTemporaryFileCountLimit = MakeValue 206 1901"
definition ResultInternalAlbumTemporaryFileCreateError :: result where
  "ResultInternalAlbumTemporaryFileCreateError = MakeValue 206 1902"
definition ResultInternalAlbumTemporaryFileCreateRetryCountLimit :: result where
  "ResultInternalAlbumTemporaryFileCreateRetryCountLimit = MakeValue 206 1903"
definition ResultInternalAlbumTemporaryFileSetFileSizeError :: result where
  "ResultInternalAlbumTemporaryFileSetFileSizeError = MakeValue 206 1906"
definition ResultInternalAlbumTemporaryFileReadFileError :: result where
  "ResultInternalAlbumTemporaryFileReadFileError = MakeValue 206 1907"
definition ResultInternalAlbumTemporaryFileWriteFileError :: result where
  "ResultInternalAlbumTemporaryFileWriteFileError = MakeValue 206 1908"

text \<open>The ranges that \<open>R_CATCH\<close> and \<open>R_CONVERT\<close> test in the program.\<close>

definition AlbumPathUnavailable_range :: error_range where
  "AlbumPathUnavailable_range = ErrorRange 206 71 73"
definition AlbumUnexpected_range :: error_range where
  "AlbumUnexpected_range = ErrorRange 206 28 28"
definition fs_PathAlreadyExists :: error_range where "fs_PathAlreadyExists = ErrorRange 2 2 2"
definition fs_MountNameAlreadyExists :: error_range where
  "fs_MountNameAlreadyExists = ErrorRange 2 60 60"
definition fs_SdCardAccessFailed :: error_range where
  "fs_SdCardAccessFailed = ErrorRange 2 2000 2499"
definition fs_AllocationFailure :: error_range where
  "fs_AllocationFailure = ErrorRange 2 3200 3499"

section \<open>Facts\<close>

named_theorems result_values "every result code as a number"

lemma result_values_album [result_values]:
  "ResultAlbumError = 1230"
  "ResultAlbumWorkMemoryError = 1742"
  "ResultAlbumUnsupportedVersion = 2254"
  "ResultAlbumInvalidState = 3790"
  "ResultAlbumOutOfRange = 4302"
  "ResultAlbumInvalidFileId = 5326"
  "ResultAlbumInvalidApplicationId = 5838"
  "ResultAlbumInvalidStorage = 6862"
  "ResultAlbumInvalidFileContents = 7374"
  "ResultAlbumStorageUnavailable = 10446"
  "ResultAlbumIsNotMounted = 10958"
  "ResultAlbumIsFull = 11470"
  "ResultAlbumFileNotFound = 11982"
  "ResultAlbumInvalidFileData = 12494"
  "ResultAlbumUnexpected = 14542"
  "ResultAlbumPathNotFound = 15054"
  "ResultAlbumReadBufferShortage = 15566"
  "ResultAlbumPathUnavailable = 36558"
  "ResultAlbumUnknown72 = 37070"
  "ResultAlbumUnknown73 = 37582"
  "ResultAlbumDestinationAccessCorrupted = 49358"
  "ResultControlResourceLimit = 420046"
  "ResultControlAlreadyOpen = 420558"
  "ResultControlNotOpened = 421070"
  "ResultNotSupported = 523982"
  "ResultInternalError = 524494"
  "ResultInternalFileDataVerificationError = 665806"
  "ResultInternalFileDataVerificationEmptyFileData = 666318"
  "ResultInternalFileDataVerificationExifExtractionFailed = 666830"
  "ResultInternalFileDataVerificationExifAnalyzationFailed = 667342"
  "ResultInternalFileDataVerificationDateTimeExtractionFailed = 667854"
  "ResultInternalFileDataVerificationInvalidDateTimeLength = 668366"
  "ResultInternalFileDataVerificationInconsistentDateTime = 668878"
  "ResultInternalFileDataVerificationMakerNoteExtractionFailed = 669390"
  "ResultInternalFileDataVerificationInconsistentApplicationId = 669902"
  "ResultInternalFileDataVerificationInconsistentSignature = 670414"
  "ResultInternalFileDataVerificationInconsistentOrientation = 671950"
  "ResultInternalAlbumLimitationFileCountLimit = 717518"
  "ResultInternalSignatureExifExtractionFailed = 768718"
  "ResultInternalSignatureMakerNoteExtractionFailed = 769230"
  "ResultInternalAlbumTemporaryFileCountLimit = 973518"
  "ResultInternalAlbumTemporaryFileCreateError = 974030"
  "ResultInternalAlbumTemporaryFileCreateRetryCountLimit = 974542"
  "ResultInternalAlbumTemporaryFileSetFileSizeError = 976078"
  "ResultInternalAlbumTemporaryFileReadFileError = 976590"
  "ResultInternalAlbumTemporaryFileWriteFileError = 977102"
  by (simp_all add: MakeValue_def ResultAlbumError_def ResultAlbumWorkMemoryError_def ResultAlbumUnsupportedVersion_def ResultAlbumInvalidState_def ResultAlbumOutOfRange_def ResultAlbumInvalidFileId_def ResultAlbumInvalidApplicationId_def ResultAlbumInvalidStorage_def ResultAlbumInvalidFileContents_def ResultAlbumStorageUnavailable_def ResultAlbumIsNotMounted_def ResultAlbumIsFull_def ResultAlbumFileNotFound_def ResultAlbumInvalidFileData_def ResultAlbumUnexpected_def ResultAlbumPathNotFound_def ResultAlbumReadBufferShortage_def ResultAlbumPathUnavailable_def ResultAlbumUnknown72_def ResultAlbumUnknown73_def ResultAlbumDestinationAccessCorrupted_def ResultControlResourceLimit_def ResultControlAlreadyOpen_def ResultControlNotOpened_def ResultNotSupported_def ResultInternalError_def ResultInternalFileDataVerificationError_def ResultInternalFileDataVerificationEmptyFileData_def ResultInternalFileDataVerificationExifExtractionFailed_def ResultInternalFileDataVerificationExifAnalyzationFailed_def ResultInternalFileDataVerificationDateTimeExtractionFailed_def ResultInternalFileDataVerificationInvalidDateTimeLength_def ResultInternalFileDataVerificationInconsistentDateTime_def ResultInternalFileDataVerificationMakerNoteExtractionFailed_def ResultInternalFileDataVerificationInconsistentApplicationId_def ResultInternalFileDataVerificationInconsistentSignature_def ResultInternalFileDataVerificationInconsistentOrientation_def ResultInternalAlbumLimitationFileCountLimit_def ResultInternalSignatureExifExtractionFailed_def ResultInternalSignatureMakerNoteExtractionFailed_def ResultInternalAlbumTemporaryFileCountLimit_def ResultInternalAlbumTemporaryFileCreateError_def ResultInternalAlbumTemporaryFileCreateRetryCountLimit_def ResultInternalAlbumTemporaryFileSetFileSizeError_def ResultInternalAlbumTemporaryFileReadFileError_def ResultInternalAlbumTemporaryFileWriteFileError_def)

lemma R_simps [simp, run_simps]: "R_SUCCEEDED 0" "\<not> R_FAILED 0"
  by (simp_all add: R_SUCCEEDED_def R_FAILED_def)

lemma R_FAILED_iff: "R_FAILED rc \<longleftrightarrow> rc \<noteq> 0"
  by (simp add: R_FAILED_def R_SUCCEEDED_def)

lemma R_TRY_simps [simp, run_simps]:
  "R_TRY (Inl f) b k = Inl f"
  "R_TRY (Inr (0, a, s)) b k = k a s"
  by (simp_all add: R_TRY_def)

lemma R_TRY_fail: "rc \<noteq> 0 \<Longrightarrow> R_TRY (Inr (rc, a, s)) b k = Inr (rc, b, s)"
  by (simp add: R_TRY_def R_FAILED_iff)

lemma R_TRY_Inr: "R_TRY (Inr (rc, a, s)) b k = (if rc = 0 then k a s else Inr (rc, b, s))"
  by (simp add: R_TRY_def R_FAILED_iff)

lemma R_TRY_cases:
  assumes "R_TRY m b k = Inr (rc, c, t)"
  obtains (failed) a where "m = Inr (rc, a, t)" "rc \<noteq> 0" "c = b"
  | (went_on) a s where "m = Inr (0, a, s)" "k a s = Inr (rc, c, t)"
  using assms by (cases m) (auto simp: R_TRY_def R_FAILED_iff split: if_splits)

lemma MakeValue_unat:
  assumes "unat m < 512" and "unat d < 8192"
  shows "unat (MakeValue m d) = unat m + 512 * unat d"
proof -
  have "m AND push_bit 9 d = 0"
    using bit_below [of m 9] assms(1) by (intro bit_word_eqI) (fastforce simp: bit_simps)
  then have "MakeValue m d = m + push_bit 9 d"
    using word_plus_and_or [of m "push_bit 9 d"] by (simp add: MakeValue_def)
  also have "unat \<dots> = unat m + 512 * unat d"
    using assms by (simp add: push_bit_eq_mult unat_word_ariths)
  finally show ?thesis .
qed

lemma GetModule_MakeValue: "unat m < 512 \<Longrightarrow> GetModuleFromValue (MakeValue m d) = m"
  using bit_below [of m 9]
  by (intro bit_word_eqI) (fastforce simp: GetModuleFromValue_def MakeValue_def bit_simps)

lemma GetDescription_MakeValue:
  assumes "unat m < 512" and "unat d < 8192"
  shows "GetDescriptionFromValue (MakeValue m d) = d"
proof (intro bit_word_eqI)
  fix n
  assume "n < LENGTH(32)"
  moreover have "\<not> bit m (9 + n)" using bit_below [of m 9 "9 + n"] assms(1) by auto
  moreover have "bit d n \<Longrightarrow> n < 13" using bit_below [of d 13 n] assms(2) by auto
  ultimately show "bit (GetDescriptionFromValue (MakeValue m d)) n = bit d n"
    by (auto simp: GetDescriptionFromValue_def MakeValue_def bit_simps)
qed

text \<open>
  What a range test decides: the description is compared first, the module only breaks ties at the
  two ends. A code of another module whose description lies strictly inside the range is included.
\<close>

lemma Includes_MakeValue:
  assumes "unat m < 512" "unat m' < 512" "unat s < 8192" "unat e < 8192" "unat d < 8192"
  shows "Includes (ErrorRange m s e) (MakeValue m' d) \<longleftrightarrow>
    (unat s < unat d \<or> unat s = unat d \<and> unat m \<le> unat m') \<and>
    (unat d < unat e \<or> unat d = unat e \<and> unat m' \<le> unat m)"
proof -
  have "Includes (ErrorRange m s e) (MakeValue m' d) \<longleftrightarrow>
      unat m + 512 * unat s \<le> unat m' + 512 * unat d \<and>
      unat m' + 512 * unat d \<le> unat m + 512 * unat e"
    using assms by (simp add: Includes_def word_le_nat_alt MakeValue_unat)
  then show ?thesis using assms(1,2) by auto
qed

text \<open>A result code built from a module and a description gives both back, and within one
  module the range test of \<open>R_CATCH\<close> is exactly the test of the description against both ends.\<close>

theorem result_code_roundtrip:
  "unat m < 512 \<Longrightarrow> unat d < 8192 \<Longrightarrow> unat s < 8192 \<Longrightarrow> unat e < 8192 \<Longrightarrow>
   GetModuleFromValue (MakeValue m d) = m \<and> GetDescriptionFromValue (MakeValue m d) = d \<and>
   (Includes (ErrorRange m s e) (MakeValue m d) \<longleftrightarrow> s \<le> d \<and> d \<le> e)"
  by (auto simp: GetModule_MakeValue GetDescription_MakeValue Includes_MakeValue word_le_nat_alt)

theorem result_code_roundtrip_witness:
  "GetModuleFromValue (MakeValue 206 71) = 206 \<and> GetDescriptionFromValue (MakeValue 206 71) = 71 \<and>
   Includes (ErrorRange 206 71 73) (MakeValue 206 71)"
  using result_code_roundtrip [of 206 71 71 73] by simp

end
