(* ===== verification/Content.thy ===== *)
theory Content
  imports Results
begin

text \<open>
  Content types and storages (\<open>capsrv_content_type.hpp\<close>, \<open>capsrv_storage.hpp\<close>). Both are
  \<open>enum class : u8\<close> that arrive from other processes as plain bytes, and the code checks them, so
  a value is any byte and the enumerators are its constants.
\<close>

section \<open>Content types\<close>

type_synonym ContentType = u8

abbreviation Screenshot :: ContentType where "Screenshot \<equiv> 0"
abbreviation Movie :: ContentType where "Movie \<equiv> 1"
abbreviation ExtraScreenshot :: ContentType where "ExtraScreenshot \<equiv> 2"
abbreviation ExtraMovie :: ContentType where "ExtraMovie \<equiv> 3"

definition ContentTypeFlag_ScreenShot :: u8 where "ContentTypeFlag_ScreenShot = push_bit 0 1"
definition ContentTypeFlag_Movie :: u8 where "ContentTypeFlag_Movie = push_bit 1 1"
definition ContentTypeFlag_ExtraScreenShot :: u8 where "ContentTypeFlag_ExtraScreenShot = push_bit 2 1"
definition ContentTypeFlag_ExtraMovie :: u8 where "ContentTypeFlag_ExtraMovie = push_bit 3 1"
definition ContentTypeFlag_Normal :: u8 where
  "ContentTypeFlag_Normal = ContentTypeFlag_ScreenShot OR ContentTypeFlag_Movie"
definition ContentTypeFlag_Extra :: u8 where
  "ContentTypeFlag_Extra = ContentTypeFlag_ExtraScreenShot OR ContentTypeFlag_ExtraMovie"

text \<open>The null pointer of the default branch is \<open>None\<close>.\<close>

definition GetFileExtension :: "ContentType \<Rightarrow> string option" where
  "GetFileExtension type =
     (if type = Screenshot \<or> type = ExtraScreenshot then Some ''.jpg''
      else if type = Movie \<or> type = ExtraMovie then Some ''.mp4''
      else None)"

definition ContentTypeValid :: "ContentType \<Rightarrow> bool" where
  "ContentTypeValid type \<longleftrightarrow>
     type = Screenshot \<or> type = Movie \<or> type = ExtraScreenshot \<or> type = ExtraMovie"

definition IsScreenShot :: "ContentType \<Rightarrow> bool" where
  "IsScreenShot type \<longleftrightarrow> type = Screenshot \<or> type = ExtraScreenshot"

definition IsMovie :: "ContentType \<Rightarrow> bool" where
  "IsMovie type \<longleftrightarrow> \<not> IsScreenShot type"

definition IsNormal :: "ContentType \<Rightarrow> bool" where
  "IsNormal type \<longleftrightarrow> type = Screenshot \<or> type = Movie"

definition IsExtra :: "ContentType \<Rightarrow> bool" where
  "IsExtra type \<longleftrightarrow> \<not> IsNormal type"

text \<open>The test \<open>(1 << type) & flags\<close> of the listing callbacks; the shift is done on \<open>int\<close>.\<close>

definition type_selected :: "ContentType \<Rightarrow> u8 \<Rightarrow> bool" where
  "type_selected type flags \<longleftrightarrow> push_bit (unat type) (1 :: 32 word) AND ucast flags \<noteq> 0"

section \<open>Storages\<close>

type_synonym StorageId = u8

abbreviation Nand :: StorageId where "Nand \<equiv> 0"
abbreviation Sd :: StorageId where "Sd \<equiv> 1"

text \<open>\<open>enum class MountState\<close>: internal to the manager, so only its three values occur.\<close>

datatype MountState = unmounted | available | mounted

definition MountPoints :: "string list" where
  "MountPoints = [''NA:/'', ''SD:/'']"

definition MountNames :: "string list" where
  "MountNames = [''NA'', ''SD'']"

definition StorageValid :: "StorageId \<Rightarrow> bool" where
  "StorageValid storage \<longleftrightarrow> storage = Nand \<or> storage = Sd"

definition VerifyStorageId :: "StorageId \<Rightarrow> result" where
  "VerifyStorageId storage =
     (if StorageValid storage then ResultSuccess else ResultAlbumInvalidStorage)"

section \<open>Facts\<close>

lemma VerifyStorageId_ok [simp]: "VerifyStorageId s = 0 \<longleftrightarrow> StorageValid s"
  by (simp add: VerifyStorageId_def result_values)

lemma StorageValid_cases: "StorageValid s \<Longrightarrow> (s = Nand \<Longrightarrow> P) \<Longrightarrow> (s = Sd \<Longrightarrow> P) \<Longrightarrow> P"
  by (auto simp: StorageValid_def)

lemma StorageValid_unat: "StorageValid s \<longleftrightarrow> unat s < 2"
proof -
  have "unat s < 2 \<longleftrightarrow> unat s = unat Nand \<or> unat s = unat Sd" by auto
  then show ?thesis unfolding StorageValid_def word_unat_eq_iff by simp
qed

lemma ContentTypeValid_unat: "ContentTypeValid t \<longleftrightarrow> unat t < 4"
proof -
  have "unat t < 4 \<longleftrightarrow> unat t = unat Screenshot \<or> unat t = unat Movie \<or>
      unat t = unat ExtraScreenshot \<or> unat t = unat ExtraMovie"
    by auto
  then show ?thesis unfolding ContentTypeValid_def word_unat_eq_iff by simp
qed

lemma GetFileExtension_Some: "GetFileExtension t \<noteq> None \<longleftrightarrow> ContentTypeValid t"
  by (auto simp: GetFileExtension_def ContentTypeValid_def)

text \<open>A content type is selected by a mask exactly when its own bit is set in it.\<close>

lemma type_selected_bit: "type_selected t flags \<longleftrightarrow> bit flags (unat t)"
proof -
  have *: "bit (push_bit (unat t) (1 :: 32 word) AND ucast flags) n \<longleftrightarrow>
      n = unat t \<and> bit flags n" for n
    using bit_imp_le_length [of flags n] by (auto simp: bit_simps)
  have "type_selected t flags \<longleftrightarrow> (\<exists>n. bit (push_bit (unat t) (1 :: 32 word) AND ucast flags) n)"
    unfolding type_selected_def by (metis bit_0_eq bit_eqI bot_apply bot_bool_def)
  then show ?thesis unfolding * by blast
qed

end
