(* ===== verification/Platform.thy ===== *)
theory Platform
  imports Content
begin

text \<open>
  The services the program calls and whose code is not part of the model: the file system, time,
  system settings, random numbers (libnx and the Atmosphere libraries). They are one record of
  functions over an abstract world \<open>'w\<close>; every operation that uses them takes the record as an
  argument, so a theorem holds for every such platform unless it names a hypothesis about it.

  Results come first in every tuple, as return values do; output parameters follow. \<open>s64\<close>
  offsets and sizes are \<open>int\<close>.
\<close>

text \<open>\<open>fs::DirectoryEntry\<close>, as far as the program reads it.\<close>

record dir_entry =
  entry_name :: string
  entry_file_size :: int

type_synonym handle = nat

record 'w platform =
  hos_version :: nat
  fwdbg_IsQuest :: bool
  fwdbg_IsDebugModeEnabled :: bool
  fwdbg_GetSettingsItemValue :: "nat \<Rightarrow> string \<Rightarrow> string \<Rightarrow> nat \<times> u8 list"
  setsysGetPrimaryAlbumStorage :: "'w \<Rightarrow> result \<times> u32 \<times> 'w"
  timeGetCurrentTime :: "'w \<Rightarrow> result \<times> u64 \<times> 'w"
  timeToCalendarTimeWithMyRule :: "u64 \<Rightarrow> 'w \<Rightarrow> result \<times> u8 list \<times> 'w"
  GenerateRandomBytes :: "nat \<Rightarrow> 'w \<Rightarrow> u8 list \<times> 'w"
  fs_MountImageDirectory :: "string \<Rightarrow> StorageId \<Rightarrow> 'w \<Rightarrow> result \<times> 'w"
  fs_CreateSystemSaveData :: "'w \<Rightarrow> result \<times> 'w"
  fs_MountSystemSaveData :: "string \<Rightarrow> 'w \<Rightarrow> result \<times> 'w"
  fs_Unmount :: "string \<Rightarrow> 'w \<Rightarrow> 'w"
  fs_OpenDirectory :: "string \<Rightarrow> bool \<Rightarrow> 'w \<Rightarrow> result \<times> handle \<times> 'w"
  fs_ReadDirectory :: "handle \<Rightarrow> 'w \<Rightarrow> result \<times> dir_entry option \<times> 'w"
  fs_CloseDirectory :: "handle \<Rightarrow> 'w \<Rightarrow> 'w"
  fs_EnsureParentDirectory :: "string \<Rightarrow> 'w \<Rightarrow> result \<times> 'w"
  fs_CreateFile :: "string \<Rightarrow> int \<Rightarrow> 'w \<Rightarrow> result \<times> 'w"
  fs_OpenFile :: "string \<Rightarrow> nat \<Rightarrow> 'w \<Rightarrow> result \<times> handle \<times> 'w"
  fs_CloseFile :: "handle \<Rightarrow> 'w \<Rightarrow> 'w"
  fs_DeleteFile :: "string \<Rightarrow> 'w \<Rightarrow> result \<times> 'w"
  fs_GetFileSize :: "handle \<Rightarrow> 'w \<Rightarrow> result \<times> int \<times> 'w"
  fs_SetFileSize :: "handle \<Rightarrow> int \<Rightarrow> 'w \<Rightarrow> result \<times> 'w"
  fs_ReadFile :: "handle \<Rightarrow> int \<Rightarrow> nat \<Rightarrow> 'w \<Rightarrow> result \<times> u8 list \<times> 'w"
  fs_WriteFile :: "handle \<Rightarrow> int \<Rightarrow> u8 list \<Rightarrow> 'w \<Rightarrow> result \<times> 'w"
  fs_FlushFile :: "handle \<Rightarrow> 'w \<Rightarrow> result \<times> 'w"

text \<open>
  \<open>fs_OpenDirectory path True\<close> opens for directories, \<open>False\<close> for files;
  \<open>fs_ReadDirectory\<close> reads one entry, \<open>None\<close> being a count of zero; \<open>fs_ReadFile\<close>
  returns the bytes it read, whose number is the read size; open modes are the bits of
  \<open>fs::OpenMode\<close>.
\<close>

definition OpenMode_Read :: nat where "OpenMode_Read = 1"
definition OpenMode_Write :: nat where "OpenMode_Write = 2"
definition OpenMode_AllowAppend :: nat where "OpenMode_AllowAppend = 4"
definition OpenMode_All :: nat where "OpenMode_All = 7"

text \<open>Firmware versions are compared as packed (major, minor, micro) triples.\<close>

definition make_hos_version :: "nat \<Rightarrow> nat \<Rightarrow> nat \<Rightarrow> nat" where
  "make_hos_version major minor micro = major * 65536 + minor * 256 + micro"

definition hosversionBefore :: "'w platform \<Rightarrow> nat \<Rightarrow> nat \<Rightarrow> nat \<Rightarrow> bool" where
  "hosversionBefore p major minor micro \<longleftrightarrow> hos_version p < make_hos_version major minor micro"

definition hosversionAtLeast :: "'w platform \<Rightarrow> nat \<Rightarrow> nat \<Rightarrow> nat \<Rightarrow> bool" where
  "hosversionAtLeast p major minor micro \<longleftrightarrow> make_hos_version major minor micro \<le> hos_version p"

section \<open>The cached environment\<close>

text \<open>\<open>capsrv_environment.cpp\<close>: two flags read once at start.\<close>

record environment =
  is_quest :: bool
  is_debug :: bool

definition initial_environment :: environment where
  "initial_environment = \<lparr>is_quest = False, is_debug = False\<rparr>"

definition LoadEnvironment :: "'w platform \<Rightarrow> environment \<Rightarrow> environment" where
  "LoadEnvironment p e =
     e\<lparr>is_quest := fwdbg_IsQuest p, is_debug := fwdbg_IsDebugModeEnabled p\<rparr>"

definition IsQuest :: "environment \<Rightarrow> bool" where
  "IsQuest e = is_quest e"

definition IsDebug :: "environment \<Rightarrow> bool" where
  "IsDebug e = is_debug e"

section \<open>A sample platform\<close>

text \<open>
  A concrete platform for the witnesses. Its world is the next handle; every file exists and holds
  \<open>sample_file\<close> whatever is written to it; every directory is empty; the clock stands still.
\<close>

definition sample_file :: "u8 list" where
  "sample_file = replicate 64 7"

definition sample_platform :: "nat \<Rightarrow> nat platform" where
  "sample_platform version = \<lparr>hos_version = version, fwdbg_IsQuest = False,
     fwdbg_IsDebugModeEnabled = False, fwdbg_GetSettingsItemValue = (\<lambda>_ _ _. (0, [])),
     setsysGetPrimaryAlbumStorage = (\<lambda>w. (0, 0, w)), timeGetCurrentTime = (\<lambda>w. (0, 1592224205, w)),
     timeToCalendarTimeWithMyRule = (\<lambda>_ w. (0, [0xE4, 7, 6, 15, 12, 30, 5, 0], w)),
     GenerateRandomBytes = (\<lambda>n w. (replicate n 0x2A, w)),
     fs_MountImageDirectory = (\<lambda>_ _ w. (0, w)), fs_CreateSystemSaveData = (\<lambda>w. (0, w)),
     fs_MountSystemSaveData = (\<lambda>_ w. (0, w)), fs_Unmount = (\<lambda>_ w. w),
     fs_OpenDirectory = (\<lambda>_ _ w. (0, w, Suc w)), fs_ReadDirectory = (\<lambda>_ w. (0, None, w)),
     fs_CloseDirectory = (\<lambda>_ w. w), fs_EnsureParentDirectory = (\<lambda>_ w. (0, w)),
     fs_CreateFile = (\<lambda>_ _ w. (0, w)), fs_OpenFile = (\<lambda>_ _ w. (0, w, Suc w)),
     fs_CloseFile = (\<lambda>_ w. w), fs_DeleteFile = (\<lambda>_ w. (0, w)),
     fs_GetFileSize = (\<lambda>_ w. (0, 64, w)), fs_SetFileSize = (\<lambda>_ _ w. (0, w)),
     fs_ReadFile = (\<lambda>_ off n w. (0, take n (drop (nat off) sample_file), w)),
     fs_WriteFile = (\<lambda>_ _ _ w. (0, w)), fs_FlushFile = (\<lambda>_ w. (0, w))\<rparr>"

end
