(* ===== verification/Settings.thy ===== *)
theory Settings
  imports Platform
begin

text \<open>
  \<open>capsrv_album_settings.cpp\<close>: which content types are supported, the verification switches, the
  limits on file counts and sizes, and mounting and unmounting of a storage.
\<close>

section \<open>State\<close>

record AlbumSettings =
  defaultDirectory :: bool
  debugMode :: bool
  screenshotSupport :: bool
  movieSupport :: bool
  verifyScreenShotFiledata :: bool
  verifyMovieFileSignature :: bool
  verifyMovieFileHash :: bool
  unused :: u32
  nandScreenshotMaxCount :: u64
  nandMovieMaxCount :: u64
  sdScreenshotMaxCount :: u64
  sdMovieMaxCount :: u64
  custom_directory_path :: "string option"

text \<open>The settings are a global object: their storage is all zero before the constructor runs.\<close>

definition zero_AlbumSettings :: AlbumSettings where
  "zero_AlbumSettings = \<lparr>defaultDirectory = False, debugMode = False, screenshotSupport = False,
     movieSupport = False, verifyScreenShotFiledata = False, verifyMovieFileSignature = False,
     verifyMovieFileHash = False, unused = 0, nandScreenshotMaxCount = 0, nandMovieMaxCount = 0,
     sdScreenshotMaxCount = 0, sdMovieMaxCount = 0, custom_directory_path = None\<rparr>"

definition AlbumSettings_ctor :: "AlbumSettings \<Rightarrow> AlbumSettings" where
  "AlbumSettings_ctor s = s\<lparr>defaultDirectory := True, debugMode := False,
     verifyScreenShotFiledata := True, verifyMovieFileSignature := True,
     verifyMovieFileHash := True, unused := 0, nandScreenshotMaxCount := 0,
     nandMovieMaxCount := 0, sdScreenshotMaxCount := 0, sdMovieMaxCount := 0\<rparr>"

text \<open>
  Reading a boolean item: the destination starts as \<open>false\<close>; the switch is on when the item
  is missing or the byte written is not zero.
\<close>

definition read_switch :: "'w platform \<Rightarrow> string \<Rightarrow> bool" where
  "read_switch p key =
     (let (settings_value_length, data) = fwdbg_GetSettingsItemValue p 1 ''capsrv'' key;
          temp = (case data of [] \<Rightarrow> False | b # _ \<Rightarrow> b \<noteq> 0)
      in settings_value_length = 0 \<or> temp)"

definition Initialize_settings :: "'w platform \<Rightarrow> AlbumSettings \<Rightarrow> AlbumSettings" where
  "Initialize_settings p s0 =
     (let s = s0\<lparr>defaultDirectory := \<not> debugMode s0\<rparr>;
          s = s\<lparr>debugMode := fwdbg_IsDebugModeEnabled p\<rparr>;
          s = s\<lparr>verifyScreenShotFiledata :=
                 read_switch p ''enable_album_screenshot_filedata_verification''\<rparr>
      in if hosversionBefore p 4 0 0
         then s\<lparr>screenshotSupport := True, movieSupport := False,
                verifyMovieFileSignature := False, verifyMovieFileHash := False,
                custom_directory_path := None\<rparr>
         else
      (let s = s\<lparr>screenshotSupport := read_switch p ''enable_album_screenshot_file_support''\<rparr>;
           s = s\<lparr>movieSupport := read_switch p ''enable_album_movie_file_support''\<rparr>;
           s = s\<lparr>verifyMovieFileSignature :=
                 read_switch p ''enable_album_movie_filesign_verification''\<rparr>;
           s = s\<lparr>verifyMovieFileHash :=
                 read_switch p ''enable_album_movie_filehash_verification''\<rparr>;
           s = s\<lparr>unused := 3, nandScreenshotMaxCount := 1000, nandMovieMaxCount := 100,
                 sdScreenshotMaxCount := 10000, sdMovieMaxCount := 1000\<rparr>
       in if hosversionBefore p 5 0 0
          then s\<lparr>custom_directory_path := None\<rparr>
          else
       (let (change_length, change_data) =
              fwdbg_GetSettingsItemValue p 1 ''capsrv'' ''enable_album_directory_change'';
            changeDirectory = (case change_data of [] \<Rightarrow> False | b # _ \<Rightarrow> b \<noteq> 0)
        in if change_length \<noteq> 0 \<and> changeDirectory
           then
        (let (path_length, path_data) =
               fwdbg_GetSettingsItemValue p 8 ''capsrv'' ''album_directory_path''
         in if path_length \<le> 0x100
            then s\<lparr>custom_directory_path := Some (map (\<lambda>b. char_of (unat b)) path_data)\<rparr>
            else s)
           else s)))"

definition Exit_settings :: "AlbumSettings \<Rightarrow> AlbumSettings" where
  "Exit_settings s = s\<lparr>custom_directory_path := None\<rparr>"

section \<open>Queries\<close>

definition SupportsScreenshot :: "AlbumSettings \<Rightarrow> bool" where
  "SupportsScreenshot s = screenshotSupport s"
definition SupportsMovie :: "AlbumSettings \<Rightarrow> bool" where
  "SupportsMovie s = movieSupport s"
definition SupportsExtraScreenshot :: "AlbumSettings \<Rightarrow> bool" where
  "SupportsExtraScreenshot s = True"
definition SupportsExtraMovie :: "AlbumSettings \<Rightarrow> bool" where
  "SupportsExtraMovie s = True"
definition AllowSaveExtraMoviesOnNand :: "AlbumSettings \<Rightarrow> bool" where
  "AllowSaveExtraMoviesOnNand s = False"

definition IsTypeSupported :: "AlbumSettings \<Rightarrow> ContentType \<Rightarrow> bool" where
  "IsTypeSupported s type =
     (if type = Screenshot then screenshotSupport s
      else if type = Movie then movieSupport s
      else if type = ExtraScreenshot then True
      else if type = ExtraMovie then True
      else False)"

definition GetVerifyScreenshotFiledata :: "AlbumSettings \<Rightarrow> bool" where
  "GetVerifyScreenshotFiledata s = verifyScreenShotFiledata s"

definition SetVerifyScreenshotFiledata :: "AlbumSettings \<Rightarrow> bool \<Rightarrow> bool \<times> AlbumSettings" where
  "SetVerifyScreenshotFiledata s new_value =
     (verifyScreenShotFiledata s,
      if \<not> defaultDirectory s then s\<lparr>verifyScreenShotFiledata := new_value\<rparr> else s)"

definition GetVerifyMovieSignature :: "AlbumSettings \<Rightarrow> bool" where
  "GetVerifyMovieSignature s = verifyMovieFileSignature s"
definition GetVerifyMovieHash :: "AlbumSettings \<Rightarrow> bool" where
  "GetVerifyMovieHash s = verifyMovieFileHash s"

definition GetFileMaxCount :: "AlbumSettings \<Rightarrow> StorageId \<Rightarrow> ContentType \<Rightarrow> u64" where
  "GetFileMaxCount s storage type =
     (if storage = Nand then
        (if type = Screenshot \<or> type = ExtraScreenshot then nandScreenshotMaxCount s
         else if type = Movie \<or> type = ExtraMovie then nandMovieMaxCount s
         else 0)
      else if storage = Sd then
        (if type = Screenshot \<or> type = ExtraScreenshot then sdScreenshotMaxCount s
         else if type = Movie \<or> type = ExtraMovie then sdMovieMaxCount s
         else 0)
      else 0)"

definition GetCustomImageDirectoryPath :: "AlbumSettings \<Rightarrow> string option" where
  "GetCustomImageDirectoryPath s =
     (if defaultDirectory s then None else custom_directory_path s)"

definition MaxSizeArray :: "int list" where
  "MaxSizeArray = [0x7D000, 0x80000000, 0x7D000, 0x80000000]"

text \<open>The index is the content type; past the end of the array the read is out of bounds.\<close>

definition GetAllowedFileSize :: "ContentType \<Rightarrow> AlbumSettings \<Rightarrow> int run" where
  "GetAllowedFileSize type settings =
     (if IsTypeSupported settings type
      then (if unat type < length MaxSizeArray then Inr (MaxSizeArray ! unat type)
            else Inl OutOfBounds)
      else Inr 0)"

definition VerifyContentType :: "ContentType \<Rightarrow> AlbumSettings \<Rightarrow> result" where
  "VerifyContentType type settings =
     (if IsTypeSupported settings type then ResultSuccess else ResultAlbumInvalidFileContents)"

section \<open>Mounting\<close>

text \<open>
  The branch for a custom directory starts with \<open>AMS_ABORT\<close>, so the code after it is never
  reached.
\<close>

definition MountAlbum :: "'w platform \<Rightarrow> AlbumSettings \<Rightarrow> StorageId \<Rightarrow> 'w \<Rightarrow> (unit, 'w) outcome" where
  "MountAlbum p settings storage_id w =
     (let cust_path = GetCustomImageDirectoryPath settings
      in if storage_id = Sd \<and> cust_path \<noteq> None then Inl Abort
         else if R_FAILED (VerifyStorageId storage_id)
         then Inr (VerifyStorageId storage_id, (), w)
         else
      (let (rc, w) = fs_MountImageDirectory p (MountNames ! unat storage_id) storage_id w
       in if R_FAILED rc then
            (if Includes fs_MountNameAlreadyExists rc \<or> Includes fs_AllocationFailure rc
             then Inl Abort
             else if Includes fs_SdCardAccessFailed rc
             then Inr (ResultAlbumStorageUnavailable, (), w)
             else if Includes fs_PathAlreadyExists rc
             then Inr (ResultAlbumPathUnavailable, (), w)
             else Inr (ResultAlbumError, (), w))
          else Inr (ResultSuccess, (), w)))"

definition UnmountAlbum :: "'w platform \<Rightarrow> AlbumSettings \<Rightarrow> StorageId \<Rightarrow> 'w \<Rightarrow> (unit, 'w) outcome" where
  "UnmountAlbum p settings storage_id w =
     (let cust_path = GetCustomImageDirectoryPath settings
      in if storage_id = Sd \<and> cust_path \<noteq> None
         then Inr (ResultSuccess, (), fs_Unmount p ''SD'' w)
         else if R_FAILED (VerifyStorageId storage_id)
         then Inr (VerifyStorageId storage_id, (), w)
         else Inr (ResultSuccess, (), fs_Unmount p (MountNames ! unat storage_id) w))"

section \<open>Facts\<close>

named_theorems settings_defs "the settings queries unfolded"

lemmas settings_queries [settings_defs] =
  IsTypeSupported_def GetFileMaxCount_def GetCustomImageDirectoryPath_def VerifyContentType_def

lemma IsTypeSupported_valid: "IsTypeSupported s t \<Longrightarrow> ContentTypeValid t"
  by (auto simp: IsTypeSupported_def ContentTypeValid_def split: if_splits)

lemma IsTypeSupported_extra: "ContentTypeValid t \<Longrightarrow> IsExtra t \<Longrightarrow> IsTypeSupported s t"
  by (auto simp: IsTypeSupported_def ContentTypeValid_def IsExtra_def IsNormal_def)

lemma VerifyContentType_ok [simp]: "VerifyContentType t s = 0 \<longleftrightarrow> IsTypeSupported s t"
  by (simp add: VerifyContentType_def result_values)

lemma GetAllowedFileSize_eq:
  "GetAllowedFileSize t s =
     Inr (if \<not> IsTypeSupported s t then 0 else if IsMovie t then 0x80000000 else 0x7D000)"
proof (cases "IsTypeSupported s t")
  case True
  then have "t = Screenshot \<or> t = Movie \<or> t = ExtraScreenshot \<or> t = ExtraMovie"
    using IsTypeSupported_valid ContentTypeValid_def by blast
  then show ?thesis
    by (elim disjE) (simp_all add: GetAllowedFileSize_def MaxSizeArray_def IsMovie_def IsScreenShot_def)
qed (simp add: GetAllowedFileSize_def)

lemma MountAlbum_results:
  assumes "MountAlbum p s sid w = Inr (rc, u, w')"
  shows "rc \<in> {0, ResultAlbumInvalidStorage, ResultAlbumStorageUnavailable,
    ResultAlbumPathUnavailable, ResultAlbumError}"
  using assms
  by (auto simp: MountAlbum_def Let_def R_FAILED_iff VerifyStorageId_def
      split: if_splits prod.splits)

lemma MountAlbum_default:
  assumes "GetCustomImageDirectoryPath s = None" and "StorageValid sid"
  shows "MountAlbum p s sid w =
    (let (rc, w') = fs_MountImageDirectory p (MountNames ! unat sid) sid w in
     if rc = 0 then Inr (0, (), w')
     else if Includes fs_MountNameAlreadyExists rc \<or> Includes fs_AllocationFailure rc then Inl Abort
     else if Includes fs_SdCardAccessFailed rc then Inr (ResultAlbumStorageUnavailable, (), w')
     else if Includes fs_PathAlreadyExists rc then Inr (ResultAlbumPathUnavailable, (), w')
     else Inr (ResultAlbumError, (), w'))"
  using assms by (simp add: MountAlbum_def Let_def R_FAILED_iff split: prod.splits)

lemma UnmountAlbum_valid:
  "StorageValid sid \<Longrightarrow>
     UnmountAlbum p s sid w = Inr (0, (), fs_Unmount p (MountNames ! unat sid) w)"
  by (auto simp: UnmountAlbum_def Let_def R_FAILED_iff MountNames_def StorageValid_def)

section \<open>Properties\<close>

abbreviation booted_settings :: "'w platform \<Rightarrow> AlbumSettings" where
  "booted_settings p \<equiv> Initialize_settings p (AlbumSettings_ctor zero_AlbumSettings)"

lemma booted_default_directory: "defaultDirectory (booted_settings p)"
  by (simp add: Initialize_settings_def AlbumSettings_ctor_def zero_AlbumSettings_def Let_def
      split: prod.splits)

text \<open>After start-up the album always uses its default directory, debug mode or not
  (\<open>Initialize\<close> negates the debug flag before it has read it): the custom path is never used
  and the screenshot verification switch can no longer be changed.\<close>

theorem settings_always_default_directory:
  "GetCustomImageDirectoryPath (booted_settings p) = None \<and>
   SetVerifyScreenshotFiledata (booted_settings p) v =
     (verifyScreenShotFiledata (booted_settings p), booted_settings p)"
  using booted_default_directory [of p]
  by (simp add: GetCustomImageDirectoryPath_def SetVerifyScreenshotFiledata_def)

text \<open>The file count limits after start-up: from firmware 4.0.0 on 1000 or 10000 screenshots
  and 100 or 1000 movies; before it every limit is zero.\<close>

theorem settings_file_limits:
  "ContentTypeValid t \<Longrightarrow> StorageValid storage \<Longrightarrow>
   GetFileMaxCount (booted_settings p) storage t =
     (if hosversionBefore p 4 0 0 then 0
      else if IsMovie t then (if storage = Nand then 100 else 1000)
      else (if storage = Nand then 1000 else 10000))"
  by (auto simp: Initialize_settings_def AlbumSettings_ctor_def zero_AlbumSettings_def Let_def
      GetFileMaxCount_def IsMovie_def IsScreenShot_def ContentTypeValid_def StorageValid_def
      split: prod.splits)

theorem settings_file_limits_witness:
  "GetFileMaxCount (booted_settings (sample_platform 0x40000)) Sd Movie = 1000"
  using settings_file_limits [of Movie Sd "sample_platform 0x40000"]
  by (simp add: ContentTypeValid_def StorageValid_def IsMovie_def IsScreenShot_def
      hosversionBefore_def make_hos_version_def sample_platform_def)

text \<open>The largest file a type may have is read inside the size table for every type, supported
  or not: 0x7D000 bytes for screenshots, 2 GiB for movies, 0 for unsupported types.\<close>

theorem allowed_file_size:
  "GetAllowedFileSize t s =
     Inr (if \<not> IsTypeSupported s t then 0 else if IsMovie t then 0x80000000 else 0x7D000)"
  by (rule GetAllowedFileSize_eq)

end
