(* ===== verification/Types.thy ===== *)
theory Types
  imports Settings
begin

text \<open>
  The values exchanged with clients (\<open>capsrv_types.hpp\<close>, first part of \<open>capsrv_types.cpp\<close>): date
  and time, file identifiers, album entries, with their byte layouts (the code compares them with
  \<open>memcmp\<close>, encrypts them as raw blocks and casts between them), the check of a file
  identifier and the parser of the date in a file name.
\<close>

section \<open>Data\<close>

record AlbumDateTime =
  year :: u16
  month :: u8
  day :: u8
  hour :: u8
  minute :: u8
  second :: u8
  dt_id :: u8

record AlbumFileId =
  application_id :: u64
  date_time :: AlbumDateTime
  storage_id :: StorageId
  content_type :: ContentType
  pad :: "u8 list"

record AlbumEntry =
  entry_size :: u64
  fileId :: AlbumFileId

text \<open>\<open>union ApplicationAlbumEntry\<close>: 32 raw bytes, read through the members of \<open>v1\<close>.\<close>

type_synonym ApplicationAlbumEntry = "u8 list"

record ApplicationAlbumFileEntry =
  aaf_entry :: ApplicationAlbumEntry
  aaf_datetime :: AlbumDateTime
  unk_x28 :: u64

record Dimensions =
  width :: u64
  height :: u64

definition zero_AlbumDateTime :: AlbumDateTime where
  "zero_AlbumDateTime = \<lparr>year = 0, month = 0, day = 0, hour = 0, minute = 0, second = 0, dt_id = 0\<rparr>"

definition zero_AlbumFileId :: AlbumFileId where
  "zero_AlbumFileId = \<lparr>application_id = 0, date_time = zero_AlbumDateTime, storage_id = 0,
     content_type = 0, pad = replicate 6 0\<rparr>"

section \<open>Layout\<close>

definition AlbumDateTime_bytes :: "AlbumDateTime \<Rightarrow> u8 list" where
  "AlbumDateTime_bytes d =
     le_bytes 2 (year d) @ [month d, day d, hour d, minute d, second d, dt_id d]"

definition AlbumDateTime_of_bytes :: "u8 list \<Rightarrow> AlbumDateTime" where
  "AlbumDateTime_of_bytes bs = \<lparr>year = le_word (take 2 bs), month = bs ! 2, day = bs ! 3,
     hour = bs ! 4, minute = bs ! 5, second = bs ! 6, dt_id = bs ! 7\<rparr>"

definition AlbumFileId_bytes :: "AlbumFileId \<Rightarrow> u8 list" where
  "AlbumFileId_bytes f =
     le_bytes 8 (application_id f) @ AlbumDateTime_bytes (date_time f) @
     [storage_id f, content_type f] @ pad f"

definition AlbumFileId_of_bytes :: "u8 list \<Rightarrow> AlbumFileId" where
  "AlbumFileId_of_bytes bs = \<lparr>application_id = le_word (take 8 bs),
     date_time = AlbumDateTime_of_bytes (take 8 (drop 8 bs)), storage_id = bs ! 16,
     content_type = bs ! 17, pad = take 6 (drop 18 bs)\<rparr>"

definition AlbumEntry_bytes :: "AlbumEntry \<Rightarrow> u8 list" where
  "AlbumEntry_bytes e = le_bytes 8 (entry_size e) @ AlbumFileId_bytes (fileId e)"

definition AlbumEntry_of_bytes :: "u8 list \<Rightarrow> AlbumEntry" where
  "AlbumEntry_of_bytes bs =
     \<lparr>entry_size = le_word (take 8 bs), fileId = AlbumFileId_of_bytes (drop 8 bs)\<rparr>"

text \<open>\<open>operator==\<close> of identifiers and entries: \<open>memcmp\<close> of the objects.\<close>

definition AlbumFileId_eq :: "AlbumFileId \<Rightarrow> AlbumFileId \<Rightarrow> bool" where
  "AlbumFileId_eq a b \<longleftrightarrow> AlbumFileId_bytes a = AlbumFileId_bytes b"

definition AlbumEntry_eq :: "AlbumEntry \<Rightarrow> AlbumEntry \<Rightarrow> bool" where
  "AlbumEntry_eq a b \<longleftrightarrow> AlbumEntry_bytes a = AlbumEntry_bytes b"

text \<open>An object of the type has exactly six padding bytes.\<close>

definition wf_file_id :: "AlbumFileId \<Rightarrow> bool" where
  "wf_file_id f \<longleftrightarrow> length (pad f) = 6"

definition wf_entry :: "AlbumEntry \<Rightarrow> bool" where
  "wf_entry e \<longleftrightarrow> wf_file_id (fileId e)"

section \<open>Checking an identifier\<close>

text \<open>\<open>month - 1\<close> and \<open>day - 1\<close> are computed as \<open>int\<close>, so zero passes.\<close>

definition Verify :: "AlbumSettings \<Rightarrow> AlbumFileId \<Rightarrow> result" where
  "Verify settings f =
     (if \<not> application_id f \<noteq> 0 then ResultAlbumInvalidFileId
      else if \<not> year (date_time f) < 10000 then ResultAlbumInvalidFileId
      else if \<not> int (unat (month (date_time f))) - 1 < 12 then ResultAlbumInvalidFileId
      else if \<not> int (unat (day (date_time f))) - 1 < 31 then ResultAlbumInvalidFileId
      else if \<not> hour (date_time f) < 24 then ResultAlbumInvalidFileId
      else if \<not> minute (date_time f) < 60 then ResultAlbumInvalidFileId
      else if \<not> second (date_time f) < 60 then ResultAlbumInvalidFileId
      else if \<not> dt_id (date_time f) < 100 then ResultAlbumInvalidFileId
      else if R_FAILED (VerifyStorageId (storage_id f)) then VerifyStorageId (storage_id f)
      else if \<not> IsTypeSupported settings (content_type f) then ResultAlbumInvalidFileContents
      else ResultSuccess)"

section \<open>The date of a file name\<close>

text \<open>\<open>str[i]\<close> of a C string: the NUL after the last character may be read, nothing beyond.\<close>

definition char_at :: "string \<Rightarrow> nat \<Rightarrow> char run" where
  "char_at str i =
     (if i < length str then Inr (str ! i) else if i = length str then Inr NUL
      else Inl OutOfBounds)"

definition digit_at :: "string \<Rightarrow> nat \<Rightarrow> int run" where
  "digit_at str i = then_run (char_at str i) (\<lambda>c. Inr (char_code c - 0x30))"

definition number2_at :: "string \<Rightarrow> nat \<Rightarrow> int run" where
  "number2_at str i =
     then_run (digit_at str (i + 1)) (\<lambda>d0. then_run (digit_at str i) (\<lambda>d1. Inr (d0 + d1 * 10)))"

definition number4_at :: "string \<Rightarrow> nat \<Rightarrow> int run" where
  "number4_at str i =
     then_run (digit_at str (i + 3)) (\<lambda>d0. then_run (digit_at str (i + 2)) (\<lambda>d1.
     then_run (digit_at str (i + 1)) (\<lambda>d2. then_run (digit_at str i) (\<lambda>d3.
       Inr (d0 + d1 * 10 + d2 * 100 + d3 * 1000)))))"

text \<open>The output date is only written when all fields are accepted.\<close>

definition DateTimeFromString ::
  "AlbumDateTime \<Rightarrow> string \<Rightarrow> (result \<times> AlbumDateTime \<times> string) run" where
  "DateTimeFromString date str =
     (let invalid = Inr (ResultAlbumInvalidFileId, date, str) in
      then_run (number4_at str 0) (\<lambda>y. let y = word_of_int y :: u16 in
        if \<not> y < 10000 then invalid else
      then_run (number2_at str 4) (\<lambda>mo. let mo = word_of_int mo :: u8 in
        if \<not> int (unat mo) - 1 < 12 then invalid else
      then_run (number2_at str 6) (\<lambda>d. let d = word_of_int d :: u8 in
        if \<not> int (unat d) - 1 < 31 then invalid else
      then_run (number2_at str 8) (\<lambda>h. let h = word_of_int h :: u8 in
        if \<not> h < 24 then invalid else
      then_run (number2_at str 10) (\<lambda>mi. let mi = word_of_int mi :: u8 in
        if \<not> mi < 60 then invalid else
      then_run (number2_at str 12) (\<lambda>s. let s = word_of_int s :: u8 in
        if \<not> s < 60 then invalid else
      then_run (number2_at str 14) (\<lambda>i. let i = word_of_int i :: u8 in
        if \<not> i < 100 then invalid else
        Inr (ResultSuccess,
             \<lparr>year = y, month = mo, day = d, hour = h, minute = mi, second = s, dt_id = i\<rparr>,
             drop 0x10 str)))))))))"

section \<open>Facts\<close>

lemma length_AlbumDateTime_bytes [simp]: "length (AlbumDateTime_bytes d) = 8"
  by (simp add: AlbumDateTime_bytes_def)

lemma length_AlbumFileId_bytes [simp]: "wf_file_id f \<Longrightarrow> length (AlbumFileId_bytes f) = 24"
  by (simp add: AlbumFileId_bytes_def wf_file_id_def)

lemma length_AlbumEntry_bytes [simp]: "wf_entry e \<Longrightarrow> length (AlbumEntry_bytes e) = 32"
  by (simp add: AlbumEntry_bytes_def wf_entry_def)

lemma AlbumDateTime_of_bytes_bytes [simp]: "AlbumDateTime_of_bytes (AlbumDateTime_bytes d) = d"
  by (simp add: AlbumDateTime_of_bytes_def AlbumDateTime_bytes_def nth_append)

lemma AlbumFileId_of_bytes_bytes [simp]:
  "wf_file_id f \<Longrightarrow> AlbumFileId_of_bytes (AlbumFileId_bytes f) = f"
  by (simp add: AlbumFileId_of_bytes_def AlbumFileId_bytes_def wf_file_id_def nth_append)

lemma AlbumEntry_of_bytes_bytes [simp]:
  "wf_entry e \<Longrightarrow> AlbumEntry_of_bytes (AlbumEntry_bytes e) = e"
  by (simp add: AlbumEntry_of_bytes_def AlbumEntry_bytes_def wf_entry_def)

lemma AlbumFileId_eq_iff [simp]:
  "wf_file_id a \<Longrightarrow> wf_file_id b \<Longrightarrow> AlbumFileId_eq a b \<longleftrightarrow> a = b"
  unfolding AlbumFileId_eq_def by (metis AlbumFileId_of_bytes_bytes)

lemma AlbumFileId_eq_refl [simp]: "AlbumFileId_eq a a"
  by (simp add: AlbumFileId_eq_def)

lemma AlbumEntry_eq_iff [simp]: "wf_entry a \<Longrightarrow> wf_entry b \<Longrightarrow> AlbumEntry_eq a b \<longleftrightarrow> a = b"
  unfolding AlbumEntry_eq_def by (metis AlbumEntry_of_bytes_bytes)

text \<open>The dates \<open>Verify\<close> and the parser accept, as numbers.\<close>

definition date_ok :: "AlbumDateTime \<Rightarrow> bool" where
  "date_ok d \<longleftrightarrow> unat (year d) < 10000 \<and> unat (month d) \<le> 12 \<and> unat (day d) \<le> 31 \<and>
     unat (hour d) < 24 \<and> unat (minute d) < 60 \<and> unat (second d) < 60 \<and> unat (dt_id d) < 100"

lemma uint_below_13: "uint (w :: 'a::len word) < 13 \<longleftrightarrow> unat w \<le> 12"
proof -
  have "uint w = int (unat w)" by simp
  then show ?thesis by linarith
qed

lemma uint_below_32: "uint (w :: 'a::len word) < 32 \<longleftrightarrow> unat w \<le> 31"
proof -
  have "uint w = int (unat w)" by simp
  then show ?thesis by linarith
qed

lemma Verify_ok_iff:
  "Verify s f = 0 \<longleftrightarrow> application_id f \<noteq> 0 \<and> date_ok (date_time f) \<and>
     StorageValid (storage_id f) \<and> IsTypeSupported s (content_type f)"
  by (auto simp: Verify_def date_ok_def result_values word_less_nat_alt R_FAILED_iff
      uint_below_13 uint_below_32)

lemma Verify_results:
  "Verify s f \<in> {0, ResultAlbumInvalidFileId, ResultAlbumInvalidStorage, ResultAlbumInvalidFileContents}"
  by (simp add: Verify_def VerifyStorageId_def)

subsection \<open>Parsing and printing dates\<close>

lemma char_code_digit: "d < 10 \<Longrightarrow> char_code (digit_char d) - 0x30 = int d"
  by (simp add: char_code_def digit_char_code)

lemma show_base_10_1: "n < 10 \<Longrightarrow> show_base 10 n = [digit_char n]"
  by (simp add: show_base.simps)

lemma show_base_10_step: "10 \<le> n \<Longrightarrow> show_base 10 n = show_base 10 (n div 10) @ [digit_char (n mod 10)]"
  by (subst show_base.simps) simp

lemma digit_char_0: "digit_char 0 = CHR ''0''"
  by (simp add: digit_char_def char_of_def bit_0)

lemma fmt_d_2: "n < 100 \<Longrightarrow> fmt_d 2 n = [digit_char (n div 10), digit_char (n mod 10)]"
  by (cases "n < 10")
    (simp_all add: fmt_d_def pad_zero_def show_base_10_1 show_base_10_step digit_char_0)

lemma fmt_d_4:
  assumes "n < 10000"
  shows "fmt_d 4 n = [digit_char (n div 1000), digit_char (n div 100 mod 10),
    digit_char (n div 10 mod 10), digit_char (n mod 10)]"
proof -
  have d: "n div 10 div 10 = n div 100" "n div 100 div 10 = n div 1000"
    by (simp_all add: div_mult2_eq [symmetric])
  consider "n < 10" | "10 \<le> n" "n < 100" | "100 \<le> n" "n < 1000" | "1000 \<le> n"
    by linarith
  then show ?thesis
  proof cases
    case 1
    then show ?thesis by (simp add: fmt_d_def pad_zero_def show_base_10_1 digit_char_0 numeral_3_eq_3 numeral_2_eq_2)
  next
    case 2
    then have "n div 10 < 10" by linarith
    with 2 show ?thesis
      by (simp add: fmt_d_def pad_zero_def show_base_10_1 show_base_10_step digit_char_0
          numeral_2_eq_2)
  next
    case 3
    then have "10 \<le> n div 10" "n div 100 < 10" by linarith+
    with 3 show ?thesis
      by (simp add: fmt_d_def pad_zero_def show_base_10_1 show_base_10_step digit_char_0 d)
  next
    case 4
    with assms have "10 \<le> n div 10" "10 \<le> n div 100" "n div 1000 < 10" by linarith+
    with 4 show ?thesis
      by (simp add: fmt_d_def pad_zero_def show_base_10_1 show_base_10_step digit_char_0 d)
  qed
qed

text \<open>The date part of a file name, \<open>"%04d%02d%02d%02d%02d%02d%02d"\<close>.\<close>

definition date_text :: "AlbumDateTime \<Rightarrow> string" where
  "date_text d = fmt_d 4 (unat (year d)) @ fmt_d 2 (unat (month d)) @ fmt_d 2 (unat (day d)) @
     fmt_d 2 (unat (hour d)) @ fmt_d 2 (unat (minute d)) @ fmt_d 2 (unat (second d)) @
     fmt_d 2 (unat (dt_id d))"

lemma digit_at_append:
  "length pre = i \<Longrightarrow> d < 10 \<Longrightarrow> digit_at (pre @ digit_char d # post) i = Inr (int d)"
  by (simp add: digit_at_def char_at_def char_code_digit nth_append)

lemma number2_at_fmt:
  assumes "length pre = i" and "n < 100"
  shows "number2_at (pre @ fmt_d 2 n @ post) i = Inr (int n)"
proof -
  have "digit_at (pre @ fmt_d 2 n @ post) i = Inr (int (n div 10))"
    using assms digit_at_append [of pre i "n div 10" "digit_char (n mod 10) # post"]
    by (simp add: fmt_d_2)
  moreover have "digit_at (pre @ fmt_d 2 n @ post) (i + 1) = Inr (int (n mod 10))"
    using assms digit_at_append [of "pre @ [digit_char (n div 10)]" "i + 1" "n mod 10" post]
    by (simp add: fmt_d_2)
  moreover have "int (n mod 10) + int (n div 10) * 10 = int n"
    by (metis mod_div_mult_eq of_nat_add of_nat_mult of_nat_numeral)
  ultimately show ?thesis by (simp add: number2_at_def)
qed

lemma number4_at_fmt:
  assumes "n < 10000"
  shows "number4_at (fmt_d 4 n @ post) 0 = Inr (int n)"
proof -
  let ?s = "[digit_char (n div 1000), digit_char (n div 100 mod 10),
    digit_char (n div 10 mod 10), digit_char (n mod 10)] @ post"
  have "digit_at ?s 0 = Inr (int (n div 1000))" "digit_at ?s 1 = Inr (int (n div 100 mod 10))"
    "digit_at ?s 2 = Inr (int (n div 10 mod 10))" "digit_at ?s 3 = Inr (int (n mod 10))"
    using assms by (simp_all add: digit_at_def char_at_def char_code_digit)
  then have "number4_at ?s 0 = Inr (int (n mod 10) + int (n div 10 mod 10) * 10 +
      int (n div 100 mod 10) * 100 + int (n div 1000) * 1000)"
    by (simp add: number4_at_def numeral_2_eq_2)
  also have "int (n mod 10) + int (n div 10 mod 10) * 10 + int (n div 100 mod 10) * 100 +
      int (n div 1000) * 1000 = int n"
  proof -
    have "n div 10 div 10 = n div 100" "n div 100 div 10 = n div 1000"
      by (simp_all add: div_mult2_eq [symmetric])
    then have "n mod 10 + n div 10 mod 10 * 10 + n div 100 mod 10 * 100 + n div 1000 * 1000 = n"
      using div_mult_mod_eq [of n 10] div_mult_mod_eq [of "n div 10" 10]
        div_mult_mod_eq [of "n div 100" 10] by linarith
    then show ?thesis by (metis of_nat_add of_nat_mult of_nat_numeral)
  qed
  finally show ?thesis using assms by (simp add: fmt_d_4)
qed

lemma fmt_d_lengths [fmt_simps]:
  "n < 100 \<Longrightarrow> length (fmt_d 2 n) = 2" "n < 10000 \<Longrightarrow> length (fmt_d 4 n) = 4"
  by (simp_all add: fmt_d_2 fmt_d_4)

lemma length_date_text [fmt_simps]: "date_ok d \<Longrightarrow> length (date_text d) = 16"
  by (simp add: date_text_def date_ok_def fmt_simps)

lemma date_text_no_NUL [fmt_simps]: "NUL \<notin> set (date_text d)"
  by (simp add: date_text_def fmt_simps)

lemma word_of_int_unat [simp]: "word_of_int (int (unat w)) = w"
  by simp

lemma DateTimeFromString_date_text:
  assumes ok: "date_ok d"
  shows "DateTimeFromString d0 (date_text d @ rest) = Inr (0, d, rest)"
proof -
  let ?s = "date_text d @ rest"
  have b: "unat (year d) < 10000" "unat (month d) < 100" "unat (day d) < 100"
    "unat (hour d) < 100" "unat (minute d) < 100" "unat (second d) < 100" "unat (dt_id d) < 100"
    using ok by (simp_all add: date_ok_def)
  have n: "number4_at ?s 0 = Inr (int (unat (year d)))"
    using number4_at_fmt [OF b(1)] by (simp add: date_text_def)
  have "number2_at ?s 4 = Inr (int (unat (month d)))"
    using number2_at_fmt [OF _ b(2), of "fmt_d 4 (unat (year d))" 4] b
    by (simp add: date_text_def fmt_simps)
  moreover have "number2_at ?s 6 = Inr (int (unat (day d)))"
    using number2_at_fmt [OF _ b(3), of "fmt_d 4 (unat (year d)) @ fmt_d 2 (unat (month d))" 6] b
    by (simp add: date_text_def fmt_simps)
  moreover have "number2_at ?s 8 = Inr (int (unat (hour d)))"
    using number2_at_fmt [OF _ b(4), of "fmt_d 4 (unat (year d)) @ fmt_d 2 (unat (month d)) @
      fmt_d 2 (unat (day d))" 8] b
    by (simp add: date_text_def fmt_simps)
  moreover have "number2_at ?s 10 = Inr (int (unat (minute d)))"
    using number2_at_fmt [OF _ b(5), of "fmt_d 4 (unat (year d)) @ fmt_d 2 (unat (month d)) @
      fmt_d 2 (unat (day d)) @ fmt_d 2 (unat (hour d))" 10] b
    by (simp add: date_text_def fmt_simps)
  moreover have "number2_at ?s 12 = Inr (int (unat (second d)))"
    using number2_at_fmt [OF _ b(6), of "fmt_d 4 (unat (year d)) @ fmt_d 2 (unat (month d)) @
      fmt_d 2 (unat (day d)) @ fmt_d 2 (unat (hour d)) @ fmt_d 2 (unat (minute d))" 12] b
    by (simp add: date_text_def fmt_simps)
  moreover have "number2_at ?s 14 = Inr (int (unat (dt_id d)))"
    using number2_at_fmt [OF _ b(7), of "fmt_d 4 (unat (year d)) @ fmt_d 2 (unat (month d)) @
      fmt_d 2 (unat (day d)) @ fmt_d 2 (unat (hour d)) @ fmt_d 2 (unat (minute d)) @
      fmt_d 2 (unat (second d))" 14] b
    by (simp add: date_text_def fmt_simps)
  moreover have "drop 16 ?s = rest" using ok by (simp add: fmt_simps)
  moreover have "uint (month d) < 13" "uint (day d) < 32"
    using ok by (simp_all add: date_ok_def uint_below_13 uint_below_32)
  ultimately show ?thesis
    using ok n by (simp add: DateTimeFromString_def date_ok_def word_less_nat_alt Let_def)
qed

lemma guarded_run:
  assumes "then_run m (\<lambda>v. if \<not> g v then Inr bad else k v) = Inr r"
  obtains "r = bad" | v where "m = Inr v" "g v" "k v = Inr r"
  using assms by (cases m) (auto split: if_splits)

lemma date_okI:
  "y < 10000 \<Longrightarrow> int (unat mo) - 1 < 12 \<Longrightarrow> int (unat d) - 1 < 31 \<Longrightarrow> h < 24 \<Longrightarrow> mi < 60 \<Longrightarrow>
   s < 60 \<Longrightarrow> i < 100 \<Longrightarrow>
   date_ok \<lparr>year = y, month = mo, day = d, hour = h, minute = mi, second = s, dt_id = i\<rparr>"
  by (simp add: date_ok_def word_less_nat_alt uint_below_13 uint_below_32)

lemma DateTimeFromString_sound:
  assumes "DateTimeFromString d0 s = Inr (rc, d, rest)"
  shows "rc = 0 \<and> date_ok d \<and> rest = drop 16 s \<or>
    rc = ResultAlbumInvalidFileId \<and> d = d0 \<and> rest = s"
  using assms unfolding DateTimeFromString_def Let_def
  by (elim guarded_run) (blast intro: date_okI dest: sum.inject(2) [THEN iffD1])+

lemma digit_at_in: "i < length s \<Longrightarrow> digit_at s i = Inr (char_code (s ! i) - 0x30)"
  by (simp add: digit_at_def char_at_def)

lemma DateTimeFromString_returns:
  assumes "16 \<le> length s"
  shows "returns (DateTimeFromString d0 s)"
proof -
  have n2: "\<exists>v. number2_at s i = Inr v" if "i + 1 < length s" for i
    using that by (simp add: number2_at_def digit_at_in)
  have n4: "\<exists>v. number4_at s 0 = Inr v"
  proof -
    have "s \<noteq> []" using assms by auto
    then show ?thesis using assms by (simp add: number4_at_def digit_at_in)
  qed
  show ?thesis
    using n4 n2 [of 4] n2 [of 6] n2 [of 8] n2 [of 10] n2 [of 12] n2 [of 14] assms
    by (auto simp: DateTimeFromString_def Let_def)
qed

section \<open>Properties\<close>

text \<open>\<open>operator==\<close> on file identifiers, a byte comparison, is equality of all fields
  including the padding; the byte layout of an album entry gives every entry back.\<close>

theorem file_id_layout:
  "wf_file_id a \<Longrightarrow> wf_file_id b \<Longrightarrow> wf_entry e \<Longrightarrow>
   (AlbumFileId_eq a b \<longleftrightarrow> a = b) \<and> length (AlbumEntry_bytes e) = 32 \<and>
   AlbumEntry_of_bytes (AlbumEntry_bytes e) = e"
  by simp

theorem file_id_layout_witness:
  "wf_file_id zero_AlbumFileId \<and>
   (AlbumFileId_eq zero_AlbumFileId (zero_AlbumFileId\<lparr>storage_id := Sd\<rparr>) \<longleftrightarrow>
    zero_AlbumFileId = zero_AlbumFileId\<lparr>storage_id := Sd\<rparr>)"
  using file_id_layout [of zero_AlbumFileId "zero_AlbumFileId\<lparr>storage_id := Sd\<rparr>"
      "\<lparr>entry_size = 7, fileId = zero_AlbumFileId\<rparr>"]
  by (simp add: zero_AlbumFileId_def wf_file_id_def wf_entry_def)

text \<open>Exactly what \<open>Verify\<close> accepts: a non-zero application, every date field below its
  bound (month up to 12 and day up to 31, zero included), a known storage and a supported type.\<close>

theorem Verify_accepts:
  "Verify s f = ResultSuccess \<longleftrightarrow>
     application_id f \<noteq> 0 \<and>
     unat (year (date_time f)) < 10000 \<and> unat (month (date_time f)) \<le> 12 \<and>
     unat (day (date_time f)) \<le> 31 \<and> unat (hour (date_time f)) < 24 \<and>
     unat (minute (date_time f)) < 60 \<and> unat (second (date_time f)) < 60 \<and>
     unat (dt_id (date_time f)) < 100 \<and>
     (storage_id f = Nand \<or> storage_id f = Sd) \<and> IsTypeSupported s (content_type f)"
  by (simp add: Verify_ok_iff date_ok_def StorageValid_def)

text \<open>Parsing the date part of a file name gives back the date it was printed from, and leaves
  the rest of the name to be parsed.\<close>

theorem date_roundtrip:
  "date_ok d \<Longrightarrow> DateTimeFromString d0 (date_text d @ rest) = Inr (ResultSuccess, d, rest)"
  by (rule DateTimeFromString_date_text)

theorem date_roundtrip_witness:
  "date_ok \<lparr>year = 2020, month = 2, day = 29, hour = 23, minute = 59, second = 7, dt_id = 42\<rparr> \<and>
   DateTimeFromString zero_AlbumDateTime (date_text
     \<lparr>year = 2020, month = 2, day = 29, hour = 23, minute = 59, second = 7, dt_id = 42\<rparr> @ ''-'') =
   Inr (0, \<lparr>year = 2020, month = 2, day = 29, hour = 23, minute = 59, second = 7, dt_id = 42\<rparr>, ''-'')"
  using date_roundtrip [of "\<lparr>year = 2020, month = 2, day = 29, hour = 23, minute = 59, second = 7,
      dt_id = 42\<rparr>" zero_AlbumDateTime "''-''"]
  by (simp add: date_ok_def)

text \<open>On a name of at least sixteen characters the date parser stays inside the string; it either
  yields a date within the bounds of \<open>Verify\<close> and consumes sixteen characters, or it fails with
  \<open>ResultAlbumInvalidFileId\<close> and leaves its output alone.\<close>

theorem date_parser_total:
  "16 \<le> length s \<Longrightarrow>
   (\<exists>d. DateTimeFromString d0 s = Inr (ResultSuccess, d, drop 16 s) \<and> date_ok d) \<or>
   DateTimeFromString d0 s = Inr (ResultAlbumInvalidFileId, d0, s)"
proof -
  assume "16 \<le> length s"
  then obtain rc d rest where eq: "DateTimeFromString d0 s = Inr (rc, d, rest)"
    using DateTimeFromString_returns [of s d0] by (auto elim!: returnsE)
  with DateTimeFromString_sound [OF eq] show ?thesis by auto
qed

theorem date_parser_total_witness:
  "DateTimeFromString zero_AlbumDateTime ''2020133100000000'' =
     Inr (ResultAlbumInvalidFileId, zero_AlbumDateTime, ''2020133100000000'')"
proof -
  have "number4_at ''2020133100000000'' 0 = Inr 2020" "number2_at ''2020133100000000'' 4 = Inr 13"
    by code_simp+
  then have "\<nexists>d. DateTimeFromString zero_AlbumDateTime ''2020133100000000'' =
      Inr (0, d, drop 16 ''2020133100000000'')"
    by (simp add: DateTimeFromString_def Let_def result_values)
  with date_parser_total [of "''2020133100000000''" zero_AlbumDateTime] show ?thesis by simp
qed

end
