(* ===== verification/CtrMode.thy ===== *)
theory CtrMode
  imports Prelude
begin

text \<open>
  Counter mode of \<open>libvapours\<close>, which \<open>crypto::exif::Decrypt\<close> uses:
  \<open>crypto/impl/crypto_ctr_mode_impl.hpp\<close> (the class \<open>CtrModeImpl\<close>), its hand-written
  routine for whole blocks under AES-128
  (\<open>crypto/impl/crypto_ctr_mode_impl.arch.arm64.cpp\<close>), and the one-shot functions of
  \<open>crypto_aes_ctr_encryptor_decryptor.cpp\<close>. The block cipher is a function \<open>enc\<close> from
  blocks to blocks (AES under a fixed key, from \<open>libnx\<close> or the AES instructions).

  The first argument \<open>audit\<close> says whether the build checks \<open>AMS_ASSERT\<close>
  (\<open>vapours/common.hpp\<close> turns it on for auditing builds only).
\<close>

definition AMS_ASSERT :: "bool \<Rightarrow> bool \<Rightarrow> 'a run \<Rightarrow> 'a run" where
  "AMS_ASSERT audit p m = (if audit \<and> \<not> p then Inl Abort else m)"

lemma AMS_ASSERT_holds [simp, run_simps]: "p \<Longrightarrow> AMS_ASSERT audit p m = m"
  by (simp add: AMS_ASSERT_def)

section \<open>State\<close>

datatype ctr_phase = State_None | State_Initialized

record ctr_state =
  ctr_counter :: "u8 list"
  encrypted_counter :: "u8 list"
  buffer_offset :: nat
  ctr_phase :: ctr_phase

text \<open>The constructor sets \<open>state\<close> only: the rest is what the memory \<open>m\<close> held.\<close>

definition CtrModeImpl_ctor :: "ctr_state \<Rightarrow> ctr_state" where
  "CtrModeImpl_ctor m = m\<lparr>ctr_phase := State_None\<rparr>"

section \<open>The counter\<close>

text \<open>Adding one from the last byte on, up to the first byte that does not wrap to zero.\<close>

fun increment_from :: "nat \<Rightarrow> u8 list \<Rightarrow> u8 list" where
  "increment_from 0 c = c"
| "increment_from (Suc i) c =
     (let b = c ! i + 1; c = c[i := b] in if b \<noteq> 0 then c else increment_from i c)"

definition IncrementCounter :: "u8 list \<Rightarrow> u8 list" where
  "IncrementCounter c = increment_from 16 c"

text \<open>Adding a 64-bit number, stored big-endian in a block, with a 16-bit accumulator.\<close>

fun add_from :: "nat \<Rightarrow> u16 \<Rightarrow> u8 list \<Rightarrow> u8 list \<Rightarrow> u8 list" where
  "add_from 0 acc blk c = c"
| "add_from (Suc i) acc blk c =
     (let acc = acc + (ucast (c ! i) + ucast (blk ! i));
          c = c[i := ucast (acc AND 0xFF)]
      in add_from i (drop_bit 8 acc) blk c)"

definition IncrementCounterBy :: "u64 \<Rightarrow> u8 list \<Rightarrow> u8 list" where
  "IncrementCounterBy n c = add_from 16 0 (replicate 8 0 @ rev (le_bytes 8 n)) c"

section \<open>Blocks\<close>

text \<open>
  The loop \<open>dst[i] = src[i] ^ ctr[i]\<close> for \<open>n\<close> bytes, \<open>ctr\<close> pointing to offset
  \<open>off\<close> of a block.
\<close>

definition xor_loop :: "nat \<Rightarrow> u8 list \<Rightarrow> u8 list \<Rightarrow> nat \<Rightarrow> u8 list" where
  "xor_loop n src block off = map (\<lambda>i. src ! i XOR block ! (off + i)) [0..<n]"

definition ProcessBlock ::
  "(u8 list \<Rightarrow> u8 list) \<Rightarrow> u8 list \<Rightarrow> nat \<Rightarrow> ctr_state \<Rightarrow> u8 list \<times> ctr_state" where
  "ProcessBlock enc src n s =
     (let s = s\<lparr>encrypted_counter := enc (ctr_counter s)\<rparr>;
          s = s\<lparr>ctr_counter := IncrementCounter (ctr_counter s)\<rparr>
      in (xor_loop n src (encrypted_counter s) 0, s))"

text \<open>The template for any cipher.\<close>

fun ProcessBlocks ::
  "(u8 list \<Rightarrow> u8 list) \<Rightarrow> u8 list \<Rightarrow> nat \<Rightarrow> ctr_state \<Rightarrow> u8 list \<times> ctr_state" where
  "ProcessBlocks enc src 0 s = ([], s)"
| "ProcessBlocks enc src (Suc n) s =
     (let (d, s) = ProcessBlock enc src 16 s;
          (ds, s) = ProcessBlocks enc (drop 16 src) n s
      in (d @ ds, s))"

text \<open>
  The routine for AES-128: the counter is kept in a vector register whose two halves are
  byte-reversed into \<open>high\<close> and \<open>low\<close>, \<open>adds\<close> and \<open>cinc\<close> add one to the pair.
\<close>

definition rev64 :: "u64 \<Rightarrow> u64" where
  "rev64 w = le_word (rev (le_bytes 8 w))"

definition load_high_low :: "u8 list \<Rightarrow> u64 \<times> u64" where
  "load_high_low c = (rev64 (le_word (take 8 c)), rev64 (le_word (drop 8 c)))"

definition add_high_low :: "u64 \<times> u64 \<Rightarrow> u64 \<times> u64" where
  "add_high_low = (\<lambda>(high, low). let low' = low + 1 in (if low' = 0 then high + 1 else high, low'))"

definition store_high_low :: "u64 \<times> u64 \<Rightarrow> u8 list" where
  "store_high_low = (\<lambda>(high, low). le_bytes 8 (rev64 high) @ le_bytes 8 (rev64 low))"

definition IncrementCounterOptimized :: "u8 list \<Rightarrow> u8 list" where
  "IncrementCounterOptimized c = store_high_low (add_high_low (load_high_low c))"

text \<open>Three blocks at a time, with three consecutive counters; then one at a time.\<close>

fun three_blocks ::
  "(u8 list \<Rightarrow> u8 list) \<Rightarrow> u8 list \<Rightarrow> nat \<Rightarrow> u8 list \<Rightarrow> u8 list \<Rightarrow> u8 list \<Rightarrow>
     u8 list \<times> u8 list \<times> nat \<times> u8 list" where
  "three_blocks enc src n ctr0 ctr1 ctr2 =
     (if 3 \<le> n then
        let block0 = take 16 src; src = drop 16 src;
            block1 = take 16 src; src = drop 16 src;
            block2 = take 16 src; src = drop 16 src;
            tmp0 = enc ctr0; tmp1 = enc ctr1; tmp2 = enc ctr2;
            hl = add_high_low (load_high_low ctr2); ctr0 = store_high_low hl;
            hl = add_high_low hl; ctr1 = store_high_low hl;
            hl = add_high_low hl; ctr2 = store_high_low hl;
            (d, r) = three_blocks enc src (n - 3) ctr0 ctr1 ctr2
        in (xor_loop 16 block0 tmp0 0 @ xor_loop 16 block1 tmp1 0 @ xor_loop 16 block2 tmp2 0 @ d, r)
      else ([], src, n, ctr0))"

declare three_blocks.simps [simp del]

fun single_blocks ::
  "(u8 list \<Rightarrow> u8 list) \<Rightarrow> u8 list \<Rightarrow> nat \<Rightarrow> u8 list \<Rightarrow> u8 list \<times> u8 list" where
  "single_blocks enc src 0 ctr0 = ([], ctr0)"
| "single_blocks enc src (Suc n) ctr0 =
     (let block0 = take 16 src; src = drop 16 src; tmp0 = enc ctr0;
          ctr0 = store_high_low (add_high_low (load_high_low ctr0));
          (d, c) = single_blocks enc src n ctr0
      in (xor_loop 16 block0 tmp0 0 @ d, c))"

definition ProcessBlocks128 ::
  "(u8 list \<Rightarrow> u8 list) \<Rightarrow> u8 list \<Rightarrow> nat \<Rightarrow> ctr_state \<Rightarrow> u8 list \<times> ctr_state" where
  "ProcessBlocks128 enc src n s =
     (let ctr0 = ctr_counter s;
          (d, src, n, ctr0) =
            (if 3 \<le> n then
               let ctr1 = IncrementCounterOptimized ctr0; ctr2 = IncrementCounterOptimized ctr1
               in three_blocks enc src n ctr0 ctr1 ctr2
             else ([], src, n, ctr0));
          (e, ctr0) = single_blocks enc src n ctr0
      in (d @ e, s\<lparr>ctr_counter := ctr0\<rparr>))"

section \<open>Messages\<close>

definition SwitchMessage :: "bool \<Rightarrow> u8 list \<Rightarrow> ctr_state \<Rightarrow> ctr_state run" where
  "SwitchMessage audit iv s =
     AMS_ASSERT audit (ctr_phase s = State_Initialized) (AMS_ASSERT audit (length iv = 16)
       (if length iv \<le> 16
        then Inr (s\<lparr>ctr_counter := poke 0 iv (ctr_counter s), buffer_offset := 0\<rparr>)
        else Inl OutOfBounds))"

text \<open>\<open>offset\<close> is an \<open>s64\<close>; it is divided as a \<open>u64\<close>, being non-negative there.\<close>

definition Ctr_Initialize ::
  "bool \<Rightarrow> (u8 list \<Rightarrow> u8 list) \<Rightarrow> u8 list \<Rightarrow> u64 \<Rightarrow> ctr_state \<Rightarrow> ctr_state run" where
  "Ctr_Initialize audit enc iv offset s =
     AMS_ASSERT audit (length iv = 16) (AMS_ASSERT audit (0 \<le> sint offset)
       (let s = s\<lparr>ctr_phase := State_Initialized\<rparr> in
        then_run (SwitchMessage audit iv s) (\<lambda>s.
          Inr (if 0 \<le> sint offset then
                 let ctr_offset = offset div 16;
                     s = (if 0 < ctr_offset
                          then s\<lparr>ctr_counter := IncrementCounterBy ctr_offset (ctr_counter s)\<rparr> else s);
                     remaining = unat (offset mod 16)
                 in if remaining \<noteq> 0 then
                      let s = s\<lparr>encrypted_counter := enc (ctr_counter s)\<rparr>;
                          s = s\<lparr>ctr_counter := IncrementCounter (ctr_counter s)\<rparr>
                      in s\<lparr>buffer_offset := remaining\<rparr>
                    else s
               else s))))"

text \<open>
  \<open>Update\<close> in its three parts: what is left of the block in use, whole blocks, and the
  beginning of a new block. Each takes the rest of the source (\<open>remaining\<close> is its length) and
  returns what it writes, with the new rest.
\<close>

definition update_buffered :: "u8 list \<Rightarrow> ctr_state \<Rightarrow> u8 list \<times> u8 list \<times> ctr_state" where
  "update_buffered src s =
     (if 0 < buffer_offset s then
        let xor_size = min (16 - buffer_offset s) (length src);
            d = xor_loop xor_size src (encrypted_counter s) (buffer_offset s);
            s = s\<lparr>buffer_offset := buffer_offset s + xor_size\<rparr>;
            s = (if buffer_offset s = 16 then s\<lparr>buffer_offset := 0\<rparr> else s)
        in (d, drop xor_size src, s)
      else ([], src, s))"

definition update_blocks ::
  "(u8 list \<Rightarrow> u8 list) \<Rightarrow> u8 list \<Rightarrow> ctr_state \<Rightarrow> u8 list \<times> u8 list \<times> ctr_state" where
  "update_blocks enc src s =
     (if 16 \<le> length src then
        let num_blocks = length src div 16;
            (d, s) = ProcessBlocks128 enc src num_blocks s;
            processed_size = num_blocks * 16
        in (d, drop processed_size src, s)
      else ([], src, s))"

definition update_rest ::
  "(u8 list \<Rightarrow> u8 list) \<Rightarrow> u8 list \<Rightarrow> ctr_state \<Rightarrow> u8 list \<times> ctr_state" where
  "update_rest enc src s =
     (if 0 < length src then
        let (d, s) = ProcessBlock enc src (length src) s
        in (d, s\<lparr>buffer_offset := length src\<rparr>)
      else ([], s))"

text \<open>
  It returns the size of the source and what it writes to the destination. \<open>src\<close> holds the
  \<open>src_size\<close> bytes of the source; source and destination may be the same memory, each byte
  being read before it is written.
\<close>

definition Ctr_Update ::
  "bool \<Rightarrow> (u8 list \<Rightarrow> u8 list) \<Rightarrow> u64 \<Rightarrow> u8 list \<Rightarrow> ctr_state \<Rightarrow>
     (nat \<times> u8 list \<times> ctr_state) run" where
  "Ctr_Update audit enc dst_size src s =
     AMS_ASSERT audit (ctr_phase s = State_Initialized) (AMS_ASSERT audit (length src \<le> unat dst_size)
       (let src_size = length src;
            (d1, src, s) = update_buffered src s;
            (d2, src, s) = update_blocks enc src s;
            (d3, s) = update_rest enc src s
        in Inr (src_size, d1 @ d2 @ d3, s)))"

section \<open>One-shot functions\<close>

text \<open>
  \<open>AesCtrCryptor<CtrImpl, AesEncryptor128>\<close>: encryption and decryption use the same cipher
  and the same stream. \<open>aes\<close> is AES-128 encryption under a key, \<open>m\<close> the memory the object
  is constructed in.
\<close>

definition AesCtr_Initialize ::
  "bool \<Rightarrow> (u8 list \<Rightarrow> u8 list \<Rightarrow> u8 list) \<Rightarrow> u8 list \<Rightarrow> u8 list \<Rightarrow> u64 \<Rightarrow> ctr_state \<Rightarrow>
     ctr_state run" where
  "AesCtr_Initialize audit aes key iv offset s =
     AMS_ASSERT audit (length key = 16) (AMS_ASSERT audit (length iv = 16)
       (AMS_ASSERT audit (0 \<le> sint offset) (Ctr_Initialize audit (aes key) iv offset s)))"

definition EncryptAes128CtrPartial ::
  "bool \<Rightarrow> (u8 list \<Rightarrow> u8 list \<Rightarrow> u8 list) \<Rightarrow> ctr_state \<Rightarrow> u64 \<Rightarrow> u8 list \<Rightarrow> u8 list \<Rightarrow> u64 \<Rightarrow>
     u8 list \<Rightarrow> (nat \<times> u8 list) run" where
  "EncryptAes128CtrPartial audit aes m dst_size key iv offset src =
     then_run (AesCtr_Initialize audit aes key iv offset (CtrModeImpl_ctor m)) (\<lambda>s.
     then_run (Ctr_Update audit (aes key) dst_size src s) (\<lambda>(n, d, s). Inr (n, d)))"

definition DecryptAes128CtrPartial ::
  "bool \<Rightarrow> (u8 list \<Rightarrow> u8 list \<Rightarrow> u8 list) \<Rightarrow> ctr_state \<Rightarrow> u64 \<Rightarrow> u8 list \<Rightarrow> u8 list \<Rightarrow> u64 \<Rightarrow>
     u8 list \<Rightarrow> (nat \<times> u8 list) run" where
  "DecryptAes128CtrPartial audit aes m dst_size key iv offset src =
     then_run (AesCtr_Initialize audit aes key iv offset (CtrModeImpl_ctor m)) (\<lambda>s.
     then_run (Ctr_Update audit (aes key) dst_size src s) (\<lambda>(n, d, s). Inr (n, d)))"

definition EncryptAes128Ctr ::
  "bool \<Rightarrow> (u8 list \<Rightarrow> u8 list \<Rightarrow> u8 list) \<Rightarrow> ctr_state \<Rightarrow> u64 \<Rightarrow> u8 list \<Rightarrow> u8 list \<Rightarrow>
     u8 list \<Rightarrow> (nat \<times> u8 list) run" where
  "EncryptAes128Ctr audit aes m dst_size key iv src =
     then_run (AesCtr_Initialize audit aes key iv 0 (CtrModeImpl_ctor m)) (\<lambda>s.
     then_run (Ctr_Update audit (aes key) dst_size src s) (\<lambda>(n, d, s). Inr (n, d)))"

definition DecryptAes128Ctr ::
  "bool \<Rightarrow> (u8 list \<Rightarrow> u8 list \<Rightarrow> u8 list) \<Rightarrow> ctr_state \<Rightarrow> u64 \<Rightarrow> u8 list \<Rightarrow> u8 list \<Rightarrow>
     u8 list \<Rightarrow> (nat \<times> u8 list) run" where
  "DecryptAes128Ctr audit aes m dst_size key iv src =
     then_run (AesCtr_Initialize audit aes key iv 0 (CtrModeImpl_ctor m)) (\<lambda>s.
     then_run (Ctr_Update audit (aes key) dst_size src s) (\<lambda>(n, d, s). Inr (n, d)))"

section \<open>Blocks as numbers\<close>

text \<open>The number a block stands for, first byte most significant, and the block of a number.\<close>

fun be_value :: "u8 list \<Rightarrow> nat" where
  "be_value [] = 0"
| "be_value (b # bs) = unat b * 256 ^ length bs + be_value bs"

fun be_bytes :: "nat \<Rightarrow> nat \<Rightarrow> u8 list" where
  "be_bytes 0 v = []"
| "be_bytes (Suc n) v = be_bytes n (v div 256) @ [of_nat v]"

lemma length_be_bytes [simp]: "length (be_bytes n v) = n"
  by (induction n arbitrary: v) auto

lemma be_value_append: "be_value (xs @ ys) = be_value xs * 256 ^ length ys + be_value ys"
  by (induction xs) (simp_all add: algebra_simps power_add)

lemma be_value_snoc [simp]: "be_value (xs @ [b]) = be_value xs * 256 + unat b"
  by (simp add: be_value_append)

lemma unat_byte_less: "unat (b :: u8) < 256"
  using unsigned_less [of b] by simp

lemma unat_byte_div [simp]: "(v * 256 + unat (b :: u8)) div 256 = v" "(unat b) div 256 = 0"
  using unat_byte_less [of b] by simp_all

lemma of_nat_256 [simp]: "(of_nat (v * 256) :: u8) = 0"
proof -
  have "(256 :: u8) = 0" by simp
  then show ?thesis by (simp only: of_nat_mult of_nat_numeral mult_zero_right)
qed

lemma be_bytes_be_value [simp]: "be_bytes (length bs) (be_value bs) = bs"
  by (induction bs rule: rev_induct) (simp_all del: of_nat_mult)

lemma be_bytes_be_value' : "length bs = n \<Longrightarrow> be_bytes n (be_value bs) = bs"
  by auto

lemma be_value_be_bytes: "be_value (be_bytes n v) = v mod 256 ^ n"
proof (induction n arbitrary: v)
  case 0
  then show ?case by simp
next
  case (Suc n)
  have "v mod 256 ^ Suc n = 256 * (v div 256 mod 256 ^ n) + v mod 256"
    by (simp add: mod_mult2_eq)
  then show ?case by (simp add: Suc unat_of_nat)
qed

lemma be_bytes_mod: "be_bytes n (v mod 256 ^ n) = be_bytes n v"
  using be_bytes_be_value [of "be_bytes n v"] by (simp add: be_value_be_bytes)

lemma be_bytes_cong: "v mod 256 ^ n = w mod 256 ^ n \<Longrightarrow> be_bytes n v = be_bytes n w"
  by (metis be_bytes_mod)

lemma be_bytes_add: "be_bytes (n + k) v = be_bytes n (v div 256 ^ k) @ be_bytes k v"
  by (induction k arbitrary: v) (simp_all add: div_mult2_eq)

lemma increment_from_value:
  "increment_from (length xs) (xs @ ys) = be_bytes (length xs) (be_value xs + 1) @ ys"
proof (induction xs arbitrary: ys rule: rev_induct)
  case Nil
  then show ?case by simp
next
  case (snoc b xs)
  show ?case
  proof (cases "b + 1 = 0")
    case True
    then have "b = - 1" by (simp add: eq_neg_iff_add_eq_0)
    moreover have "(- 1 :: u8) = 255" by simp
    ultimately have "unat b = 255" by simp
    moreover have "(255 + be_value xs * 256 + 1) div 256 = be_value xs + 1" by simp
    moreover have "(of_nat (255 + be_value xs * 256 + 1) :: u8) = 0"
      using of_nat_256 [of "be_value xs + 1"] by (simp add: algebra_simps del: of_nat_256)
    ultimately show ?thesis
      using snoc.IH [of "0 # ys"] True by (simp add: nth_append add.commute del: of_nat_add of_nat_mult)
  next
    case False
    then have "unat (b + 1) = unat b + 1" using unat_byte_less [of b] 
      by (metis Suc_eq_plus1 add.commute unatSuc)
    then have "unat b + 1 < 256" using unat_byte_less [of "b + 1"] by simp
    then have "(be_value xs * 256 + unat b + 1) div 256 = be_value xs" by simp
    moreover have "(of_nat (be_value xs * 256 + unat b + 1) :: u8) = b + 1"
      using of_nat_256 [of "be_value xs"] by (simp del: of_nat_mult)
    ultimately show ?thesis using False by (simp add: nth_append del: of_nat_add of_nat_mult)
  qed
qed

lemma IncrementCounter_value: "length c = 16 \<Longrightarrow> IncrementCounter c = be_bytes 16 (be_value c + 1)"
  using increment_from_value [of c "[]"] by (simp add: IncrementCounter_def)

lemma accumulate:
  assumes "unat (acc :: u16) \<le> 1" and t_def: "t = acc + (ucast (a :: u8) + ucast (b :: u8))"
  shows "unat t = unat acc + unat a + unat b"
    and "unat (drop_bit 8 t) = (unat acc + unat a + unat b) div 256"
    and "unat (drop_bit 8 t) \<le> 1"
    and "(ucast (t AND 0xFF) :: u8) = of_nat (unat acc + unat a + unat b)"
proof -
  have ab: "unat a < 256" "unat b < 256" by (rule unat_byte_less)+
  have "unat (ucast a :: u16) = unat a" "unat (ucast b :: u16) = unat b"
    using ab by (simp_all add: unsigned_ucast_eq take_bit_nat_eq_self)
  then show t: "unat t = unat acc + unat a + unat b"
    using assms(1) ab by (simp add: t_def unat_word_ariths)
  show d: "unat (drop_bit 8 t) = (unat acc + unat a + unat b) div 256"
    unfolding unat_drop_bit_eq unfolding drop_bit_eq_div t by simp
  have "unat acc + unat a + unat b < 256 * 2" using assms(1) ab by linarith
  then show "unat (drop_bit 8 t) \<le> 1" unfolding d by linarith
  have "(ucast (t AND 0xFF) :: u8) = ucast t"
  proof -
    have "(0xFF :: u16) = mask 8" by (simp add: mask_eq_exp_minus_1)
    then have "t AND 0xFF = take_bit 8 t" by (simp only: take_bit_eq_mask)
    then show ?thesis by (simp only:) (auto intro!: bit_word_eqI simp: bit_simps)
  qed
  also have "\<dots> = of_nat (unat t)" by (rule of_nat_unat [symmetric])
  finally show "(ucast (t AND 0xFF) :: u8) = of_nat (unat acc + unat a + unat b)"
    unfolding t .
qed

lemma add_from_value:
  "length xs = length zs \<Longrightarrow> unat acc \<le> 1 \<Longrightarrow>
   add_from (length xs) acc (zs @ ws) (xs @ ys) =
     be_bytes (length xs) (be_value xs + be_value zs + unat acc) @ ys"
proof (induction xs arbitrary: zs ws ys acc rule: rev_induct)
  case Nil
  then show ?case by simp
next
  case (snoc b xs)
  then obtain z zs' where zs: "zs = zs' @ [z]" "length zs' = length xs"
    by (cases zs rule: rev_cases) auto
  note acc = accumulate [OF snoc.prems(2) refl, of b z]
  define w where "w = unat acc + unat b + unat z"
  define v where "v = (be_value xs + be_value zs') * 256 + w"
  have v: "be_value (xs @ [b]) + be_value zs + unat acc = v"
    by (simp add: zs v_def w_def)
  have "v div 256 = be_value xs + be_value zs' + w div 256" by (simp add: v_def)
  moreover have "(of_nat v :: u8) = of_nat w"
    using of_nat_256 [of "be_value xs + be_value zs'"]
    unfolding v_def of_nat_add [of _ w] by (simp del: of_nat_mult of_nat_256)
  ultimately have "be_bytes (length (xs @ [b])) v =
      be_bytes (length xs) (be_value xs + be_value zs' + w div 256) @ [of_nat w]"
    by simp
  then show ?case
    using snoc.IH [OF zs(2) [symmetric] acc(3), of "z # ws" "of_nat w # ys"]
    unfolding v by (simp add: zs(1) nth_append zs(2) acc(2,4) w_def [symmetric] Let_def)
qed

lemma be_value_replicate_0: "be_value (replicate n 0) = 0"
  by (induction n) auto

lemma unat_le_word:
  "8 * length bs \<le> LENGTH('a) \<Longrightarrow> unat (le_word bs :: 'a::len word) = be_value (rev bs)"
proof (induction bs)
  case Nil
  then show ?case by simp
next
  case (Cons b bs)
  have "be_value (rev bs) < 256 ^ length bs"
    using be_value_be_bytes [of "length bs" "be_value (rev bs)"]
      be_bytes_be_value [of "rev bs"] by (metis length_rev mod_less_divisor zero_less_numeral zero_less_power)
  then have "be_value (rev bs) * 256 + unat b < 256 ^ Suc (length bs)"
    using unat_byte_less [of b] by simp
  also have "(256 :: nat) ^ Suc (length bs) = 2 ^ (8 * Suc (length bs))"
    unfolding power_mult by simp
  also have "\<dots> \<le> 2 ^ LENGTH('a)" using Cons.prems by (intro power_increasing) auto
  finally have small: "be_value (rev bs) * 256 + unat b < 2 ^ LENGTH('a)" .
  have "(ucast b OR push_bit 8 (le_word bs) :: 'a word) = ucast b + push_bit 8 (le_word bs)"
    by (rule disjunctive_add [symmetric]) (auto simp: bit_simps dest: bit_imp_le_length)
  also have "\<dots> = of_nat (unat b + be_value (rev bs) * 256)"
    using Cons.prems by (simp add: push_bit_eq_mult of_nat_unat flip: Cons.IH)
  finally have "(ucast b OR push_bit 8 (le_word bs) :: 'a word) = of_nat (unat b + be_value (rev bs) * 256)" .
  then show ?case using small
    by (simp only: le_word.simps rev.simps be_value_snoc unat_of_nat) (simp add: add.commute)
qed

lemma be_value_less: "length bs = n \<Longrightarrow> be_value bs < 256 ^ n"
  using be_value_be_bytes [of "length bs" "be_value bs"]
  by (metis be_bytes_be_value mod_less_divisor zero_less_numeral zero_less_power)

lemma be_value_rev_le_bytes: "be_value (rev (le_bytes 8 (w :: u64))) = unat w"
  using unat_le_word [of "le_bytes 8 w", where ?'a = 64] by simp

lemma rev_le_bytes: "rev (le_bytes 8 (w :: u64)) = be_bytes 8 (unat w)"
  using be_bytes_be_value [of "rev (le_bytes 8 w)"] by (simp add: be_value_rev_le_bytes)

lemma IncrementCounterBy_value:
  "length c = 16 \<Longrightarrow> IncrementCounterBy n c = be_bytes 16 (be_value c + unat n)"
  using add_from_value [of c "replicate 8 0 @ rev (le_bytes 8 n)" 0 "[]" "[]"]
  by (simp add: IncrementCounterBy_def be_value_append be_value_replicate_0 be_value_rev_le_bytes)

section \<open>The routine for AES-128\<close>

definition hl_value :: "u64 \<times> u64 \<Rightarrow> nat" where
  "hl_value hl = unat (fst hl) * 2 ^ 64 + unat (snd hl)"

lemma rev64_le_word: "length bs = 8 \<Longrightarrow> unat (rev64 (le_word bs)) = be_value bs"
  using unat_le_word [of "rev bs", where ?'a = 64] le_bytes_le_word [of bs, where ?'a = 64]
  by (simp add: rev64_def)

lemma le_bytes_rev64: "le_bytes 8 (rev64 w) = be_bytes 8 (unat w)"
  using le_bytes_le_word [of "rev (le_bytes 8 w)", where ?'a = 64]
  by (simp add: rev64_def rev_le_bytes)

lemma load_value:
  assumes "length c = 16"
  shows "hl_value (load_high_low c) = be_value c"
proof -
  have "unat (rev64 (le_word (take 8 c))) = be_value (take 8 c)"
    "unat (rev64 (le_word (drop 8 c))) = be_value (drop 8 c)"
    by (rule rev64_le_word, simp add: assms)+
  then show ?thesis
    using be_value_append [of "take 8 c" "drop 8 c"] assms
    by (simp add: hl_value_def load_high_low_def)
qed

lemma store_value: "store_high_low hl = be_bytes 16 (hl_value hl)"
proof -
  obtain h l where hl: "hl = (h, l)" by (cases hl)
  have l: "unat l < 2 ^ 64" using unsigned_less [of l] by simp
  then have "be_bytes 8 (hl_value hl) = be_bytes 8 (unat l)"
    by (intro be_bytes_cong) (simp add: hl_value_def hl)
  moreover have "hl_value hl div 256 ^ 8 = unat h" using l by (simp add: hl_value_def hl)
  ultimately show ?thesis
    using be_bytes_add [of 8 8 "hl_value hl"]
    by (simp add: store_high_low_def hl le_bytes_rev64)
qed

lemma add_value: "hl_value (add_high_low hl) mod 256 ^ 16 = (hl_value hl + 1) mod 256 ^ 16"
proof -
  obtain h l where hl: "hl = (h, l)" by (cases hl)
  show ?thesis
  proof (cases "l + 1 = 0")
    case False
    then have "unat (l + 1) = unat l + 1" by (metis Suc_eq_plus1 add.commute unatSuc)
    then show ?thesis using False by (simp add: hl hl_value_def add_high_low_def Let_def)
  next
    case True
    then have "l = - 1" by (simp add: eq_neg_iff_add_eq_0)
    moreover have "(- 1 :: u64) = 0xFFFFFFFFFFFFFFFF" by simp
    ultimately have "unat l = 0xFFFFFFFFFFFFFFFF" by simp
    then have "hl_value hl + 1 = (unat h + 1) * 2 ^ 64" by (simp add: hl hl_value_def)
    moreover have "unat (h + 1) = (unat h + 1) mod 2 ^ 64" by (simp add: unat_word_ariths)
    moreover have "((unat h + 1) mod 2 ^ 64 * 2 ^ 64) mod 256 ^ 16 = ((unat h + 1) * 2 ^ 64) mod 256 ^ 16"
    proof -
      have "(256 :: nat) ^ 16 = 2 ^ 64 * 2 ^ 64" by simp
      then show ?thesis by (simp only: mult_mod_left mod_mod_trivial)
    qed
    ultimately show ?thesis using True by (simp add: hl hl_value_def add_high_low_def)
  qed
qed

lemma store_add: "store_high_low (add_high_low hl) = be_bytes 16 (hl_value hl + 1)"
  unfolding store_value by (rule be_bytes_cong [OF add_value])

lemma IncrementCounterOptimized_eq:
  "length c = 16 \<Longrightarrow> IncrementCounterOptimized c = IncrementCounter c"
  by (simp add: IncrementCounterOptimized_def store_add load_value IncrementCounter_value)

lemma store_add_increment:
  "store_high_low (add_high_low hl) = IncrementCounter (store_high_low hl)"
proof -
  have "be_bytes 16 (be_value (be_bytes 16 (hl_value hl)) + 1) = be_bytes 16 (hl_value hl + 1)"
    by (rule be_bytes_cong) (simp add: be_value_be_bytes mod_simps)
  then show ?thesis
    unfolding store_add by (simp add: store_value IncrementCounter_value)
qed

lemma length_IncrementCounter [simp]: "length c = 16 \<Longrightarrow> length (IncrementCounter c) = 16"
  by (simp add: IncrementCounter_value)

lemma xor_loop_take [simp]: "n \<le> k \<Longrightarrow> xor_loop n (take k src) ctr off = xor_loop n src ctr off"
  by (simp add: xor_loop_def)

lemma length_xor_loop [simp]: "length (xor_loop n src ctr off) = n"
  by (simp add: xor_loop_def)

text \<open>The single-block loop is the template, the counter in a register.\<close>

lemma step_counter:
  "length c = 16 \<Longrightarrow> store_high_low (add_high_low (load_high_low c)) = IncrementCounter c"
  using IncrementCounterOptimized_eq [of c] by (simp add: IncrementCounterOptimized_def)

lemma single_blocks_eq:
  "length (ctr_counter s) = 16 \<Longrightarrow>
   single_blocks enc src n (ctr_counter s) =
     (fst (ProcessBlocks enc src n s), ctr_counter (snd (ProcessBlocks enc src n s)))"
proof (induction n arbitrary: src s)
  case 0
  then show ?case by simp
next
  case (Suc n)
  let ?s = "snd (ProcessBlock enc src 16 s)"
  have c: "ctr_counter ?s = IncrementCounter (ctr_counter s)"
    by (simp add: ProcessBlock_def)
  with Suc.prems have "length (ctr_counter ?s) = 16" by simp
  from Suc.IH [OF this, of "drop 16 src"] show ?case
    by (simp add: step_counter [OF Suc.prems] c ProcessBlock_def split: prod.splits)
qed

text \<open>Three blocks at once are three single blocks.\<close>

lemma three_blocks_eq:
  assumes "length ctr0 = 16" and "ctr1 = IncrementCounter ctr0" and "ctr2 = IncrementCounter ctr1"
  shows "single_blocks enc src n ctr0 =
    (case three_blocks enc src n ctr0 ctr1 ctr2 of (d, src', n', c) \<Rightarrow>
       let (e, c') = single_blocks enc src' n' c in (d @ e, c'))"
  using assms
proof (induction enc src n ctr0 ctr1 ctr2 rule: three_blocks.induct)
  case (1 enc src n ctr0 ctr1 ctr2)
  show ?case
  proof (cases "3 \<le> n")
    case False
    then show ?thesis by (simp add: three_blocks.simps)
  next
    case True
    then obtain m where n: "n = Suc (Suc (Suc m))" using True by (intro that [of "n - 3"]) simp
    have len: "length ctr1 = 16" "length ctr2 = 16" using "1.prems" by simp_all
    define c3 where "c3 = store_high_low (add_high_low (load_high_low ctr2))"
    define c4 where "c4 = store_high_low (add_high_low (add_high_low (load_high_low ctr2)))"
    define c5 where
      "c5 = store_high_low (add_high_low (add_high_low (add_high_low (load_high_low ctr2))))"
    have c: "length c3 = 16" "c4 = IncrementCounter c3" "c5 = IncrementCounter c4"
      by (simp_all add: c3_def c4_def c5_def store_add_increment [symmetric]) (simp add: store_value)
    have s: "store_high_low (add_high_low (load_high_low ctr0)) = ctr1"
      "store_high_low (add_high_low (load_high_low ctr1)) = ctr2"
      using "1.prems" len by (simp_all add: step_counter)
    have IH: "single_blocks enc (drop 16 (drop 16 (drop 16 src))) m c3 =
      (case three_blocks enc (drop 16 (drop 16 (drop 16 src))) m c3 c4 c5 of (d, src', n', c) \<Rightarrow>
         let (e, c') = single_blocks enc src' n' c in (d @ e, c'))"
      using "1.IH" [OF True refl refl refl refl refl refl refl refl refl refl refl refl refl refl refl]
        c unfolding n c3_def c4_def c5_def by simp
    show ?thesis
      unfolding n three_blocks.simps [of enc src] using IH
      by (simp add: s c3_def [symmetric] c4_def [symmetric] c5_def [symmetric] Let_def
        split: prod.splits)
  qed
qed

lemma ProcessBlocks128_single:
  assumes "length (ctr_counter s) = 16"
  shows "ProcessBlocks128 enc src n s =
    (let (d, c) = single_blocks enc src n (ctr_counter s) in (d, s\<lparr>ctr_counter := c\<rparr>))"
  using three_blocks_eq [OF assms refl refl, of enc src n] assms
  by (simp add: ProcessBlocks128_def IncrementCounterOptimized_eq Let_def split: prod.splits)

lemma ProcessBlocks_frame:
  "\<exists>c e. snd (ProcessBlocks enc src n s) = s\<lparr>ctr_counter := c, encrypted_counter := e\<rparr>"
proof (induction n arbitrary: src s)
  case 0
  show ?case by (intro exI [of _ "ctr_counter s"] exI [of _ "encrypted_counter s"]) simp
next
  case (Suc n)
  from Suc.IH [of "drop 16 src" "snd (ProcessBlock enc src 16 s)"] show ?case
    by (auto simp: ProcessBlock_def Let_def split: prod.splits) blast
qed

text \<open>The optimised routine leaves out only the copy of the last encrypted counter.\<close>

lemma ProcessBlocks128_template:
  assumes "length (ctr_counter s) = 16"
  shows "ProcessBlocks128 enc src n s =
    (let (d, t) = ProcessBlocks enc src n s in (d, t\<lparr>encrypted_counter := encrypted_counter s\<rparr>))"
  using ProcessBlocks_frame [of enc src n s]
  by (auto simp: ProcessBlocks128_single [OF assms] single_blocks_eq [OF assms] split: prod.splits)

section \<open>The stream\<close>

text \<open>
  What the state machine implements: byte \<open>j\<close> of the message is combined with byte
  \<open>j mod 16\<close> of the encryption of the initial counter plus \<open>j div 16\<close>.
\<close>

definition ctr_block :: "(u8 list \<Rightarrow> u8 list) \<Rightarrow> u8 list \<Rightarrow> nat \<Rightarrow> u8 list" where
  "ctr_block enc iv k = enc (be_bytes 16 (be_value iv + k))"

definition keystream :: "(u8 list \<Rightarrow> u8 list) \<Rightarrow> u8 list \<Rightarrow> nat \<Rightarrow> u8" where
  "keystream enc iv j = ctr_block enc iv (j div 16) ! (j mod 16)"

definition ctr_xor :: "(u8 list \<Rightarrow> u8 list) \<Rightarrow> u8 list \<Rightarrow> nat \<Rightarrow> u8 list \<Rightarrow> u8 list" where
  "ctr_xor enc iv p src = map (\<lambda>i. src ! i XOR keystream enc iv (p + i)) [0..<length src]"

text \<open>The state after \<open>p\<close> bytes of the message.\<close>

definition ctr_at :: "(u8 list \<Rightarrow> u8 list) \<Rightarrow> u8 list \<Rightarrow> nat \<Rightarrow> ctr_state \<Rightarrow> bool" where
  "ctr_at enc iv p s \<longleftrightarrow>
     ctr_phase s = State_Initialized \<and> buffer_offset s = p mod 16 \<and>
     ctr_counter s = be_bytes 16 (be_value iv + (p + 15) div 16) \<and>
     (p mod 16 \<noteq> 0 \<longrightarrow> encrypted_counter s = ctr_block enc iv (p div 16))"

lemma length_ctr_xor [simp]: "length (ctr_xor enc iv p src) = length src"
  by (simp add: ctr_xor_def)

lemma nth_ctr_xor: "i < length src \<Longrightarrow> ctr_xor enc iv p src ! i = src ! i XOR keystream enc iv (p + i)"
  by (simp add: ctr_xor_def)

lemma ctr_xor_append:
  "ctr_xor enc iv p (xs @ ys) = ctr_xor enc iv p xs @ ctr_xor enc iv (p + length xs) ys"
  by (rule nth_equalityI) (auto simp: nth_ctr_xor nth_append algebra_simps)

lemma ctr_xor_Nil [simp]: "ctr_xor enc iv p [] = []"
  by (simp add: ctr_xor_def)

lemma ctr_xor_twice [simp]: "ctr_xor enc iv p (ctr_xor enc iv p src) = src"
  by (rule nth_equalityI) (simp_all add: nth_ctr_xor xor.assoc)

lemma ctr_at_length: "ctr_at enc iv p s \<Longrightarrow> length (ctr_counter s) = 16"
  by (simp add: ctr_at_def)

lemma IncrementCounter_be_bytes: "IncrementCounter (be_bytes 16 v) = be_bytes 16 (v + 1)"
  by (simp add: IncrementCounter_value)
     (rule be_bytes_cong, simp add: be_value_be_bytes mod_simps)

lemma same_block:
  assumes "p mod 16 + i < (16 :: nat)"
  shows "(p + i) div 16 = p div 16" "(p + i) mod 16 = p mod 16 + i"
proof -
  have "p + i = p div 16 * 16 + (p mod 16 + i)" by simp
  then show "(p + i) div 16 = p div 16" "(p + i) mod 16 = p mod 16 + i"
    using assms by (metis div_mult_self3 div_less add.right_neutral zero_neq_numeral,
      metis mod_mult_self3 mod_less)
qed

text \<open>A stretch of bytes inside one block.\<close>

lemma xor_loop_stream:
  assumes "n \<le> length src" and "p mod 16 + n \<le> 16" and "n \<noteq> 0"
  shows "xor_loop n src (ctr_block enc iv (p div 16)) (p mod 16) = ctr_xor enc iv p (take n src)"
proof (rule nth_equalityI)
  fix i assume "i < length (xor_loop n src (ctr_block enc iv (p div 16)) (p mod 16))"
  then have i: "i < n" by simp
  have "p mod 16 + i < 16" using i assms(2) by simp
  from same_block [OF this] have "(p + i) div 16 = p div 16" "(p + i) mod 16 = p mod 16 + i" .
  then show "xor_loop n src (ctr_block enc iv (p div 16)) (p mod 16) ! i =
      ctr_xor enc iv p (take n src) ! i"
    using i assms(1) by (simp add: xor_loop_def nth_ctr_xor keystream_def)
qed (use assms in simp)

text \<open>Whole blocks, from a block boundary on.\<close>

lemma ctr_at_block:
  assumes "ctr_at enc iv p s" and "p mod 16 = 0"
  shows "ctr_counter s = be_bytes 16 (be_value iv + p div 16)" "buffer_offset s = 0"
proof -
  have "(p + 15) div 16 = p div 16" using same_block(1) [of p 15] assms(2) by simp
  then show "ctr_counter s = be_bytes 16 (be_value iv + p div 16)" "buffer_offset s = 0"
    using assms by (simp_all add: ctr_at_def)
qed

lemma next_block:
  assumes "0 < p mod 16 + n" and "p mod 16 + n \<le> (16 :: nat)"
  shows "(p + n + 15) div 16 = p div 16 + 1"
proof -
  define r where "r = p mod 16"
  have "p + n + 15 = (r + n + 15) + 16 * (p div 16)"
    using mult_div_mod_eq [of 16 p] by (simp add: r_def del: mult_div_mod_eq)
  moreover have "(k + 15) div 16 = 1" if "0 < k" "k \<le> 16" for k :: nat using that by simp
  note this [of "r + n"]
  ultimately show ?thesis
    using assms div_mult_self2 [of 16 "r + n + 15" "p div 16"] by (simp only: r_def)
qed

lemma ProcessBlock_stream:
  assumes "ctr_at enc iv p s" and "p mod 16 = 0" and "0 < n" and "n \<le> 16" and "n \<le> length src"
  shows "fst (ProcessBlock enc src n s) = ctr_xor enc iv p (take n src)"
    and "ctr_at enc iv (p + n) ((snd (ProcessBlock enc src n s))\<lparr>buffer_offset := n mod 16\<rparr>)"
proof -
  note c = ctr_at_block [OF assms(1,2)]
  show "fst (ProcessBlock enc src n s) = ctr_xor enc iv p (take n src)"
    using xor_loop_stream [of n src p enc iv] assms by (simp add: ProcessBlock_def c ctr_block_def)
  have "(p + n) mod 16 = n mod 16" using assms(2) by (metis add.left_neutral mod_add_left_eq)
  moreover have "(p + n) div 16 = p div 16" if "n mod 16 \<noteq> 0"
  proof -
    have "n < 16" using that assms(4) by (cases "n = 16") auto
    then show ?thesis using same_block(1) [of p n] assms(2) by simp
  qed
  ultimately show "ctr_at enc iv (p + n) ((snd (ProcessBlock enc src n s))\<lparr>buffer_offset := n mod 16\<rparr>)"
    using assms(1) next_block [of p n] same_block(1) [of p 15] assms(2-4)
    by (simp add: ctr_at_def ProcessBlock_def c IncrementCounter_be_bytes ctr_block_def)
qed

lemma ProcessBlocks_stream:
  assumes "ctr_at enc iv p s" and "p mod 16 = 0" and "16 * n \<le> length src"
  shows "fst (ProcessBlocks enc src n s) = ctr_xor enc iv p (take (16 * n) src) \<and>
    ctr_at enc iv (p + 16 * n) (snd (ProcessBlocks enc src n s))"
  using assms
proof (induction n arbitrary: p src s)
  case 0
  then show ?case by simp
next
  case (Suc n)
  let ?s = "snd (ProcessBlock enc src 16 s)"
  have off: "?s\<lparr>buffer_offset := 0\<rparr> = ?s"
    using ctr_at_block(2) [OF Suc.prems(1,2)] by (simp add: ProcessBlock_def)
  note B = ProcessBlock_stream [OF Suc.prems(1,2), of 16 src]
  have d: "fst (ProcessBlock enc src 16 s) = ctr_xor enc iv p (take 16 src)"
    and at: "ctr_at enc iv (p + 16) ?s"
    using B Suc.prems(3) off by simp_all
  have "(p + 16) mod 16 = 0" "16 * n \<le> length (drop 16 src)" using Suc.prems(2,3) by simp_all
  note IH = Suc.IH [OF at this]
  have "take (16 * Suc n) src = take 16 src @ take (16 * n) (drop 16 src)"
    by (simp add: take_add)
  moreover have "min (length src) 16 = 16" using Suc.prems(3) by simp
  ultimately show ?case
    using IH d by (auto simp: ctr_xor_append add.assoc split: prod.splits)
qed

text \<open>The three parts of \<open>Update\<close>.\<close>

lemma update_buffered_stream:
  assumes "ctr_at enc iv p s"
  obtains n t where "n \<le> length src" "ctr_at enc iv (p + n) t"
    "update_buffered src s = (ctr_xor enc iv p (take n src), drop n src, t)"
    "(p + n) mod 16 = 0 \<or> n = length src"
proof (cases "p mod 16 = 0 \<or> src = []")
  case True
  then have "update_buffered src s = (ctr_xor enc iv p (take 0 src), drop 0 src, s)"
    using assms by (auto simp: update_buffered_def ctr_at_def xor_loop_def Let_def)
  then show ?thesis using that [of 0 s] assms True by auto
next
  case False
  define n where "n = min (16 - p mod 16) (length src)"
  define t where "t = s\<lparr>buffer_offset := (if p mod 16 + n = 16 then 0 else p mod 16 + n)\<rparr>"
  have n: "n \<le> length src" "p mod 16 + n \<le> 16" "n \<noteq> 0"
  proof -
    have "p mod 16 < 16" "0 < length src" using False by simp_all
    then show "n \<le> length src" "p mod 16 + n \<le> 16" "n \<noteq> 0" unfolding n_def by linarith+
  qed
  have u: "update_buffered src s = (ctr_xor enc iv p (take n src), drop n src, t)"
    using xor_loop_stream [OF n, of enc iv] False assms
    by (simp add: update_buffered_def ctr_at_def n_def [symmetric] t_def Let_def)
  have at: "ctr_at enc iv (p + n) t \<and> ((p + n) mod 16 = 0 \<or> n = length src)"
  proof -
    have t: "buffer_offset t = (if p mod 16 + n = 16 then 0 else p mod 16 + n)"
      "ctr_phase t = ctr_phase s" "ctr_counter t = ctr_counter s"
      "encrypted_counter t = encrypted_counter s"
      by (simp_all add: t_def)
    have c: "(p + n + 15) div 16 = (p + 15) div 16"
      using next_block [of p n] next_block [of p 0] n False by simp
    show ?thesis
    proof (cases "p mod 16 + n = 16")
      case True
      then have m: "(p + n) mod 16 = 0" using mod_add_left_eq [of p 16 n] by (simp only: mod_self)
      show ?thesis using assms True unfolding ctr_at_def t c m by simp
    next
      case less: False
      with n(2) have "p mod 16 + n < 16" by linarith
      note b = same_block [OF this]
      have "n = length src" using less by (auto simp: n_def min_def split: if_splits)
      then show ?thesis using assms less False unfolding ctr_at_def t c b by simp
    qed
  qed
  show ?thesis by (rule that [OF n(1) conjunct1 [OF at] u conjunct2 [OF at]])
qed

lemma update_blocks_stream:
  assumes "ctr_at enc iv p s" and "p mod 16 = 0 \<or> src = []"
  obtains n t where "n \<le> length src" "ctr_at enc iv (p + n) t"
    "update_blocks enc src s = (ctr_xor enc iv p (take n src), drop n src, t)"
    "(p + n) mod 16 = 0 \<or> n = length src" "length src - n < 16"
proof (cases "16 \<le> length src")
  case False
  then have "update_blocks enc src s = (ctr_xor enc iv p (take 0 src), drop 0 src, s)"
    by (simp add: update_blocks_def)
  then show ?thesis using that [of 0 s] assms False by auto
next
  case True
  define n where "n = 16 * (length src div 16)"
  define t where "t = snd (ProcessBlocks128 enc src (length src div 16) s)"
  have n: "n \<le> length src" "length src - n < 16"
    using mult_div_mod_eq [of 16 "length src"] unfolding n_def by linarith+
  have p: "p mod 16 = 0" using assms(2) True by auto
  note R = ProcessBlocks_stream [OF assms(1) p, of "length src div 16" src]
  have e: "t = (snd (ProcessBlocks enc src (length src div 16) s))\<lparr>encrypted_counter := encrypted_counter s\<rparr>"
    unfolding t_def ProcessBlocks128_template [OF ctr_at_length [OF assms(1)]]
    by (simp split: prod.splits)
  have d: "fst (ProcessBlocks128 enc src (length src div 16) s) = ctr_xor enc iv p (take n src)"
    unfolding ProcessBlocks128_template [OF ctr_at_length [OF assms(1)]]
    using R n(1) by (auto simp: n_def split: prod.splits)
  have z: "(p + n) mod 16 = 0" using p by (simp add: n_def)
  have "ctr_at enc iv (p + n) t"
  proof -
    have "ctr_at enc iv (p + n) (snd (ProcessBlocks enc src (length src div 16) s))"
      using R n(1) unfolding n_def [symmetric] by (rule_tac conjunct2) blast
    then show ?thesis using z unfolding e ctr_at_def by simp
  qed
  moreover have "update_blocks enc src s = (ctr_xor enc iv p (take n src), drop n src, t)"
  proof -
    have "ProcessBlocks128 enc src (length src div 16) s = (ctr_xor enc iv p (take n src), t)"
      unfolding t_def d [symmetric] by (rule prod.collapse [symmetric])
    moreover have "length src div 16 * 16 = n" by (simp add: n_def)
    ultimately show ?thesis using True by (simp only: update_blocks_def Let_def if_True prod.case)
  qed
  ultimately show ?thesis by (rule that [OF n(1) _ _ disjI1 [OF z] n(2)])
qed

lemma update_rest_stream:
  assumes "ctr_at enc iv p s" and "p mod 16 = 0 \<or> src = []" and "length src < 16"
  obtains t where "ctr_at enc iv (p + length src) t" "update_rest enc src s = (ctr_xor enc iv p src, t)"
proof (cases "src = []")
  case True
  then show ?thesis using that [of s] assms(1) by (simp add: update_rest_def)
next
  case False
  then have p: "p mod 16 = 0" "0 < length src" "length src \<le> 16" using assms by auto
  note B = ProcessBlock_stream [OF assms(1) p order_refl]
  show ?thesis
    by (rule that [OF B(2)]) (use B(1) p assms(3) in \<open>auto simp: update_rest_def split: prod.splits\<close>)
qed

text \<open>
  \<open>Update\<close> as a whole: from the state at \<open>p\<close> it writes the source combined with the
  stream from \<open>p\<close> on, and is then at \<open>p\<close> plus the size of the source.
\<close>

lemma Ctr_Update_stream:
  assumes "ctr_at enc iv p s" and "audit \<longrightarrow> length src \<le> unat dst_size"
  obtains t where "ctr_at enc iv (p + length src) t"
    "Ctr_Update audit enc dst_size src s = Inr (length src, ctr_xor enc iv p src, t)"
proof -
  obtain n1 t1 where 1: "n1 \<le> length src" "ctr_at enc iv (p + n1) t1"
    "update_buffered src s = (ctr_xor enc iv p (take n1 src), drop n1 src, t1)"
    "(p + n1) mod 16 = 0 \<or> n1 = length src"
    by (rule update_buffered_stream [OF assms(1)])
  then have "(p + n1) mod 16 = 0 \<or> drop n1 src = []" by auto
  then obtain n2 t2 where 2: "n2 \<le> length (drop n1 src)" "ctr_at enc iv (p + n1 + n2) t2"
    "update_blocks enc (drop n1 src) t1 =
       (ctr_xor enc iv (p + n1) (take n2 (drop n1 src)), drop n2 (drop n1 src), t2)"
    "(p + n1 + n2) mod 16 = 0 \<or> n2 = length (drop n1 src)" "length (drop n1 src) - n2 < 16"
    by (rule update_blocks_stream [OF 1(2)])
  then have "(p + n1 + n2) mod 16 = 0 \<or> drop n2 (drop n1 src) = []"
    "length (drop n2 (drop n1 src)) < 16" by auto
  then obtain t where 3: "ctr_at enc iv (p + n1 + n2 + length (drop n2 (drop n1 src))) t"
    "update_rest enc (drop n2 (drop n1 src)) t2 =
       (ctr_xor enc iv (p + n1 + n2) (drop n2 (drop n1 src)), t)"
    by (rule update_rest_stream [OF 2(2)])
  have len: "p + n1 + n2 + length (drop n2 (drop n1 src)) = p + length src"
    using 1(1) 2(1) by simp
  let ?m = "drop n1 src"
  have "ctr_xor enc iv (p + n1) ?m = ctr_xor enc iv (p + n1) (take n2 ?m) @
      ctr_xor enc iv (p + n1 + n2) (drop n2 ?m)"
    using ctr_xor_append [of enc iv "p + n1" "take n2 ?m" "drop n2 ?m"] 2(1)
    by (simp only: append_take_drop_id length_take min_absorb2)
  moreover have "ctr_xor enc iv p src = ctr_xor enc iv p (take n1 src) @ ctr_xor enc iv (p + n1) ?m"
    using ctr_xor_append [of enc iv p "take n1 src" ?m] 1(1)
    by (simp only: append_take_drop_id length_take min_absorb2)
  moreover have "ctr_phase s = State_Initialized" using assms(1) by (simp add: ctr_at_def)
  ultimately have "Ctr_Update audit enc dst_size src s = Inr (length src, ctr_xor enc iv p src, t)"
    using assms(2) by (auto simp: Ctr_Update_def AMS_ASSERT_def 1(3) 2(3) 3(2) simp del: drop_drop)
  then show ?thesis using that 3(1) unfolding len by blast
qed

lemma Ctr_Initialize_at:
  assumes "length iv = 16" and "length (ctr_counter s) = 16" and "0 \<le> sint offset"
  obtains t where "Ctr_Initialize audit enc iv offset s = Inr t" "ctr_at enc iv (unat offset) t"
proof -
  let ?p = "unat offset"
  define c where "c = be_bytes 16 (be_value iv + ?p div 16)"
  define u where "u = s\<lparr>ctr_phase := State_Initialized, ctr_counter := c, buffer_offset := 0\<rparr>"
  define t where "t = (if ?p mod 16 \<noteq> 0
    then u\<lparr>encrypted_counter := enc c, ctr_counter := IncrementCounter c, buffer_offset := ?p mod 16\<rparr>
    else u)"
  have q: "unat (offset div 16) = ?p div 16" "unat (offset mod 16) = ?p mod 16"
    by (simp_all add: unat_div_distrib unat_mod_distrib)
  have zero: "offset div 16 = 0 \<longleftrightarrow> ?p div 16 = 0" using q(1) by (metis unat_0 unat_eq_zero)
  have "poke 0 iv (ctr_counter s) = iv" using assms by (simp add: poke_def)
  then have "Ctr_Initialize audit enc iv offset s = Inr t"
    using assms(1,3) IncrementCounterBy_value [OF assms(1), of "offset div 16"]
      be_bytes_be_value' [OF assms(1)] zero
    by (simp add: Ctr_Initialize_def SwitchMessage_def t_def u_def c_def q word_greater_zero_iff Let_def)
  moreover have "ctr_at enc iv ?p t"
  proof (cases "?p mod 16 = 0")
    case True
    then show ?thesis using same_block(1) [of ?p 15] by (simp add: ctr_at_def t_def u_def c_def)
  next
    case False
    then show ?thesis
      using next_block [of ?p 0]
      by (simp add: ctr_at_def t_def u_def c_def IncrementCounter_be_bytes ctr_block_def)
  qed
  ultimately show ?thesis by (rule that)
qed

text \<open>The one-shot functions are the stream.\<close>

lemmas one_shot_defs = EncryptAes128CtrPartial_def DecryptAes128CtrPartial_def
  EncryptAes128Ctr_def DecryptAes128Ctr_def

lemma DecryptAes128CtrPartial_stream:
  assumes "length key = 16" "length iv = 16" "length (ctr_counter m) = 16" "0 \<le> sint offset"
    and "audit \<longrightarrow> length src \<le> unat dst_size"
  shows "DecryptAes128CtrPartial audit aes m dst_size key iv offset src =
    Inr (length src, ctr_xor (aes key) iv (unat offset) src)"
proof -
  have "length (ctr_counter (CtrModeImpl_ctor m)) = 16" using assms(3) by (simp add: CtrModeImpl_ctor_def)
  from Ctr_Initialize_at [OF assms(2) this assms(4), of audit "aes key"]
  obtain s where s: "Ctr_Initialize audit (aes key) iv offset (CtrModeImpl_ctor m) = Inr s"
    "ctr_at (aes key) iv (unat offset) s" .
  from Ctr_Update_stream [OF s(2) assms(5)] obtain t where
    "Ctr_Update audit (aes key) dst_size src s =
       Inr (length src, ctr_xor (aes key) iv (unat offset) src, t)" .
  then show ?thesis using assms s(1) by (simp add: DecryptAes128CtrPartial_def AesCtr_Initialize_def)
qed

lemma EncryptAes128Ctr_Decrypt:
  "EncryptAes128CtrPartial audit aes m dst_size key iv offset src =
     DecryptAes128CtrPartial audit aes m dst_size key iv offset src"
  "EncryptAes128Ctr audit aes m dst_size key iv src =
     DecryptAes128CtrPartial audit aes m dst_size key iv 0 src"
  "DecryptAes128Ctr audit aes m dst_size key iv src =
     DecryptAes128CtrPartial audit aes m dst_size key iv 0 src"
  by (simp_all add: one_shot_defs)

lemma ctr_xor_drop: "k \<le> length src \<Longrightarrow> drop k (ctr_xor enc iv 0 src) = ctr_xor enc iv k (drop k src)"
  using ctr_xor_append [of enc iv 0 "take k src" "drop k src"] by simp

lemma Decrypt_tail_stream:
  assumes "EncryptAes128Ctr audit aes m dst_size key iv plain = Inr (k, cipher)"
    and "length key = 16" "length iv = 16" "length (ctr_counter m) = 16" "length (ctr_counter m') = 16"
    and "length plain \<le> unat dst_size" "0 \<le> sint offset" "unat offset \<le> length plain"
  shows "DecryptAes128CtrPartial audit aes m' dst_size key iv offset (drop (unat offset) cipher) =
     Inr (length plain - unat offset, drop (unat offset) plain)"
proof -
  have c: "cipher = ctr_xor (aes key) iv 0 plain"
    using assms by (simp add: EncryptAes128Ctr_Decrypt DecryptAes128CtrPartial_stream)
  have "length (drop (unat offset) cipher) \<le> unat dst_size" using assms(6) by (simp add: c)
  then show ?thesis
    using assms by (simp add: c DecryptAes128CtrPartial_stream ctr_xor_drop)
qed

text \<open>A message handed over in pieces, each with the size of its destination.\<close>

fun Ctr_Updates ::
  "bool \<Rightarrow> (u8 list \<Rightarrow> u8 list) \<Rightarrow> (u64 \<times> u8 list) list \<Rightarrow> ctr_state \<Rightarrow> (u8 list \<times> ctr_state) run" where
  "Ctr_Updates audit enc [] s = Inr ([], s)"
| "Ctr_Updates audit enc ((dst_size, src) # rest) s =
     then_run (Ctr_Update audit enc dst_size src s) (\<lambda>(n, d, s).
     then_run (Ctr_Updates audit enc rest s) (\<lambda>(ds, s). Inr (d @ ds, s)))"

lemma Ctr_Updates_stream:
  "ctr_at enc iv p s \<Longrightarrow> \<forall>(n, src) \<in> set chunks. length src \<le> unat n \<Longrightarrow>
   \<exists>t. Ctr_Updates audit enc chunks s = Inr (ctr_xor enc iv p (concat (map snd chunks)), t) \<and>
     ctr_at enc iv (p + length (concat (map snd chunks))) t"
proof (induction chunks arbitrary: p s)
  case Nil
  then show ?case by simp
next
  case (Cons c chunks)
  obtain n src where c: "c = (n, src)" by (cases c)
  with Cons.prems(2) have "audit \<longrightarrow> length src \<le> unat n" by simp
  from Ctr_Update_stream [OF Cons.prems(1) this] obtain t where
    t: "ctr_at enc iv (p + length src) t"
      "Ctr_Update audit enc n src s = Inr (length src, ctr_xor enc iv p src, t)" .
  from Cons.IH [OF t(1)] Cons.prems(2) show ?case
    by (auto simp: c t(2) ctr_xor_append add.assoc)
qed

section \<open>A sample cipher\<close>

text \<open>For the witnesses: an involutive cipher, and the memory of an object.\<close>

definition mask_block :: "u8 list \<Rightarrow> u8 list \<Rightarrow> u8 list" where
  "mask_block key block = map (\<lambda>b. b XOR 0x5A) block"

definition sample_memory :: ctr_state where
  "sample_memory = \<lparr>ctr_counter = replicate 16 0xCD, encrypted_counter = replicate 16 0xCD,
     buffer_offset = 5, ctr_phase = State_Initialized\<rparr>"

lemma length_sample_memory [simp]: "length (ctr_counter sample_memory) = 16"
  by (simp add: sample_memory_def)

section \<open>Properties\<close>

text \<open>C26: whatever the pieces in which a message is handed to a counter-mode object that was
  initialised at an offset, what it writes is the message combined byte by byte with the key
  stream from that offset on: the buffered rest of a block, the routine for whole blocks, the carry
  of the 128-bit counter and the addition of the offset are not visible.\<close>

theorem counter_mode_stream:
  "length iv = 16 \<Longrightarrow> length (ctr_counter m) = 16 \<Longrightarrow> 0 \<le> sint offset \<Longrightarrow>
   (\<forall>(n, src) \<in> set chunks. length src \<le> unat n) \<Longrightarrow>
   \<exists>t. then_run (Ctr_Initialize audit enc iv offset m) (Ctr_Updates audit enc chunks) =
     Inr (ctr_xor enc iv (unat offset) (concat (map snd chunks)), t)"
  by (rule Ctr_Initialize_at [of iv m offset audit enc])
     (use Ctr_Updates_stream [of enc iv "unat offset" _ chunks audit] in fastforce)+

theorem counter_mode_stream_witness:
  "\<exists>t. then_run (Ctr_Initialize True (mask_block []) (replicate 16 0xFF) 7 sample_memory)
       (Ctr_Updates True (mask_block []) [(3, [1, 2, 3]), (0, []), (64, replicate 50 9)]) =
     Inr (ctr_xor (mask_block []) (replicate 16 0xFF) 7 ([1, 2, 3] @ replicate 50 9), t)"
  using counter_mode_stream [of "replicate 16 0xFF" sample_memory 7
      "[(3, [1, 2, 3]), (0, []), (64, replicate 50 9)]" True "mask_block []"]
  by simp

text \<open>C28: the routine written for AES-128 (three blocks at once, the counter in two byte-reversed
  halves, the carry by \<open>adds\<close> and \<open>cinc\<close>) writes what the template writes and leaves the same
  counter; it only does not keep the last encrypted counter.\<close>

theorem optimised_blocks_equal:
  "length (ctr_counter s) = 16 \<Longrightarrow>
   ProcessBlocks128 enc src n s =
     (let (d, t) = ProcessBlocks enc src n s in (d, t\<lparr>encrypted_counter := encrypted_counter s\<rparr>))"
  by (rule ProcessBlocks128_template)

theorem optimised_blocks_equal_witness:
  "ProcessBlocks128 (mask_block []) (replicate 80 1) 5 sample_memory =
     (let (d, t) = ProcessBlocks (mask_block []) (replicate 80 1) 5 sample_memory
      in (d, t\<lparr>encrypted_counter := encrypted_counter sample_memory\<rparr>))"
  by (rule optimised_blocks_equal) simp

text \<open>Any tail of an encrypted message can be decrypted on its own, from its offset, and gives
  the tail of the message.\<close>

theorem decrypt_tail:
  "EncryptAes128Ctr audit aes m dst_size key iv plain = Inr (k, cipher) \<Longrightarrow>
   length key = 16 \<Longrightarrow> length iv = 16 \<Longrightarrow> length (ctr_counter m) = 16 \<Longrightarrow>
   length (ctr_counter m') = 16 \<Longrightarrow> length plain \<le> unat dst_size \<Longrightarrow>
   0 \<le> sint offset \<Longrightarrow> unat offset \<le> length plain \<Longrightarrow>
   DecryptAes128CtrPartial audit aes m' dst_size key iv offset (drop (unat offset) cipher) =
     Inr (length plain - unat offset, drop (unat offset) plain)"
  by (rule Decrypt_tail_stream)

theorem decrypt_tail_witness:
  "\<exists>cipher. EncryptAes128Ctr True mask_block sample_memory 30 (replicate 16 1) (replicate 16 0xFF)
       (replicate 30 7) = Inr (30, cipher) \<and>
     DecryptAes128CtrPartial True mask_block sample_memory 30 (replicate 16 1) (replicate 16 0xFF) 20
       (drop 20 cipher) = Inr (10, replicate 10 7)"
proof -
  let ?c = "ctr_xor (mask_block (replicate 16 1)) (replicate 16 0xFF) 0 (replicate 30 7)"
  have e: "EncryptAes128Ctr True mask_block sample_memory 30 (replicate 16 1) (replicate 16 0xFF)
      (replicate 30 7) = Inr (30, ?c)"
    unfolding EncryptAes128Ctr_Decrypt
    by (subst DecryptAes128CtrPartial_stream) simp_all
  from decrypt_tail [OF this, of sample_memory 20] e show ?thesis by auto
qed

end
