(* ===== verification/Crypto.thy ===== *)
theory Crypto
  imports Types CtrMode
begin

text \<open>
  \<open>capsrv_crypto.cpp\<close>: the keys and their derivation, the MACs over image and movie files, the
  encryption of application identifiers in file names, and the two encodings of album entries for
  applications. Counter mode is in \<open>CtrMode\<close>; AES, SHA-256, HMAC and the \<open>spl\<close> service are
  libraries outside the repository: functions of the record \<open>crypto_lib\<close>.
\<close>

section \<open>The libraries\<close>

record 'w crypto_lib =
  aes128_encrypt :: "u8 list \<Rightarrow> u8 list \<Rightarrow> u8 list"
  aes128_decrypt :: "u8 list \<Rightarrow> u8 list \<Rightarrow> u8 list"
  aes256_encrypt :: "u8 list \<Rightarrow> u8 list \<Rightarrow> u8 list"
  aes256_decrypt :: "u8 list \<Rightarrow> u8 list \<Rightarrow> u8 list"
  sha256 :: "u8 list \<Rightarrow> u8 list"
  hmac_sha256 :: "u8 list \<Rightarrow> u8 list \<Rightarrow> u8 list"
  splCryptoLockAesEngine :: "'w \<Rightarrow> result \<times> u32 \<times> 'w"
  splCryptoUnlockAesEngine :: "u32 \<Rightarrow> 'w \<Rightarrow> 'w"
  splCryptoLoadAesKey :: "u8 list \<Rightarrow> u8 list \<Rightarrow> u32 \<Rightarrow> 'w \<Rightarrow> result \<times> 'w"
  splCryptoComputeCmac :: "u8 list \<Rightarrow> u32 \<Rightarrow> 'w \<Rightarrow> result \<times> u8 list \<times> 'w"
  splCryptoGenerateAesKek :: "u8 list \<Rightarrow> 'w \<Rightarrow> result \<times> u8 list \<times> 'w"
  splCryptoGenerateAesKey :: "u8 list \<Rightarrow> u8 list \<Rightarrow> 'w \<Rightarrow> result \<times> u8 list \<times> 'w"

text \<open>
  What is documented of a block cipher: on blocks of sixteen bytes encryption and decryption under
  one key are inverse to each other and yield sixteen bytes.
\<close>

definition block_cipher ::
  "(u8 list \<Rightarrow> u8 list \<Rightarrow> u8 list) \<Rightarrow> (u8 list \<Rightarrow> u8 list \<Rightarrow> u8 list) \<Rightarrow> bool" where
  "block_cipher enc dec \<longleftrightarrow>
     (\<forall>k b. length b = 16 \<longrightarrow>
        length (enc k b) = 16 \<and> length (dec k b) = 16 \<and> dec k (enc k b) = b \<and> enc k (dec k b) = b)"

section \<open>Keys\<close>

definition screenshot_kek_source :: "u8 list" where
  "screenshot_kek_source =
    [0x9B, 0xBF, 0xDE, 0x01, 0xFA, 0x18, 0xBB, 0xEE,
     0x87, 0xA4, 0xAC, 0xC5, 0x67, 0xAC, 0xD4, 0x21]"

definition screenshot_key_source :: "u8 list" where
  "screenshot_key_source =
    [0x15, 0x0D, 0x26, 0xD1, 0x17, 0xEE, 0x44, 0xFF,
     0x79, 0x67, 0x43, 0x8A, 0x20, 0x14, 0x63, 0x30]"

definition movie_kek_source :: "u8 list" where
  "movie_kek_source =
    [0x55, 0xB4, 0x30, 0xAF, 0x16, 0x8D, 0x9A, 0x66,
     0x6A, 0x8F, 0xED, 0xE3, 0xA5, 0x52, 0x32, 0xEA]"

definition movie_key_source :: "u8 list" where
  "movie_key_source =
    [0x71, 0x70, 0x7D, 0xED, 0x3E, 0x2F, 0x48, 0x03,
     0x37, 0x2F, 0x42, 0x35, 0x12, 0x39, 0x2C, 0xFE]"

definition aes_kek_source :: "u8 list" where
  "aes_kek_source =
    [0xE2, 0x41, 0x1A, 0xA8, 0x2E, 0x55, 0xEB, 0x16,
     0xF2, 0xF7, 0x82, 0xFB, 0x44, 0x10, 0xFE, 0xE5]"

definition aes_key_source :: "u8 list" where
  "aes_key_source =
    [0x8C, 0xFB, 0x07, 0x94, 0xC8, 0x1C, 0xD3, 0x88,
     0x80, 0x71, 0x01, 0x98, 0xAC, 0xB9, 0x13, 0xB9]"

definition hmac_encrypted_key :: "u8 list" where
  "hmac_encrypted_key =
    [0x56, 0x13, 0xA8, 0xAF, 0x2C, 0x46, 0xF2, 0x0D,
     0xC6, 0x74, 0x4A, 0xA2, 0x3A, 0x51, 0x09, 0x52,
     0xEC, 0xBE, 0x03, 0xF1, 0x46, 0x2A, 0x95, 0x79,
     0x79, 0x0A, 0xD7, 0x01, 0x93, 0x34, 0x80, 0xDA]"

definition path_encrypted_key :: "u8 list" where
  "path_encrypted_key =
    [0xD9, 0x63, 0x84, 0x08, 0x48, 0x9B, 0x43, 0xDB,
     0x79, 0x50, 0xDC, 0x3D, 0x32, 0x92, 0x2B, 0x3A]"

definition exif_encrypted_key :: "u8 list" where
  "exif_encrypted_key =
    [0xC3, 0x3F, 0x45, 0xBE, 0xF7, 0x10, 0x19, 0x50,
     0x42, 0x26, 0x95, 0xD7, 0xDC, 0x48, 0x6E, 0x5E]"

definition application_encrypted_key :: "u8 list" where
  "application_encrypted_key =
    [0x38, 0x5E, 0x44, 0xF9, 0x60, 0xFB, 0x37, 0x10,
     0xEA, 0x2A, 0xD3, 0xC8, 0x40, 0xB8, 0x89, 0xA2,
     0x34, 0x7B, 0xFD, 0xA3, 0xBC, 0xB5, 0x03, 0xD0,
     0xCE, 0xD0, 0xE5, 0x81, 0x6F, 0x4D, 0x8B, 0xB8]"

definition exif_iv :: "u8 list" where
  "exif_iv =
    [0x34, 0x62, 0xBD, 0x0E, 0xBE, 0x71, 0x82, 0x74,
     0x28, 0xB9, 0x7C, 0x3B, 0x29, 0xBF, 0xDF, 0x97]"

record crypto_keys =
  screenshot_kek :: "u8 list"
  movie_kek :: "u8 list"
  hmac_key :: "u8 list"
  path_key :: "u8 list"
  exif_key :: "u8 list"
  application_key :: "u8 list"

definition initial_keys :: crypto_keys where
  "initial_keys = \<lparr>screenshot_kek = replicate 16 0, movie_kek = replicate 16 0,
     hmac_key = replicate 32 0, path_key = replicate 16 0, exif_key = replicate 16 0,
     application_key = replicate 32 0\<rparr>"

text \<open>An \<open>spl\<close> call as an operation on the keys and the world.\<close>

definition with_keys :: "crypto_keys \<Rightarrow> result \<times> 'a \<times> 'w \<Rightarrow> ('a, crypto_keys \<times> 'w) outcome" where
  "with_keys k r = (case r of (rc, a, w) \<Rightarrow> Inr (rc, a, (k, w)))"

definition Initialize_crypto ::
  "'w crypto_lib \<Rightarrow> crypto_keys \<times> 'w \<Rightarrow> (unit, crypto_keys \<times> 'w) outcome" where
  "Initialize_crypto c = (\<lambda>(k, w).
     R_TRY (with_keys k (splCryptoGenerateAesKek c screenshot_kek_source w)) () (\<lambda>kek (k, w).
     let k = k\<lparr>screenshot_kek := kek\<rparr> in
     R_TRY (with_keys k (splCryptoGenerateAesKek c movie_kek_source w)) () (\<lambda>kek (k, w).
     let k = k\<lparr>movie_kek := kek\<rparr> in
     R_TRY (with_keys k (splCryptoGenerateAesKek c aes_kek_source w)) () (\<lambda>aes_kek (k, w).
     R_TRY (with_keys k (splCryptoGenerateAesKey c aes_kek aes_key_source w)) () (\<lambda>aes_aes_key (k, w).
     let dec = aes128_decrypt c aes_aes_key;
         k = k\<lparr>exif_key := dec exif_encrypted_key\<rparr>;
         k = k\<lparr>path_key := dec path_encrypted_key\<rparr>;
         k = k\<lparr>application_key := dec (take 16 application_encrypted_key) @
                                dec (drop 16 application_encrypted_key)\<rparr>;
         k = k\<lparr>hmac_key := dec (take 16 hmac_encrypted_key) @ dec (drop 16 hmac_encrypted_key)\<rparr>
     in Inr (ResultSuccess, (), (k, w)))))))"

section \<open>MACs of files\<close>

definition with_world :: "result \<times> 'a \<times> 'w \<Rightarrow> ('a, 'w) outcome" where
  "with_world r = Inr r"

text \<open>The engine is locked, and unlocked again when the scope is left.\<close>

definition GenerateMac ::
  "'w crypto_lib \<Rightarrow> u8 list \<Rightarrow> u8 list \<Rightarrow> u8 list \<Rightarrow> 'w \<Rightarrow> (u8 list, 'w) outcome" where
  "GenerateMac c input kek key_source w =
     R_TRY (with_world (splCryptoLockAesEngine c w)) [] (\<lambda>keyslot w.
       ON_SCOPE_EXIT (splCryptoUnlockAesEngine c keyslot)
         (R_TRY (case splCryptoLoadAesKey c kek key_source keyslot w of (rc, w) \<Rightarrow> Inr (rc, (), w)) []
           (\<lambda>_ w. with_world (splCryptoComputeCmac c input keyslot w))))"

text \<open>
  The hash reads \<open>size - makerNoteOffset + 0x10\<close> bytes from \<open>makerNoteOffset + 0x10\<close> on,
  in 64-bit arithmetic; \<open>jpeg\<close> is the buffer the pointer argument points to.
\<close>

definition GenerateScreenshotMac ::
  "'w crypto_lib \<Rightarrow> crypto_keys \<Rightarrow> u8 list \<Rightarrow> u64 \<Rightarrow> u64 \<Rightarrow> 'w \<Rightarrow> (u8 list, 'w) outcome" where
  "GenerateScreenshotMac c k jpeg jpeg_size makerNoteOffset w =
     then_run (bytes_at jpeg (unat makerNoteOffset + 0x10) (unat (jpeg_size - makerNoteOffset + 0x10)))
       (\<lambda>tail. let hash = sha256 c (replicate 16 0 @ tail) in
        R_TRY (GenerateMac c hash (screenshot_kek k) screenshot_key_source w) []
          (\<lambda>mac w. Inr (ResultSuccess, mac, w)))"

definition GenerateMovieMac ::
  "'w crypto_lib \<Rightarrow> crypto_keys \<Rightarrow> u8 list \<Rightarrow> 'w \<Rightarrow> (u8 list, 'w) outcome" where
  "GenerateMovieMac c k input w = GenerateMac c input (movie_kek k) movie_key_source w"

definition ComputeScreenShotHMAC ::
  "'w crypto_lib \<Rightarrow> crypto_keys \<Rightarrow> u8 list \<Rightarrow> u64 \<Rightarrow> u64 \<Rightarrow> u8 list run" where
  "ComputeScreenShotHMAC c k jpeg jpeg_size makerNoteOffset =
     (let off = makerNoteOffset + 0x10 in
      then_run (bytes_at jpeg 0 (unat makerNoteOffset)) (\<lambda>prefix.
      then_run (bytes_at jpeg (unat off) (unat (jpeg_size - off))) (\<lambda>rest.
        Inr (take 16 (hmac_sha256 c (hmac_key k) (prefix @ replicate 16 0 @ rest))))))"

section \<open>Identifiers in file names\<close>

definition EncryptExtraPath :: "'w crypto_lib \<Rightarrow> crypto_keys \<Rightarrow> u64 \<Rightarrow> u8 list" where
  "EncryptExtraPath c k app = aes128_encrypt c (path_key k) (le_bytes 8 app @ le_bytes 8 (0 :: u64))"

definition EncryptFileExtension :: "'w crypto_lib \<Rightarrow> crypto_keys \<Rightarrow> u64 \<Rightarrow> bool \<Rightarrow> u8 list" where
  "EncryptFileExtension c k app is_extra =
     aes128_encrypt c (path_key k)
       ((le_bytes 8 app @ le_bytes 8 (0 :: u64))[0xf := (if is_extra then 1 else 0)])"

definition Decrypt_path :: "'w crypto_lib \<Rightarrow> crypto_keys \<Rightarrow> u8 list \<Rightarrow> u64 \<times> u64" where
  "Decrypt_path c k src =
     (let dst = aes128_decrypt c (path_key k) src in (le_word (take 8 dst), le_word (drop 8 dst)))"

section \<open>Album entries for applications\<close>

definition EncryptV0 :: "'w crypto_lib \<Rightarrow> AlbumEntry \<Rightarrow> u8 list \<Rightarrow> ApplicationAlbumEntry" where
  "EncryptV0 c src v0Key =
     aes256_encrypt c v0Key (take 16 (AlbumEntry_bytes src)) @
     aes256_encrypt c v0Key (drop 16 (AlbumEntry_bytes src))"

definition DecryptV0 :: "'w crypto_lib \<Rightarrow> ApplicationAlbumEntry \<Rightarrow> u8 list \<Rightarrow> AlbumEntry" where
  "DecryptV0 c src v0Key =
     AlbumEntry_of_bytes
       (aes256_decrypt c v0Key (take 16 src) @ aes256_decrypt c v0Key (take 16 (drop 16 src)))"

text \<open>The 64-bit exclusive or of an entry encrypted as two blocks.\<close>

definition v1_hash :: "'w crypto_lib \<Rightarrow> crypto_keys \<Rightarrow> u8 list \<Rightarrow> u64" where
  "v1_hash c k bs =
     (let t0 = aes256_encrypt c (application_key k) (take 16 bs);
          t1 = aes256_encrypt c (application_key k) (take 16 (drop 16 bs))
      in le_word (take 8 t0) XOR le_word (take 8 (drop 8 t0)) XOR
         le_word (take 8 t1) XOR le_word (take 8 (drop 8 t1)))"

text \<open>
  \<open>dst\<close> is the destination before the call: its bytes 26 to 30 (\<open>pad_x1a\<close>) are not
  written. The constant error code is \<open>ResultInternalError\<close>.
\<close>

definition EncryptV1 ::
  "'w crypto_lib \<Rightarrow> crypto_keys \<Rightarrow> ApplicationAlbumEntry \<Rightarrow> AlbumEntry \<Rightarrow> u64 \<Rightarrow>
     result \<times> ApplicationAlbumEntry" where
  "EncryptV1 c k dst src version =
     (if \<not> version = 1 then (0x800ce, dst) else
      let tmpEntry = src\<lparr>fileId := (fileId src)\<lparr>pad := (pad (fileId src))[5 := 1]\<rparr>\<rparr>;
          hash = v1_hash c k (AlbumEntry_bytes tmpEntry)
      in (ResultSuccess,
          le_bytes 8 (entry_size src) @ le_bytes 8 hash @ AlbumDateTime_bytes (date_time (fileId src)) @
          [storage_id (fileId src), content_type (fileId src)] @ take 5 (drop 26 dst) @ [1]))"

definition DecryptV1 ::
  "'w crypto_lib \<Rightarrow> crypto_keys \<Rightarrow> AlbumEntry \<Rightarrow> ApplicationAlbumEntry \<Rightarrow> u64 \<Rightarrow>
     result \<times> AlbumEntry" where
  "DecryptV1 c k dst src app =
     (if \<not> src ! 31 = 1 then (ResultAlbumInvalidApplicationId, dst) else
      let tmpEntry = poke 8 (le_bytes 8 app) src in
      if \<not> le_word (take 8 (drop 8 src)) = v1_hash c k tmpEntry
      then (ResultAlbumInvalidApplicationId, dst) else
      (ResultSuccess,
       \<lparr>entry_size = le_word (take 8 src),
        fileId = \<lparr>application_id = app,
                  date_time = AlbumDateTime_of_bytes (take 8 (drop 16 src)),
                  storage_id = src ! 24, content_type = src ! 25, pad = replicate 6 0\<rparr>\<rparr>))"

section \<open>Exif data\<close>

text \<open>
  \<open>buf\<close> is the memory from \<open>ptr\<close> on, decrypted in place; \<open>m\<close> the stack memory of the
  cipher object. The destination is said to have \<open>size - offset\<close> bytes, the source \<open>size\<close>.
\<close>

definition Decrypt_exif ::
  "bool \<Rightarrow> 'w crypto_lib \<Rightarrow> crypto_keys \<Rightarrow> ctr_state \<Rightarrow> u8 list \<Rightarrow> u64 \<Rightarrow> u64 \<Rightarrow> u8 list run" where
  "Decrypt_exif audit c k m buf ptr_size offset =
     then_run (bytes_at buf 0 (unat ptr_size)) (\<lambda>src.
     then_run (DecryptAes128CtrPartial audit (aes128_encrypt c) m (ptr_size - offset) (exif_key k)
                 exif_iv offset src)
       (\<lambda>(n, d). Inr (poke 0 d buf)))"

section \<open>Facts\<close>

lemma block_cipherD:
  assumes "block_cipher enc dec" and "length b = 16"
  shows "length (enc k b) = 16" "length (dec k b) = 16" "dec k (enc k b) = b" "enc k (dec k b) = b"
  using assms by (simp_all add: block_cipher_def)

lemma DecryptV0_EncryptV0:
  assumes "block_cipher (aes256_encrypt c) (aes256_decrypt c)" and "wf_entry e"
  shows "DecryptV0 c (EncryptV0 c e key) key = e"
proof -
  let ?b = "AlbumEntry_bytes e"
  have l: "length (take 16 ?b) = 16" "length (drop 16 ?b) = 16" using assms(2) by simp_all
  note C = block_cipherD [OF assms(1) l(1)] block_cipherD [OF assms(1) l(2)]
  show ?thesis by (simp add: DecryptV0_def EncryptV0_def C assms(2))
qed

lemma length_EncryptV0:
  assumes "block_cipher (aes256_encrypt c) (aes256_decrypt c)" and "wf_entry e"
  shows "length (EncryptV0 c e key) = 32"
  using assms by (simp add: EncryptV0_def block_cipherD(1) [OF assms(1)])

lemma length_EncryptV1:
  assumes "length dst = 32"
  shows "length (snd (EncryptV1 c k dst src 1)) = 32"
  using assms by (simp add: EncryptV1_def Let_def)

lemma EncryptV1_error: "version \<noteq> 1 \<Longrightarrow> EncryptV1 c k dst src version = (ResultInternalError, dst)"
  by (simp add: EncryptV1_def result_values)

text \<open>
  Decryption recomputes the hash over the entry with the application's identifier put back: the
  same bytes were hashed on encryption exactly when the unwritten bytes carry the padding.
\<close>

lemma v1_bytes_agree:
  assumes "wf_entry e" and "length dst = 32" and "take 5 (drop 26 dst) = take 5 (pad (fileId e))"
  shows "poke 8 (le_bytes 8 (application_id (fileId e))) (snd (EncryptV1 c k dst e 1)) =
    AlbumEntry_bytes (e\<lparr>fileId := (fileId e)\<lparr>pad := (pad (fileId e))[5 := 1]\<rparr>\<rparr>)"
proof -
  have "length (pad (fileId e)) = 6" using assms(1) by (simp add: wf_entry_def wf_file_id_def)
  then have "(pad (fileId e))[5 := 1] = take 5 (pad (fileId e)) @ [1]"
    by (simp add: list_update_append1 upd_conv_take_nth_drop)
  then show ?thesis
    using assms(3)
    by (simp add: poke_def EncryptV1_def Let_def AlbumEntry_bytes_def AlbumFileId_bytes_def)
qed

lemma DecryptV1_EncryptV1:
  assumes "wf_entry e" and "length dst = 32" and "take 5 (drop 26 dst) = take 5 (pad (fileId e))"
  shows "DecryptV1 c k out (snd (EncryptV1 c k dst e 1)) (application_id (fileId e)) =
    (0, e\<lparr>fileId := (fileId e)\<lparr>pad := replicate 6 0\<rparr>\<rparr>)"
proof -
  let ?a = "snd (EncryptV1 c k dst e 1)"
  note agree = v1_bytes_agree [OF assms, of c k]
  have l: "length (take 5 (drop 26 dst)) = 5" using assms(2) by simp
  have a: "?a = le_bytes 8 (entry_size e) @ le_bytes 8 (v1_hash c k (AlbumEntry_bytes
      (e\<lparr>fileId := (fileId e)\<lparr>pad := (pad (fileId e))[5 := 1]\<rparr>\<rparr>))) @
      AlbumDateTime_bytes (date_time (fileId e)) @
      [storage_id (fileId e), content_type (fileId e)] @ take 5 (drop 26 dst) @ [1]"
    by (simp add: EncryptV1_def Let_def)
  have "?a ! 31 = 1" "?a ! 24 = storage_id (fileId e)" "?a ! 25 = content_type (fileId e)"
    "take 8 ?a = le_bytes 8 (entry_size e)"
    "take 8 (drop 16 ?a) = AlbumDateTime_bytes (date_time (fileId e))"
    "take 8 (drop 8 ?a) = le_bytes 8 (v1_hash c k (AlbumEntry_bytes
      (e\<lparr>fileId := (fileId e)\<lparr>pad := (pad (fileId e))[5 := 1]\<rparr>\<rparr>)))"
    unfolding a using l by (simp_all add: nth_append)
  then show ?thesis unfolding DecryptV1_def Let_def by (simp add: agree)
qed

lemma screenshot_mac_region:
  assumes "unat n + 32 < 2 ^ 64"
  shows "unat (n :: u64) < unat off + 16 + unat (n - off + 16)"
proof -
  have "of_nat (unat off + 16 + unat (n - off + 16)) = n + 32" by simp
  then have "unat (n + 32) = (unat off + 16 + unat (n - off + 16)) mod 2 ^ LENGTH(64)"
    by (metis unat_of_nat)
  moreover have "unat (n + 32) = unat n + 32" using assms by (simp add: unat_word_ariths)
  moreover have "(unat off + 16 + unat (n - off + 16)) mod 2 ^ LENGTH(64) \<le>
      unat off + 16 + unat (n - off + 16)"
    by (rule mod_less_eq_dividend)
  ultimately show ?thesis by linarith
qed

lemma hmac_tail_length:
  assumes "unat off + 16 \<le> unat (n :: u64)"
  shows "unat (off + 16) = unat off + 16" "unat (n - (off + 16)) = unat n - (unat off + 16)"
proof -
  have "unat n < 2 ^ LENGTH(64)" by (rule unsigned_less)
  then have "unat off + 16 < 2 ^ 64" using assms by simp
  then show off: "unat (off + 16 :: u64) = unat off + 16" by (simp add: unat_word_ariths)
  then have "off + 16 \<le> n" using assms by (simp add: word_le_nat_alt)
  then show "unat (n - (off + 16)) = unat n - (unat off + 16)"
    using off by (simp add: unat_sub)
qed

lemma length_exif_iv [simp]: "length exif_iv = 16"
  by (simp add: exif_iv_def)

lemma DecryptAes128CtrPartial_small_dst:
  "length key = 16 \<Longrightarrow> length iv = 16 \<Longrightarrow> length (ctr_counter m) = 16 \<Longrightarrow> 0 \<le> sint offset \<Longrightarrow>
   unat dst_size < length src \<Longrightarrow>
   DecryptAes128CtrPartial True aes m dst_size key iv offset src = Inl Abort"
  by (rule Ctr_Initialize_at [of iv "CtrModeImpl_ctor m" offset True "aes key"])
     (simp_all add: DecryptAes128CtrPartial_def AesCtr_Initialize_def CtrModeImpl_ctor_def
       Ctr_Update_def AMS_ASSERT_def ctr_at_def)

text \<open>
  The EXIF decryption works on the first \<open>size\<close> bytes with the key stream from \<open>offset\<close> on;
  in an auditing build any offset but 0 stops the process, the destination being declared shorter
  than the source.
\<close>

lemma Decrypt_exif_spec:
  assumes "length (exif_key k) = 16" and "length (ctr_counter m) = 16" and "0 \<le> sint offset"
    and "unat offset \<le> unat n" and "unat n \<le> length buf"
  shows "Decrypt_exif audit c k m buf n offset =
    (if audit \<and> offset \<noteq> 0 then Inl Abort
     else Inr (poke 0 (ctr_xor (aes128_encrypt c (exif_key k)) exif_iv (unat offset) (take (unat n) buf)) buf))"
proof (cases "audit \<and> offset \<noteq> 0")
  case True
  have "unat (n - offset) = unat n - unat offset" using assms(4) by (simp add: unat_sub word_le_nat_alt)
  moreover have "0 < unat offset" using True by (simp add: unat_gt_0)
  ultimately have "unat (n - offset) < unat n" using assms(4) by linarith
  then show ?thesis
    using True assms by (simp add: Decrypt_exif_def DecryptAes128CtrPartial_small_dst)
next
  case False
  then have "audit \<longrightarrow> length (take (unat n) buf) \<le> unat (n - offset)" using assms(5) by auto
  then show ?thesis
    using False assms by (simp add: Decrypt_exif_def DecryptAes128CtrPartial_stream)
qed

section \<open>A sample library\<close>

text \<open>
  A concrete library for the witnesses: the sample cipher, and an \<open>spl\<close> service that answers
  every request and counts the engines that are locked.
\<close>

definition sample_crypto :: "nat crypto_lib" where
  "sample_crypto = \<lparr>aes128_encrypt = mask_block, aes128_decrypt = mask_block,
     aes256_encrypt = mask_block, aes256_decrypt = mask_block,
     sha256 = (\<lambda>d. replicate 32 (of_nat (length d))), hmac_sha256 = (\<lambda>k d. replicate 32 1),
     splCryptoLockAesEngine = (\<lambda>n. (0, 3, Suc n)), splCryptoUnlockAesEngine = (\<lambda>_ n. n - 1),
     splCryptoLoadAesKey = (\<lambda>_ _ _ n. (0, n)),
     splCryptoComputeCmac = (\<lambda>d _ n. (0, take 16 d, n)),
     splCryptoGenerateAesKek = (\<lambda>d n. (0, d, n)),
     splCryptoGenerateAesKey = (\<lambda>_ d n. (0, d, n))\<rparr>"

lemma mask_twice: "(b XOR 0x5A) XOR 0x5A = (b :: u8)"
  by (simp only: xor.assoc xor_self_eq xor.right_neutral)

lemma sample_cipher: "block_cipher mask_block mask_block"
  unfolding block_cipher_def mask_block_def map_map o_def mask_twice by simp

lemma sample_crypto_ciphers [simp]:
  "aes128_encrypt sample_crypto = mask_block" "aes128_decrypt sample_crypto = mask_block"
  "aes256_encrypt sample_crypto = mask_block" "aes256_decrypt sample_crypto = mask_block"
  by (simp_all add: sample_crypto_def)

definition sample_entry :: AlbumEntry where
  "sample_entry = \<lparr>entry_size = 0x1234, fileId = \<lparr>application_id = 0x0100000000010000,
     date_time = \<lparr>year = 2020, month = 6, day = 15, hour = 12, minute = 30, second = 5, dt_id = 0\<rparr>,
     storage_id = Sd, content_type = Screenshot, pad = replicate 6 0\<rparr>\<rparr>"

lemma wf_sample_entry [simp]: "wf_entry sample_entry"
  by (simp add: wf_entry_def wf_file_id_def sample_entry_def)

section \<open>Properties\<close>

text \<open>The MAC over a screenshot always reads outside the file: whatever the offset of the maker
  note, the hashed region ends beyond the buffer (\<open>size - off + 0x10\<close> bytes are taken where
  \<open>size - off - 0x10\<close> are left).\<close>

theorem screenshot_mac_reads_out_of_bounds:
  "length jpeg = unat n \<Longrightarrow> unat n + 32 < 2 ^ 64 \<Longrightarrow>
   GenerateScreenshotMac c k jpeg n off w = Inl OutOfBounds"
  using screenshot_mac_region [of n off] by (simp add: GenerateScreenshotMac_def)

theorem screenshot_mac_reads_out_of_bounds_witness:
  "GenerateScreenshotMac sample_crypto initial_keys (replicate 64 7) 64 8 0 = Inl OutOfBounds"
  using screenshot_mac_reads_out_of_bounds [of "replicate 64 7" 64 sample_crypto initial_keys 8 0]
  by simp

text \<open>The HMAC over a screenshot is the HMAC of the whole file with the sixteen bytes of the
  signature set to zero, and stays inside the file.\<close>

theorem screenshot_hmac_spec:
  "length jpeg = unat n \<Longrightarrow> unat off + 16 \<le> unat n \<Longrightarrow>
   ComputeScreenShotHMAC c k jpeg n off =
     Inr (take 16 (hmac_sha256 c (hmac_key k) (poke (unat off) (replicate 16 0) jpeg)))"
  by (simp add: ComputeScreenShotHMAC_def Let_def hmac_tail_length poke_def)

theorem screenshot_hmac_spec_witness:
  "ComputeScreenShotHMAC sample_crypto initial_keys (replicate 64 7) 64 8 = Inr (replicate 16 1)"
  using screenshot_hmac_spec [of "replicate 64 7" 64 8 sample_crypto initial_keys]
  by (simp add: sample_crypto_def)

text \<open>An album entry encrypted for an application with the per-application key (version 0) is
  given back by decryption.\<close>

theorem application_entry_v0_roundtrip:
  "block_cipher (aes256_encrypt c) (aes256_decrypt c) \<Longrightarrow> wf_entry e \<Longrightarrow>
   DecryptV0 c (EncryptV0 c e key) key = e"
  by (rule DecryptV0_EncryptV0)

theorem application_entry_v0_roundtrip_witness:
  "DecryptV0 sample_crypto (EncryptV0 sample_crypto sample_entry (replicate 32 9)) (replicate 32 9) =
     sample_entry"
  by (rule application_entry_v0_roundtrip) (simp_all add: sample_cipher)

text \<open>An album entry encrypted with a shared key (version 1) is given back, padding cleared, when
  the five bytes the encryption leaves unwritten in its destination equal the entry's padding.\<close>

theorem application_entry_v1_roundtrip:
  "wf_entry e \<Longrightarrow> length dst = 32 \<Longrightarrow> take 5 (drop 26 dst) = take 5 (pad (fileId e)) \<Longrightarrow>
   DecryptV1 c k out (snd (EncryptV1 c k dst e 1)) (application_id (fileId e)) =
     (ResultSuccess, e\<lparr>fileId := (fileId e)\<lparr>pad := replicate 6 0\<rparr>\<rparr>)"
  by (rule DecryptV1_EncryptV1)

theorem application_entry_v1_roundtrip_witness:
  "DecryptV1 sample_crypto initial_keys sample_entry
     (snd (EncryptV1 sample_crypto initial_keys (replicate 32 0) sample_entry 1)) 0x0100000000010000 =
   (0, sample_entry)"
proof -
  have "take 5 (drop 26 (replicate 32 0)) = take 5 (pad (fileId sample_entry))"
    by (simp add: sample_entry_def)
  note R = application_entry_v1_roundtrip [OF wf_sample_entry length_replicate this,
      of sample_crypto initial_keys sample_entry]
  have "application_id (fileId sample_entry) = 0x0100000000010000"
    "sample_entry\<lparr>fileId := (fileId sample_entry)\<lparr>pad := replicate 6 0\<rparr>\<rparr> = sample_entry"
    by (simp_all add: sample_entry_def)
  with R show ?thesis by simp
qed

end
