(* ===== verification/FileName.thy ===== *)
theory FileName
  imports Crypto
begin

text \<open>
  Paths and file names of the album (\<open>capsrv_types.cpp\<close>): a file identifier is printed as
  \<open>MOUNT/yyyy/mm/dd/yyyymmddhhmmssid-CYPHER.ext\<close>, where the cypher is the encrypted application
  identifier in hexadecimal; extra files lie below an \<open>Extra\<close> folder with a cypher of its own and
  carry an \<open>X\<close> before the extension. \<open>FromString\<close> reads a name back.
\<close>

section \<open>Writing text into a buffer\<close>

text \<open>\<open>snprintf\<close> whose write must lie inside the buffer.\<close>

definition snprintf_run :: "string \<Rightarrow> nat \<Rightarrow> nat \<Rightarrow> string \<Rightarrow> (string \<times> nat) run" where
  "snprintf_run buf off n s =
     (if n \<noteq> 0 \<and> length buf < off + min n (length s + 1) then Inl OutOfBounds
      else Inr (snprintf_at buf off n s))"

text \<open>
  \<open>char cypher_string[0x20]\<close>, filled two digits at a time; the last call has two bytes left, room
  for one digit and the NUL.
\<close>

definition cypher_string :: "string \<Rightarrow> u8 list \<Rightarrow> string" where
  "cypher_string buf cypher =
     fold (\<lambda>i buf. fst (snprintf_at buf (2 * i) (0x20 - 2 * i) (fmt_X 2 (unat (cypher ! i)))))
       [0..<0x10] buf"

text \<open>Every byte of the buffer is written before it is read, so its first contents do not matter.\<close>

definition cypher_text :: "u8 list \<Rightarrow> string" where
  "cypher_text cypher = c_str (cypher_string (replicate 0x20 NUL) cypher)"

text \<open>One step of \<open>GetFolderPath\<close>: print, advance the pointer, shrink the room left, count.\<close>

record path_writer =
  ptr :: nat
  max_length :: u64
  written :: u32
  buffer :: string

definition put :: "string \<Rightarrow> path_writer \<Rightarrow> path_writer run" where
  "put s w = then_run (snprintf_run (buffer w) (ptr w) (unat (max_length w)) s) (\<lambda>(buf, tmp).
     Inr \<lparr>ptr = ptr w + tmp, max_length = max_length w - of_nat tmp,
          written = written w + of_nat tmp, buffer = buf\<rparr>)"

definition GetFolderPath ::
  "'w crypto_lib \<Rightarrow> crypto_keys \<Rightarrow> string \<Rightarrow> u64 \<Rightarrow> AlbumFileId \<Rightarrow> (u32 \<times> string) run" where
  "GetFolderPath c k buf max_len f =
     then_run (if unat (storage_id f) < length MountPoints
               then Inr (MountPoints ! unat (storage_id f)) else Inl OutOfBounds) (\<lambda>mount_point.
     then_run (put mount_point \<lparr>ptr = 0, max_length = max_len, written = 0, buffer = buf\<rparr>) (\<lambda>w.
     then_run (if IsExtra (content_type f)
               then then_run (put ''Extra'' w)
                      (put (cypher_text (EncryptExtraPath c k (application_id f))))
               else Inr w) (\<lambda>w.
     then_run (put (''/'' @ fmt_d 4 (unat (year (date_time f))) @
                    ''/'' @ fmt_d 2 (unat (month (date_time f))) @
                    ''/'' @ fmt_d 2 (unat (day (date_time f))) @ ''/'') w) (\<lambda>w.
       Inr (written w, buffer w)))))"

text \<open>Printing \<open>%s\<close> of the null pointer an unknown type yields is a fault.\<close>

definition GetFileName ::
  "'w crypto_lib \<Rightarrow> crypto_keys \<Rightarrow> string \<Rightarrow> nat \<Rightarrow> u64 \<Rightarrow> AlbumDateTime \<Rightarrow> u64 \<Rightarrow> ContentType \<Rightarrow>
     (u32 \<times> string) run" where
  "GetFileName c k buf off max_len d app type =
     (let cypher = cypher_text (EncryptFileExtension c k app (IsExtra type))
      in case GetFileExtension type of None \<Rightarrow> Inl OutOfBounds | Some ext \<Rightarrow>
         then_run (snprintf_run buf off (unat max_len)
             (date_text d @ ''-'' @ cypher @ (if IsExtra type then ''X'' else []) @ ext))
           (\<lambda>(buf, n). Inr (of_nat n, buf)))"

definition GetAlbumPath ::
  "'w crypto_lib \<Rightarrow> crypto_keys \<Rightarrow> string \<Rightarrow> u64 \<Rightarrow> AlbumFileId \<Rightarrow> (u32 \<times> string) run" where
  "GetAlbumPath c k buf max_len f =
     then_run (GetFolderPath c k buf max_len f) (\<lambda>(written_path, buf).
     then_run (GetFileName c k buf (unat written_path) (max_len - ucast written_path)
                 (date_time f) (application_id f) (content_type f)) (\<lambda>(written_file, buf).
       Inr (written_path + written_file, buf)))"

record AlbumPath =
  path_buffer :: string
  path_unk :: u32

definition AlbumPath_ctor :: AlbumPath where
  "AlbumPath_ctor = \<lparr>path_buffer = replicate 0x70 NUL, path_unk = 0\<rparr>"

definition MakeAlbumPath ::
  "'w crypto_lib \<Rightarrow> crypto_keys \<Rightarrow> AlbumSettings \<Rightarrow> AlbumFileId \<Rightarrow> u32 \<Rightarrow> AlbumPath \<Rightarrow>
     (result \<times> AlbumPath) run" where
  "MakeAlbumPath c k settings f unk path =
     (if R_FAILED (Verify settings f) then Inr (Verify settings f, path) else
      then_run (GetAlbumPath c k (path_buffer path) 0x6d f) (\<lambda>(len, buf).
        Inr (ResultSuccess, \<lparr>path_buffer = buf, path_unk = unk\<rparr>)))"

section \<open>Reading a file name\<close>

definition hex_value :: "char \<Rightarrow> nat option" where
  "hex_value ch =
     (let n = of_char ch :: nat
      in if 48 \<le> n \<and> n \<le> 57 then Some (n - 48)
         else if 65 \<le> n \<and> n \<le> 70 then Some (n - 55)
         else if 97 \<le> n \<and> n \<le> 102 then Some (n - 87)
         else None)"

definition is_space :: "char \<Rightarrow> bool" where
  "is_space ch \<longleftrightarrow> (let n = of_char ch :: nat in n = 32 \<or> 9 \<le> n \<and> n \<le> 13)"

text \<open>
  \<open>strtoul(buffer, &end, 16)\<close> on two characters, when it ends after the second: two digits, or
  one digit after a space or a sign (a minus negates); \<open>None\<close> when it stops earlier.
\<close>

definition strtoul_pair :: "char \<Rightarrow> char \<Rightarrow> u8 option" where
  "strtoul_pair a b =
     (case hex_value b of None \<Rightarrow> None | Some lo \<Rightarrow>
        (case hex_value a of Some hi \<Rightarrow> Some (of_nat (16 * hi + lo)) | None \<Rightarrow>
           if is_space a \<or> a = CHR ''+'' then Some (of_nat lo)
           else if a = CHR ''-'' then Some (- of_nat lo)
           else None))"

text \<open>
  The loop over the sixteen pairs. Both characters of a pair are read, and the position moves past
  them, before the pair is checked.
\<close>

fun ident_loop :: "nat \<Rightarrow> string \<Rightarrow> nat \<Rightarrow> u8 list \<Rightarrow> (u8 list \<times> nat) run" where
  "ident_loop 0 str pos b = Inr (b, pos)"
| "ident_loop (Suc n) str pos b =
     then_run (char_at str pos) (\<lambda>c0. then_run (char_at str (pos + 1)) (\<lambda>c1.
       case strtoul_pair c0 c1 of
         None \<Rightarrow> Inr (b, pos + 2)
       | Some tmp \<Rightarrow> ident_loop n str (pos + 2) (b[0x10 - Suc n := tmp])))"

text \<open>
  \<open>junk\<close> is what the uninitialised input block holds; \<open>app0\<close> and \<open>extra0\<close> are the
  outputs before the call.
\<close>

definition DecryptFileIdentifier ::
  "'w crypto_lib \<Rightarrow> crypto_keys \<Rightarrow> u8 list \<Rightarrow> string \<Rightarrow> nat \<Rightarrow> u64 \<Rightarrow> bool \<Rightarrow>
     (result \<times> u64 \<times> bool \<times> nat) run" where
  "DecryptFileIdentifier c k junk str pos app0 extra0 =
     then_run (ident_loop 0x10 str pos junk) (\<lambda>(b, next).
       let (out0, out1) = Decrypt_path c k b
       in if \<not> out1 \<le> 1 then Inr (ResultAlbumInvalidApplicationId, app0, extra0, next)
          else Inr (ResultSuccess, out0, out1 = 1, next))"

definition GetFileType :: "ContentType \<Rightarrow> bool \<Rightarrow> string \<Rightarrow> result \<times> ContentType" where
  "GetFileType type0 is_extra str =
     (if GetFileExtension 0 = Some str then (ResultSuccess, 0 + (if is_extra then 2 else 0))
      else if GetFileExtension 1 = Some str then (ResultSuccess, 1 + (if is_extra then 2 else 0))
      else (ResultAlbumInvalidFileContents, type0))"

text \<open>The object is filled in as parsing goes on, also when it fails later.\<close>

definition FromString ::
  "'w crypto_lib \<Rightarrow> crypto_keys \<Rightarrow> u8 list \<Rightarrow> StorageId \<Rightarrow> string \<Rightarrow> AlbumFileId \<Rightarrow>
     (result \<times> AlbumFileId) run" where
  "FromString c k junk storage str f =
     (if \<not> (length str = 0x35 \<or> length str = 0x36) then Inr (0x10, f) else
      then_run (DateTimeFromString (date_time f) str) (\<lambda>(rc, d, str).
      let f = f\<lparr>date_time := d\<rparr> in
      if R_FAILED rc then Inr (rc, f) else
      then_run (char_at str 0) (\<lambda>ch.
      if \<not> ch = CHR ''-'' then Inr (ResultAlbumInvalidFileId, f) else
      then_run (DecryptFileIdentifier c k junk str 1 (application_id f) False)
        (\<lambda>(rc, app, is_extra, pos).
      let f = f\<lparr>application_id := app\<rparr> in
      if R_FAILED rc then Inr (rc, f) else
      then_run (char_at str pos) (\<lambda>ch.
      if is_extra \<and> \<not> ch = CHR ''X'' then Inr (ResultAlbumInvalidFileId, f) else
      let pos = (if is_extra then pos + 1 else pos) in
      then_run (char_at str pos) (\<lambda>ch.
      if \<not> ch = CHR ''.'' then Inr (ResultAlbumInvalidFileId, f) else
      let (rc, type) = GetFileType (content_type f) is_extra (drop pos str);
          f = f\<lparr>content_type := type\<rparr> in
      if R_FAILED rc then Inr (rc, f) else
      Inr (ResultSuccess, f\<lparr>storage_id := storage\<rparr>)))))))"

section \<open>The names as text\<close>

definition hex32 :: "u8 list \<Rightarrow> string" where
  "hex32 cypher = concat (map (\<lambda>b. fmt_X 2 (unat b)) cypher)"

definition folder_text :: "'w crypto_lib \<Rightarrow> crypto_keys \<Rightarrow> AlbumFileId \<Rightarrow> string" where
  "folder_text c k f =
     MountPoints ! unat (storage_id f) @
     (if IsExtra (content_type f)
      then ''Extra'' @ take 31 (hex32 (EncryptExtraPath c k (application_id f))) else []) @
     ''/'' @ fmt_d 4 (unat (year (date_time f))) @ ''/'' @ fmt_d 2 (unat (month (date_time f))) @
     ''/'' @ fmt_d 2 (unat (day (date_time f))) @ ''/''"

definition file_text :: "'w crypto_lib \<Rightarrow> crypto_keys \<Rightarrow> AlbumFileId \<Rightarrow> string" where
  "file_text c k f =
     date_text (date_time f) @ ''-'' @
     take 31 (hex32 (EncryptFileExtension c k (application_id f) (IsExtra (content_type f)))) @
     (if IsExtra (content_type f) then ''X'' else []) @
     (case GetFileExtension (content_type f) of None \<Rightarrow> [] | Some ext \<Rightarrow> ext)"

section \<open>Facts\<close>

subsection \<open>Printing\<close>

lemma snprintf_at_fits [simp]:
  "length s < n \<Longrightarrow> snprintf_at buf off n s = (poke off (s @ [NUL]) buf, length s)"
  by (simp add: snprintf_at_def)

lemma snprintf_run_fits [simp]:
  "length s < n \<Longrightarrow> off + n \<le> length buf \<Longrightarrow>
     snprintf_run buf off n s = Inr (poke off (s @ [NUL]) buf, length s)"
  by (simp add: snprintf_run_def)

lemma length_fmt_X2 [simp]: "length (fmt_X 2 (unat (b :: u8))) = 2"
  using fmt_X_length [of "unat b" 1] unsigned_less [of b] by (simp add: numeral_2_eq_2)

lemma length_hex32 [simp]: "length (hex32 bs) = 2 * length bs"
  by (induction bs) (simp_all add: hex32_def)

lemma hex32_append [simp]: "hex32 (xs @ ys) = hex32 xs @ hex32 ys"
  by (simp add: hex32_def)

lemma hex32_single [simp]: "hex32 [b] = fmt_X 2 (unat b)"
  by (simp add: hex32_def)

lemma hex32_no_NUL [simp]: "NUL \<notin> set (hex32 bs)"
  by (auto simp: hex32_def fmt_simps)

lemma poke_extend:
  "take i buf = t \<Longrightarrow> i + length xs \<le> length buf \<Longrightarrow> i \<le> length buf \<Longrightarrow>
     take (i + length xs) (poke i xs buf) = t @ xs"
  by simp

text \<open>The first fifteen pairs fit with their NUL; of the last pair only one digit does.\<close>

lemma cypher_string_prefix:
  assumes "length buf = 32" and "length cy = 16" and "i \<le> 15"
  shows "let b = fold (\<lambda>i buf. fst (snprintf_at buf (2 * i) (32 - 2 * i) (fmt_X 2 (unat (cy ! i)))))
      [0..<i] buf in length b = 32 \<and> take (2 * i) b = hex32 (take i cy)"
  using assms(3)
proof (induction i)
  case 0
  then show ?case using assms by (simp add: hex32_def)
next
  case (Suc i)
  let ?b = "fold (\<lambda>i buf. fst (snprintf_at buf (2 * i) (32 - 2 * i) (fmt_X 2 (unat (cy ! i)))))
    [0..<i] buf"
  let ?x = "fmt_X 2 (unat (cy ! i))"
  from Suc have b: "length ?b = 32" "take (2 * i) ?b = hex32 (take i cy)" by (simp_all add: Let_def)
  have h: "hex32 (take (Suc i) cy) = hex32 (take i cy) @ ?x"
    using Suc.prems assms(2) by (simp add: take_Suc_conv_app_nth)
  have "length ?x < 32 - 2 * i" using Suc.prems by simp
  then have "fst (snprintf_at ?b (2 * i) (32 - 2 * i) ?x) = poke (2 * i) (?x @ [NUL]) ?b" by simp
  moreover have "take (2 * Suc i) (poke (2 * i) (?x @ [NUL]) ?b) = hex32 (take (Suc i) cy)"
    using b Suc.prems assms(2) unfolding h by (simp add: poke_def)
  moreover have "length (poke (2 * i) (?x @ [NUL]) ?b) = 32" using b(1) Suc.prems by simp
  ultimately show ?case by (simp add: Let_def)
qed

lemma cypher_string_text:
  assumes "length buf = 32" and "length cy = 16"
  shows "cypher_string buf cy = take 31 (hex32 cy) @ [NUL]"
proof -
  let ?f = "\<lambda>i buf. fst (snprintf_at buf (2 * i) (32 - 2 * i) (fmt_X 2 (unat (cy ! i))))"
  let ?b = "fold ?f [0..<15] buf"
  let ?x = "fmt_X 2 (unat (cy ! 15))"
  have b: "length ?b = 32" "take 30 ?b = hex32 (take 15 cy)"
    using cypher_string_prefix [OF assms, of 15] by (simp_all add: Let_def)
  have "hex32 cy = hex32 (take 15 cy) @ ?x"
  proof -
    have "cy = take 15 cy @ [cy ! 15]"
      using assms(2) take_Suc_conv_app_nth [of 15 cy] by simp
    then show ?thesis by (metis hex32_append hex32_single)
  qed
  then have "take 31 (hex32 cy) = hex32 (take 15 cy) @ take 1 ?x" using assms(2) by simp
  moreover have "cypher_string buf cy = poke 30 (take 1 ?x @ [NUL]) ?b"
  proof -
    have "[0..<16] = [0..<15] @ [15]" using upt_Suc_append [of 0 15] by simp
    then show ?thesis by (simp add: cypher_string_def snprintf_at_def)
  qed
  ultimately show ?thesis using b by (simp add: poke_def)
qed

lemma cypher_text_eq: "length cy = 16 \<Longrightarrow> cypher_text cy = take 31 (hex32 cy)"
proof -
  assume "length cy = 16"
  then have "cypher_text cy = c_str (take 31 (hex32 cy) @ NUL # [])"
    by (simp add: cypher_text_def cypher_string_text)
  also have "\<dots> = take 31 (hex32 cy)"
    using hex32_no_NUL [of cy] by (intro c_str_append_NUL) (auto dest: in_set_takeD)
  finally show ?thesis .
qed

text \<open>A writer that has printed \<open>t\<close> into a buffer of \<open>l\<close> bytes with room for \<open>m\<close>.\<close>

definition holds :: "nat \<Rightarrow> nat \<Rightarrow> string \<Rightarrow> path_writer \<Rightarrow> bool" where
  "holds m l t w \<longleftrightarrow> ptr w = length t \<and> unat (max_length w) = m - length t \<and>
     written w = of_nat (length t) \<and> length (buffer w) = l \<and> take (length t) (buffer w) = t"

lemma put_holds:
  assumes "holds m l t w" and "length t + length s < m" and "m \<le> l"
  obtains w' where "put s w = Inr w'" "holds m l (t @ s) w'"
proof -
  have w: "ptr w = length t" "unat (max_length w) = m - length t" "written w = of_nat (length t)"
    "length (buffer w) = l" "take (length t) (buffer w) = t"
    using assms(1) by (simp_all add: holds_def)
  let ?w = "\<lparr>ptr = ptr w + length s, max_length = max_length w - of_nat (length s),
    written = written w + of_nat (length s), buffer = poke (ptr w) (s @ [NUL]) (buffer w)\<rparr>"
  have "put s w = Inr ?w" using w assms(2,3) by (simp add: put_def)
  moreover have "holds m l (t @ s) ?w"
  proof -
    have small: "m - length t < 2 ^ LENGTH(64)" using w(2) unsigned_less [of "max_length w", where 'a = nat] by simp
    have n: "unat (of_nat (length s) :: u64) = length s"
      using assms(2) small by (simp add: unat_of_nat)
    have "unat (max_length w - of_nat (length s)) = unat (max_length w) - length s"
      using unat_sub [of "of_nat (length s)" "max_length w"] n w(2) assms(2)
      by (simp add: word_le_nat_alt)
    then show ?thesis
      using w assms(2,3) by (simp add: holds_def poke_def)
  qed
  ultimately show thesis by (rule that)
qed

lemma length_encrypted:
  assumes "block_cipher (aes128_encrypt c) (aes128_decrypt c)"
  shows "length (EncryptExtraPath c k app) = 16"
    and "length (EncryptFileExtension c k app x) = 16"
  by (simp_all add: EncryptExtraPath_def EncryptFileExtension_def block_cipherD(1) [OF assms])

lemma length_folder_text:
  assumes "block_cipher (aes128_encrypt c) (aes128_decrypt c)" and "date_ok (date_time f)"
    and "StorageValid (storage_id f)"
  shows "length (folder_text c k f) \<le> 52"
  using assms(2,3) length_encrypted(1) [OF assms(1), of k "application_id f"]
  by (auto simp: folder_text_def fmt_simps date_ok_def StorageValid_def MountPoints_def)

lemma length_file_text:
  assumes "block_cipher (aes128_encrypt c) (aes128_decrypt c)" and "date_ok (date_time f)"
    and "ContentTypeValid (content_type f)"
  shows "length (file_text c k f) = (if IsExtra (content_type f) then 0x35 else 0x34)"
  using assms(2,3) length_encrypted(2) [OF assms(1), of k "application_id f" "IsExtra (content_type f)"]
  by (auto simp: file_text_def fmt_simps ContentTypeValid_def GetFileExtension_def)

lemma folder_text_no_NUL: "StorageValid (storage_id f) \<Longrightarrow> NUL \<notin> set (folder_text c k f)"
  by (auto simp: folder_text_def fmt_simps StorageValid_def MountPoints_def dest: in_set_takeD)

lemma file_text_no_NUL: "NUL \<notin> set (file_text c k f)"
  by (auto simp: file_text_def fmt_simps GetFileExtension_def dest: in_set_takeD split: option.splits)

lemma GetFolderPath_text:
  assumes "block_cipher (aes128_encrypt c) (aes128_decrypt c)" and "date_ok (date_time f)"
    and "StorageValid (storage_id f)" and "length buf = l" and "unat m \<le> l" and "52 < unat m"
  obtains b where "GetFolderPath c k buf m f = Inr (of_nat (length (folder_text c k f)), b)"
    "length b = l" "take (length (folder_text c k f)) b = folder_text c k f"
proof -
  let ?mp = "MountPoints ! unat (storage_id f)"
  let ?cy = "take 31 (hex32 (EncryptExtraPath c k (application_id f)))"
  let ?date = "''/'' @ fmt_d 4 (unat (year (date_time f))) @ ''/'' @
    fmt_d 2 (unat (month (date_time f))) @ ''/'' @ fmt_d 2 (unat (day (date_time f))) @ ''/''"
  let ?ex = "if IsExtra (content_type f) then ''Extra'' @ ?cy else []"
  have sid: "unat (storage_id f) < length MountPoints"
    using assms(3) by (auto simp: StorageValid_def MountPoints_def)
  have mp: "length ?mp = 4" using assms(3) by (auto simp: StorageValid_def MountPoints_def)
  have date: "length ?date = 12" using assms(2) by (simp add: fmt_simps date_ok_def)
  have cy: "cypher_text (EncryptExtraPath c k (application_id f)) = ?cy" "length ?cy = 31"
    using length_encrypted [OF assms(1)] by (simp_all add: cypher_text_eq)
  have "holds (unat m) l [] \<lparr>ptr = 0, max_length = m, written = 0, buffer = buf\<rparr>"
    using assms(4) by (simp add: holds_def)
  then obtain w1 where w1: "put ?mp \<lparr>ptr = 0, max_length = m, written = 0, buffer = buf\<rparr> = Inr w1"
    "holds (unat m) l ?mp w1"
    using put_holds [of "unat m" l "[]" _ ?mp] assms(5,6) mp by auto
  obtain w2 where w2: "(if IsExtra (content_type f) then then_run (put ''Extra'' w1)
      (put (cypher_text (EncryptExtraPath c k (application_id f)))) else Inr w1) = Inr w2"
    "holds (unat m) l (?mp @ ?ex) w2"
  proof (cases "IsExtra (content_type f)")
    case True
    obtain v where v: "put ''Extra'' w1 = Inr v" "holds (unat m) l (?mp @ ''Extra'') v"
      using put_holds [OF w1(2), of "''Extra''"] assms(5,6) mp by auto
    obtain w2 where "put ?cy v = Inr w2" "holds (unat m) l ((?mp @ ''Extra'') @ ?cy) w2"
      using put_holds [OF v(2), of ?cy] assms(5,6) mp cy(2) by auto
    with v(1) True cy(1) show ?thesis by (intro that [of w2]) simp_all
  next
    case False
    with w1(2) show ?thesis by (intro that [of w1]) simp_all
  qed
  have "length (?mp @ ?ex) + length ?date < unat m" using mp date cy(2) assms(6) by simp
  then obtain w3 where w3: "put ?date w2 = Inr w3" "holds (unat m) l ((?mp @ ?ex) @ ?date) w3"
    using put_holds [OF w2(2) _ assms(5), of ?date] by blast
  have ft: "(?mp @ ?ex) @ ?date = folder_text c k f" by (simp add: folder_text_def)
  have "GetFolderPath c k buf m f = Inr (written w3, buffer w3)"
    unfolding GetFolderPath_def using sid w1(1) w2(1) w3(1) by simp
  with w3(2) show thesis unfolding ft by (intro that [of "buffer w3"]) (simp_all add: holds_def)
qed

text \<open>A file name is printed, and fits.\<close>

lemma GetFileName_fits:
  assumes "block_cipher (aes128_encrypt c) (aes128_decrypt c)" and "date_ok (date_time f)"
    and "ContentTypeValid (content_type f)" and "53 < unat n" and "off + unat n \<le> length buf"
  shows "GetFileName c k buf off n (date_time f) (application_id f) (content_type f) =
    Inr (of_nat (length (file_text c k f)), poke off (file_text c k f @ [NUL]) buf)"
proof -
  obtain ext where ext: "GetFileExtension (content_type f) = Some ext"
    using assms(3) GetFileExtension_Some by blast
  have cy: "cypher_text (EncryptFileExtension c k (application_id f) (IsExtra (content_type f))) =
      take 31 (hex32 (EncryptFileExtension c k (application_id f) (IsExtra (content_type f))))"
    using length_encrypted [OF assms(1)] by (simp add: cypher_text_eq)
  have name: "date_text (date_time f) @ ''-'' @
      cypher_text (EncryptFileExtension c k (application_id f) (IsExtra (content_type f))) @
      (if IsExtra (content_type f) then ''X'' else []) @ ext = file_text c k f"
    unfolding cy file_text_def by (simp add: ext)
  show ?thesis
    using length_file_text [OF assms(1-3), of k] assms(4,5)
    unfolding GetFileName_def Let_def ext option.case name
    by (subst snprintf_run_fits) simp_all
qed

lemma GetFileName_text:
  assumes "block_cipher (aes128_encrypt c) (aes128_decrypt c)" and "date_ok (date_time f)"
    and "ContentTypeValid (content_type f)" and "0x40 \<le> unat n" and "off + unat n \<le> length buf"
  shows "\<exists>len b. GetFileName c k buf off n (date_time f) (application_id f) (content_type f) = Inr (len, b) \<and>
    c_str (drop off b) = file_text c k f"
proof -
  let ?n = "file_text c k f"
  have "c_str (drop off (poke off (?n @ [NUL]) buf)) = c_str (?n @ NUL # drop (off + (length ?n + 1)) buf)"
    using assms(5) by (simp add: poke_def)
  also have "\<dots> = ?n" using file_text_no_NUL [of c k f] by (intro c_str_append_NUL) simp
  finally show ?thesis using GetFileName_fits [OF assms(1-3) _ assms(5), of k] assms(4) by auto
qed

text \<open>The whole path is printed, and fits.\<close>

lemma GetAlbumPath_text:
  assumes "block_cipher (aes128_encrypt c) (aes128_decrypt c)" and "date_ok (date_time f)"
    and "StorageValid (storage_id f)" and "ContentTypeValid (content_type f)"
    and "length buf = 0x70"
  obtains b where "GetAlbumPath c k buf 0x6d f =
      Inr (of_nat (length (folder_text c k f @ file_text c k f)), b)"
    "length b = 0x70" "c_str b = folder_text c k f @ file_text c k f"
proof -
  let ?d = "folder_text c k f" and ?n = "file_text c k f"
  have d: "length ?d \<le> 52" by (rule length_folder_text [OF assms(1-3)])
  have n: "length ?n \<le> 53" using length_file_text [OF assms(1,2,4)] by simp
  obtain b where b: "GetFolderPath c k buf 0x6d f = Inr (of_nat (length ?d), b)"
    "length b = 0x70" "take (length ?d) b = ?d"
    by (rule GetFolderPath_text [OF assms(1-3,5), where m = "0x6d" and k = k]) simp_all
  have u: "unat (of_nat (length ?d) :: u32) = length ?d" using d by (simp add: unat_of_nat)
  have uu: "unat (ucast (of_nat (length ?d) :: u32) :: u64) = length ?d"
    unfolding unsigned_ucast_eq u using d by (simp add: take_bit_nat_eq_self_iff)
  have room: "unat (0x6d - ucast (of_nat (length ?d) :: u32) :: u64) = 0x6d - length ?d"
    using d uu unat_sub [of "ucast (of_nat (length ?d) :: u32)" "0x6d :: u64"]
    by (simp add: word_le_nat_alt)
  let ?b = "poke (length ?d) (?n @ [NUL]) b"
  have g: "GetFileName c k b (length ?d) (0x6d - ucast (of_nat (length ?d) :: u32)) (date_time f)
      (application_id f) (content_type f) = Inr (of_nat (length ?n), ?b)"
    by (rule GetFileName_fits [OF assms(1,2,4)]) (use d b(2) room in simp_all)
  have "c_str ?b = c_str ((?d @ ?n) @ NUL # drop (length ?d + (length ?n + 1)) b)"
    using b(3) by (simp add: poke_def)
  also have "\<dots> = ?d @ ?n"
    using folder_text_no_NUL [OF assms(3), of c k] file_text_no_NUL [of c k f]
    by (intro c_str_append_NUL) simp
  finally have c: "c_str ?b = ?d @ ?n" .
  have "GetAlbumPath c k buf 0x6d f = Inr (of_nat (length ?d) + of_nat (length ?n), ?b)"
    unfolding GetAlbumPath_def b(1) by (simp add: u g)
  then show thesis
    using c d n b(2) by (intro that [of ?b]) simp_all
qed

lemma MakeAlbumPath_text:
  assumes "block_cipher (aes128_encrypt c) (aes128_decrypt c)" and "length (path_buffer p) = 0x70"
  obtains b where "MakeAlbumPath c k s f u p =
      Inr (if Verify s f = 0 then (0, \<lparr>path_buffer = b, path_unk = u\<rparr>) else (Verify s f, p))"
    "length b = 0x70" "Verify s f = 0 \<Longrightarrow> c_str b = folder_text c k f @ file_text c k f"
proof (cases "Verify s f = 0")
  case True
  then have ok: "date_ok (date_time f)" "StorageValid (storage_id f)"
    "ContentTypeValid (content_type f)"
    by (auto simp: Verify_ok_iff dest: IsTypeSupported_valid)
  obtain b where "GetAlbumPath c k (path_buffer p) 0x6d f =
      Inr (of_nat (length (folder_text c k f @ file_text c k f)), b)"
    "length b = 0x70" "c_str b = folder_text c k f @ file_text c k f"
    by (rule GetAlbumPath_text [OF assms(1) ok assms(2)])
  with True show thesis by (intro that [of b]) (simp_all add: MakeAlbumPath_def)
next
  case False
  then show thesis
    using assms(2) by (intro that [of "path_buffer p"]) (simp_all add: MakeAlbumPath_def R_FAILED_iff)
qed

subsection \<open>Reading\<close>

lemma hex_value_digit: "d < 16 \<Longrightarrow> hex_value (digit_char d) = Some d"
  by (simp add: hex_value_def digit_char_code Let_def)

lemma fmt_X_2: "n < 256 \<Longrightarrow> fmt_X 2 n = [digit_char (n div 16), digit_char (n mod 16)]"
  by (cases "n < 16")
    (simp_all add: fmt_X_def pad_zero_def show_base.simps [of 16] digit_char_0 less_mult_imp_div_less)

lemma fmt_X_byte:
  "fmt_X 2 (unat (b :: u8)) = [digit_char (unat b div 16), digit_char (unat b mod 16)]"
  using unsigned_less [of b, where 'a = nat] by (simp add: fmt_X_2)

lemma strtoul_pair_byte:
  "strtoul_pair (digit_char (unat b div 16)) (digit_char (unat b mod 16)) = Some b"
proof -
  have "unat b div 16 < 16" using unsigned_less [of b, where 'a = nat] by simp
  moreover have "16 * (unat b div 16) + unat b mod 16 = unat b" by simp
  then have "(of_nat (16 * (unat b div 16) + unat b mod 16) :: u8) = b" 
    by (simp only: of_nat_unat ucast_id)
  ultimately show ?thesis by (simp add: strtoul_pair_def hex_value_digit)
qed

lemma strtoul_pair_X: "strtoul_pair a (CHR ''X'') = None"
  by (simp add: strtoul_pair_def hex_value_def)

lemma char_at_append: "length pre = i \<Longrightarrow> char_at (pre @ ch # post) i = Inr ch"
  by (simp add: char_at_def nth_append)

lemma poke_Cons:
  "i + length xs < length b \<Longrightarrow> poke (Suc i) xs (b[i := x]) = poke i (x # xs) b"
  by (simp add: poke_def take_Suc_conv_app_nth)

text \<open>The loop reads printed bytes into the block and goes on after them.\<close>

lemma ident_loop_hex:
  "length pre = pos \<Longrightarrow> length b = 16 \<Longrightarrow> length cy + m \<le> 16 \<Longrightarrow>
   ident_loop (length cy + m) (pre @ hex32 cy @ post) pos b =
     ident_loop m (pre @ hex32 cy @ post) (pos + 2 * length cy) (poke (16 - (length cy + m)) cy b)"
proof (induction cy arbitrary: pre pos b)
  case Nil
  then show ?case by (simp add: poke_def)
next
  case (Cons x cy)
  let ?d = "fmt_X 2 (unat x)"
  let ?s = "pre @ hex32 (x # cy) @ post"
  have s: "?s = pre @ digit_char (unat x div 16) # digit_char (unat x mod 16) # hex32 cy @ post"
    by (simp add: hex32_def fmt_X_byte)
  have s': "?s = (pre @ ?d) @ hex32 cy @ post" by (simp add: hex32_def)
  have c: "char_at ?s pos = Inr (digit_char (unat x div 16))"
    "char_at ?s (pos + 1) = Inr (digit_char (unat x mod 16))"
    using char_at_append [of pre pos] char_at_append [of "pre @ [digit_char (unat x div 16)]" "pos + 1"]
      Cons.prems(1) unfolding s by simp_all
  have "ident_loop (length (x # cy) + m) ?s pos b =
      ident_loop (length cy + m) ?s (pos + 2) (b[16 - Suc (length cy + m) := x])"
    using c by (simp add: strtoul_pair_byte)
  also have "\<dots> = ident_loop m ?s (pos + 2 + 2 * length cy)
      (poke (16 - (length cy + m)) cy (b[16 - Suc (length cy + m) := x]))"
    unfolding s' using Cons.prems by (intro Cons.IH) simp_all
  also have "poke (16 - (length cy + m)) cy (b[16 - Suc (length cy + m) := x]) =
      poke (16 - (length (x # cy) + m)) (x # cy) b"
  proof -
    have "16 - (length cy + m) = Suc (16 - Suc (length cy + m))" using Cons.prems(3) by simp
    moreover have "16 - Suc (length cy + m) + length cy < length b" using Cons.prems(2,3) by simp
    ultimately show ?thesis using poke_Cons by (metis add_Suc length_Cons)
  qed
  finally show ?case by simp
qed

lemma Decrypt_path_normal:
  assumes "block_cipher (aes128_encrypt c) (aes128_decrypt c)"
  shows "Decrypt_path c k (EncryptFileExtension c k app False) = (app, 0)"
proof -
  have "(le_bytes 8 app @ le_bytes 8 (0 :: u64))[15 := 0] = le_bytes 8 app @ le_bytes 8 (0 :: u64)"
    by (rule nth_equalityI) (auto simp: nth_list_update nth_append le_bytes_def)
  then show ?thesis
    by (simp add: Decrypt_path_def EncryptFileExtension_def Let_def block_cipherD [OF assms])
qed

lemma Decrypt_path_extra:
  assumes "block_cipher (aes128_encrypt c) (aes128_decrypt c)"
  shows "Decrypt_path c k (EncryptFileExtension c k app True) = (app, 0x100000000000000)"
proof -
  have "(le_bytes 8 app @ le_bytes 8 (0 :: u64))[15 := 1] = le_bytes 8 app @ [0, 0, 0, 0, 0, 0, 0, 1]"
  proof -
    have "le_bytes 8 (0 :: u64) = [0, 0, 0, 0, 0, 0, 0, 0]"
      by (simp add: le_bytes_def upt_rec)
    then show ?thesis by (simp add: list_update_append)
  qed
  moreover have "(le_word [0, 0, 0, 0, 0, 0, 0, 1] :: u64) = 0x100000000000000" by simp
  ultimately show ?thesis
    by (simp add: Decrypt_path_def EncryptFileExtension_def Let_def block_cipherD [OF assms])
qed

lemma DecryptFileIdentifier_full:
  assumes "length junk = 16" and "length cy = 16"
  shows "DecryptFileIdentifier c k junk (ch # hex32 cy @ post) 1 app0 x0 =
    Inr (let (o0, o1) = Decrypt_path c k cy in
      if \<not> o1 \<le> 1 then (ResultAlbumInvalidApplicationId, app0, x0, 33) else (0, o0, o1 = 1, 33))"
proof -
  have "ident_loop 16 (ch # hex32 cy @ post) 1 junk = Inr (cy, 33)"
    using ident_loop_hex [of "[ch]" 1 junk cy 0 post] assms by (simp add: poke_def)
  then show ?thesis by (simp add: DecryptFileIdentifier_def split: prod.splits)
qed

text \<open>A name cut to 31 digits and followed by \<open>X\<close>: the last pair is no number.\<close>

lemma DecryptFileIdentifier_cut:
  assumes "length junk = 16" and "length cy = 16"
  shows "\<exists>b. DecryptFileIdentifier c k junk (ch # take 31 (hex32 cy) @ CHR ''X'' # post) 1 app0 x0 =
    Inr (let (o0, o1) = Decrypt_path c k b in
      if \<not> o1 \<le> 1 then (ResultAlbumInvalidApplicationId, app0, x0, 33) else (0, o0, o1 = 1, 33))"
proof -
  let ?d = "digit_char (unat (cy ! 15) div 16)"
  have "cy = take 15 cy @ [cy ! 15]" using assms(2) take_Suc_conv_app_nth [of 15 cy] by simp
  then have "hex32 cy = hex32 (take 15 cy) @ fmt_X 2 (unat (cy ! 15))"
    by (metis hex32_append hex32_single)
  then have t: "take 31 (hex32 cy) = hex32 (take 15 cy) @ [?d]"
    using assms(2) by (simp add: fmt_X_byte)
  let ?s = "ch # take 31 (hex32 cy) @ CHR ''X'' # post"
  have s: "?s = [ch] @ hex32 (take 15 cy) @ ?d # CHR ''X'' # post" unfolding t by simp
  have "char_at ?s 31 = Inr ?d" "char_at ?s 32 = Inr (CHR ''X'')"
    using char_at_append [of "ch # hex32 (take 15 cy)" 31]
      char_at_append [of "ch # hex32 (take 15 cy) @ [?d]" 32] assms(2) unfolding s by simp_all
  then have "ident_loop 1 ?s 31 b = Inr (b, 33)" for b
    using ident_loop.simps(2) [of 0 ?s 31 b] by (simp add: strtoul_pair_X)
  moreover have "ident_loop 16 ?s 1 junk = ident_loop 1 ?s 31 (poke 0 (take 15 cy) junk)"
    using ident_loop_hex [of "[ch]" 1 junk "take 15 cy" 1 "?d # CHR ''X'' # post"] assms
    unfolding s by simp
  ultimately have "ident_loop 16 ?s 1 junk = Inr (poke 0 (take 15 cy) junk, 33)" by simp
  then show ?thesis
    by (intro exI [of _ "poke 0 (take 15 cy) junk"])
      (simp add: DecryptFileIdentifier_def split: prod.splits)
qed

lemma GetFileExtension_normal:
  "t = Screenshot \<or> t = Movie \<Longrightarrow> GetFileExtension t = Some ext \<Longrightarrow>
   GetFileType t0 False ext = (0, t) \<and> length ext = 4 \<and> hd ext = CHR ''.''"
  by (auto simp: GetFileType_def GetFileExtension_def)

text \<open>The names as they are meant to be, with all 32 digits of the cypher, are read back.\<close>

lemma FromString_full_name:
  assumes "block_cipher (aes128_encrypt c) (aes128_decrypt c)" and "length junk = 16"
    and "date_ok d" and "t = Screenshot \<or> t = Movie" and "GetFileExtension t = Some ext"
  shows "FromString c k junk st
      (date_text d @ ''-'' @ hex32 (EncryptFileExtension c k app False) @ ext) f =
    Inr (0, f\<lparr>application_id := app, date_time := d, content_type := t, storage_id := st\<rparr>)"
proof -
  let ?cy = "EncryptFileExtension c k app False"
  have cy: "length ?cy = 16" by (rule length_encrypted(2) [OF assms(1)])
  have ext: "length ext = 4" "hd ext = CHR ''.''" "GetFileType t0 False ext = (0, t)" for t0
    using GetFileExtension_normal [OF assms(4,5)] by simp_all
  obtain e where e: "ext = CHR ''.'' # e" using ext(1,2) by (cases ext) auto
  let ?r = "CHR ''-'' # hex32 ?cy @ ext"
  have dec: "DecryptFileIdentifier c k junk ?r 1 (application_id f) False = Inr (0, app, False, 33)"
    using DecryptFileIdentifier_full [OF assms(2) cy, of c k "CHR ''-''" ext "application_id f" False]
    by (simp add: Decrypt_path_normal [OF assms(1)])
  have dot: "char_at ?r 0 = Inr (CHR ''-'')" "char_at ?r 33 = Inr (CHR ''.'')" "drop 33 ?r = ext"
    using cy e by (simp_all add: char_at_def nth_append)
  have l: "length (date_text d @ ?r) = 53" using cy ext(1) assms(3) by (simp add: fmt_simps)
  show ?thesis
    unfolding FromString_def
    using l DateTimeFromString_date_text [OF assms(3), of "date_time f" ?r] dec dot ext(3)
    by (simp add: Let_def)
qed

text \<open>The names the program writes are not.\<close>

lemma FromString_normal_name:
  assumes "block_cipher (aes128_encrypt c) (aes128_decrypt c)" and "date_ok (date_time f)"
    and "ContentTypeValid (content_type f)" and "IsNormal (content_type f)"
  shows "FromString c k junk st (file_text c k f) g = Inr (0x10, g)"
  using length_file_text [OF assms(1-3), of k] assms(4) by (simp add: FromString_def IsExtra_def)

lemma GetFileType_False_normal: "GetFileType t0 False s = (0, t) \<Longrightarrow> IsNormal t"
  by (auto simp: GetFileType_def IsNormal_def result_values split: if_splits)

lemma FromString_extra_name:
  assumes "block_cipher (aes128_encrypt c) (aes128_decrypt c)" and "length junk = 16"
    and "date_ok (date_time f)" and "ContentTypeValid (content_type f)" and "IsExtra (content_type f)"
  shows "\<exists>rc g'. FromString c k junk st (file_text c k f) g = Inr (rc, g') \<and>
    (rc \<noteq> 0 \<or> IsNormal (content_type g'))"
proof -
  let ?cy = "EncryptFileExtension c k (application_id f) True"
  have cy: "length ?cy = 16" by (rule length_encrypted(2) [OF assms(1)])
  obtain e where e: "GetFileExtension (content_type f) = Some (CHR ''.'' # e)" "length e = 3"
    using assms(4) by (auto simp: ContentTypeValid_def GetFileExtension_def)
  let ?r = "CHR ''-'' # take 31 (hex32 ?cy) @ CHR ''X'' # CHR ''.'' # e"
  have ft: "file_text c k f = date_text (date_time f) @ ?r"
    using assms(5) e(1) by (simp add: file_text_def)
  obtain b where dec: "DecryptFileIdentifier c k junk ?r 1 (application_id g) False =
    Inr (let (o0, o1) = Decrypt_path c k b in
      if \<not> o1 \<le> 1 then (ResultAlbumInvalidApplicationId, application_id g, False, 33)
      else (0, o0, o1 = 1, 33))"
    using DecryptFileIdentifier_cut [OF assms(2) cy, of c k "CHR ''-''" "CHR ''.'' # e"
        "application_id g" False] by blast
  obtain o0 o1 where o: "Decrypt_path c k b = (o0, o1)" by (cases "Decrypt_path c k b")
  have dot: "char_at ?r 0 = Inr (CHR ''-'')" "char_at ?r 33 = Inr (CHR ''.'')"
    using cy by (simp_all add: char_at_def nth_append)
  have l: "length (date_text (date_time f) @ ?r) = 53"
    using cy e(2) assms(3) by (simp add: fmt_simps)
  obtain rc t where ty: "GetFileType (content_type g) False (drop 33 ?r) = (rc, t)"
    by (cases "GetFileType (content_type g) False (drop 33 ?r)")
  have "rc = 0 \<Longrightarrow> IsNormal t" using ty GetFileType_False_normal by blast
  then show ?thesis
    unfolding ft FromString_def
    using l DateTimeFromString_date_text [OF assms(3), of "date_time g" ?r] dec o dot ty
    by (auto simp: Let_def R_FAILED_iff result_values)
qed

section \<open>Properties\<close>

text \<open>Building the path of a file never writes outside its buffer nor truncates: it fails
  exactly when the identifier is refused, leaving the path object alone, and otherwise the buffer
  holds the folder followed by the file name, at most 105 characters.\<close>

theorem MakeAlbumPath_spec:
  "block_cipher (aes128_encrypt c) (aes128_decrypt c) \<Longrightarrow> length (path_buffer p) = 0x70 \<Longrightarrow>
   (Verify s f \<noteq> 0 \<longrightarrow> MakeAlbumPath c k s f u p = Inr (Verify s f, p)) \<and>
   (Verify s f = 0 \<longrightarrow>
     (\<exists>b. MakeAlbumPath c k s f u p = Inr (ResultSuccess, \<lparr>path_buffer = b, path_unk = u\<rparr>) \<and>
          length b = 0x70 \<and> c_str b = folder_text c k f @ file_text c k f \<and> length (c_str b) \<le> 105))"
proof -
  assume A: "block_cipher (aes128_encrypt c) (aes128_decrypt c)" "length (path_buffer p) = 0x70"
  have "length (folder_text c k f @ file_text c k f) \<le> 105" if "Verify s f = 0"
  proof -
    from that have ok: "date_ok (date_time f)" "StorageValid (storage_id f)"
      "ContentTypeValid (content_type f)"
      by (auto simp: Verify_ok_iff dest: IsTypeSupported_valid)
    show ?thesis
      using length_folder_text [OF A(1) ok(1,2), of k] length_file_text [OF A(1) ok(1,3), of k]
      by simp
  qed
  then show ?thesis by (rule_tac MakeAlbumPath_text [OF A, of k s f u]) auto
qed

theorem MakeAlbumPath_spec_witness:
  "\<exists>b. MakeAlbumPath sample_crypto initial_keys (booted_settings (sample_platform 0x40000))
        (fileId sample_entry) 3 AlbumPath_ctor =
      Inr (0, \<lparr>path_buffer = b, path_unk = 3\<rparr>) \<and>
    c_str b = folder_text sample_crypto initial_keys (fileId sample_entry) @
      file_text sample_crypto initial_keys (fileId sample_entry)"
proof -
  have "Verify (booted_settings (sample_platform 0x40000)) (fileId sample_entry) = 0"
    by (simp add: Verify_ok_iff sample_entry_def date_ok_def StorageValid_def IsTypeSupported_def
        Initialize_settings_def hosversionBefore_def make_hos_version_def sample_platform_def
        read_switch_def Let_def)
  then show ?thesis
    using MakeAlbumPath_spec [of sample_crypto AlbumPath_ctor
        "booted_settings (sample_platform 0x40000)" "fileId sample_entry" initial_keys 3]
    by (auto simp: sample_cipher AlbumPath_ctor_def)
qed

text \<open>C36: a file name that carries all 32 digits of the encrypted application identifier is read
  back: the parser recovers application, date, type and storage of a normal file.\<close>

theorem full_file_name_roundtrip:
  "block_cipher (aes128_encrypt c) (aes128_decrypt c) \<Longrightarrow> length junk = 16 \<Longrightarrow> date_ok d \<Longrightarrow>
   t = Screenshot \<or> t = Movie \<Longrightarrow> GetFileExtension t = Some ext \<Longrightarrow>
   FromString c k junk st (date_text d @ ''-'' @ hex32 (EncryptFileExtension c k app False) @ ext) f =
     Inr (ResultSuccess,
          f\<lparr>application_id := app, date_time := d, content_type := t, storage_id := st\<rparr>)"
  by (rule FromString_full_name)

theorem full_file_name_roundtrip_witness:
  "FromString sample_crypto initial_keys (replicate 16 0) Sd
     (date_text (date_time (fileId sample_entry)) @ ''-'' @
      hex32 (EncryptFileExtension sample_crypto initial_keys 0x0100000000010000 False) @ ''.mp4'')
     zero_AlbumFileId =
   Inr (0, \<lparr>application_id = 0x0100000000010000, date_time = date_time (fileId sample_entry),
     storage_id = Sd, content_type = Movie, pad = replicate 6 0\<rparr>)"
  using full_file_name_roundtrip [where c = sample_crypto and junk = "replicate 16 0" and
      d = "date_time (fileId sample_entry)" and t = Movie and ext = "''.mp4''" and k = initial_keys and
      st = Sd and app = "0x0100000000010000" and f = zero_AlbumFileId]
  by (simp add: sample_cipher sample_entry_def date_ok_def GetFileExtension_def zero_AlbumFileId_def)

text \<open>C37: no name the program writes is read back as the file it names. \<open>GetFileName\<close>, given
  room for the name, writes it whole, but its buffer for the cypher holds 31 of the 32 digits:
  reading the written name back with \<open>FromString\<close> refuses that of a normal file for its length
  (result 0x10, nothing parsed), and that of an extra file is refused or taken for a normal file.\<close>

theorem written_names_not_read_back:
  "block_cipher (aes128_encrypt c) (aes128_decrypt c) \<Longrightarrow> length junk = 16 \<Longrightarrow>
   date_ok (date_time (f :: AlbumFileId)) \<Longrightarrow> ContentTypeValid (content_type f) \<Longrightarrow>
   0x40 \<le> unat n \<Longrightarrow> off + unat n \<le> length buf \<Longrightarrow>
   \<exists>len b. GetFileName c k buf off n (date_time f) (application_id f) (content_type f) = Inr (len, b) \<and>
     (\<exists>rc g'. FromString c k junk st (c_str (drop off b)) g = Inr (rc, g') \<and>
        (if IsNormal (content_type f) then rc = 0x10 \<and> g' = g
         else rc \<noteq> ResultSuccess \<or> IsNormal (content_type g')))"
  using GetFileName_text [of c f n off buf k] FromString_normal_name [of c f k junk st g]
    FromString_extra_name [of c junk f k st g]
  by (fastforce simp: IsExtra_def)

theorem written_names_not_read_back_witness:
  "\<exists>len b g'. GetFileName sample_crypto initial_keys (replicate 0x40 NUL) 0 0x40
       (date_time (fileId sample_entry)) 0x0100000000010000 Screenshot = Inr (len, b) \<and>
     FromString sample_crypto initial_keys (replicate 16 0) Sd (c_str b) zero_AlbumFileId = Inr (0x10, g')"
  using written_names_not_read_back [of sample_crypto "replicate 16 0"
      "(fileId sample_entry)\<lparr>application_id := 0x0100000000010000, content_type := Screenshot\<rparr>"
      "0x40" 0 "replicate 0x40 NUL" initial_keys Sd zero_AlbumFileId]
  by (auto simp: sample_cipher sample_entry_def date_ok_def ContentTypeValid_def IsNormal_def)

end
