(* ===== verification/Reserve.thy ===== *)
theory Reserve
  imports Types "HOL-Library.Multiset"
begin

text \<open>
  \<open>AlbumReserve\<close> (\<open>capsrv_types.cpp\<close>): ten slots for the files that are being read or
  written. Abstractly it is a multiset of at most ten identifiers.
\<close>

section \<open>Slots\<close>

record reserve_slot =
  slot_used :: bool
  slot_file_id :: AlbumFileId

type_synonym AlbumReserve = "reserve_slot list"

text \<open>The constructor only clears \<open>used\<close>; the identifiers are what the memory held.\<close>

definition AlbumReserve_ctor :: "AlbumReserve \<Rightarrow> AlbumReserve" where
  "AlbumReserve_ctor slots = map (\<lambda>res. res\<lparr>slot_used := False\<rparr>) slots"

fun Reserve :: "AlbumFileId \<Rightarrow> AlbumReserve \<Rightarrow> result \<times> AlbumReserve" where
  "Reserve f [] = (ResultInternalError, [])"
| "Reserve f (res # slots) =
     (if slot_used res then (let (rc, slots) = Reserve f slots in (rc, res # slots))
      else (ResultSuccess, res\<lparr>slot_file_id := f, slot_used := True\<rparr> # slots))"

fun Unreserve :: "AlbumFileId \<Rightarrow> AlbumReserve \<Rightarrow> result \<times> AlbumReserve" where
  "Unreserve f [] = (ResultInternalError, [])"
| "Unreserve f (res # slots) =
     (if slot_used res \<and> AlbumFileId_eq (slot_file_id res) f
      then (ResultSuccess, res\<lparr>slot_used := False\<rparr> # slots)
      else (let (rc, slots) = Unreserve f slots in (rc, res # slots)))"

fun IsReserved :: "AlbumFileId \<Rightarrow> AlbumReserve \<Rightarrow> bool" where
  "IsReserved f [] = False"
| "IsReserved f (res # slots) =
     (if \<not> slot_used res then IsReserved f slots
      else if AlbumFileId_eq (slot_file_id res) f then True else IsReserved f slots)"

text \<open>The memory of a reserve before its constructor runs, for a zeroed global.\<close>

definition empty_reserve :: AlbumReserve where
  "empty_reserve = AlbumReserve_ctor (replicate 10 \<lparr>slot_used = False, slot_file_id = zero_AlbumFileId\<rparr>)"

section \<open>The contract of a reservation table\<close>

text \<open>
  A bounded multiset: taking an item fails exactly when the table is full, giving one back fails
  exactly when it is not there, and the test is membership.
\<close>

locale reservation =
  fixes ok :: "'s \<Rightarrow> bool"
    and item :: "'k \<Rightarrow> bool"
    and capacity :: "'s \<Rightarrow> nat"
    and items :: "'s \<Rightarrow> 'k multiset"
    and take_item :: "'k \<Rightarrow> 's \<Rightarrow> result \<times> 's"
    and give_item :: "'k \<Rightarrow> 's \<Rightarrow> result \<times> 's"
    and has_item :: "'k \<Rightarrow> 's \<Rightarrow> bool"
  assumes bounded: "ok s \<Longrightarrow> size (items s) \<le> capacity s"
    and take_ok: "ok s \<Longrightarrow> item k \<Longrightarrow> size (items s) < capacity s \<Longrightarrow>
      \<exists>t. take_item k s = (0, t) \<and> ok t \<and> capacity t = capacity s \<and>
          items t = add_mset k (items s)"
    and take_full: "ok s \<Longrightarrow> size (items s) = capacity s \<Longrightarrow>
      take_item k s = (ResultInternalError, s)"
    and give_ok: "ok s \<Longrightarrow> item k \<Longrightarrow> k \<in># items s \<Longrightarrow>
      \<exists>t. give_item k s = (0, t) \<and> ok t \<and> capacity t = capacity s \<and>
          items t = items s - {#k#}"
    and give_absent: "ok s \<Longrightarrow> item k \<Longrightarrow> k \<notin># items s \<Longrightarrow>
      give_item k s = (ResultInternalError, s)"
    and has_iff: "ok s \<Longrightarrow> item k \<Longrightarrow> has_item k s \<longleftrightarrow> k \<in># items s"
begin

lemma take_then_has:
  assumes "ok s" "item k" "take_item k s = (0, t)"
  shows "has_item k t"
proof -
  have "size (items s) < capacity s"
    using assms(1,3) take_full [of s k] bounded [OF assms(1)]
    by (auto simp: result_values order.order_iff_strict)
  then show ?thesis using take_ok [OF assms(1,2)] assms(2,3) has_iff by fastforce
qed

lemma take_give:
  assumes "ok s" "item k" "take_item k s = (0, t)"
  shows "\<exists>u. give_item k t = (0, u) \<and> items u = items s"
proof -
  have "size (items s) < capacity s"
    using assms(1,3) take_full [of s k] bounded [OF assms(1)]
    by (auto simp: result_values order.order_iff_strict)
  with take_ok [OF assms(1,2)] assms(3) have t: "ok t" "items t = add_mset k (items s)" by auto
  then show ?thesis using give_ok [OF t(1) assms(2)] by auto
qed

lemma take_result:
  assumes "ok s" "item k"
  shows "fst (take_item k s) = 0 \<longleftrightarrow> size (items s) < capacity s"
  using take_ok [OF assms] take_full [OF assms(1), of k] bounded [OF assms(1)]
  by (cases "size (items s) < capacity s") (auto simp: result_values)

end

section \<open>The slots keep the contract\<close>

definition wf_reserve :: "AlbumReserve \<Rightarrow> bool" where
  "wf_reserve slots \<longleftrightarrow> (\<forall>res\<in>set slots. slot_used res \<longrightarrow> wf_file_id (slot_file_id res))"

definition reserved :: "AlbumReserve \<Rightarrow> AlbumFileId multiset" where
  "reserved slots = mset (map slot_file_id (filter slot_used slots))"

lemma reserved_simps [simp]:
  "reserved [] = {#}"
  "reserved (res # slots) =
     (if slot_used res then add_mset (slot_file_id res) (reserved slots) else reserved slots)"
  by (simp_all add: reserved_def)

lemma wf_reserve_simps [simp]:
  "wf_reserve []"
  "wf_reserve (res # slots) \<longleftrightarrow>
     (slot_used res \<longrightarrow> wf_file_id (slot_file_id res)) \<and> wf_reserve slots"
  by (auto simp: wf_reserve_def)

lemma reserved_ctor [simp]: "reserved (AlbumReserve_ctor slots) = {#}"
  by (induction slots) (simp_all add: AlbumReserve_ctor_def)

lemma wf_reserve_ctor [simp]: "wf_reserve (AlbumReserve_ctor slots)"
  by (induction slots) (simp_all add: AlbumReserve_ctor_def)

lemma length_reserve_ctor [simp]: "length (AlbumReserve_ctor slots) = length slots"
  by (simp add: AlbumReserve_ctor_def)

lemma size_reserved: "size (reserved slots) \<le> length slots"
  by (induction slots) auto

lemma Reserve_ok:
  "wf_reserve slots \<Longrightarrow> wf_file_id f \<Longrightarrow> size (reserved slots) < length slots \<Longrightarrow>
   \<exists>t. Reserve f slots = (0, t) \<and> wf_reserve t \<and> length t = length slots \<and>
       reserved t = add_mset f (reserved slots)"
  by (induction slots) (auto split: prod.splits)

lemma Reserve_full:
  "size (reserved slots) = length slots \<Longrightarrow> Reserve f slots = (ResultInternalError, slots)"
proof (induction slots)
  case (Cons res slots)
  then have "slot_used res"
    using size_reserved [of slots] by (auto split: if_splits)
  with Cons show ?case by simp
qed simp

lemma Unreserve_ok:
  "wf_reserve slots \<Longrightarrow> wf_file_id f \<Longrightarrow> f \<in># reserved slots \<Longrightarrow>
   \<exists>t. Unreserve f slots = (0, t) \<and> wf_reserve t \<and> length t = length slots \<and>
       reserved t = reserved slots - {#f#}"
  by (induction slots) (auto split: prod.splits if_splits)

lemma Unreserve_absent:
  "wf_reserve slots \<Longrightarrow> wf_file_id f \<Longrightarrow> f \<notin># reserved slots \<Longrightarrow>
   Unreserve f slots = (ResultInternalError, slots)"
  by (induction slots) (auto split: prod.splits if_splits)

lemma IsReserved_iff:
  "wf_reserve slots \<Longrightarrow> wf_file_id f \<Longrightarrow> IsReserved f slots \<longleftrightarrow> f \<in># reserved slots"
  by (induction slots) auto

interpretation reserve: reservation wf_reserve wf_file_id length reserved Reserve Unreserve IsReserved
  by unfold_locales
    (simp_all add: size_reserved Reserve_ok Reserve_full Unreserve_ok Unreserve_absent IsReserved_iff)

lemma IsReserved_ctor [simp]: "\<not> IsReserved f (AlbumReserve_ctor slots)"
  by (induction slots) (simp_all add: AlbumReserve_ctor_def)

section \<open>Properties\<close>

text \<open>Reserving a file succeeds exactly while fewer than all slots are in use; the file is then
  reserved, and releasing it restores the multiset of reserved files.\<close>

theorem reserve_then_release:
  "wf_reserve slots \<Longrightarrow> wf_file_id f \<Longrightarrow>
   (fst (Reserve f slots) = ResultSuccess \<longleftrightarrow> size (reserved slots) < length slots) \<and>
   (\<forall>t. Reserve f slots = (ResultSuccess, t) \<longrightarrow>
     IsReserved f t \<and> (\<exists>u. Unreserve f t = (ResultSuccess, u) \<and> reserved u = reserved slots))"
  using reserve.take_result reserve.take_then_has reserve.take_give by blast

theorem reserve_then_release_witness:
  "wf_reserve empty_reserve \<and> wf_file_id zero_AlbumFileId \<and>
   fst (Reserve zero_AlbumFileId empty_reserve) = 0"
  using reserve_then_release [of empty_reserve zero_AlbumFileId]
  by (simp add: empty_reserve_def wf_file_id_def zero_AlbumFileId_def)

end
