(* ===== verification/Movie.thy ===== *)
theory Movie
  imports FileName Reserve
begin

text \<open>
  Movie recording as far as it exists (\<open>capsrv_movie.cpp\<close>, \<open>capsrv_stream.hpp\<close>): the generator
  of stream identifiers, the temporary files of the \<open>TM\<close> save data, the output stream's
  stubs and the controller that closes streams when a storage goes away.
\<close>

section \<open>Stream identifiers\<close>

type_synonym StreamIdGenerator = u64

definition StreamId_Initialize :: "StreamIdGenerator \<Rightarrow> StreamIdGenerator" where
  "StreamId_Initialize counter = 1"

definition StreamId_Exit :: "StreamIdGenerator \<Rightarrow> StreamIdGenerator" where
  "StreamId_Exit counter = 1"

definition GenerateStreamId :: "StreamIdGenerator \<Rightarrow> u64 \<times> StreamIdGenerator" where
  "GenerateStreamId counter = (counter, counter + 1)"

definition InvalidStreamId :: u64 where
  "InvalidStreamId = 0"

text \<open>The identifiers of \<open>n\<close> calls in a row.\<close>

primrec stream_ids :: "nat \<Rightarrow> StreamIdGenerator \<Rightarrow> u64 list" where
  "stream_ids 0 g = []"
| "stream_ids (Suc n) g = (let (sid, g) = GenerateStreamId g in sid # stream_ids n g)"

section \<open>Temporary files\<close>

text \<open>\<open>total_count\<close> is shared by all temporary files; \<open>path\<close> and \<open>tm_file\<close> belong to one.\<close>

record TemporaryFile =
  total_count :: u32
  tm_file :: handle
  tm_path :: string

definition tm_name :: "u8 list \<Rightarrow> string" where
  "tm_name rand_id = c_str (fst (snprintf_at (replicate 0x15 NUL) 0 0x15
     (''TM:/'' @ fmt_X 16 (unat (le_word rand_id :: u64)))))"

text \<open>The loop over the attempts, after the count was taken; a failure gives it back.\<close>

definition give_back :: "TemporaryFile \<Rightarrow> TemporaryFile" where
  "give_back t = t\<lparr>total_count := total_count t - 1\<rparr>"

fun make_attempts ::
  "nat \<Rightarrow> 'w platform \<Rightarrow> int \<Rightarrow> TemporaryFile \<Rightarrow> 'w \<Rightarrow> result \<times> TemporaryFile \<times> 'w" where
  "make_attempts 0 p file_size t w =
     (ResultInternalAlbumTemporaryFileCreateRetryCountLimit, give_back t, w)"
| "make_attempts (Suc n) p file_size t w =
     (let (rand_id, w) = GenerateRandomBytes p 8 w;
          path = tm_name rand_id;
          (rc, w) = fs_CreateFile p path file_size w
      in if R_FAILED rc then
           (if Includes fs_PathAlreadyExists rc then make_attempts n p file_size t w
            else (ResultInternalAlbumTemporaryFileCreateError, give_back t, w))
         else
           (let (rc, file_handle, w) = fs_OpenFile p path OpenMode_All w
            in if R_FAILED rc
               then (ResultInternalAlbumTemporaryFileCreateRetryCountLimit, give_back t,
                     snd (fs_DeleteFile p path w))
               else (ResultSuccess, t\<lparr>tm_file := file_handle, tm_path := path\<rparr>, w)))"

definition TemporaryFile_Make ::
  "'w platform \<Rightarrow> environment \<Rightarrow> int \<Rightarrow> TemporaryFile \<Rightarrow> 'w \<Rightarrow> result \<times> TemporaryFile \<times> 'w" where
  "TemporaryFile_Make p env file_size t w =
     (if IsQuest env then (ResultAlbumIsFull, t, w) else
      let t = t\<lparr>total_count := total_count t + 1\<rparr>
      in if \<not> total_count t < 0x20
         then (ResultInternalAlbumTemporaryFileCountLimit, give_back t, w)
         else make_attempts 0x100 p file_size t w)"

definition TemporaryFile_Delete ::
  "'w platform \<Rightarrow> TemporaryFile \<Rightarrow> 'w \<Rightarrow> (TemporaryFile \<times> 'w) run" where
  "TemporaryFile_Delete p t w =
     (let (_, w) = fs_FlushFile p (tm_file t) w;
          w = fs_CloseFile p (tm_file t) w;
          (_, w) = fs_DeleteFile p (tm_path t) w;
          count = total_count t;
          t = t\<lparr>total_count := total_count t - 1\<rparr>
      in if count > 0 then Inr (t, w) else Inl Abort)"

definition TemporaryFile_Read ::
  "'w platform \<Rightarrow> TemporaryFile \<Rightarrow> int \<Rightarrow> nat \<Rightarrow> 'w \<Rightarrow> result \<times> u8 list \<times> 'w" where
  "TemporaryFile_Read p t offset read_size w =
     (let (rc, data, w) = fs_ReadFile p (tm_file t) offset read_size w
      in if R_FAILED rc then (ResultInternalAlbumTemporaryFileReadFileError, data, w)
         else (ResultSuccess, data, w))"

definition TemporaryFile_Write ::
  "'w platform \<Rightarrow> TemporaryFile \<Rightarrow> int \<Rightarrow> u8 list \<Rightarrow> 'w \<Rightarrow> result \<times> 'w" where
  "TemporaryFile_Write p t offset data w =
     (let (rc, w) = fs_WriteFile p (tm_file t) offset data w
      in if R_FAILED rc then (ResultInternalAlbumTemporaryFileWriteFileError, w)
         else (ResultSuccess, w))"

definition TemporaryFile_SetSize ::
  "'w platform \<Rightarrow> TemporaryFile \<Rightarrow> int \<Rightarrow> 'w \<Rightarrow> result \<times> 'w" where
  "TemporaryFile_SetSize p t new_size w =
     (let (rc, w) = fs_SetFileSize p (tm_file t) new_size w
      in if R_FAILED rc then (ResultInternalAlbumTemporaryFileSetFileSizeError, w)
         else (ResultSuccess, w))"

section \<open>Streams and their controller\<close>

record OutputStream =
  stream_last_error :: result
  stream_id :: u64
  stream_file_id :: AlbumFileId

definition GetStreamId :: "OutputStream \<Rightarrow> u64" where
  "GetStreamId st = stream_id st"
definition GetFileId :: "OutputStream \<Rightarrow> AlbumFileId" where
  "GetFileId st = stream_file_id st"
definition GetBrokenReason :: "OutputStream \<Rightarrow> result" where
  "GetBrokenReason st = stream_last_error st"
definition CloseByStorage :: "OutputStream \<Rightarrow> StorageId \<Rightarrow> OutputStream run" where
  "CloseByStorage st storage = Inl Abort"
definition OpenStream :: "OutputStream \<Rightarrow> (result \<times> OutputStream) run" where
  "OpenStream st = Inl Abort"

text \<open>A slot's status is the enumeration's integer; only \<open>Unused\<close> (0) has a name.\<close>

record MovieController =
  output_stream_status :: "u32 list"
  output_streams :: "OutputStream list"
  input_stream_status :: "u32 list"
  input_streams :: "OutputStream list"

definition zero_OutputStream :: OutputStream where
  "zero_OutputStream = \<lparr>stream_last_error = 0, stream_id = 0, stream_file_id = zero_AlbumFileId\<rparr>"

definition zero_MovieController :: MovieController where
  "zero_MovieController = \<lparr>output_stream_status = replicate 4 0,
     output_streams = replicate 4 zero_OutputStream, input_stream_status = replicate 2 0,
     input_streams = replicate 2 zero_OutputStream\<rparr>"

text \<open>\<open>Initialize\<close> stores pointers and calls \<open>memset\<close> with a size of zero.\<close>

definition MovieController_Initialize :: "MovieController \<Rightarrow> MovieController" where
  "MovieController_Initialize m =
     m\<lparr>output_stream_status := poke 0 (replicate 0 0) (output_stream_status m)\<rparr>"

definition MovieController_Exit :: "MovieController \<Rightarrow> MovieController" where
  "MovieController_Exit m = m"

fun close_slots :: "StorageId \<Rightarrow> u32 list \<Rightarrow> OutputStream list \<Rightarrow> OutputStream list run" where
  "close_slots sid (st # sts) (stream # streams) =
     then_run (if st \<noteq> 0 then CloseByStorage stream sid else Inr stream) (\<lambda>stream.
       then_run (close_slots sid sts streams) (\<lambda>streams. Inr (stream # streams)))"
| "close_slots sid _ streams = Inr streams"

definition CloseStreamsByStorageId :: "StorageId \<Rightarrow> MovieController \<Rightarrow> MovieController run" where
  "CloseStreamsByStorageId sid m =
     then_run (close_slots sid (output_stream_status m) (output_streams m)) (\<lambda>outs.
     then_run (close_slots sid (input_stream_status m) (input_streams m)) (\<lambda>ins.
       Inr (m\<lparr>output_streams := outs, input_streams := ins\<rparr>)))"

section \<open>Facts\<close>

lemma stream_ids_eq: "stream_ids n g = map (\<lambda>i. g + of_nat i) [0..<n]"
proof (induction n arbitrary: g)
  case (Suc n)
  have "[0..<Suc n] = 0 # map Suc [0..<n]" by (simp add: map_Suc_upt upt_conv_Cons)
  with Suc show ?case by (simp add: GenerateStreamId_def o_def add.assoc)
qed simp

lemma of_nat_word_inj: "i < 2 ^ LENGTH('a) \<Longrightarrow> j < 2 ^ LENGTH('a) \<Longrightarrow>
    of_nat i = (of_nat j :: 'a::len word) \<longleftrightarrow> i = j"
  by (metis unat_of_nat mod_less)

lemma tm_name_eq: "tm_name r = ''TM:/'' @ fmt_X 16 (unat (le_word r :: u64))"
proof -
  let ?t = "''TM:/'' @ fmt_X 16 (unat (le_word r :: u64))"
  have "length (fmt_X 16 (unat (le_word r :: u64))) = 16"
    using fmt_X_length [of "unat (le_word r :: u64)" 15] unsigned_less [of "le_word r :: u64", where 'a = nat]
    by simp
  then have "tm_name r = c_str (?t @ [NUL])"
    by (simp add: tm_name_def poke_def)
  also have "\<dots> = ?t" by (intro c_str_append_NUL) (simp add: fmt_simps)
  finally show ?thesis .
qed

lemma give_back_count: "total_count (give_back t) = total_count t - 1"
  by (simp add: give_back_def)

text \<open>The loop keeps the count it was given on success and returns it otherwise.\<close>

lemma make_attempts_count:
  "make_attempts n p sz t w = (rc, t', w') \<Longrightarrow>
   total_count t' = (if rc = 0 then total_count t else total_count t - 1) \<and>
   rc \<in> {0, ResultInternalAlbumTemporaryFileCreateRetryCountLimit,
         ResultInternalAlbumTemporaryFileCreateError}"
proof (induction n arbitrary: w)
  case 0
  then show ?case by (auto simp: give_back_count result_values)
next
  case (Suc n)
  obtain r w1 where r: "GenerateRandomBytes p 8 w = (r, w1)" by (cases "GenerateRandomBytes p 8 w")
  obtain rc1 w2 where c: "fs_CreateFile p (tm_name r) sz w1 = (rc1, w2)"
    by (cases "fs_CreateFile p (tm_name r) sz w1")
  obtain rc2 h w3 where o: "fs_OpenFile p (tm_name r) OpenMode_All w2 = (rc2, h, w3)"
    by (cases "fs_OpenFile p (tm_name r) OpenMode_All w2")
  from Suc.prems r c o Suc.IH [of w2] show ?case
    by (auto simp: Let_def R_FAILED_iff give_back_count result_values split: if_splits)
qed

lemma close_slots_unused: "\<forall>st\<in>set sts. st = 0 \<Longrightarrow> close_slots sid sts streams = Inr streams"
  by (induction sid sts streams rule: close_slots.induct) auto

definition streams_unused :: "MovieController \<Rightarrow> bool" where
  "streams_unused m \<longleftrightarrow> (\<forall>st\<in>set (output_stream_status m) \<union> set (input_stream_status m). st = 0)"

lemma CloseStreams_unused [simp]: "streams_unused m \<Longrightarrow> CloseStreamsByStorageId sid m = Inr m"
  by (simp add: CloseStreamsByStorageId_def close_slots_unused streams_unused_def)

lemma streams_unused_zero [simp]: "streams_unused zero_MovieController"
  by (simp add: streams_unused_def zero_MovieController_def)

lemma streams_unused_Initialize [simp]:
  "streams_unused m \<Longrightarrow> streams_unused (MovieController_Initialize m)"
  by (simp add: streams_unused_def MovieController_Initialize_def poke_def)

section \<open>Properties\<close>

text \<open>The stream identifiers handed out after initialisation are all different and none is the
  invalid identifier, for any number of calls below \<open>2 ^ 64\<close>.\<close>

theorem stream_ids_distinct:
  "n < 2 ^ 64 \<Longrightarrow>
   distinct (stream_ids n (StreamId_Initialize g)) \<and>
   InvalidStreamId \<notin> set (stream_ids n (StreamId_Initialize g))"
proof -
  assume n: "n < 2 ^ 64"
  have eq: "(1 :: u64) + of_nat i = of_nat (Suc i)" for i by simp
  have "inj_on (\<lambda>i. 1 + of_nat i :: u64) {0..<n}"
    using n unfolding eq by (intro inj_onI) (subst (asm) of_nat_word_inj, simp_all)
  moreover have "1 + of_nat i \<noteq> (0 :: u64)" if "i < n" for i
    using n that of_nat_word_inj [of "Suc i" 0, where 'a = 64] unfolding eq by simp
  ultimately show ?thesis
    by (auto simp: stream_ids_eq StreamId_Initialize_def InvalidStreamId_def distinct_map)
qed

theorem stream_ids_distinct_witness:
  "distinct (stream_ids 3 (StreamId_Initialize 7)) \<and>
   InvalidStreamId \<notin> set (stream_ids 3 (StreamId_Initialize 7))"
  using stream_ids_distinct [of 3 7] by simp

text \<open>The count of temporary files is exact and bounded: making one adds one exactly when it
  succeeds, every failure gives the count back, and no more than 31 exist at once.\<close>

theorem temporary_file_count:
  "TemporaryFile_Make p env sz t w = (rc, t', w') \<Longrightarrow> total_count t < 0x20 \<Longrightarrow>
   total_count t' = (if rc = ResultSuccess then total_count t + 1 else total_count t) \<and>
   total_count t' < 0x20"
proof -
  assume A: "TemporaryFile_Make p env sz t w = (rc, t', w')" "total_count t < 0x20"
  let ?t = "t\<lparr>total_count := total_count t + 1\<rparr>"
  consider "t' = t" "rc \<noteq> 0"
    | "t' = give_back ?t" "rc \<noteq> 0"
    | "make_attempts 0x100 p sz ?t w = (rc, t', w')" "total_count ?t < 0x20"
    using A(1) by (auto simp: TemporaryFile_Make_def Let_def result_values split: if_splits)
  then show ?thesis
    using A(2) by cases (auto simp: give_back_count dest: make_attempts_count)
qed

theorem temporary_file_count_witness:
  "TemporaryFile_Make (sample_platform 0x40000) initial_environment 10
     \<lparr>total_count = 30, tm_file = 0, tm_path = []\<rparr> 0 =
   (0, \<lparr>total_count = 31, tm_file = 0, tm_path = tm_name (replicate 8 0x2A)\<rparr>, 1) \<and>
   (31 :: u32) < 0x20"
proof -
  have m: "TemporaryFile_Make (sample_platform 0x40000) initial_environment 10
     \<lparr>total_count = 30, tm_file = 0, tm_path = []\<rparr> 0 =
   (0, \<lparr>total_count = 31, tm_file = 0, tm_path = tm_name (replicate 8 0x2A)\<rparr>, 1)"
    by (simp add: TemporaryFile_Make_def IsQuest_def initial_environment_def sample_platform_def
        make_attempts.simps(2) [of 255, simplified] Let_def)
  from temporary_file_count [OF m] m show ?thesis by simp
qed

end
