(* ===== verification/Cache.thy ===== *)
theory Cache
  imports Types
begin

text \<open>
  \<open>AlbumManagerCache\<close> (\<open>capsrv_types.cpp\<close>): the manager's count of the files of every storage
  and type, a table of two rows of four counters, and the contract the manager relies on.
\<close>

section \<open>The table\<close>

record CapsAlbumCache =
  cache_count :: u64
  cache_unk_x8 :: u64

type_synonym AlbumManagerCache = "CapsAlbumCache list list"

definition empty_cache :: AlbumManagerCache where
  "empty_cache = replicate 2 (replicate 4 \<lparr>cache_count = 0, cache_unk_x8 = 0\<rparr>)"

definition Cache_GetCount :: "StorageId \<Rightarrow> ContentType \<Rightarrow> AlbumManagerCache \<Rightarrow> u64" where
  "Cache_GetCount sid type cache =
     (if StorageValid sid \<and> ContentTypeValid type
      then cache_count (cache ! unat sid ! unat type)
      else 0)"

definition Cache_Set ::
  "StorageId \<Rightarrow> ContentType \<Rightarrow> CapsAlbumCache \<Rightarrow> AlbumManagerCache \<Rightarrow> AlbumManagerCache" where
  "Cache_Set sid type value cache =
     (if StorageValid sid \<and> ContentTypeValid type
      then cache[unat sid := (cache ! unat sid)[unat type := value]]
      else cache)"

text \<open>\<open>Get\<close> does not check its arguments.\<close>

definition Cache_Get :: "StorageId \<Rightarrow> ContentType \<Rightarrow> AlbumManagerCache \<Rightarrow> CapsAlbumCache run" where
  "Cache_Get sid type cache =
     (if unat sid < 2 \<and> unat type < 4
      then Inr (cache ! unat sid ! unat type) else Inl OutOfBounds)"

definition Cache_Increment :: "StorageId \<Rightarrow> ContentType \<Rightarrow> AlbumManagerCache \<Rightarrow> AlbumManagerCache" where
  "Cache_Increment sid type cache =
     (if StorageValid sid \<and> ContentTypeValid type
      then cache[unat sid := (cache ! unat sid)[unat type :=
             (cache ! unat sid ! unat type)\<lparr>cache_count :=
                cache_count (cache ! unat sid ! unat type) + 1\<rparr>]]
      else cache)"

definition Cache_Decrement :: "StorageId \<Rightarrow> ContentType \<Rightarrow> AlbumManagerCache \<Rightarrow> AlbumManagerCache" where
  "Cache_Decrement sid type cache =
     (if StorageValid sid \<and> ContentTypeValid type
      then cache[unat sid := (cache ! unat sid)[unat type :=
             (cache ! unat sid ! unat type)\<lparr>cache_count :=
                cache_count (cache ! unat sid ! unat type) - 1\<rparr>]]
      else cache)"

definition wf_cache :: "AlbumManagerCache \<Rightarrow> bool" where
  "wf_cache cache \<longleftrightarrow> length cache = 2 \<and> (\<forall>row\<in>set cache. length row = 4)"

section \<open>The contract of a counter table\<close>

text \<open>
  What the manager uses: counters under keys, a test for the keys that have one, and two operations
  that move one counter by one and leave the others. Counters wrap.
\<close>

locale count_table =
  fixes valid :: "'k \<Rightarrow> bool"
    and ok :: "'t \<Rightarrow> bool"
    and get :: "'k \<Rightarrow> 't \<Rightarrow> u64"
    and incr :: "'k \<Rightarrow> 't \<Rightarrow> 't"
    and decr :: "'k \<Rightarrow> 't \<Rightarrow> 't"
  assumes ok_incr [simp]: "ok t \<Longrightarrow> ok (incr k t)"
    and ok_decr [simp]: "ok t \<Longrightarrow> ok (decr k t)"
    and get_invalid: "\<not> valid k \<Longrightarrow> get k t = 0"
    and get_incr: "ok t \<Longrightarrow> valid k \<Longrightarrow> get j (incr k t) = (if j = k then get k t + 1 else get j t)"
    and get_decr: "ok t \<Longrightarrow> valid k \<Longrightarrow> get j (decr k t) = (if j = k then get k t - 1 else get j t)"
    and invalid_incr: "\<not> valid k \<Longrightarrow> incr k t = t"
    and invalid_decr: "\<not> valid k \<Longrightarrow> decr k t = t"
begin

lemma get_incr_all: "ok t \<Longrightarrow> get j (incr k t) = (if j = k \<and> valid k then get k t + 1 else get j t)"
  by (cases "valid k") (simp_all add: get_incr invalid_incr)

lemma get_decr_all: "ok t \<Longrightarrow> get j (decr k t) = (if j = k \<and> valid k then get k t - 1 else get j t)"
  by (cases "valid k") (simp_all add: get_decr invalid_decr)

lemma incr_decr: "ok t \<Longrightarrow> get j (decr k (incr k t)) = get j t"
  by (simp add: get_decr_all get_incr_all)

lemma decr_zero_wraps: "ok t \<Longrightarrow> valid k \<Longrightarrow> get k t = 0 \<Longrightarrow> get k (decr k t) = - 1"
  by (simp add: get_decr)

text \<open>A history of saves (\<open>True\<close>) and deletions (\<open>False\<close>): each counter is moved by the
  difference of their numbers.\<close>

definition replay :: "('k \<times> bool) list \<Rightarrow> 't \<Rightarrow> 't" where
  "replay evs = fold (\<lambda>(k, save). if save then incr k else decr k) evs"

lemma ok_replay: "ok t \<Longrightarrow> ok (replay evs t)"
  by (induction evs arbitrary: t) (auto simp: replay_def)

lemma get_replay:
  "ok t \<Longrightarrow> valid k \<Longrightarrow> get k (replay evs t) =
     get k t + of_nat (count_list evs (k, True)) - of_nat (count_list evs (k, False))"
  by (induction evs arbitrary: t) (auto simp: replay_def get_incr_all get_decr_all split: if_splits)

lemma get_fold_incr:
  "ok t \<Longrightarrow> valid k \<Longrightarrow> get k (fold incr ks t) = get k t + of_nat (count_list ks k)"
  by (induction ks arbitrary: t) (auto simp: get_incr_all)

end

section \<open>The table keeps the contract\<close>

lemma wf_empty_cache [simp]: "wf_cache empty_cache"
  by (simp add: wf_cache_def empty_cache_def)

lemma wf_cache_rows: "wf_cache c \<Longrightarrow> i < 2 \<Longrightarrow> length (c ! i) = 4"
  by (simp add: wf_cache_def)

lemma wf_cache_update: "wf_cache c \<Longrightarrow> i < 2 \<Longrightarrow> wf_cache (c[i := (c ! i)[j := v]])"
  by (auto simp: wf_cache_def dest!: set_update_subset_insert [THEN subsetD])

lemma wf_Cache_Set [simp]: "wf_cache c \<Longrightarrow> wf_cache (Cache_Set s t v c)"
  by (simp add: Cache_Set_def StorageValid_unat wf_cache_update)

lemma wf_Cache_Increment [simp]: "wf_cache c \<Longrightarrow> wf_cache (Cache_Increment s t c)"
  by (simp add: Cache_Increment_def StorageValid_unat wf_cache_update)

lemma wf_Cache_Decrement [simp]: "wf_cache c \<Longrightarrow> wf_cache (Cache_Decrement s t c)"
  by (simp add: Cache_Decrement_def StorageValid_unat wf_cache_update)

lemma cache_cell:
  assumes "wf_cache c" and "unat s < 2" and "unat t < 4"
  shows "c[unat s := (c ! unat s)[unat t := v]] ! unat s' ! unat t' =
    (if s' = s \<and> t' = t then v else c ! unat s' ! unat t')"
  using assms wf_cache_rows [OF assms(1,2)]
  by (auto simp: nth_list_update wf_cache_def word_unat_eq_iff)

lemma GetCount_Set:
  "wf_cache c \<Longrightarrow> StorageValid s \<Longrightarrow> ContentTypeValid t \<Longrightarrow>
   Cache_GetCount s' t' (Cache_Set s t v c) =
     (if s' = s \<and> t' = t then cache_count v else Cache_GetCount s' t' c)"
  by (simp add: Cache_GetCount_def Cache_Set_def cache_cell StorageValid_unat ContentTypeValid_unat)

lemma GetCount_Increment:
  "wf_cache c \<Longrightarrow> StorageValid s \<Longrightarrow> ContentTypeValid t \<Longrightarrow>
   Cache_GetCount s' t' (Cache_Increment s t c) =
     (if s' = s \<and> t' = t then Cache_GetCount s t c + 1 else Cache_GetCount s' t' c)"
  by (simp add: Cache_GetCount_def Cache_Increment_def cache_cell StorageValid_unat
      ContentTypeValid_unat)

lemma GetCount_Decrement:
  "wf_cache c \<Longrightarrow> StorageValid s \<Longrightarrow> ContentTypeValid t \<Longrightarrow>
   Cache_GetCount s' t' (Cache_Decrement s t c) =
     (if s' = s \<and> t' = t then Cache_GetCount s t c - 1 else Cache_GetCount s' t' c)"
  by (simp add: Cache_GetCount_def Cache_Decrement_def cache_cell StorageValid_unat
      ContentTypeValid_unat)

lemma Get_count:
  "StorageValid s \<Longrightarrow> ContentTypeValid t \<Longrightarrow>
     \<exists>v. Cache_Get s t c = Inr v \<and> cache_count v = Cache_GetCount s t c"
  by (simp add: Cache_Get_def Cache_GetCount_def StorageValid_unat ContentTypeValid_unat)

lemma cache_invalid:
  assumes "\<not> (StorageValid s \<and> ContentTypeValid t)"
  shows "Cache_GetCount s t c = 0" "Cache_Increment s t c = c" "Cache_Decrement s t c = c"
  unfolding Cache_GetCount_def Cache_Increment_def Cache_Decrement_def
  by (subst if_not_P, rule assms, rule refl)+

interpretation counts: count_table
  "\<lambda>(s, t). StorageValid s \<and> ContentTypeValid t" wf_cache
  "\<lambda>(s, t). Cache_GetCount s t" "\<lambda>(s, t). Cache_Increment s t" "\<lambda>(s, t). Cache_Decrement s t"
  by unfold_locales (simp_all add: GetCount_Increment GetCount_Decrement cache_invalid split_beta
      prod_eq_iff)

section \<open>Properties\<close>

text \<open>Whatever saves and deletions are recorded, in any order, each counter of the cache moves by
  the number of saves minus the number of deletions of its own storage and type, modulo \<open>2 ^ 64\<close>.\<close>

theorem cache_counts_history:
  "wf_cache c \<Longrightarrow> StorageValid s \<Longrightarrow> ContentTypeValid t \<Longrightarrow>
   Cache_GetCount s t (fold (\<lambda>((s, t), save). if save then Cache_Increment s t else Cache_Decrement s t)
       evs c) =
     Cache_GetCount s t c + of_nat (count_list evs ((s, t), True)) -
     of_nat (count_list evs ((s, t), False))"
proof -
  have "(\<lambda>((s, t), save). if save then Cache_Increment s t else Cache_Decrement s t) =
      (\<lambda>(k, save). if save then (\<lambda>(s, t). Cache_Increment s t) k else (\<lambda>(s, t). Cache_Decrement s t) k)"
    by auto
  then show "wf_cache c \<Longrightarrow> StorageValid s \<Longrightarrow> ContentTypeValid t \<Longrightarrow> ?thesis"
    using counts.get_replay [of c "(s, t)" evs, unfolded counts.replay_def] by simp
qed

theorem cache_counts_history_witness:
  "Cache_GetCount Sd Movie (fold (\<lambda>((s, t), save). if save then Cache_Increment s t
       else Cache_Decrement s t) [((Sd, Movie), True), ((Nand, Movie), False), ((Sd, Movie), True),
       ((Sd, Movie), False)] empty_cache) = 1"
proof -
  have "StorageValid Sd" "ContentTypeValid Movie" "Cache_GetCount Sd Movie empty_cache = 0"
    by (simp_all add: StorageValid_def ContentTypeValid_def Cache_GetCount_def empty_cache_def)
  then show ?thesis
    by (subst cache_counts_history [OF wf_empty_cache]) simp_all
qed

end
