(* ===== verification/Directory.thy ===== *)
theory Directory
  imports FileName
begin

text \<open>
  The walk over a storage (\<open>ProcessImageDirectory\<close> of \<open>capsrv_album_manager.cpp\<close>): year,
  month and day folders are opened one inside the other and every file whose name is a file
  identifier is given to a callback, which may stop the walk. The loops read until the directory is
  exhausted; they are given fuel, and \<open>dirs_bounded\<close> says when it is enough.
\<close>

section \<open>Helpers of the C library\<close>

definition is_decimal :: "char \<Rightarrow> bool" where
  "is_decimal ch \<longleftrightarrow> 48 \<le> (of_char ch :: nat) \<and> (of_char ch :: nat) \<le> 57"

definition decimal_value :: "string \<Rightarrow> int" where
  "decimal_value ds = foldl (\<lambda>v ch. 10 * v + (of_char ch - 48)) 0 ds"

text \<open>\<open>atoi\<close>: \<open>strtol\<close>, which saturates at the bounds of \<open>long\<close>, cut to \<open>int\<close>.\<close>

definition atoi :: "string \<Rightarrow> int" where
  "atoi str =
     (let s = dropWhile is_space str;
          negative = (s \<noteq> [] \<and> hd s = CHR ''-'');
          s = (if s \<noteq> [] \<and> (hd s = CHR ''-'' \<or> hd s = CHR ''+'') then tl s else s);
          v = decimal_value (takeWhile is_decimal s);
          v = (if negative then max (- (2 ^ 63)) (- v) else min (2 ^ 63 - 1) v)
      in sint (word_of_int v :: u32))"

section \<open>Loops over directories\<close>

text \<open>How the body of a loop ends: it goes on, or it returns from the whole walk.\<close>

datatype 's flow = Next 's | Return result 's

text \<open>\<open>while (true)\<close> until \<open>ReadDirectory\<close> fails or yields nothing.\<close>

fun read_loop ::
  "nat \<Rightarrow> 'w platform \<Rightarrow> handle \<Rightarrow> (dir_entry \<Rightarrow> 's \<Rightarrow> 'w \<Rightarrow> ('s flow \<times> 'w) run) \<Rightarrow> 's \<Rightarrow> 'w \<Rightarrow>
     ('s flow \<times> 'w) run" where
  "read_loop 0 p dir body s w = Inl OutOfFuel"
| "read_loop (Suc n) p dir body s w =
     (case fs_ReadDirectory p dir w of (rc, entry, w) \<Rightarrow>
        if R_FAILED rc then Inr (Next s, w)
        else (case entry of None \<Rightarrow> Inr (Next s, w) | Some e \<Rightarrow>
          then_run (body e s w) (\<lambda>(fl, w).
            case fl of Next s \<Rightarrow> read_loop n p dir body s w | Return rc s \<Rightarrow> Inr (fl, w))))"

text \<open>Open a directory, loop over it, close it on every way out.\<close>

definition scan_dir ::
  "nat \<Rightarrow> 'w platform \<Rightarrow> string \<Rightarrow> bool \<Rightarrow> (dir_entry \<Rightarrow> 's \<Rightarrow> 'w \<Rightarrow> ('s flow \<times> 'w) run) \<Rightarrow> 's \<Rightarrow> 'w \<Rightarrow>
     ('s flow \<times> 'w) run" where
  "scan_dir fuel p path directories body s w =
     (case fs_OpenDirectory p path directories w of (rc, dir, w) \<Rightarrow>
        if R_FAILED rc then Inr (Return rc s, w)
        else then_run (read_loop fuel p dir body s w) (\<lambda>(fl, w). Inr (fl, fs_CloseDirectory p dir w)))"

text \<open>\<open>char path[EntryNameLengthMax + 1]\<close>; the room left is computed in \<open>size_t\<close>.\<close>

definition EntryNameLengthMax :: nat where "EntryNameLengthMax = 0x300"

definition path_put :: "string \<Rightarrow> nat \<Rightarrow> string \<Rightarrow> string run" where
  "path_put path off text =
     then_run (snprintf_run path off (unat (of_nat (EntryNameLengthMax + 1) - of_nat off :: u64)) text)
       (\<lambda>(path, _). Inr path)"

text \<open>The state of the walk is the path buffer and the callback's own state.\<close>

type_synonym 's walk = "string \<times> 's"

definition level ::
  "nat \<Rightarrow> 'w platform \<Rightarrow> (int \<Rightarrow> bool) \<Rightarrow> bool \<Rightarrow> nat \<Rightarrow>
     (nat \<Rightarrow> dir_entry \<Rightarrow> 's walk \<Rightarrow> 'w \<Rightarrow> ('s walk flow \<times> 'w) run) \<Rightarrow>
     dir_entry \<Rightarrow> 's walk \<Rightarrow> 'w \<Rightarrow> ('s walk flow \<times> 'w) run" where
  "level fuel p skip directories off inner e st w =
     (if skip (atoi (entry_name e)) then Inr (Next st, w) else
      then_run (path_put (fst st) off (entry_name e @ ''/'')) (\<lambda>path.
        scan_dir fuel p (c_str path) directories (inner (off + 1 + length (entry_name e)))
          (path, snd st) w))"

definition skip_year :: "int \<Rightarrow> bool" where "skip_year y \<longleftrightarrow> 10000 < y"
definition skip_month :: "int \<Rightarrow> bool" where "skip_month m \<longleftrightarrow> m < 1 \<or> 12 < m"
definition skip_day :: "int \<Rightarrow> bool" where "skip_day d \<longleftrightarrow> d < 1 \<or> 31 < d"

type_synonym 's callback = "AlbumEntry \<Rightarrow> 's \<Rightarrow> (bool \<times> 's) run"

definition visit_file ::
  "'w crypto_lib \<Rightarrow> crypto_keys \<Rightarrow> u8 list \<Rightarrow> StorageId \<Rightarrow> 's callback \<Rightarrow>
     dir_entry \<Rightarrow> 's walk \<Rightarrow> 'w \<Rightarrow> ('s walk flow \<times> 'w) run" where
  "visit_file c k junk storage cb e st w =
     then_run (FromString c k junk storage (entry_name e) zero_AlbumFileId) (\<lambda>(rc, f).
       if R_FAILED rc then Inr (Next st, w)
       else then_run (cb \<lparr>entry_size = word_of_int (entry_file_size e), fileId = f\<rparr> (snd st))
         (\<lambda>(stop, s). Inr (if stop then Return ResultSuccess (fst st, s) else Next (fst st, s), w)))"

definition ProcessImageDirectory ::
  "nat \<Rightarrow> 'w platform \<Rightarrow> 'w crypto_lib \<Rightarrow> crypto_keys \<Rightarrow> u8 list \<Rightarrow> StorageId \<Rightarrow> 's callback \<Rightarrow> 's \<Rightarrow> 'w \<Rightarrow>
     ('s, 'w) outcome" where
  "ProcessImageDirectory fuel p c k junk storage cb s w =
     then_run (if unat storage < length MountPoints then Inr (MountPoints ! unat storage)
               else Inl OutOfBounds) (\<lambda>mount_point.
     then_run (path_put (replicate (EntryNameLengthMax + 1) NUL) 0 (mount_point @ '':/'')) (\<lambda>path.
     then_run (scan_dir fuel p (c_str path) True
         (level fuel p skip_year True (length (c_str path)) (\<lambda>off.
            level fuel p skip_month True off (\<lambda>off.
              level fuel p skip_day False off (\<lambda>off. visit_file c k junk storage cb))))
         (path, s) w) (\<lambda>(fl, w).
       case fl of Next st \<Rightarrow> Inr (ResultSuccess, snd st, w) | Return rc st \<Rightarrow> Inr (rc, snd st, w))))"

section \<open>What a walk does\<close>

text \<open>The callback applied to a sequence of entries until it asks to stop.\<close>

fun feed :: "'s callback \<Rightarrow> AlbumEntry list \<Rightarrow> 's \<Rightarrow> (bool \<times> 's) run" where
  "feed cb [] s = Inr (False, s)"
| "feed cb (e # es) s =
     then_run (cb e s) (\<lambda>(stop, s). if stop then Inr (True, s) else feed cb es s)"

lemma feed_append:
  "feed cb (es @ fs) s =
     then_run (feed cb es s) (\<lambda>(stop, s). if stop then Inr (True, s) else feed cb fs s)"
  by (induction es arbitrary: s) (auto simp: then_run_assoc split_beta intro!: arg_cong [where f = "then_run _"])

text \<open>What the name parser lets through.\<close>

definition listed_entry :: "StorageId \<Rightarrow> AlbumEntry \<Rightarrow> bool" where
  "listed_entry storage e \<longleftrightarrow> wf_entry e \<and> storage_id (fileId e) = storage \<and>
     date_ok (date_time (fileId e)) \<and> ContentTypeValid (content_type (fileId e))"

lemma GetFileType_valid: "GetFileType t0 x str = (0, t) \<Longrightarrow> ContentTypeValid t"
  by (auto simp: GetFileType_def ContentTypeValid_def result_values split: if_splits)

lemma FromString_sound:
  assumes "FromString c k junk st str f = Inr (0, g)"
  shows "storage_id g = st \<and> date_ok (date_time g) \<and> ContentTypeValid (content_type g) \<and>
    pad g = pad f"
proof -
  obtain rc d rest where D: "DateTimeFromString (date_time f) str = Inr (rc, d, rest)"
    using assms by (auto simp: FromString_def then_run_eq_Inr split: if_splits)
  with assms have rc: "rc = 0" by (auto simp: FromString_def R_FAILED_iff Let_def split: if_splits)
  then have ok: "date_ok d" using DateTimeFromString_sound [OF D] by (auto simp: result_values)
  obtain rc2 app x pos where E:
    "DecryptFileIdentifier c k junk rest 1 (application_id f) False = Inr (rc2, app, x, pos)"
    using assms D rc
    by (auto simp: FromString_def then_run_eq_Inr Let_def result_values split: if_splits)
  let ?pos = "if x then pos + 1 else pos"
  obtain rc3 t where T: "GetFileType (content_type f) x (drop ?pos rest) = (rc3, t)"
    by (cases "GetFileType (content_type f) x (drop ?pos rest)")
  have "rc3 = 0 \<and> g = f\<lparr>date_time := d, application_id := app, content_type := t, storage_id := st\<rparr>"
    using assms D rc E T
    by (auto simp: FromString_def then_run_eq_Inr result_values R_FAILED_iff Let_def split: if_splits)
  then show ?thesis using ok T GetFileType_valid by auto
qed

section \<open>When a walk returns\<close>

text \<open>
  What is documented of directories: a directory of at most \<open>n\<close> entries yields its entries one
  after the other (\<open>left\<close> counts those to come) and then none; a handle that is in use is not
  given out again; reading, opening and closing one handle does not touch the others. Names have
  at most 250 characters.
\<close>

definition dirs_bounded ::
  "'w platform \<Rightarrow> (handle \<Rightarrow> 'w \<Rightarrow> nat) \<Rightarrow> ('w \<Rightarrow> handle set) \<Rightarrow> nat \<Rightarrow> bool" where
  "dirs_bounded p left used n \<longleftrightarrow>
     (\<forall>path m w rc h w'. fs_OpenDirectory p path m w = (rc, h, w') \<longrightarrow>
        used w \<subseteq> used w' \<and> (\<forall>h'\<in>used w. left h' w' \<le> left h' w) \<and>
        (rc = 0 \<longrightarrow> h \<notin> used w \<and> h \<in> used w' \<and> left h w' \<le> n)) \<and>
     (\<forall>h w rc e w'. fs_ReadDirectory p h w = (rc, e, w') \<longrightarrow>
        used w \<subseteq> used w' \<and> (\<forall>h'\<in>used w. left h' w' \<le> left h' w) \<and>
        (rc = 0 \<longrightarrow> e \<noteq> None \<longrightarrow> left h w' < left h w \<and> length (entry_name (the e)) \<le> 250)) \<and>
     (\<forall>h w. used w - {h} \<subseteq> used (fs_CloseDirectory p h w) \<and>
        (\<forall>h'\<in>used w - {h}. left h' (fs_CloseDirectory p h w) \<le> left h' w))"

definition frame :: "(handle \<Rightarrow> 'w \<Rightarrow> nat) \<Rightarrow> ('w \<Rightarrow> handle set) \<Rightarrow> 'w \<Rightarrow> 'w \<Rightarrow> bool" where
  "frame left used w w' \<longleftrightarrow> used w \<subseteq> used w' \<and> (\<forall>h\<in>used w. left h w' \<le> left h w)"

lemma frame_refl [simp]: "frame left used w w"
  by (simp add: frame_def)

lemma frame_trans: "frame left used u v \<Longrightarrow> frame left used v w \<Longrightarrow> frame left used u w"
  unfolding frame_def by (meson order_trans subsetD)

lemma dirs_openD:
  assumes "dirs_bounded p left used n" and "fs_OpenDirectory p path m w = (rc, h, w')"
  shows "frame left used w w'" and "rc = 0 \<Longrightarrow> h \<notin> used w \<and> h \<in> used w' \<and> left h w' \<le> n"
  using assms unfolding dirs_bounded_def frame_def by blast+

lemma dirs_readD:
  assumes "dirs_bounded p left used n" and "fs_ReadDirectory p h w = (rc, entry, w')"
  shows "frame left used w w'"
    and "rc = 0 \<Longrightarrow> entry = Some e \<Longrightarrow> left h w' < left h w \<and> length (entry_name e) \<le> 250"
proof -
  from assms have *: "used w \<subseteq> used w' \<and> (\<forall>h'\<in>used w. left h' w' \<le> left h' w) \<and>
      (rc = 0 \<longrightarrow> entry \<noteq> None \<longrightarrow> left h w' < left h w \<and> length (entry_name (the entry)) \<le> 250)"
    unfolding dirs_bounded_def by blast
  then show "frame left used w w'" by (simp add: frame_def)
  from * show "rc = 0 \<Longrightarrow> entry = Some e \<Longrightarrow>
      left h w' < left h w \<and> length (entry_name e) \<le> 250" by simp
qed

lemma dirs_closeD:
  assumes "dirs_bounded p left used n"
  shows "used w - {h} \<subseteq> used (fs_CloseDirectory p h w)"
    and "\<forall>h'\<in>used w - {h}. left h' (fs_CloseDirectory p h w) \<le> left h' w"
  using assms unfolding dirs_bounded_def by blast+

text \<open>A loop body that returns, keeps \<open>I\<close> while it goes on, and leaves other handles alone.\<close>

definition safe_body ::
  "(handle \<Rightarrow> 'w \<Rightarrow> nat) \<Rightarrow> ('w \<Rightarrow> handle set) \<Rightarrow> ('s \<Rightarrow> bool) \<Rightarrow>
     (dir_entry \<Rightarrow> 's \<Rightarrow> 'w \<Rightarrow> ('s flow \<times> 'w) run) \<Rightarrow> bool" where
  "safe_body left used I body \<longleftrightarrow>
     (\<forall>e st w. length (entry_name e) \<le> 250 \<longrightarrow> I st \<longrightarrow>
        (\<exists>fl w'. body e st w = Inr (fl, w') \<and> frame left used w w' \<and> (\<forall>st'. fl = Next st' \<longrightarrow> I st')))"

lemma read_loop_safe:
  assumes B: "dirs_bounded p left used n" and S: "safe_body left used I body"
  shows "I st \<Longrightarrow> h \<in> used w \<Longrightarrow> left h w < fuel \<Longrightarrow>
    \<exists>fl w'. read_loop fuel p h body st w = Inr (fl, w') \<and> frame left used w w' \<and>
      (\<forall>st'. fl = Next st' \<longrightarrow> I st')"
proof (induction fuel arbitrary: st w)
  case (Suc fuel)
  obtain rc entry w1 where r: "fs_ReadDirectory p h w = (rc, entry, w1)"
    by (cases "fs_ReadDirectory p h w")
  have f1: "frame left used w w1" by (rule dirs_readD(1) [OF B r])
  show ?case
  proof (cases "rc = 0 \<and> entry \<noteq> None")
    case False
    with r f1 Suc.prems(1) show ?thesis by (auto simp: R_FAILED_iff split: option.splits)
  next
    case True
    then obtain e where e: "entry = Some e" "rc = 0" by auto
    have l: "left h w1 < left h w" "length (entry_name e) \<le> 250"
      using dirs_readD(2) [OF B r] e by blast+
    obtain g w2 where b: "body e st w1 = Inr (g, w2)" "frame left used w1 w2"
      "\<forall>st'. g = Next st' \<longrightarrow> I st'"
      using S l(2) Suc.prems(1) unfolding safe_body_def by blast
    have f2: "frame left used w w2" using frame_trans [OF f1 b(2)] .
    show ?thesis
    proof (cases g)
      case (Return rc' st')
      with r e b f2 show ?thesis by simp
    next
      case (Next st')
      have "h \<in> used w2" "left h w2 < fuel"
        using f1 b(2) Suc.prems(2,3) l(1) unfolding frame_def by (auto dest!: bspec)
      with Suc.IH [of st' w2] b(3) Next obtain fl w' where
        "read_loop fuel p h body st' w2 = Inr (fl, w')" "frame left used w2 w'"
        "\<forall>st'. fl = Next st' \<longrightarrow> I st'" by blast
      with r e b(1) Next frame_trans [OF f2] show ?thesis by simp
    qed
  qed
qed simp

lemma scan_dir_safe:
  assumes B: "dirs_bounded p left used n" and S: "safe_body left used I body"
    and "I st" and "n < fuel"
  shows "\<exists>fl w'. scan_dir fuel p path m body st w = Inr (fl, w') \<and> frame left used w w' \<and>
      (\<forall>st'. fl = Next st' \<longrightarrow> I st')"
proof -
  obtain rc h w1 where o: "fs_OpenDirectory p path m w = (rc, h, w1)"
    by (cases "fs_OpenDirectory p path m w")
  have f1: "frame left used w w1" by (rule dirs_openD(1) [OF B o])
  show ?thesis
  proof (cases "rc = 0")
    case False
    with o f1 show ?thesis by (simp add: scan_dir_def R_FAILED_iff)
  next
    case True
    then have h: "h \<notin> used w" "h \<in> used w1" "left h w1 \<le> n"
      using dirs_openD(2) [OF B o] by blast+
    then obtain fl w2 where L: "read_loop fuel p h body st w1 = Inr (fl, w2)"
      "frame left used w1 w2" "\<forall>st'. fl = Next st' \<longrightarrow> I st'"
      using read_loop_safe [OF B S assms(3), of h w1 fuel] assms(4) by auto
    let ?w3 = "fs_CloseDirectory p h w2"
    have c: "used w2 - {h} \<subseteq> used ?w3" "\<forall>h'\<in>used w2 - {h}. left h' ?w3 \<le> left h' w2"
      by (rule dirs_closeD [OF B])+
    have f2: "frame left used w w2" using frame_trans [OF f1 L(2)] .
    have "frame left used w ?w3"
      unfolding frame_def
    proof (intro conjI ballI subsetI)
      fix x assume x: "x \<in> used w"
      with f2 h(1) have "x \<in> used w2 - {h}" "left x w2 \<le> left x w" by (auto simp: frame_def)
      with c show "x \<in> used ?w3" "left x ?w3 \<le> left x w" by (auto intro: order_trans)
    qed
    with o True L show ?thesis by (simp add: scan_dir_def)
  qed
qed

text \<open>The path buffer always has room: 6 + 251 + 251 + 251 characters and the NUL.\<close>

definition path_ok :: "('s \<Rightarrow> bool) \<Rightarrow> 's walk \<Rightarrow> bool" where
  "path_ok J st \<longleftrightarrow> length (fst st) = EntryNameLengthMax + 1 \<and> J (snd st)"

lemma path_put_fits:
  assumes "length path = EntryNameLengthMax + 1" and "off + length text < EntryNameLengthMax + 1"
  shows "path_put path off text = Inr (poke off (text @ [NUL]) path)"
proof -
  have small: "off < 2 ^ LENGTH(64)" "EntryNameLengthMax + 1 < 2 ^ LENGTH(64)"
    using assms(2) by (simp_all add: EntryNameLengthMax_def)
  have "unat (of_nat (EntryNameLengthMax + 1) - of_nat off :: u64) = EntryNameLengthMax + 1 - off"
    using assms(2) small unat_sub [of "of_nat off" "of_nat (EntryNameLengthMax + 1) :: u64"]
    by (simp only: word_le_nat_alt unat_of_nat mod_less)
  then show ?thesis using assms by (simp add: path_put_def)
qed

lemma level_safe:
  assumes B: "dirs_bounded p left used n" and "n < fuel" and "off \<le> 508"
    and S: "\<And>len. len \<le> 251 \<Longrightarrow> safe_body left used (path_ok J) (inner (off + len))"
  shows "safe_body left used (path_ok J) (level fuel p skip m off inner)"
  unfolding safe_body_def
proof (intro allI impI)
  fix e :: dir_entry and st w
  assume e: "length (entry_name e) \<le> 250" and I: "path_ok J st"
  let ?path = "poke off ((entry_name e @ ''/'') @ [NUL]) (fst st)"
  show "\<exists>fl w'. level fuel p skip m off inner e st w = Inr (fl, w') \<and> frame left used w w' \<and>
      (\<forall>st'. fl = Next st' \<longrightarrow> path_ok J st')"
  proof (cases "skip (atoi (entry_name e))")
    case True
    with I show ?thesis by (auto simp: level_def)
  next
    case False
    have "path_put (fst st) off (entry_name e @ ''/'') = Inr ?path"
      using I e assms(3) by (intro path_put_fits) (simp_all add: path_ok_def EntryNameLengthMax_def)
    moreover have "path_ok J (?path, snd st)"
      using I e assms(3) by (simp add: path_ok_def EntryNameLengthMax_def)
    moreover have "safe_body left used (path_ok J) (inner (off + 1 + length (entry_name e)))"
      using S [of "1 + length (entry_name e)"] e by (simp add: add.assoc)
    ultimately show ?thesis
      using scan_dir_safe [OF B _ _ assms(2)] False by (fastforce simp: level_def)
  qed
qed

text \<open>Parsing a name never reads outside it.\<close>

lemma char_at_ex: "i \<le> length str \<Longrightarrow> \<exists>ch. char_at str i = Inr ch"
  by (cases "i < length str") (simp_all add: char_at_def)

lemma ident_loop_returns:
  "pos + 2 * n \<le> length str + 1 \<Longrightarrow> \<exists>b q. ident_loop n str pos b0 = Inr (b, q) \<and> q \<le> pos + 2 * n"
proof (induction n arbitrary: pos b0)
  case (Suc n)
  obtain c0 c1 where c: "char_at str pos = Inr c0" "char_at str (pos + 1) = Inr c1"
    using Suc.prems char_at_ex [of pos str] char_at_ex [of "pos + 1" str] by auto
  show ?case
  proof (cases "strtoul_pair c0 c1")
    case None
    with c show ?thesis by simp
  next
    case (Some v)
    obtain b q where "ident_loop n str (pos + 2) (b0[0x10 - Suc n := v]) = Inr (b, q)"
      "q \<le> pos + 2 + 2 * n"
      using Suc.IH [of "pos + 2"] Suc.prems by fastforce
    with Some c show ?thesis by simp
  qed
qed simp

lemma FromString_total: "\<exists>rc g. FromString c k junk st str f = Inr (rc, g)"
proof (cases "length str = 0x35 \<or> length str = 0x36")
  case True
  obtain rc d rest where D: "DateTimeFromString (date_time f) str = Inr (rc, d, rest)"
    using DateTimeFromString_returns [of str "date_time f"] True by (auto elim!: returnsE)
  show ?thesis
  proof (cases "rc = 0")
    case False
    with True D show ?thesis by (simp add: FromString_def R_FAILED_iff)
  next
    case ok: True
    then have l: "37 \<le> length rest"
      using DateTimeFromString_sound [OF D] True by (auto simp: result_values)
    then have ch: "\<exists>x. char_at rest i = Inr x" if "i \<le> 37" for i
      using that l by (intro char_at_ex) simp
    obtain b q where "ident_loop 16 rest 1 junk = Inr (b, q)" and q: "q \<le> 33"
      using ident_loop_returns [of 1 16 rest junk] l by auto
    then have "\<exists>rc2 app x.
        DecryptFileIdentifier c k junk rest 1 (application_id f) False = Inr (rc2, app, x, q)"
      by (cases "Decrypt_path c k b") (auto simp: DecryptFileIdentifier_def)
    then obtain rc2 app x where E:
      "DecryptFileIdentifier c k junk rest 1 (application_id f) False = Inr (rc2, app, x, q)"
      by blast
    show ?thesis
      using True D ok E ch [of 0] ch [of q] ch [of "q + 1"] q
      by (auto simp: FromString_def Let_def split: prod.splits)
  qed
qed (simp add: FromString_def)

lemma visit_file_safe:
  assumes "\<And>e s. listed_entry storage e \<Longrightarrow> J s \<Longrightarrow>
    \<exists>stop s'. cb e s = Inr (stop, s') \<and> (\<not> stop \<longrightarrow> J s')"
  shows "safe_body left used (path_ok J) (visit_file c k junk storage cb)"
  unfolding safe_body_def
proof (intro allI impI)
  fix e :: dir_entry and st w
  assume I: "path_ok J st"
  obtain rc f where F: "FromString c k junk storage (entry_name e) zero_AlbumFileId = Inr (rc, f)"
    using FromString_total by blast
  show "\<exists>fl w'. visit_file c k junk storage cb e st w = Inr (fl, w') \<and> frame left used w w' \<and>
      (\<forall>st'. fl = Next st' \<longrightarrow> path_ok J st')"
  proof (cases "rc = 0")
    case False
    with F I show ?thesis by (auto simp: visit_file_def R_FAILED_iff)
  next
    case True
    let ?e = "\<lparr>entry_size = word_of_int (entry_file_size e), fileId = f\<rparr>"
    have "listed_entry storage ?e"
      using FromString_sound F True
      by (fastforce simp: listed_entry_def wf_entry_def wf_file_id_def zero_AlbumFileId_def)
    then obtain stop s' where "cb ?e (snd st) = Inr (stop, s')" "\<not> stop \<longrightarrow> J s'"
      using assms [of ?e "snd st"] I by (auto simp: path_ok_def)
    with F True I show ?thesis by (auto simp: visit_file_def path_ok_def)
  qed
qed

lemma ProcessImageDirectory_returns:
  assumes B: "dirs_bounded p left used n" and "n < fuel" and "StorageValid storage"
    and cb: "\<And>e s. listed_entry storage e \<Longrightarrow> J s \<Longrightarrow>
      \<exists>stop s'. cb e s = Inr (stop, s') \<and> (\<not> stop \<longrightarrow> J s')"
    and "J s"
  shows "\<exists>rc s' w'. ProcessImageDirectory fuel p c k junk storage cb s w = Inr (rc, s', w')"
proof -
  let ?mp = "MountPoints ! unat storage @ '':/''"
  let ?path = "poke 0 (?mp @ [NUL]) (replicate (EntryNameLengthMax + 1) NUL)"
  have mp: "length ?mp = 6" "NUL \<notin> set ?mp" "unat storage < length MountPoints"
    using assms(3) by (auto simp: StorageValid_def MountPoints_def)
  have path: "path_put (replicate (EntryNameLengthMax + 1) NUL) 0 ?mp = Inr ?path"
    using mp(1) by (intro path_put_fits) (simp_all add: EntryNameLengthMax_def)
  have "?path = ?mp @ NUL # drop 7 (replicate (EntryNameLengthMax + 1) NUL)"
    using mp(1) by (simp add: poke_def)
  then have cs: "c_str ?path = ?mp" using c_str_append_NUL [OF mp(2)] by metis
  have ok: "path_ok J (?path, s)"
    using mp(1) assms(5) by (simp add: path_ok_def EntryNameLengthMax_def)
  note L = level_safe [OF B assms(2)]
  have "safe_body left used (path_ok J)
      (level fuel p skip_year True 6 (\<lambda>off. level fuel p skip_month True off (\<lambda>off.
         level fuel p skip_day False off (\<lambda>off. visit_file c k junk storage cb))))"
    by (rule L, simp, rule L, simp, rule L, simp, rule visit_file_safe, rule cb)
  then obtain fl w' where "scan_dir fuel p ?mp True
      (level fuel p skip_year True 6 (\<lambda>off. level fuel p skip_month True off (\<lambda>off.
         level fuel p skip_day False off (\<lambda>off. visit_file c k junk storage cb)))) (?path, s) w =
      Inr (fl, w')"
    using scan_dir_safe [where I = "path_ok J", OF B _ ok assms(2)] by blast
  then show ?thesis
    using mp(1,3) path cs by (auto simp: ProcessImageDirectory_def split: flow.splits)
qed

lemma sample_dirs_bounded: "dirs_bounded (sample_platform v) (\<lambda>h w. 0) (\<lambda>w. {..<w}) 0"
  by (auto simp: dirs_bounded_def sample_platform_def)

section \<open>Properties\<close>

text \<open>Reading a file name returns for every string: no character outside it is looked at, and a
  name that is accepted yields the given storage, a date within bounds and a known type.\<close>

theorem file_name_parser_total:
  "\<exists>rc g. FromString c k junk st str f = Inr (rc, g) \<and>
     (rc \<noteq> ResultSuccess \<or>
      storage_id g = st \<and> date_ok (date_time g) \<and> ContentTypeValid (content_type g) \<and> pad g = pad f)"
  using FromString_total [of c k junk st str f] FromString_sound [of c k junk st str f] by blast

theorem file_name_parser_total_witness:
  "\<exists>g. FromString sample_crypto initial_keys (replicate 16 0) Sd
     (date_text (date_time (fileId sample_entry)) @ ''-'' @
      hex32 (EncryptFileExtension sample_crypto initial_keys 0x0100000000010000 False) @ ''.jpg'')
     zero_AlbumFileId = Inr (0, g) \<and>
     storage_id g = Sd \<and> date_ok (date_time g) \<and> ContentTypeValid (content_type g)"
  using file_name_parser_total [where c = sample_crypto and junk = "replicate 16 0" and st = Sd and
      k = initial_keys and f = zero_AlbumFileId and
      str = "date_text (date_time (fileId sample_entry)) @ ''-'' @
        hex32 (EncryptFileExtension sample_crypto initial_keys 0x0100000000010000 False) @ ''.jpg''"]
    FromString_full_name [where c = sample_crypto and junk = "replicate 16 0" and
      d = "date_time (fileId sample_entry)" and t = Screenshot and ext = "''.jpg''" and
      k = initial_keys and st = Sd and app = "0x0100000000010000" and f = zero_AlbumFileId]
  by (auto simp: sample_cipher sample_entry_def date_ok_def GetFileExtension_def)

text \<open>C30: a walk over a storage returns, without a fault, when every directory holds at most
  \<open>n\<close> entries with names of at most 250 characters, the fuel exceeds \<open>n\<close>, and the
  callback never faults: the shared path buffer is never overrun.\<close>

theorem directory_walk_returns:
  "dirs_bounded p left used n \<Longrightarrow> n < fuel \<Longrightarrow> StorageValid storage \<Longrightarrow>
   (\<And>e s. cb e s \<noteq> Inl Abort \<and> cb e s \<noteq> Inl OutOfBounds \<and> cb e s \<noteq> Inl OutOfFuel) \<Longrightarrow>
   returns (ProcessImageDirectory fuel p c k junk storage cb s w)"
proof -
  assume A: "dirs_bounded p left used n" "n < fuel" "StorageValid storage"
    "\<And>e s. cb e s \<noteq> Inl Abort \<and> cb e s \<noteq> Inl OutOfBounds \<and> cb e s \<noteq> Inl OutOfFuel"
  have "\<exists>stop s'. cb e s = Inr (stop, s') \<and> (\<not> stop \<longrightarrow> True)" for e s
    using A(4) [of e s] by (cases "cb e s") (auto intro: fault.exhaust)
  then have "\<exists>rc s' w'. ProcessImageDirectory fuel p c k junk storage cb s w = Inr (rc, s', w')"
    by (intro ProcessImageDirectory_returns [OF A(1-3), where J = "\<lambda>_. True"]) simp_all
  then show ?thesis by auto
qed

theorem directory_walk_returns_witness:
  "returns (ProcessImageDirectory 1 (sample_platform 0x40000) sample_crypto initial_keys
     (replicate 16 0) Nand (\<lambda>e n. Inr (False, Suc n)) 0 3)"
  by (rule directory_walk_returns [OF sample_dirs_bounded]) (simp_all add: StorageValid_def)

end
