(* ===== verification/Mount.thy ===== *)
theory Mount
  imports Movie Cache Directory
begin

text \<open>
  The album manager's state and the part of it that mounts and unmounts the two storages
  (\<open>capsrv_album_manager.cpp\<close>, from the constructor to \<open>UnmountImageDirectory\<close>). Each storage
  is a small state machine: \<open>unmounted\<close> (not to be mounted), \<open>available\<close> (mounted on
  demand) and \<open>mounted\<close>, with the result a request gets while it is not available.
\<close>

section \<open>State\<close>

record MountStatus =
  ms_state :: MountState
  ms_last_error :: result

definition MountStatus_ctor :: MountStatus where
  "MountStatus_ctor = \<lparr>ms_state = unmounted, ms_last_error = ResultAlbumIsNotMounted\<rparr>"

record AlbumManager =
  work_memory :: "u8 list"
  nand_mount_status :: MountStatus
  sd_mount_status :: MountStatus
  man_cache :: AlbumManagerCache
  read_reserve :: AlbumReserve
  write_reserve :: AlbumReserve
  movie_controller :: MovieController

definition AlbumManager_ctor :: AlbumManager where
  "AlbumManager_ctor = \<lparr>work_memory = [], nand_mount_status = MountStatus_ctor,
     sd_mount_status = MountStatus_ctor, man_cache = empty_cache, read_reserve = empty_reserve,
     write_reserve = empty_reserve, movie_controller = zero_MovieController\<rparr>"

text \<open>
  What the operations read but do not own: the platform, the libraries and keys, the global settings
  (the manager keeps a pointer to them), the environment, what two uninitialised objects hold, and
  the fuel of loops.
\<close>

record 'w surroundings =
  plat :: "'w platform"
  lib :: "'w crypto_lib"
  lib_keys :: crypto_keys
  sett :: AlbumSettings
  env :: environment
  junk_ident :: "u8 list"
  junk_cache :: "CapsAlbumCache list"
  loop_fuel :: nat

type_synonym 'w man = "AlbumManager \<times> 'w"

text \<open>A call of the platform made by the manager.\<close>

definition with_man :: "AlbumManager \<Rightarrow> result \<times> 'a \<times> 'w \<Rightarrow> ('a, 'w man) outcome" where
  "with_man m r = (case r of (rc, a, w) \<Rightarrow> Inr (rc, a, (m, w)))"

definition with_man0 :: "AlbumManager \<Rightarrow> result \<times> 'w \<Rightarrow> (unit, 'w man) outcome" where
  "with_man0 m r = (case r of (rc, w) \<Rightarrow> Inr (rc, (), (m, w)))"

definition with_status :: "StorageId \<Rightarrow> AlbumManager \<Rightarrow> MountStatus" where
  "with_status sid m = (if sid = Nand then nand_mount_status m else sd_mount_status m)"

definition set_status :: "StorageId \<Rightarrow> MountStatus \<Rightarrow> AlbumManager \<Rightarrow> AlbumManager" where
  "set_status sid v m =
     (if sid = Nand then m\<lparr>nand_mount_status := v\<rparr> else m\<lparr>sd_mount_status := v\<rparr>)"

section \<open>Operations\<close>

definition Manager_Initialize :: "'w surroundings \<Rightarrow> 'w man \<Rightarrow> 'w man run" where
  "Manager_Initialize x = (\<lambda>(m, w).
     then_run
       (if hosversionAtLeast (plat x) 4 0 0 then
          (let (rc, w) = fs_CreateSystemSaveData (plat x) w
           in if R_FAILED rc \<and> \<not> Includes fs_PathAlreadyExists rc then Inl Abort else
              (let (rc, w) = fs_MountSystemSaveData (plat x) ''TM'' w
               in if R_FAILED rc then Inl Abort else Inr w))
        else Inr w)
       (\<lambda>w. Inr (m\<lparr>nand_mount_status := MountStatus_ctor, sd_mount_status := MountStatus_ctor,
                  read_reserve := AlbumReserve_ctor (read_reserve m),
                  write_reserve := AlbumReserve_ctor (write_reserve m),
                  movie_controller := MovieController_Initialize (movie_controller m)\<rparr>, w)))"

definition SetMemory :: "u8 list \<Rightarrow> AlbumManager \<Rightarrow> AlbumManager" where
  "SetMemory mem m = m\<lparr>work_memory := mem\<rparr>"

text \<open>The catches of a failed mount; \<open>R_CATCH_ALL\<close> keeps the storage available.\<close>

definition mount_available :: "'w surroundings \<Rightarrow> StorageId \<Rightarrow> 'w man \<Rightarrow> (unit, 'w man) outcome" where
  "mount_available x sid = (\<lambda>(m, w).
     then_run (MountAlbum (plat x) (sett x) sid w) (\<lambda>(rc, _, w).
       let (st, last_result) =
         (if R_SUCCEEDED rc then (mounted, ResultSuccess)
          else if Includes AlbumPathUnavailable_range rc then (unmounted, ResultAlbumPathNotFound)
          else if Includes AlbumUnexpected_range rc then (unmounted, ResultAlbumIsNotMounted)
          else (available, ResultAlbumIsNotMounted))
       in Inr (last_result, (), (set_status sid \<lparr>ms_state = st, ms_last_error = last_result\<rparr> m, w))))"

definition MountImageDirectory :: "'w surroundings \<Rightarrow> StorageId \<Rightarrow> 'w man \<Rightarrow> (unit, 'w man) outcome" where
  "MountImageDirectory x sid st =
     (if R_FAILED (VerifyStorageId sid) then Inr (VerifyStorageId sid, (), st) else
      if \<not> ms_state (with_status sid (fst st)) = available
      then Inr (ms_last_error (with_status sid (fst st)), (), st)
      else mount_available x sid st)"

text \<open>
  For a storage that is not available: \<open>GetValue() != 206\<close> compares the whole code with the
  module number, and the variable with one \<open>a\<close> more is never returned.
\<close>

definition EnsureMountState ::
  "'w surroundings \<Rightarrow> StorageId \<Rightarrow> MountState \<Rightarrow> 'w man \<Rightarrow> (unit, 'w man) outcome" where
  "EnsureMountState x sid mount_state st =
     (if R_FAILED (VerifyStorageId sid) then Inr (VerifyStorageId sid, (), st) else
      let status = with_status sid (fst st) in
      if ms_state status \<noteq> available then
        (let last_result = ms_last_error status
         in if R_SUCCEEDED last_result then Inr (ResultSuccess, (), st)
            else if last_result \<noteq> 206 then Inr (last_result, (), st)
            else if Includes AlbumPathUnavailable_range last_result then Inr (last_result, (), st)
            else Inr (if mount_state \<noteq> mounted then ResultAlbumPathUnavailable
                      else ResultAlbumUnknown73, (), st))
      else mount_available x sid st)"

text \<open>Both ways of giving a storage up differ in the state they leave.\<close>

definition unmount_to ::
  "MountState \<Rightarrow> 'w surroundings \<Rightarrow> StorageId \<Rightarrow> 'w man \<Rightarrow> (unit, 'w man) outcome" where
  "unmount_to target x sid = (\<lambda>(m, w).
     if R_FAILED (VerifyStorageId sid) then Inr (VerifyStorageId sid, (), (m, w)) else
     R_TRY
       (if ms_state (with_status sid m) = mounted then
          then_run (CloseStreamsByStorageId sid (movie_controller m)) (\<lambda>mc.
          then_run (UnmountAlbum (plat x) (sett x) sid w) (\<lambda>(rc, _, w).
            Inr (rc, (), (m\<lparr>movie_controller := mc\<rparr>, w))))
        else Inr (ResultSuccess, (), (m, w))) ()
       (\<lambda>_ (m, w). Inr (ResultSuccess, (),
          (set_status sid \<lparr>ms_state = target, ms_last_error = ResultAlbumIsNotMounted\<rparr> m, w))))"

definition CloseImageDirectory :: "'w surroundings \<Rightarrow> StorageId \<Rightarrow> 'w man \<Rightarrow> (unit, 'w man) outcome" where
  "CloseImageDirectory = unmount_to unmounted"

definition UnmountImageDirectory :: "'w surroundings \<Rightarrow> StorageId \<Rightarrow> 'w man \<Rightarrow> (unit, 'w man) outcome" where
  "UnmountImageDirectory = unmount_to available"

definition exit_storage :: "'w surroundings \<Rightarrow> StorageId \<Rightarrow> 'w man \<Rightarrow> 'w man run" where
  "exit_storage x sid = (\<lambda>(m, w).
     then_run (CloseStreamsByStorageId sid (movie_controller m)) (\<lambda>mc.
     let m = m\<lparr>movie_controller := mc\<rparr> in
     then_run (if ms_state (with_status sid m) = mounted
               then then_run (UnmountAlbum (plat x) (sett x) sid w) (\<lambda>(_, _, w). Inr w)
               else Inr w) (\<lambda>w.
       Inr (set_status sid MountStatus_ctor m, w))))"

definition Manager_Exit :: "'w surroundings \<Rightarrow> 'w man \<Rightarrow> 'w man run" where
  "Manager_Exit x st =
     then_run (exit_storage x Nand st) (\<lambda>st. then_run (exit_storage x Sd st) (\<lambda>(m, w).
       Inr (m\<lparr>movie_controller := MovieController_Exit (movie_controller m)\<rparr>,
            fs_Unmount (plat x) ''TM'' w)))"

section \<open>The status of a storage\<close>

text \<open>
  Mounted exactly when the last result is success; otherwise the last result is one of two codes.
\<close>

definition status_ok :: "MountStatus \<Rightarrow> bool" where
  "status_ok s \<longleftrightarrow> (ms_state s = mounted \<longleftrightarrow> ms_last_error s = 0) \<and>
     ms_last_error s \<in> {0, ResultAlbumIsNotMounted, ResultAlbumPathNotFound} \<and>
     (ms_state s = available \<longrightarrow> ms_last_error s = ResultAlbumIsNotMounted)"

definition man_ok :: "AlbumManager \<Rightarrow> bool" where
  "man_ok m \<longleftrightarrow> status_ok (nand_mount_status m) \<and> status_ok (sd_mount_status m) \<and>
     wf_cache (man_cache m) \<and> wf_reserve (read_reserve m) \<and> wf_reserve (write_reserve m) \<and>
     streams_unused (movie_controller m)"

lemma with_status_set [simp]:
  "with_status j (set_status i v m) = (if (j = Nand) = (i = Nand) then v else with_status j m)"
  by (simp add: with_status_def set_status_def)

lemma set_status_fields [simp]:
  "work_memory (set_status i v m) = work_memory m" "man_cache (set_status i v m) = man_cache m"
  "read_reserve (set_status i v m) = read_reserve m"
  "write_reserve (set_status i v m) = write_reserve m"
  "movie_controller (set_status i v m) = movie_controller m"
  by (simp_all add: set_status_def)

lemma status_ok_ctor [simp]: "status_ok MountStatus_ctor"
  by (simp add: status_ok_def MountStatus_ctor_def result_values)

lemma status_ok_with [simp]: "man_ok m \<Longrightarrow> status_ok (with_status sid m)"
  by (simp add: man_ok_def with_status_def)

lemma man_ok_set [simp]: "man_ok m \<Longrightarrow> status_ok v \<Longrightarrow> man_ok (set_status sid v m)"
  by (simp add: man_ok_def set_status_def)

lemma man_ok_ctor [simp]: "man_ok AlbumManager_ctor"
  by (simp add: man_ok_def AlbumManager_ctor_def empty_reserve_def)

lemma man_ok_streams [simp]: "man_ok m \<Longrightarrow> streams_unused (movie_controller m)"
  by (simp add: man_ok_def)

lemma man_ok_memory [simp]: "man_ok (m\<lparr>work_memory := v\<rparr>) \<longleftrightarrow> man_ok m"
  by (simp add: man_ok_def)

lemma man_ok_cache [simp]: "man_ok m \<Longrightarrow> wf_cache v \<Longrightarrow> man_ok (m\<lparr>man_cache := v\<rparr>)"
  by (simp add: man_ok_def)

section \<open>Facts\<close>

lemma MountAlbum_codes:
  assumes "MountAlbum p s sid w = Inr (rc, u, w')"
  shows "Includes AlbumPathUnavailable_range rc \<longleftrightarrow> rc = ResultAlbumPathUnavailable"
    and "\<not> Includes AlbumUnexpected_range rc"
  using MountAlbum_results [OF assms]
  by (auto simp: result_values Includes_def AlbumPathUnavailable_range_def AlbumUnexpected_range_def
      MakeValue_def)

text \<open>The three ways a mount attempt ends.\<close>

lemma mount_available_cases:
  assumes "mount_available x sid (m, w) = Inr (rc, u, (m', w'))"
  obtains "m' = set_status sid \<lparr>ms_state = mounted, ms_last_error = 0\<rparr> m" "rc = 0"
  | "m' = set_status sid \<lparr>ms_state = unmounted, ms_last_error = ResultAlbumPathNotFound\<rparr> m"
    "rc = ResultAlbumPathNotFound"
  | "m' = set_status sid \<lparr>ms_state = available, ms_last_error = ResultAlbumIsNotMounted\<rparr> m"
    "rc = ResultAlbumIsNotMounted"
proof -
  obtain rc0 u0 w0 where M: "MountAlbum (plat x) (sett x) sid w = Inr (rc0, u0, w0)"
    using assms by (auto simp: mount_available_def then_run_eq_Inr)
  show thesis
    using assms M MountAlbum_codes [OF M] that
    by (auto simp: mount_available_def R_SUCCEEDED_def split: if_splits)
qed

lemma mount_available_ok:
  assumes "mount_available x sid (m, w) = Inr (rc, u, (m', w'))" and "man_ok m"
  shows "man_ok m'" and "rc = 0 \<longleftrightarrow> ms_state (with_status sid m') = mounted"
    and "rc \<in> {0, ResultAlbumIsNotMounted, ResultAlbumPathNotFound}"
proof -
  have "man_ok m' \<and> (rc = 0 \<longleftrightarrow> ms_state (with_status sid m') = mounted) \<and>
      rc \<in> {0, ResultAlbumIsNotMounted, ResultAlbumPathNotFound}"
    by (rule mount_available_cases [OF assms(1)])
      (simp_all add: assms(2) status_ok_def result_values)
  then show "man_ok m'" "rc = 0 \<longleftrightarrow> ms_state (with_status sid m') = mounted"
    "rc \<in> {0, ResultAlbumIsNotMounted, ResultAlbumPathNotFound}" by blast+
qed

text \<open>On consistent states both mount operations agree, whatever state is asked for.\<close>

lemma EnsureMountState_eq:
  assumes "man_ok m"
  shows "EnsureMountState x sid ms (m, w) = MountImageDirectory x sid (m, w)"
proof -
  have "ms_last_error (with_status sid m) \<noteq> 206"
    using status_ok_with [OF assms, of sid] by (auto simp: status_ok_def result_values)
  then show ?thesis
    by (simp add: EnsureMountState_def MountImageDirectory_def Let_def R_SUCCEEDED_def)
qed

lemma MountImageDirectory_cases:
  assumes "MountImageDirectory x sid (m, w) = Inr (rc, u, (m', w'))"
  obtains "\<not> StorageValid sid" "rc = ResultAlbumInvalidStorage" "m' = m" "w' = w"
  | "StorageValid sid" "ms_state (with_status sid m) \<noteq> available"
    "rc = ms_last_error (with_status sid m)" "m' = m" "w' = w"
  | "StorageValid sid" "ms_state (with_status sid m) = available"
    "mount_available x sid (m, w) = Inr (rc, u, (m', w'))"
proof (cases "StorageValid sid")
  case False
  with assms that(1) show thesis
    by (simp add: MountImageDirectory_def R_FAILED_iff VerifyStorageId_def result_values)
next
  case True
  show thesis
  proof (cases "ms_state (with_status sid m) = available")
    case av: True
    with True assms show thesis
      by (intro that(3)) (simp_all add: MountImageDirectory_def R_FAILED_iff)
  next
    case False
    with True assms show thesis
      by (intro that(2)) (auto simp: MountImageDirectory_def R_FAILED_iff)
  qed
qed

lemma MountImageDirectory_ok:
  assumes "MountImageDirectory x sid (m, w) = Inr (rc, u, (m', w'))" and "man_ok m"
  shows "man_ok m'"
    and "rc = 0 \<longleftrightarrow> StorageValid sid \<and> ms_state (with_status sid m') = mounted"
proof -
  have "man_ok m' \<and> (rc = 0 \<longleftrightarrow> StorageValid sid \<and> ms_state (with_status sid m') = mounted)"
    using MountImageDirectory_cases [OF assms(1)]
  proof cases
    case 1
    with assms(2) show ?thesis by (simp add: result_values)
  next
    case 2
    with assms(2) status_ok_with [OF assms(2), of sid] show ?thesis by (simp add: status_ok_def)
  next
    case 3
    from mount_available_ok [OF 3(3) assms(2)] 3(1) show ?thesis by simp
  qed
  then show "man_ok m'" "rc = 0 \<longleftrightarrow> StorageValid sid \<and> ms_state (with_status sid m') = mounted"
    by blast+
qed

lemma Ensure_ok:
  assumes "EnsureMountState x sid ms (m, w) = Inr (rc, u, (m', w'))" and "man_ok m"
  shows "man_ok m'"
    and "rc = 0 \<longleftrightarrow> StorageValid sid \<and> ms_state (with_status sid m') = mounted"
  by (rule MountImageDirectory_ok [OF assms(1) [unfolded EnsureMountState_eq [OF assms(2)]] assms(2)])+

text \<open>A mounted storage stays as it is; the call succeeds at once.\<close>

lemma Ensure_mounted [simp]:
  assumes "man_ok m" and "StorageValid sid" and "ms_state (with_status sid m) = mounted"
  shows "EnsureMountState x sid ms (m, w) = Inr (0, (), (m, w))"
  using assms status_ok_with [OF assms(1), of sid]
  by (simp add: EnsureMountState_eq MountImageDirectory_def R_FAILED_iff status_ok_def)

lemma unmount_to_cases:
  assumes "unmount_to target x sid (m, w) = Inr (rc, u, (m', w'))" and "man_ok m"
  obtains "\<not> StorageValid sid" "rc = ResultAlbumInvalidStorage" "m' = m" "w' = w"
  | "StorageValid sid" "rc = 0"
    "m' = set_status sid \<lparr>ms_state = target, ms_last_error = ResultAlbumIsNotMounted\<rparr> m"
proof (cases "StorageValid sid")
  case False
  with assms(1) that(1) show thesis
    by (simp add: unmount_to_def R_FAILED_iff VerifyStorageId_def result_values)
next
  case True
  have "m\<lparr>movie_controller := movie_controller m\<rparr> = m" by simp
  with True assms that(2) show thesis
    by (auto simp: unmount_to_def R_FAILED_iff UnmountAlbum_valid split: if_splits)
qed

lemma unmount_to_ok:
  assumes "unmount_to target x sid (m, w) = Inr (rc, u, (m', w'))" and "man_ok m"
    and "target \<noteq> mounted"
  shows "man_ok m'"
  using unmount_to_cases [OF assms(1,2)] assms(2,3)
  by cases (auto simp: status_ok_def result_values)

lemma unmount_to_returns:
  "man_ok m \<Longrightarrow> StorageValid sid \<Longrightarrow> \<exists>w'. unmount_to target x sid (m, w) =
     Inr (0, (), (set_status sid \<lparr>ms_state = target, ms_last_error = ResultAlbumIsNotMounted\<rparr> m, w'))"
  by (auto simp: unmount_to_def R_FAILED_iff UnmountAlbum_valid)

lemma Manager_Initialize_ok:
  assumes "Manager_Initialize x (m, w) = Inr (m', w')" and "man_ok m"
  shows "man_ok m' \<and> with_status sid m' = MountStatus_ctor \<and> man_cache m' = man_cache m \<and>
    reserved (read_reserve m') = {#} \<and> reserved (write_reserve m') = {#}"
  using assms
  by (auto simp: Manager_Initialize_def then_run_eq_Inr man_ok_def with_status_def)

lemma exit_storage_ok:
  assumes "man_ok m" and "StorageValid sid"
  shows "exit_storage x sid (m, w) = Inr (set_status sid MountStatus_ctor m,
    if ms_state (with_status sid m) = mounted
    then fs_Unmount (plat x) (MountNames ! unat sid) w else w)"
proof -
  have "m\<lparr>movie_controller := movie_controller m\<rparr> = m" by simp
  with assms show ?thesis by (simp add: exit_storage_def UnmountAlbum_valid)
qed

section \<open>Properties\<close>

text \<open>In every consistent state \<open>EnsureMountState\<close> behaves exactly as
  \<open>MountImageDirectory\<close>, whatever mount state it is asked for: its tail, which would choose between
  three other codes, is never reached.\<close>

theorem ensure_equals_mount:
  "man_ok m \<Longrightarrow> EnsureMountState x sid ms (m, w) = MountImageDirectory x sid (m, w)"
  by (rule EnsureMountState_eq)

definition sample_site :: "nat \<Rightarrow> nat surroundings" where
  "sample_site v = \<lparr>plat = sample_platform v, lib = sample_crypto, lib_keys = initial_keys,
     sett = booted_settings (sample_platform v), env = initial_environment,
     junk_ident = replicate 16 0,
     junk_cache = replicate 4 \<lparr>cache_count = 0, cache_unk_x8 = 0\<rparr>, loop_fuel = 70\<rparr>"

theorem ensure_equals_mount_witness:
  "EnsureMountState (sample_site 0x40000) Nand mounted (AlbumManager_ctor, 0) =
   MountImageDirectory (sample_site 0x40000) Nand (AlbumManager_ctor, 0)"
  by (rule ensure_equals_mount) simp

text \<open>C19: a storage that is mounted on demand ends mounted exactly when the call succeeds; a storage
  that was given up (unmounted) is never touched and keeps failing; the other storage keeps its
  status.\<close>

theorem mount_outcome:
  "man_ok m \<Longrightarrow> StorageValid sid \<Longrightarrow>
   MountImageDirectory x sid (m, w) = Inr (rc, u, (m', w')) \<Longrightarrow>
   (rc = ResultSuccess \<longleftrightarrow> ms_state (with_status sid m') = mounted) \<and>
   (rc \<noteq> ResultSuccess \<longrightarrow> rc = ResultAlbumIsNotMounted \<or> rc = ResultAlbumPathNotFound) \<and>
   (ms_state (with_status sid m) = unmounted \<longrightarrow> m' = m \<and> w' = w \<and> rc \<noteq> ResultSuccess) \<and>
   (StorageValid j \<and> j \<noteq> sid \<longrightarrow> with_status j m' = with_status j m) \<and> man_ok m'"
proof -
  assume A: "man_ok m" "StorageValid sid"
    "MountImageDirectory x sid (m, w) = Inr (rc, u, (m', w'))"
  note ok = MountImageDirectory_ok [OF A(3,1)]
  show ?thesis
    using MountImageDirectory_cases [OF A(3)]
  proof cases
    case 1
    with A(2) show ?thesis by simp
  next
    case 2
    then show ?thesis using ok A(1,2) status_ok_with [OF A(1), of sid] by (auto simp: status_ok_def)
  next
    case 3
    show ?thesis
      using mount_available_cases [OF 3(3)] ok A(2) 3(2)
      by cases (auto simp: StorageValid_def)
  qed
qed

lemma sample_mount:
  "MountImageDirectory (sample_site 0x40000) Sd (set_status Sd \<lparr>ms_state = available,
     ms_last_error = ResultAlbumIsNotMounted\<rparr> AlbumManager_ctor, 3) =
   Inr (0, (), (set_status Sd \<lparr>ms_state = mounted, ms_last_error = 0\<rparr> AlbumManager_ctor, 3))"
  by (simp add: MountImageDirectory_def mount_available_def sample_site_def MountAlbum_default
      booted_default_directory GetCustomImageDirectoryPath_def StorageValid_def R_FAILED_iff
      R_SUCCEEDED_def sample_platform_def set_status_def with_status_def)

theorem mount_outcome_witness:
  "ms_state (with_status Sd (set_status Sd \<lparr>ms_state = mounted, ms_last_error = 0\<rparr> AlbumManager_ctor)) =
     mounted"
proof -
  have "man_ok (set_status Sd \<lparr>ms_state = available, ms_last_error = ResultAlbumIsNotMounted\<rparr>
      AlbumManager_ctor)" "StorageValid Sd"
    by (simp_all add: status_ok_def result_values StorageValid_def)
  from mount_outcome [OF this sample_mount] show ?thesis by simp
qed

text \<open>After start-up both storages are unmounted: every request to mount fails with
  \<open>ResultAlbumIsNotMounted\<close>, without a call of the file system, until the storage is released
  by \<open>UnmountImageDirectory\<close>, after which the next request mounts it (or says why not).\<close>

theorem first_mount_needs_unmount:
  "man_ok m \<Longrightarrow> Manager_Initialize x (m, w) = Inr (m', w') \<Longrightarrow> StorageValid sid \<Longrightarrow>
   MountImageDirectory x sid (m', v) = Inr (ResultAlbumIsNotMounted, (), (m', v)) \<and>
   (\<exists>m'' v'. UnmountImageDirectory x sid (m', v) = Inr (ResultSuccess, (), (m'', v')) \<and>
      MountImageDirectory x sid (m'', v') = mount_available x sid (m'', v'))"
proof -
  assume A: "man_ok m" "Manager_Initialize x (m, w) = Inr (m', w')" "StorageValid sid"
  have i: "man_ok m'" "with_status sid m' = MountStatus_ctor"
    using Manager_Initialize_ok [OF A(2,1)] by simp_all
  obtain v' where u: "UnmountImageDirectory x sid (m', v) = Inr (0, (),
      (set_status sid \<lparr>ms_state = available, ms_last_error = ResultAlbumIsNotMounted\<rparr> m', v'))"
    using unmount_to_returns [OF i(1) A(3), of available x v] unfolding UnmountImageDirectory_def
    by blast
  show ?thesis
    using i A(3) u
    by (auto simp: MountImageDirectory_def MountStatus_ctor_def R_FAILED_iff)
qed

theorem first_mount_needs_unmount_witness:
  "MountImageDirectory (sample_site 0x40000) Sd
     (AlbumManager_ctor\<lparr>movie_controller := MovieController_Initialize zero_MovieController\<rparr>, 5) =
   Inr (ResultAlbumIsNotMounted, (),
     (AlbumManager_ctor\<lparr>movie_controller := MovieController_Initialize zero_MovieController\<rparr>, 5))"
proof -
  have "Manager_Initialize (sample_site 0x40000) (AlbumManager_ctor, 0) = Inr
      (AlbumManager_ctor\<lparr>movie_controller := MovieController_Initialize zero_MovieController\<rparr>, 0)"
    by (simp add: Manager_Initialize_def sample_site_def sample_platform_def hosversionAtLeast_def
        make_hos_version_def AlbumManager_ctor_def empty_reserve_def AlbumReserve_ctor_def)
  from first_mount_needs_unmount [OF man_ok_ctor this, of Sd 5] show ?thesis
    by (simp add: StorageValid_def)
qed

end
