(* ===== verification/Manager.thy ===== *)
theory Manager
  imports Mount
begin

text \<open>
  The album manager's operations on files and counts (\<open>capsrv_album_manager.cpp\<close>, from
  \<open>CreateAlbumFileImpl\<close> and \<open>RefreshCache\<close> on). Operations that use the work memory clear
  it when they start and when they end, whatever their result.
\<close>

section \<open>Work memory\<close>

definition scrub :: "AlbumManager \<Rightarrow> AlbumManager" where
  "scrub m = m\<lparr>work_memory := replicate (length (work_memory m)) 0\<rparr>"

definition scrubbed :: "('w man \<Rightarrow> ('a, 'w man) outcome) \<Rightarrow> 'w man \<Rightarrow> ('a, 'w man) outcome" where
  "scrubbed f = (\<lambda>(m, w). ON_SCOPE_EXIT (\<lambda>(m, w). (scrub m, w)) (f (scrub m, w)))"

text \<open>A walk over a storage; its result is not looked at.\<close>

definition walk ::
  "'w surroundings \<Rightarrow> StorageId \<Rightarrow> 's callback \<Rightarrow> 's \<Rightarrow> 'w \<Rightarrow> ('s \<times> 'w) run" where
  "walk x sid cb s w =
     then_run (ProcessImageDirectory (loop_fuel x) (plat x) (lib x) (lib_keys x) (junk_ident x) sid cb s w)
       (\<lambda>(_, s, w). Inr (s, w))"

section \<open>The cache\<close>

text \<open>The four counters of \<open>RefreshCache\<close> are not initialised: \<open>junk_cache\<close>.\<close>

definition count_file :: "CapsAlbumCache list callback" where
  "count_file e cache =
     (let i = unat (content_type (fileId e))
      in Inr (False, if ContentTypeValid (content_type (fileId e))
                     then cache[i := (cache ! i)\<lparr>cache_count := cache_count (cache ! i) + 1\<rparr>]
                     else cache))"

definition RefreshCache :: "'w surroundings \<Rightarrow> StorageId \<Rightarrow> 'w man \<Rightarrow> (unit, 'w man) outcome" where
  "RefreshCache x sid = scrubbed (\<lambda>(m, w).
     if R_FAILED (VerifyStorageId sid) then Inr (VerifyStorageId sid, (), (m, w)) else
     R_TRY (EnsureMountState x sid mounted (m, w)) () (\<lambda>_ (m, w).
     then_run (walk x sid count_file (junk_cache x) w) (\<lambda>(cache, w).
       let c = man_cache m;
           c = Cache_Set sid Screenshot (cache ! 0) c;
           c = Cache_Set sid Movie (cache ! 1) c;
           c = Cache_Set sid ExtraScreenshot (cache ! 2) c;
           c = Cache_Set sid ExtraMovie (cache ! 3) c
       in Inr (ResultSuccess, (), (m\<lparr>man_cache := c\<rparr>, w)))))"

definition GetCache ::
  "'w surroundings \<Rightarrow> StorageId \<Rightarrow> ContentType \<Rightarrow> AlbumManager \<Rightarrow> (result \<times> CapsAlbumCache) run" where
  "GetCache x sid type m =
     (let zero = \<lparr>cache_count = 0, cache_unk_x8 = 0\<rparr>
      in if R_FAILED (VerifyStorageId sid) then Inr (VerifyStorageId sid, zero)
         else if R_FAILED (VerifyContentType type (sett x))
         then Inr (VerifyContentType type (sett x), zero)
         else then_run (Cache_Get sid type (man_cache m)) (\<lambda>c. Inr (ResultSuccess, c)))"

text \<open>The requested number of files is not used.\<close>

definition CanSave ::
  "'w surroundings \<Rightarrow> StorageId \<Rightarrow> ContentType \<Rightarrow> u64 \<Rightarrow> AlbumManager \<Rightarrow> result" where
  "CanSave x sid type n m =
     (if R_FAILED (VerifyStorageId sid) then VerifyStorageId sid
      else if R_FAILED (VerifyContentType type (sett x)) then VerifyContentType type (sett x)
      else if \<not> Cache_GetCount sid type (man_cache m) < GetFileMaxCount (sett x) sid type
      then ResultInternalAlbumLimitationFileCountLimit
      else ResultSuccess)"

section \<open>Counting and listing\<close>

definition selected :: "AlbumManager \<Rightarrow> u8 \<Rightarrow> AlbumEntry \<Rightarrow> bool" where
  "selected m flags e \<longleftrightarrow>
     type_selected (content_type (fileId e)) flags \<and> \<not> IsReserved (fileId e) (write_reserve m)"

definition count_selected :: "AlbumManager \<Rightarrow> u8 \<Rightarrow> u64 callback" where
  "count_selected m flags e n = Inr (False, if selected m flags e then n + 1 else n)"

text \<open>\<open>out_count\<close> keeps its value when the call fails.\<close>

definition CountEntries ::
  "'w surroundings \<Rightarrow> u64 \<Rightarrow> StorageId \<Rightarrow> u8 \<Rightarrow> 'w man \<Rightarrow> (u64, 'w man) outcome" where
  "CountEntries x out_count sid flags = scrubbed (\<lambda>(m, w).
     if R_FAILED (VerifyStorageId sid) then Inr (VerifyStorageId sid, out_count, (m, w)) else
     R_TRY (EnsureMountState x sid mounted (m, w)) out_count (\<lambda>_ (m, w).
     then_run (walk x sid (count_selected m flags) 0 w) (\<lambda>(n, w).
       Inr (ResultSuccess, n, (m, w)))))"

definition zero_AlbumEntry :: AlbumEntry where
  "zero_AlbumEntry = \<lparr>entry_size = 0, fileId = zero_AlbumFileId\<rparr>"

text \<open>
  The callback stores the entry before it compares the count with the size of the client's buffer,
  and stops when they are equal.
\<close>

definition list_selected :: "AlbumManager \<Rightarrow> u8 \<Rightarrow> nat \<Rightarrow> (AlbumEntry list \<times> nat) callback" where
  "list_selected m flags max_entries e st =
     (case st of (entries, n) \<Rightarrow>
        then_run (if selected m flags e
                  then (if n < length entries then Inr (entries[n := e], n + 1) else Inl OutOfBounds)
                  else Inr (entries, n))
          (\<lambda>(entries, n). Inr (max_entries = n, (entries, n))))"

definition ListEntries ::
  "'w surroundings \<Rightarrow> nat \<Rightarrow> StorageId \<Rightarrow> u8 \<Rightarrow> 'w man \<Rightarrow> (u64 \<times> AlbumEntry list, 'w man) outcome" where
  "ListEntries x max_entries sid flags = scrubbed (\<lambda>(m, w).
     let entries = replicate max_entries zero_AlbumEntry in
     R_TRY (EnsureMountState x sid mounted (m, w)) (0, entries) (\<lambda>_ (m, w).
     then_run (walk x sid (list_selected m flags max_entries) (entries, 0) w) (\<lambda>((entries, n), w).
       Inr (ResultSuccess, (of_nat n, entries), (m, w)))))"

definition ListApplicationEntries ::
  "'w surroundings \<Rightarrow> nat \<Rightarrow> StorageId \<Rightarrow> u8 \<Rightarrow> 'w man \<Rightarrow>
     (u64 \<times> ApplicationAlbumEntry list, 'w man) outcome" where
  "ListApplicationEntries x entries_count sid flags = scrubbed (\<lambda>(m, w).
     let entries = replicate entries_count (replicate 32 0) in
     R_TRY (EnsureMountState x sid mounted (m, w)) (0, entries) (\<lambda>_ (m, w).
       Inr (ResultSuccess, (0, entries), (m, w))))"

section \<open>Single files\<close>

definition file_path :: "'w surroundings \<Rightarrow> AlbumFileId \<Rightarrow> u32 \<Rightarrow> 'w man \<Rightarrow> (string, 'w man) outcome" where
  "file_path x f unk st =
     then_run (MakeAlbumPath (lib x) (lib_keys x) (sett x) f unk AlbumPath_ctor)
       (\<lambda>(rc, path). Inr (rc, c_str (path_buffer path), st))"

text \<open>The checks every operation on a file starts with.\<close>

definition check_file ::
  "'w surroundings \<Rightarrow> AlbumFileId \<Rightarrow> 'w man \<Rightarrow> (unit, 'w man) outcome" where
  "check_file x f = (\<lambda>(m, w).
     if \<not> \<not> IsReserved f (write_reserve m) then Inr (ResultAlbumFileNotFound, (), (m, w))
     else Inr (Verify (sett x) f, (), (m, w)))"

definition GetFileSize :: "'w surroundings \<Rightarrow> AlbumFileId \<Rightarrow> 'w man \<Rightarrow> (int, 'w man) outcome" where
  "GetFileSize x f st =
     R_TRY (check_file x f st) 0 (\<lambda>_ st.
     R_TRY (EnsureMountState x (storage_id f) mounted st) 0 (\<lambda>_ st.
     R_TRY (file_path x f 1 st) 0 (\<lambda>path (m, w).
     R_TRY (with_man m (fs_OpenFile (plat x) path OpenMode_Read w)) 0 (\<lambda>file_handle (m, w).
     ON_SCOPE_EXIT (\<lambda>(m, w). (m, fs_CloseFile (plat x) file_handle w))
       (R_TRY (with_man m (fs_GetFileSize (plat x) file_handle w)) 0 (\<lambda>file_size st.
        then_run (GetAllowedFileSize (content_type f) (sett x)) (\<lambda>max_size.
          if \<not> file_size \<le> max_size then Inr (ResultAlbumFileNotFound, 0, st)
          else Inr (ResultSuccess, file_size, st))))))))"

text \<open>
  \<open>LoadJpeg\<close> and \<open>LoadJpegThumbnail\<close> share their text: they check, mount, and leave the
  cleared buffer as it is; loading is not implemented.
\<close>

definition load_nothing ::
  "'w surroundings \<Rightarrow> nat \<Rightarrow> AlbumFileId \<Rightarrow> 'w man \<Rightarrow> (u64 \<times> u8 list, 'w man) outcome" where
  "load_nothing x buffer_size f = scrubbed (\<lambda>st.
     let out = (0, replicate buffer_size 0) in
     SCOPE_GUARD (\<lambda>(n, buf) st. ((n, replicate buffer_size 0), st))
       (R_TRY (check_file x f st) out (\<lambda>_ st.
        R_TRY (EnsureMountState x (storage_id f) mounted st) out (\<lambda>_ st.
          if \<not> IsTypeSupported (sett x) (content_type f)
          then Inr (ResultAlbumInvalidFileContents, out, st)
          else Inr (ResultSuccess, out, st)))))"

definition LoadJpeg ::
  "'w surroundings \<Rightarrow> nat \<Rightarrow> AlbumFileId \<Rightarrow> 'w man \<Rightarrow> (u64 \<times> u8 list, 'w man) outcome" where
  "LoadJpeg = load_nothing"
definition LoadJpegThumbnail ::
  "'w surroundings \<Rightarrow> nat \<Rightarrow> AlbumFileId \<Rightarrow> 'w man \<Rightarrow> (u64 \<times> u8 list, 'w man) outcome" where
  "LoadJpegThumbnail = load_nothing"
definition LoadImage ::
  "'w surroundings \<Rightarrow> nat \<Rightarrow> AlbumFileId \<Rightarrow> 'w man \<Rightarrow> (u64 \<times> u8 list, 'w man) outcome" where
  "LoadImage = LoadJpeg"
definition LoadThumbnailImage ::
  "'w surroundings \<Rightarrow> nat \<Rightarrow> AlbumFileId \<Rightarrow> 'w man \<Rightarrow> (u64 \<times> u8 list, 'w man) outcome" where
  "LoadThumbnailImage = LoadJpegThumbnail"

text \<open>The result of deleting the file is not looked at.\<close>

definition Manager_DeleteFile :: "'w surroundings \<Rightarrow> AlbumFileId \<Rightarrow> 'w man \<Rightarrow> (unit, 'w man) outcome" where
  "Manager_DeleteFile x f st =
     (if \<not> \<not> IsReserved f (read_reserve (fst st))
      then Inr (ResultAlbumDestinationAccessCorrupted, (), st) else
     R_TRY (check_file x f st) () (\<lambda>_ st.
     R_TRY (EnsureMountState x (storage_id f) mounted st) () (\<lambda>_ st.
     R_TRY (file_path x f 2 st) () (\<lambda>path (m, w).
       let (_, w) = fs_DeleteFile (plat x) path w
       in Inr (ResultSuccess, (),
               (m\<lparr>man_cache := Cache_Decrement (storage_id f) (content_type f) (man_cache m)\<rparr>, w))))))"

section \<open>Copying\<close>

definition lift_w :: "result \<times> 'a \<times> 'w \<Rightarrow> ('a, 'w) outcome" where
  "lift_w r = Inr r"

definition lift_w0 :: "result \<times> 'w \<Rightarrow> (unit, 'w) outcome" where
  "lift_w0 r = (case r of (rc, w) \<Rightarrow> Inr (rc, (), w))"

text \<open>
  A new file, or an existing one cut to the size. A file that cannot be opened after it was created
  is deleted again; one whose size cannot be set is closed.
\<close>

definition CreateAlbumFileImpl ::
  "'w surroundings \<Rightarrow> string \<Rightarrow> int \<Rightarrow> nat \<Rightarrow> 'w \<Rightarrow> (handle, 'w) outcome" where
  "CreateAlbumFileImpl x path file_size mode w =
     (let p = plat x in
      if \<not> \<not> IsQuest (env x) then Inr (ResultAlbumIsFull, 0, w) else
      R_TRY (lift_w0 (fs_EnsureParentDirectory p path w)) 0 (\<lambda>_ w.
      let (rc, w) = fs_CreateFile p path file_size w
      in if R_FAILED rc then
           (if Includes fs_PathAlreadyExists rc then
              R_TRY (lift_w (fs_OpenFile p path mode w)) 0 (\<lambda>file w.
                SCOPE_GUARD (\<lambda>file w. (file, fs_CloseFile p file w))
                  (R_TRY (lift_w0 (fs_SetFileSize p file file_size w)) file (\<lambda>_ w.
                    Inr (ResultSuccess, file, w))))
            else Inr (rc, 0, w))
         else
           SCOPE_GUARD (\<lambda>file w. (file, snd (fs_DeleteFile p path w)))
             (R_TRY (lift_w (fs_OpenFile p path mode w)) 0 (\<lambda>file w.
               Inr (ResultSuccess, file, w)))))"

text \<open>The copy loop; it does not end when the source yields no more bytes before its size.\<close>

fun copy_loop ::
  "nat \<Rightarrow> 'w platform \<Rightarrow> handle \<Rightarrow> handle \<Rightarrow> int \<Rightarrow> int \<Rightarrow> u8 list \<times> 'w \<Rightarrow>
     (unit, u8 list \<times> 'w) outcome" where
  "copy_loop 0 p src dst offset file_size st = Inl OutOfFuel"
| "copy_loop (Suc n) p src dst offset file_size (mem, w) =
     (if \<not> offset < file_size then Inr (ResultSuccess, (), (mem, w)) else
      (let (rc, data, w) = fs_ReadFile p src offset (length mem) w
       in if R_FAILED rc then Inr (rc, (), (mem, w))
          else if length mem < length data then Inl OutOfBounds
          else
            (let mem = poke 0 data mem;
                 (rc, w) = fs_WriteFile p dst offset (take (length data) mem) w
             in if R_FAILED rc then Inr (rc, (), (mem, w))
                else copy_loop n p src dst (offset + int (length data)) file_size (mem, w))))"

text \<open>
  The guards run in the reverse order of their declaration: the destination is closed, deleted when
  the copy failed, the source is closed, the work memory cleared.
\<close>

definition copy_opened ::
  "'w surroundings \<Rightarrow> handle \<Rightarrow> string \<Rightarrow> AlbumFileId \<Rightarrow> StorageId \<Rightarrow> 'w man \<Rightarrow> (unit, 'w man) outcome" where
  "copy_opened x src dst_path src_file_id dst_sid = (\<lambda>(m, w).
     let p = plat x; type = content_type src_file_id in
     R_TRY (with_man m (fs_GetFileSize p src w)) () (\<lambda>file_size (m, w).
     then_run (GetAllowedFileSize type (sett x)) (\<lambda>max_size.
     if \<not> file_size \<le> max_size then Inr (ResultAlbumFileNotFound, (), (m, w)) else
     if \<not> Cache_GetCount dst_sid type (man_cache m) < GetFileMaxCount (sett x) dst_sid type
     then Inr (ResultInternalAlbumLimitationFileCountLimit, (), (m, w)) else
     then_run (CreateAlbumFileImpl x dst_path file_size (OpenMode_Write + OpenMode_AllowAppend) w)
       (\<lambda>(rc, dst, w).
     if R_FAILED rc then Inr (rc, (), (m, w)) else
     SCOPE_GUARD (\<lambda>_ (m, w). ((), (m, snd (fs_DeleteFile p dst_path w))))
       (ON_SCOPE_EXIT (\<lambda>(m, w). (m, fs_CloseFile p dst w))
         (then_run (copy_loop (loop_fuel x) p src dst 0 file_size (work_memory m, w))
           (\<lambda>(rc, _, (mem, w)).
            let m = m\<lparr>work_memory := mem\<rparr> in
            if R_FAILED rc then Inr (rc, (), (m, w)) else
            (let (_, w) = fs_FlushFile p dst w
             in Inr (ResultSuccess, (),
                  (m\<lparr>man_cache := Cache_Increment dst_sid type (man_cache m)\<rparr>, w))))))))))"

definition CopyFile ::
  "'w surroundings \<Rightarrow> AlbumFileId \<Rightarrow> StorageId \<Rightarrow> 'w man \<Rightarrow> (unit, 'w man) outcome" where
  "CopyFile x src_file_id dst_sid = scrubbed (\<lambda>st.
     R_TRY (check_file x src_file_id st) () (\<lambda>_ st.
     if R_FAILED (VerifyStorageId dst_sid) then Inr (VerifyStorageId dst_sid, (), st) else
     if dst_sid = storage_id src_file_id then Inr (ResultSuccess, (), st) else
     R_TRY (EnsureMountState x (storage_id src_file_id) mounted st) () (\<lambda>_ st.
     R_TRY (EnsureMountState x dst_sid mounted st) () (\<lambda>_ st.
     R_TRY (file_path x src_file_id 1 st) () (\<lambda>src_path st.
     R_TRY (file_path x (src_file_id\<lparr>storage_id := dst_sid\<rparr>) 2 st) () (\<lambda>dst_path (m, w).
     R_TRY (with_man m (fs_OpenFile (plat x) src_path OpenMode_Read w)) () (\<lambda>src st.
     ON_SCOPE_EXIT (\<lambda>(m, w). (m, fs_CloseFile (plat x) src w))
       (copy_opened x src dst_path src_file_id dst_sid st))))))))"

section \<open>Usage and space\<close>

record CapsAlbumContentsUsage =
  usage_count :: u64
  usage_size :: u64

definition zero_usage :: CapsAlbumContentsUsage where
  "zero_usage = \<lparr>usage_count = 0, usage_size = 0\<rparr>"

definition GetAlbumUsage ::
  "'w surroundings \<Rightarrow> u8 \<Rightarrow> StorageId \<Rightarrow> u8 \<Rightarrow> 'w man \<Rightarrow>
     (CapsAlbumContentsUsage \<times> CapsAlbumContentsUsage list, 'w man) outcome" where
  "GetAlbumUsage x n sid flags = scrubbed (\<lambda>st.
     let out = (zero_usage, replicate (unat n) zero_usage) in
     SCOPE_GUARD (\<lambda>_ st. ((zero_usage, replicate (unat n) zero_usage), st))
       (R_TRY (EnsureMountState x sid mounted st) out (\<lambda>_ st. Inr (ResultSuccess, out, st))))"

definition GetRequiredStorageSpaceSizeToCopyAll ::
  "'w surroundings \<Rightarrow> StorageId \<Rightarrow> StorageId \<Rightarrow> 'w man \<Rightarrow> (u64, 'w man) outcome" where
  "GetRequiredStorageSpaceSizeToCopyAll x src_sid dst_sid = scrubbed (\<lambda>st.
     R_TRY (EnsureMountState x src_sid mounted st) 0 (\<lambda>_ st.
     R_TRY (EnsureMountState x dst_sid mounted st) 0 (\<lambda>_ st.
     if src_sid = dst_sid then Inr (ResultSuccess, 0, st)
     else (let required_size = 0 in Inr (ResultSuccess, required_size, st)))))"

definition Manager_LoadMakerNoteInfo :: "AlbumFileId \<Rightarrow> 'w man \<Rightarrow> (u64, 'w man) outcome" where
  "Manager_LoadMakerNoteInfo f st = Inr (ResultSuccess, 0, st)"

definition SaveScreenshotFile ::
  "u8 list \<Rightarrow> AlbumFileId \<Rightarrow> u64 \<Rightarrow> u64 \<Rightarrow> u64 \<Rightarrow> 'w man \<Rightarrow> (unit, 'w man) outcome" where
  "SaveScreenshotFile jpeg f mn_offset mn_size mn_unk st = Inr (ResultSuccess, (), st)"

section \<open>Every operation keeps the manager consistent\<close>

text \<open>An operation that keeps \<open>man_ok\<close>.\<close>

definition keeps :: "('w man \<Rightarrow> ('a, 'w man) outcome) \<Rightarrow> bool" where
  "keeps f \<longleftrightarrow> (\<forall>m w rc a m' w'. man_ok m \<longrightarrow> f (m, w) = Inr (rc, a, (m', w')) \<longrightarrow> man_ok m')"

named_theorems keeps_rules "operations that keep the manager consistent"

lemma keepsI: "(\<And>m w rc a m' w'. man_ok m \<Longrightarrow> f (m, w) = Inr (rc, a, (m', w')) \<Longrightarrow> man_ok m') \<Longrightarrow> keeps f"
  unfolding keeps_def by blast

lemma keepsD: "keeps f \<Longrightarrow> man_ok m \<Longrightarrow> f (m, w) = Inr (rc, a, (m', w')) \<Longrightarrow> man_ok m'"
  unfolding keeps_def by blast

lemma man_ok_scrub [simp]: "man_ok (scrub m) \<longleftrightarrow> man_ok m"
  by (simp add: scrub_def)

lemma keeps_return [keeps_rules]: "keeps (\<lambda>st. Inr (rc, a, st))"
  by (auto simp: keeps_def)

lemma keeps_fault [keeps_rules]: "keeps (\<lambda>st. Inl f)"
  by (auto simp: keeps_def)

lemma keeps_R_TRY [keeps_rules]:
  assumes "keeps f" and "\<And>a. keeps (k a)"
  shows "keeps (\<lambda>st. R_TRY (f st) b k)"
proof (rule keepsI)
  fix m w rc a m' w'
  assume "man_ok m" and r: "R_TRY (f (m, w)) b k = Inr (rc, a, (m', w'))"
  from r show "man_ok m'"
  proof (cases rule: R_TRY_cases)
    case (failed a)
    with keepsD [OF assms(1) \<open>man_ok m\<close>] show ?thesis by blast
  next
    case (went_on a s)
    obtain m1 w1 where s: "s = (m1, w1)" by (cases s)
    have "man_ok m1" using keepsD [OF assms(1) \<open>man_ok m\<close>] went_on(1) s by blast
    from keepsD [OF assms(2) this] went_on(2) s show ?thesis by blast
  qed
qed

lemma keeps_if [keeps_rules]:
  assumes "keeps f" and "keeps g"
  shows "keeps (\<lambda>st. if c st then f st else g st)"
proof (rule keepsI)
  fix m w rc a m' w'
  assume "man_ok m" and "(if c (m, w) then f (m, w) else g (m, w)) = Inr (rc, a, (m', w'))"
  with keepsD [OF assms(1)] keepsD [OF assms(2)] show "man_ok m'" by (metis (full_types))
qed

lemma keeps_pair [keeps_rules]: "keeps (\<lambda>st. f (fst st) (snd st)) \<Longrightarrow> keeps (\<lambda>(m, w). f m w)"
  by (simp add: case_prod_unfold)

lemma keeps_run:
  assumes "\<And>a. keeps (k a)"
  shows "keeps (\<lambda>st. then_run (r st) (\<lambda>a. k a st))"
proof (rule keepsI)
  fix m w rc a m' w'
  assume "man_ok m" and "then_run (r (m, w)) (\<lambda>a. k a (m, w)) = Inr (rc, a, (m', w'))"
  then show "man_ok m'" using keepsD [OF assms \<open>man_ok m\<close>] by (auto simp: then_run_eq_Inr)
qed

lemma keeps_case [keeps_rules]:
  "(\<And>a b. keeps (f a b)) \<Longrightarrow> keeps (\<lambda>st. case ab of (a, b) \<Rightarrow> f a b st)"
  by (cases ab) simp

lemma keeps_case2 [keeps_rules]:
  "(\<And>a b. keeps (\<lambda>st. f a b st c)) \<Longrightarrow>
     keeps (\<lambda>st. (case ab of (a, b) \<Rightarrow> f a b st) c)"
  by (cases ab) simp

lemma keeps_surj [keeps_rules]: "keeps f \<Longrightarrow> keeps (\<lambda>st. f (fst st, snd st))"
  by simp

text \<open>A result built from the state as it was, with another world.\<close>

lemma keeps_result [keeps_rules]:
  "(\<And>m w. man_ok m \<Longrightarrow> man_ok (g (m, w))) \<Longrightarrow> keeps (\<lambda>st. Inr (r st, a st, (g st, v st)))"
  by (auto simp: keeps_def)

lemma keeps_scope_exit [keeps_rules]:
  assumes "keeps f" and "\<And>m w. fst (g (m, w)) = m"
  shows "keeps (\<lambda>st. ON_SCOPE_EXIT g (f st))"
proof (rule keepsI)
  fix m w rc a m' w'
  assume "man_ok m" and "ON_SCOPE_EXIT g (f (m, w)) = Inr (rc, a, (m', w'))"
  then obtain m1 w1 where "f (m, w) = Inr (rc, a, (m1, w1))" "g (m1, w1) = (m', w')"
    by (auto simp: ON_SCOPE_EXIT_def then_run_eq_Inr)
  with keepsD [OF assms(1) \<open>man_ok m\<close>] assms(2) [of m1 w1] show "man_ok m'" by auto
qed

lemma keeps_scope_guard [keeps_rules]:
  assumes "keeps f" and "\<And>a m w. fst (snd (g a (m, w))) = m"
  shows "keeps (\<lambda>st. SCOPE_GUARD g (f st))"
proof (rule keepsI)
  fix m w rc a m' w'
  assume "man_ok m" and "SCOPE_GUARD g (f (m, w)) = Inr (rc, a, (m', w'))"
  then obtain rc1 a1 m1 w1 where f: "f (m, w) = Inr (rc1, a1, (m1, w1))" and
    "(if R_FAILED rc1 then (rc1, g a1 (m1, w1)) else (rc1, a1, (m1, w1))) = (rc, a, (m', w'))"
    by (force simp: SCOPE_GUARD_def then_run_eq_Inr split: if_splits)
  then have "m' = m1" using assms(2) [of a1 m1 w1] by (auto split: if_splits)
  with keepsD [OF assms(1) \<open>man_ok m\<close> f] show "man_ok m'" by simp
qed

lemma keeps_scrubbed [keeps_rules]:
  assumes "keeps f"
  shows "keeps (scrubbed f)"
proof (rule keepsI)
  fix m w rc a m' w'
  assume "man_ok m" and "scrubbed f (m, w) = Inr (rc, a, (m', w'))"
  then obtain m1 w1 where "f (scrub m, w) = Inr (rc, a, (m1, w1))" "m' = scrub m1"
    by (auto simp: scrubbed_def ON_SCOPE_EXIT_def then_run_eq_Inr)
  with keepsD [OF assms, of "scrub m"] \<open>man_ok m\<close> show "man_ok m'" by auto
qed

lemma keeps_mount [keeps_rules]:
  "keeps (MountImageDirectory x sid)" "keeps (EnsureMountState x sid ms)"
  "keeps (CloseImageDirectory x sid)" "keeps (UnmountImageDirectory x sid)"
  by (auto intro!: keepsI elim: MountImageDirectory_ok(1) Ensure_ok(1)
      simp: CloseImageDirectory_def UnmountImageDirectory_def dest: unmount_to_ok)

lemma keeps_with_man [keeps_rules]: "keeps (\<lambda>st. with_man (fst st) (g st))"
  by (auto simp: keeps_def with_man_def split: prod.splits)

lemma keeps_check [keeps_rules]: "keeps (check_file x f)"
  by (auto simp: keeps_def check_file_def split: if_splits)

lemma keeps_path [keeps_rules]: "keeps (file_path x f u)"
  by (auto simp: keeps_def file_path_def then_run_eq_Inr)

lemma keeps_GetFileSize [keeps_rules]: "keeps (GetFileSize x f)"
proof -
  have size: "keeps (\<lambda>st. then_run (GetAllowedFileSize t s) (\<lambda>mx. if \<not> n \<le> mx
      then Inr (ResultAlbumFileNotFound, 0, st) else Inr (ResultSuccess, n, st)))" for t s and n :: int
    by (rule keeps_run) (intro keeps_rules)
  show ?thesis
    unfolding GetFileSize_def by (intro keeps_rules size) (auto split: prod.splits)
qed

lemma keeps_load [keeps_rules]:
  "keeps (LoadJpeg x n f)" "keeps (LoadJpegThumbnail x n f)" "keeps (LoadImage x n f)"
  "keeps (LoadThumbnailImage x n f)"
  unfolding LoadJpeg_def LoadJpegThumbnail_def LoadImage_def LoadThumbnailImage_def load_nothing_def
    Let_def
  by (intro keeps_rules; auto)+

lemma keeps_usage [keeps_rules]:
  "keeps (GetAlbumUsage x n sid flags)"
  "keeps (GetRequiredStorageSpaceSizeToCopyAll x src dst)"
  unfolding GetAlbumUsage_def GetRequiredStorageSpaceSizeToCopyAll_def Let_def
  by (intro keeps_rules; auto)+

lemma keeps_Manager_DeleteFile [keeps_rules]: "keeps (Manager_DeleteFile x f)"
  unfolding Manager_DeleteFile_def
  by (intro keeps_rules)
    (auto intro!: keepsI man_ok_cache wf_Cache_Decrement simp: man_ok_def split: prod.splits)

lemma keeps_listing [keeps_rules]:
  "keeps (CountEntries x n sid flags)" "keeps (ListEntries x mx sid flags)"
  "keeps (ListApplicationEntries x mx sid flags)"
  unfolding CountEntries_def ListEntries_def ListApplicationEntries_def Let_def
  by (intro keeps_rules keeps_run; simp)+

lemma keeps_RefreshCache [keeps_rules]: "keeps (RefreshCache x sid)"
  unfolding RefreshCache_def Let_def
  by (intro keeps_rules keeps_run; simp add: man_ok_def)

lemma keeps_copy_opened: "keeps (copy_opened x src path f dst)"
  unfolding copy_opened_def Let_def
  by (intro keeps_rules keeps_run; simp add: man_ok_def split: prod.splits)

lemma keeps_CopyFile [keeps_rules]: "keeps (CopyFile x f dst)"
  unfolding CopyFile_def
  by (intro keeps_rules keeps_run keeps_copy_opened; simp split: prod.splits)

section \<open>Reachable states\<close>

text \<open>One request to the manager, of any kind.\<close>

inductive man_step :: "'w surroundings \<Rightarrow> 'w man \<Rightarrow> 'w man \<Rightarrow> bool" for x where
  mount: "MountImageDirectory x sid s = Inr (rc, u, t) \<Longrightarrow> man_step x s t"
| ensure: "EnsureMountState x sid ms s = Inr (rc, u, t) \<Longrightarrow> man_step x s t"
| close: "CloseImageDirectory x sid s = Inr (rc, u, t) \<Longrightarrow> man_step x s t"
| unmount: "UnmountImageDirectory x sid s = Inr (rc, u, t) \<Longrightarrow> man_step x s t"
| refresh: "RefreshCache x sid s = Inr (rc, u, t) \<Longrightarrow> man_step x s t"
| count: "CountEntries x n sid flags s = Inr (rc, c, t) \<Longrightarrow> man_step x s t"
| list: "ListEntries x mx sid flags s = Inr (rc, es, t) \<Longrightarrow> man_step x s t"
| list_app: "ListApplicationEntries x mx sid flags s = Inr (rc, aes, t) \<Longrightarrow> man_step x s t"
| get_size: "GetFileSize x f s = Inr (rc, sz, t) \<Longrightarrow> man_step x s t"
| load: "LoadImage x n f s = Inr (rc, buf, t) \<Longrightarrow> man_step x s t"
| load_thumbnail: "LoadThumbnailImage x n f s = Inr (rc, buf, t) \<Longrightarrow> man_step x s t"
| delete: "Manager_DeleteFile x f s = Inr (rc, u, t) \<Longrightarrow> man_step x s t"
| copy: "CopyFile x f dst s = Inr (rc, u, t) \<Longrightarrow> man_step x s t"
| usage: "GetAlbumUsage x k sid flags s = Inr (rc, us, t) \<Longrightarrow> man_step x s t"
| space: "GetRequiredStorageSpaceSizeToCopyAll x src dst s = Inr (rc, sp, t) \<Longrightarrow> man_step x s t"

lemma man_step_ok: "man_step x s t \<Longrightarrow> man_ok (fst s) \<Longrightarrow> man_ok (fst t)"
proof (cases s, cases t)
  fix m w m' w'
  assume "man_step x s t" "man_ok (fst s)" "s = (m, w)" "t = (m', w')"
  then show "man_ok (fst t)"
    by (cases rule: man_step.cases) (auto elim: keepsD [rotated] intro: keeps_rules)
qed

interpretation manager: state_machine
  "\<lambda>s. \<exists>m w x. man_ok m \<and> Manager_Initialize x (m, w) = Inr s" "man_step x" "\<lambda>s. man_ok (fst s)"
  for x :: "'w surroundings"
  by unfold_locales (auto dest: Manager_Initialize_ok intro: man_step_ok)

end
