(* ===== verification/ManagerFacts.thy ===== *)
theory ManagerFacts
  imports Manager
begin

text \<open>
  What the album manager's operations achieve: the invariant of reachable states, deleting, copying,
  the limits, the clearing of the work memory; and what the callbacks of the directory walk make of a
  sequence of entries, which \<open>StorageTree\<close> applies to the entries of a storage.
\<close>

section \<open>Helpers\<close>

lemma scrubbed_Inr:
  "scrubbed f (m, w) = Inr (rc, a, (m', w')) \<longleftrightarrow>
     (\<exists>m1. f (scrub m, w) = Inr (rc, a, (m1, w')) \<and> m' = scrub m1)"
  by (auto simp: scrubbed_def ON_SCOPE_EXIT_def then_run_eq_Inr)

lemma set_work_memory_scrub: "set (work_memory (scrub m)) \<subseteq> {0}"
  by (auto simp: scrub_def)

lemma scrub_fields [simp]:
  "with_status sid (scrub m) = with_status sid m" "man_cache (scrub m) = man_cache m"
  "read_reserve (scrub m) = read_reserve m" "write_reserve (scrub m) = write_reserve m"
  "length (work_memory (scrub m)) = length (work_memory m)"
  by (simp_all add: scrub_def with_status_def)

lemma selected_scrub [simp]: "selected (scrub m) flags = selected m flags"
  by (simp add: selected_def fun_eq_iff)

lemma with_status_memory [simp]: "with_status sid (m\<lparr>work_memory := v\<rparr>) = with_status sid m"
  by (simp add: with_status_def)

lemma some_bool: "\<exists>b. b" "\<exists>b. \<not> b"
  by (rule exI [of _ True], simp) (rule exI [of _ False], simp)

lemma feed_returns: "(\<And>e s. \<exists>r. cb e s = Inr r) \<Longrightarrow> \<exists>r. feed cb es s = Inr r"
proof (induction es arbitrary: s)
  case (Cons e es)
  obtain stop s1 where "cb e s = Inr (stop, s1)" using Cons.prems by (metis surj_pair)
  moreover obtain r where "feed cb es s1 = Inr r" using Cons by blast
  ultimately show ?case by (simp add: some_bool)
qed (simp add: some_bool)

lemma feed_count:
  "feed (count_selected m flags) es n = Inr (False, n + of_nat (length (filter (selected m flags) es)))"
  by (induction es arbitrary: n) (auto simp: count_selected_def)

lemma feed_count_file:
  assumes "length cache = 4" and "\<forall>e\<in>set es. listed_entry sid e" and "ContentTypeValid t"
    and "feed count_file es cache = Inr (stop, cache')"
  shows "length cache' = 4 \<and> cache_count (cache' ! unat t) = cache_count (cache ! unat t) +
    of_nat (length (filter (\<lambda>e :: AlbumEntry. content_type (fileId e) = t) es))"
  using assms
proof (induction es arbitrary: cache)
  case Nil
  then show ?case by simp
next
  case (Cons e es)
  let ?i = "unat (content_type (fileId e))"
  let ?c = "cache[?i := (cache ! ?i)\<lparr>cache_count := cache_count (cache ! ?i) + 1\<rparr>]"
  have e: "ContentTypeValid (content_type (fileId e))" using Cons.prems(2) by (simp add: listed_entry_def)
  then have i: "?i < 4" by (simp add: ContentTypeValid_unat)
  have "count_file e cache = Inr (False, ?c)" using e by (simp add: count_file_def Let_def)
  with Cons.prems(4) have "feed count_file es ?c = Inr (stop, cache')" by simp
  moreover have "cache_count (?c ! unat t) = cache_count (cache ! unat t) +
      (if content_type (fileId e) = t then 1 else 0)"
    using i Cons.prems(1) by (auto simp: nth_list_update word_unat_eq_iff)
  ultimately show ?case
    using Cons.IH [of ?c] Cons.prems by simp
qed

text \<open>What listing leaves in the client's buffer: the first selected entries, as many as fit.\<close>

lemma list_step:
  assumes "n < mx" and "length entries = mx"
  shows "list_selected m flags mx e (entries, n) =
    Inr (if selected m flags e then (mx = n + 1, (entries[n := e], n + 1))
         else (False, (entries, n)))"
  using assms by (auto simp: list_selected_def)

lemma feed_list:
  assumes "n < mx" and "length entries = mx" and "feed (list_selected m flags mx) es (entries, n) =
    Inr (stop, (entries', n'))"
  shows "let found = take (mx - n) (filter (selected m flags) es) in
    n' = n + length found \<and> n' \<le> mx \<and> entries' = poke n found entries"
  using assms
proof (induction es arbitrary: entries n)
  case Nil
  then show ?case by (simp add: poke_def)
next
  case (Cons e es)
  show ?case
  proof (cases "selected m flags e")
    case False
    with Cons.prems have "feed (list_selected m flags mx) es (entries, n) = Inr (stop, (entries', n'))"
      by (simp add: list_step)
    with Cons.IH [OF Cons.prems(1,2)] False show ?thesis by (simp add: Let_def)
  next
    case True
    show ?thesis
    proof (cases "mx = n + 1")
      case stop: True
      with Cons.prems True have "entries' = entries[n := e]" "n' = n + 1" by (simp_all add: list_step)
      with stop True Cons.prems(1,2) show ?thesis
        by (simp add: Let_def poke_def upd_conv_take_nth_drop)
    next
      case go: False
      with Cons.prems True have
        f: "feed (list_selected m flags mx) es (entries[n := e], n + 1) = Inr (stop, (entries', n'))"
        by (simp add: list_step)
      have "n + 1 < mx" using go Cons.prems(1) by simp
      from Cons.IH [OF this _ f] Cons.prems(2) have
        "n' = n + 1 + length (take (mx - (n + 1)) (filter (selected m flags) es)) \<and> n' \<le> mx \<and>
         entries' = poke (n + 1) (take (mx - (n + 1)) (filter (selected m flags) es)) (entries[n := e])"
        by (simp add: Let_def)
      moreover have "take (mx - n) (e # filter (selected m flags) es) =
          e # take (mx - (n + 1)) (filter (selected m flags) es)"
        using \<open>n + 1 < mx\<close> by (simp add: take_Cons' Suc_diff_Suc [symmetric])
      moreover have "poke (n + 1) xs (entries[n := e]) = poke n (e # xs) entries" for xs
        using Cons.prems(1,2) by (simp add: poke_def take_Suc_conv_app_nth)
      ultimately show ?thesis using True by (simp add: Let_def)
    qed
  qed
qed

lemma feed_list_returns:
  "n < mx \<Longrightarrow> length entries = mx \<Longrightarrow> \<exists>r. feed (list_selected m flags mx) es (entries, n) = Inr r"
proof (induction es arbitrary: entries n)
  case (Cons e es)
  then show ?case
    using Cons.IH [of n entries] Cons.IH [of "n + 1" "entries[n := e]"] by (simp add: list_step some_bool)
qed (simp add: some_bool)

section \<open>The copy loop\<close>

lemma take_length_take: "take (length (take n xs)) xs = take n xs"
  by (cases "n \<le> length xs") simp_all

lemma take_poke_0: "length xs \<le> length buf \<Longrightarrow> take (length xs) (poke 0 xs buf) = xs"
  by (simp add: poke_def)

text \<open>
  What is documented of the two open files: the source yields its bytes from an offset, as many as
  asked for and there are, and writing inside the destination replaces its bytes. \<open>content\<close> is
  the destination's content in a world.
\<close>

definition copy_files ::
  "'w platform \<Rightarrow> handle \<Rightarrow> handle \<Rightarrow> u8 list \<Rightarrow> nat \<Rightarrow> ('w \<Rightarrow> u8 list) \<Rightarrow> ('w \<Rightarrow> bool) \<Rightarrow> bool" where
  "copy_files p src dst data n content good \<longleftrightarrow>
     (\<forall>w off. good w \<longrightarrow> fs_ReadFile p src (int off) n w = (0, take n (drop off data), w)) \<and>
     (\<forall>w off bs. good w \<longrightarrow> off + length bs \<le> length (content w) \<longrightarrow>
        (\<exists>w'. fs_WriteFile p dst (int off) bs w = (0, w') \<and> good w' \<and>
              content w' = poke off bs (content w)))"

lemma copy_loop_correct:
  "copy_files p src dst data (length mem) content good \<Longrightarrow> good w \<Longrightarrow> 0 < length mem \<Longrightarrow>
   off \<le> length data \<Longrightarrow> length (content w) = length data \<Longrightarrow> take off (content w) = take off data \<Longrightarrow>
   length data - off < fuel \<Longrightarrow>
   \<exists>mem' w'. copy_loop fuel p src dst (int off) (int (length data)) (mem, w) = Inr (0, (), (mem', w')) \<and>
     content w' = data \<and> good w' \<and> length mem' = length mem"
proof (induction fuel arbitrary: off mem w)
  case (Suc fuel)
  show ?case
  proof (cases "off < length data")
    case False
    with Suc.prems show ?thesis by simp
  next
    case True
    let ?bs = "take (length mem) (drop off data)"
    have r: "fs_ReadFile p src (int off) (length mem) w = (0, ?bs, w)"
      using Suc.prems(1,2) by (simp add: copy_files_def)
    let ?mem = "poke 0 ?bs mem"
    have l: "length ?bs \<le> length mem" "length ?mem = length mem" by simp_all
    have l': "take (length ?bs) ?mem = ?bs" by (rule take_poke_0 [OF l(1)])
    have fits: "off + length ?bs \<le> length (content w)" using True Suc.prems(5) by simp
    then obtain w' where w': "fs_WriteFile p dst (int off) ?bs w = (0, w')" "good w'"
      "content w' = poke off ?bs (content w)"
      using Suc.prems(1,2) unfolding copy_files_def by blast
    have pos: "0 < length ?bs" using True Suc.prems(3) by simp
    have t: "take (off + length ?bs) (content w') = take (off + length ?bs) data"
    proof -
      have "take (off + length ?bs) (content w') = take off data @ ?bs"
        unfolding w'(3) take_poke [OF fits] Suc.prems(6) ..
      also have "\<dots> = take (off + length ?bs) data"
        by (simp only: take_add take_length_take [of "length mem" "drop off data"])
      finally show ?thesis .
    qed
    have "\<exists>mem' v. copy_loop fuel p src dst (int (off + length ?bs)) (int (length data)) (?mem, w') =
        Inr (0, (), (mem', v)) \<and> content v = data \<and> good v \<and> length mem' = length ?mem"
    proof (rule Suc.IH)
      show "copy_files p src dst data (length ?mem) content good" using Suc.prems(1) l(2) by simp
      show "length (content w') = length data" using w'(3) fits Suc.prems(5) by simp
      show "length data - (off + length ?bs) < fuel" using Suc.prems(7) True pos by linarith
    qed (use w' t l Suc.prems(3) True in simp_all)
    then show ?thesis
      using True r w'(1) l l' by (simp only: copy_loop.simps Let_def) simp
  qed
qed simp

section \<open>Properties\<close>

text \<open>C3: whatever sequence of requests the manager serves after its initialisation, each storage is
  marked mounted exactly when its last result is success, otherwise that result is
  \<open>ResultAlbumIsNotMounted\<close> or \<open>ResultAlbumPathNotFound\<close>, and the counter table keeps its
  shape.\<close>

theorem manager_invariant:
  "man_ok m \<Longrightarrow> Manager_Initialize x (m, w) = Inr s \<Longrightarrow> (man_step x)\<^sup>*\<^sup>* s t \<Longrightarrow>
   (ms_state (with_status sid (fst t)) = mounted \<longleftrightarrow> ms_last_error (with_status sid (fst t)) = 0) \<and>
   ms_last_error (with_status sid (fst t)) \<in> {0, ResultAlbumIsNotMounted, ResultAlbumPathNotFound} \<and>
   wf_cache (man_cache (fst t)) \<and> streams_unused (movie_controller (fst t))"
proof -
  assume "man_ok m" "Manager_Initialize x (m, w) = Inr s" "(man_step x)\<^sup>*\<^sup>* s t"
  then have ok: "man_ok (fst t)" using manager.reachable_inv [of s x t] by blast
  then have "status_ok (with_status sid (fst t))" by simp
  with ok show ?thesis by (simp add: status_ok_def man_ok_def)
qed

lemma sample_boot:
  "Manager_Initialize (sample_site 0x40000) (AlbumManager_ctor, 0) = Inr (AlbumManager_ctor, 0)"
proof -
  have "MovieController_Initialize zero_MovieController = zero_MovieController"
    by (simp add: MovieController_Initialize_def zero_MovieController_def poke_def)
  then show ?thesis
    by (simp add: Manager_Initialize_def sample_site_def sample_platform_def hosversionAtLeast_def
        make_hos_version_def AlbumManager_ctor_def empty_reserve_def AlbumReserve_ctor_def)
qed

lemma sample_unmount:
  "UnmountImageDirectory (sample_site 0x40000) Sd (AlbumManager_ctor, 0) =
   Inr (0, (), (set_status Sd \<lparr>ms_state = available, ms_last_error = ResultAlbumIsNotMounted\<rparr>
     AlbumManager_ctor, 0))"
  by (simp add: UnmountImageDirectory_def unmount_to_def R_FAILED_iff StorageValid_def with_status_def
      AlbumManager_ctor_def MountStatus_ctor_def)

lemma sample_reach:
  "(man_step (sample_site 0x40000))\<^sup>*\<^sup>* (AlbumManager_ctor, 0)
     (set_status Sd \<lparr>ms_state = available, ms_last_error = ResultAlbumIsNotMounted\<rparr>
       AlbumManager_ctor, 0)"
  by (rule r_into_rtranclp, rule man_step.unmount, rule sample_unmount)

theorem manager_invariant_witness:
  "ms_last_error (with_status Sd (set_status Sd \<lparr>ms_state = available,
     ms_last_error = ResultAlbumIsNotMounted\<rparr> AlbumManager_ctor)) \<noteq> 0"
  using manager_invariant [OF man_ok_ctor sample_boot sample_reach, of Sd] by simp

definition mounted_manager :: "StorageId \<Rightarrow> AlbumManager" where
  "mounted_manager sid =
     set_status sid \<lparr>ms_state = mounted, ms_last_error = 0\<rparr> AlbumManager_ctor\<lparr>work_memory := [1, 2, 3]\<rparr>"

lemma mounted_manager_ok [simp]:
  "man_ok (mounted_manager sid)" "ms_state (with_status sid (mounted_manager sid)) = mounted"
  by (simp_all add: mounted_manager_def status_ok_def)

text \<open>With room for no entry the callback still stores a selected file: past the buffer.\<close>

lemma list_selected_overflow:
  "selected m flags e \<Longrightarrow> list_selected m flags 0 e ([], 0) = Inl OutOfBounds"
  by (simp add: list_selected_def)

text \<open>C18: deleting a file of a mounted storage always succeeds once the identifier is accepted and not
  in use, and takes one off the counter of its storage and type, whatever the file system answers
  and even when the counter is zero.\<close>

theorem delete_file_spec:
  "man_ok m \<Longrightarrow> block_cipher (aes128_encrypt (lib x)) (aes128_decrypt (lib x)) \<Longrightarrow>
   \<not> IsReserved f (read_reserve m) \<Longrightarrow> \<not> IsReserved f (write_reserve m) \<Longrightarrow>
   Verify (sett x) f = ResultSuccess \<Longrightarrow> ms_state (with_status (storage_id f) m) = mounted \<Longrightarrow>
   \<exists>m' w'. Manager_DeleteFile x f (m, w) = Inr (ResultSuccess, (), (m', w')) \<and>
     Cache_GetCount (storage_id f) (content_type f) (man_cache m') =
       Cache_GetCount (storage_id f) (content_type f) (man_cache m) - 1"
proof -
  assume A: "man_ok m" "block_cipher (aes128_encrypt (lib x)) (aes128_decrypt (lib x))"
    "\<not> IsReserved f (read_reserve m)" "\<not> IsReserved f (write_reserve m)"
    "Verify (sett x) f = 0" "ms_state (with_status (storage_id f) m) = mounted"
  have v: "StorageValid (storage_id f)" "ContentTypeValid (content_type f)"
    using A(5) by (auto simp: Verify_ok_iff dest: IsTypeSupported_valid)
  have wf: "wf_cache (man_cache m)" using A(1) by (simp add: man_ok_def)
  have l: "length (path_buffer AlbumPath_ctor) = 0x70" by (simp add: AlbumPath_ctor_def)
  obtain b where "MakeAlbumPath (lib x) (lib_keys x) (sett x) f 2 AlbumPath_ctor =
      Inr (0, \<lparr>path_buffer = b, path_unk = 2\<rparr>)"
    using MakeAlbumPath_text [OF A(2) l, of "lib_keys x" "sett x" f 2] A(5) by auto
  then have "file_path x f 2 (m, w) = Inr (0, c_str b, (m, w))" by (simp add: file_path_def)
  moreover have "check_file x f (m, w) = Inr (0, (), (m, w))" using A(4,5) by (simp add: check_file_def)
  ultimately have "Manager_DeleteFile x f (m, w) = Inr (0, (), (m\<lparr>man_cache :=
      Cache_Decrement (storage_id f) (content_type f) (man_cache m)\<rparr>,
      snd (fs_DeleteFile (plat x) (c_str b) w)))"
    using A(1,3,6) v(1) by (simp add: Manager_DeleteFile_def case_prod_beta)
  then show ?thesis using GetCount_Decrement [OF wf v] by simp
qed

lemma sample_entry_verifies: "Verify (sett (sample_site 0x40000)) (fileId sample_entry) = 0"
  by (simp add: Verify_ok_iff sample_entry_def date_ok_def StorageValid_def IsTypeSupported_def
      Initialize_settings_def hosversionBefore_def make_hos_version_def sample_platform_def
      sample_site_def read_switch_def Let_def)

lemma mounted_manager_fields [simp]:
  "read_reserve (mounted_manager sid) = empty_reserve"
  "write_reserve (mounted_manager sid) = empty_reserve"
  "man_cache (mounted_manager sid) = empty_cache"
  by (simp_all add: mounted_manager_def AlbumManager_ctor_def)

lemma empty_reserve_IsReserved [simp]: "\<not> IsReserved f empty_reserve"
  by (simp add: empty_reserve_def)

theorem delete_file_spec_witness:
  "\<exists>m' w'. Manager_DeleteFile (sample_site 0x40000) (fileId sample_entry) (mounted_manager Sd, 0) =
       Inr (0, (), (m', w')) \<and>
     Cache_GetCount Sd Screenshot (man_cache m') = - 1"
proof -
  have s: "storage_id (fileId sample_entry) = Sd" "content_type (fileId sample_entry) = Screenshot"
    "Cache_GetCount Sd Screenshot empty_cache = 0"
    by (simp_all add: sample_entry_def Cache_GetCount_def empty_cache_def StorageValid_def
        ContentTypeValid_def)
  have "block_cipher (aes128_encrypt (lib (sample_site 0x40000)))
      (aes128_decrypt (lib (sample_site 0x40000)))"
    by (simp add: sample_site_def sample_cipher)
  from delete_file_spec [OF mounted_manager_ok(1) [of Sd] this _ _ sample_entry_verifies, of 0] s
  show ?thesis by simp
qed

text \<open>C16: the copy loop copies: from a source of known content into a destination of the same size it
  returns success, with fuel for at least one step per byte, and leaves the destination with
  exactly the source's bytes.\<close>

theorem copy_loop_copies:
  "copy_files p src dst data (length mem) content good \<Longrightarrow> good w \<Longrightarrow> 0 < length mem \<Longrightarrow>
   length (content w) = length data \<Longrightarrow> length data < fuel \<Longrightarrow>
   \<exists>mem' w'. copy_loop fuel p src dst 0 (int (length data)) (mem, w) =
       Inr (ResultSuccess, (), (mem', w')) \<and> content w' = data"
  using copy_loop_correct [of p src dst data mem content good w 0 fuel] by auto

text \<open>A world of one destination file, and a source of five bytes.\<close>

definition file_platform :: "u8 list platform" where
  "file_platform = \<lparr>hos_version = 0, fwdbg_IsQuest = False, fwdbg_IsDebugModeEnabled = False,
     fwdbg_GetSettingsItemValue = (\<lambda>_ _ _. (0, [])), setsysGetPrimaryAlbumStorage = (\<lambda>w. (0, 0, w)),
     timeGetCurrentTime = (\<lambda>w. (0, 0, w)), timeToCalendarTimeWithMyRule = (\<lambda>_ w. (0, [], w)),
     GenerateRandomBytes = (\<lambda>n w. ([], w)), fs_MountImageDirectory = (\<lambda>_ _ w. (0, w)),
     fs_CreateSystemSaveData = (\<lambda>w. (0, w)), fs_MountSystemSaveData = (\<lambda>_ w. (0, w)),
     fs_Unmount = (\<lambda>_ w. w), fs_OpenDirectory = (\<lambda>_ _ w. (0, 1, w)),
     fs_ReadDirectory = (\<lambda>_ w. (0, None, w)), fs_CloseDirectory = (\<lambda>_ w. w),
     fs_EnsureParentDirectory = (\<lambda>_ w. (0, w)), fs_CreateFile = (\<lambda>_ n w. (0, replicate (nat n) 0)),
     fs_OpenFile = (\<lambda>_ _ w. (0, 1, w)), fs_CloseFile = (\<lambda>_ w. w), fs_DeleteFile = (\<lambda>_ w. (0, [])),
     fs_GetFileSize = (\<lambda>_ w. (0, 5, w)), fs_SetFileSize = (\<lambda>_ n w. (0, take (nat n) w)),
     fs_ReadFile = (\<lambda>_ off n w. (0, take n (drop (nat off) [10, 20, 30, 40, 50]), w)),
     fs_WriteFile = (\<lambda>_ off bs w. (0, poke (nat off) bs w)), fs_FlushFile = (\<lambda>_ w. (0, w))\<rparr>"

theorem copy_loop_copies_witness:
  "\<exists>mem' w'. copy_loop 6 file_platform 1 2 0 5 ([0, 0], [0, 0, 0, 0, 0]) = Inr (0, (), (mem', w')) \<and>
     w' = [10, 20, 30, 40, 50]"
proof -
  have "copy_files file_platform 1 2 [10, 20, 30, 40, 50] (length [0, 0 :: u8]) (\<lambda>w. w) (\<lambda>_. True)"
    by (simp add: copy_files_def file_platform_def)
  from copy_loop_copies [OF this, of "[0, 0, 0, 0, 0]" 6] show ?thesis by simp
qed

text \<open>C40: a source that ends before its reported size makes the copy hang: when reading yields no bytes
  and writing none succeeds without changing the world, no fuel is enough.\<close>

theorem copy_loop_hangs:
  "off < size' \<Longrightarrow> fs_ReadFile p src off (length mem) w = (0, [], w) \<Longrightarrow>
   fs_WriteFile p dst off [] w = (0, w) \<Longrightarrow>
   copy_loop fuel p src dst off size' (mem, w) = Inl OutOfFuel"
  by (induction fuel) (simp_all add: poke_def)

theorem copy_loop_hangs_witness:
  "copy_loop 1000 file_platform 1 2 5 6 ([0, 0], [1, 2, 3, 4, 5]) = Inl OutOfFuel"
  by (rule copy_loop_hangs) (simp_all add: file_platform_def poke_def)

text \<open>Room is granted exactly while the counter of a known storage and a supported type is below
  the limit of the settings; the number of files asked for plays no part.\<close>

theorem can_save_spec:
  "CanSave x sid t n m = ResultSuccess \<longleftrightarrow>
     StorageValid sid \<and> IsTypeSupported (sett x) t \<and>
     Cache_GetCount sid t (man_cache m) < GetFileMaxCount (sett x) sid t"
  by (auto simp: CanSave_def R_FAILED_iff result_values)

text \<open>No content of a file survives in the work memory: after copying, counting, listing or
  refreshing, whatever the result, every byte of it is zero.\<close>

theorem work_memory_cleared:
  "CopyFile x f dst (m, w) = Inr (rc, u, (m', w')) \<or> CountEntries x out sid flags (m, w) = Inr (rc, k, (m', w')) \<or>
   ListEntries x mx sid flags (m, w) = Inr (rc, es, (m', w')) \<or> RefreshCache x sid (m, w) = Inr (rc, u, (m', w')) \<Longrightarrow>
   set (work_memory m') \<subseteq> {0}"
  by (auto simp: CopyFile_def CountEntries_def ListEntries_def RefreshCache_def scrubbed_Inr
      dest!: set_work_memory_scrub [THEN subsetD])

theorem work_memory_cleared_witness:
  "set (work_memory (scrub (mounted_manager Sd))) \<subseteq> {0}"
proof -
  have "CopyFile (sample_site 0x40000) zero_AlbumFileId Sd (mounted_manager Sd, 0) =
      Inr (ResultAlbumInvalidFileId, (), (scrub (mounted_manager Sd), 0))"
    by (simp add: CopyFile_def scrubbed_Inr check_file_def Verify_def zero_AlbumFileId_def
        R_TRY_Inr result_values) (simp add: scrub_def)
  then show ?thesis by (rule work_memory_cleared [OF disjI1])
qed

end
