(* ===== verification/StorageTree.thy ===== *)
theory StorageTree
  imports ManagerFacts
begin

text \<open>
  What the directory walk of the album manager finds, told of the storage itself: its folders and files
  as a tree, with the file system's documented way to list one directory after the other. From the
  tree follows the list of album entries that a listing, a count and a refresh of the cache are about.
\<close>

section \<open>A storage as a tree\<close>

text \<open>
  The listing of the directory at a path, of its folders (\<open>True\<close>) or of its files, or \<open>None\<close> when it
  cannot be opened. Every listed folder can be opened; names fit and have no NUL; a directory has at
  most \<open>n\<close> entries.
\<close>

type_synonym tree = "string \<Rightarrow> bool \<Rightarrow> dir_entry list option"

definition name_ok :: "dir_entry \<Rightarrow> bool" where
  "name_ok e \<longleftrightarrow> length (entry_name e) \<le> 250 \<and> NUL \<notin> set (entry_name e)"

definition tree_ok :: "nat \<Rightarrow> tree \<Rightarrow> bool" where
  "tree_ok n tree \<longleftrightarrow> (\<forall>path dirs es. tree path dirs = Some es \<longrightarrow> length es \<le> n \<and>
     (\<forall>e\<in>set es. name_ok e \<and>
        (dirs \<longrightarrow> (\<forall>d. tree (path @ entry_name e @ ''/'') d \<noteq> None))))"

text \<open>
  What is documented of directories, in the worlds where the storage intact the tree (\<open>intact\<close>): opening
  a directory of the tree yields a handle that was not in use, reading yields its entries in order and
  then none, closing ends the use; the listings of other handles in use are not touched. \<open>rest\<close> is
  what is still to come for a handle.
\<close>

definition same_listings ::
  "(handle \<Rightarrow> 'w \<Rightarrow> dir_entry list) \<Rightarrow> ('w \<Rightarrow> handle set) \<Rightarrow> ('w \<Rightarrow> bool) \<Rightarrow> handle set \<Rightarrow> 'w \<Rightarrow> 'w \<Rightarrow> bool" where
  "same_listings rest used intact hs w w' \<longleftrightarrow>
     intact w' \<and> hs \<subseteq> used w' \<and> (\<forall>h\<in>hs. rest h w' = rest h w)"

definition lists_tree ::
  "'w platform \<Rightarrow> tree \<Rightarrow> (handle \<Rightarrow> 'w \<Rightarrow> dir_entry list) \<Rightarrow> ('w \<Rightarrow> handle set) \<Rightarrow> ('w \<Rightarrow> bool) \<Rightarrow> bool" where
  "lists_tree p tree rest used intact \<longleftrightarrow> (\<forall>w. intact w \<longrightarrow>
     (\<forall>path dirs. case tree path dirs of
        None \<Rightarrow> R_FAILED (fst (fs_OpenDirectory p path dirs w))
      | Some es \<Rightarrow> \<exists>h w'. fs_OpenDirectory p path dirs w = (ResultSuccess, h, w') \<and> h \<notin> used w \<and>
          h \<in> used w' \<and> rest h w' = es \<and> same_listings rest used intact (used w) w w') \<and>
     (\<forall>h\<in>used w. \<exists>w'. h \<in> used w' \<and> rest h w' = tl (rest h w) \<and>
        fs_ReadDirectory p h w =
          (ResultSuccess, (case rest h w of [] \<Rightarrow> None | e # es \<Rightarrow> Some e), w') \<and>
        same_listings rest used intact (used w - {h}) w w') \<and>
     (\<forall>h. same_listings rest used intact (used w - {h}) w (fs_CloseDirectory p h w)))"

section \<open>The entries of a storage\<close>

text \<open>
  A file belongs to the album when its name is a file identifier; a year, month or day folder is
  entered unless its number is out of range. The walk starts at the mount point, to which the code
  appends another \<open>:/\<close>.
\<close>

definition stored_file ::
  "'w crypto_lib \<Rightarrow> crypto_keys \<Rightarrow> u8 list \<Rightarrow> StorageId \<Rightarrow> dir_entry \<Rightarrow> AlbumEntry list" where
  "stored_file c k junk sid e =
     (case FromString c k junk sid (entry_name e) zero_AlbumFileId of
        Inr (rc, f) \<Rightarrow> if R_FAILED rc then []
          else [\<lparr>entry_size = word_of_int (entry_file_size e), fileId = f\<rparr>]
      | Inl _ \<Rightarrow> [])"

definition listing :: "tree \<Rightarrow> string \<Rightarrow> bool \<Rightarrow> dir_entry list" where
  "listing tree path dirs = (case tree path dirs of None \<Rightarrow> [] | Some es \<Rightarrow> es)"

definition folder_entries ::
  "tree \<Rightarrow> (int \<Rightarrow> bool) \<Rightarrow> bool \<Rightarrow> (string \<Rightarrow> dir_entry \<Rightarrow> AlbumEntry list) \<Rightarrow> string \<Rightarrow> dir_entry \<Rightarrow>
     AlbumEntry list" where
  "folder_entries tree skip dirs inside path e =
     (if skip (atoi (entry_name e)) then []
      else concat (map (inside (path @ entry_name e @ ''/'')) (listing tree (path @ entry_name e @ ''/'') dirs)))"

definition walk_root :: "StorageId \<Rightarrow> string" where
  "walk_root sid = MountPoints ! unat sid @ '':/''"

definition stored_entries ::
  "'w crypto_lib \<Rightarrow> crypto_keys \<Rightarrow> u8 list \<Rightarrow> StorageId \<Rightarrow> tree \<Rightarrow> AlbumEntry list" where
  "stored_entries c k junk sid tree =
     concat (map
       (folder_entries tree skip_year True (folder_entries tree skip_month True
          (folder_entries tree skip_day False (\<lambda>_. stored_file c k junk sid))) (walk_root sid))
       (listing tree (walk_root sid) True))"

lemma stored_listed: "e \<in> set (stored_entries c k junk sid tree) \<Longrightarrow> listed_entry sid e"
proof -
  have "listed_entry sid a" if a: "a \<in> set (stored_file c k junk sid d)" for a d
  proof -
    obtain rc f where F: "FromString c k junk sid (entry_name d) zero_AlbumFileId = Inr (rc, f)"
      using FromString_total by blast
    with a have "rc = 0" "a = \<lparr>entry_size = word_of_int (entry_file_size d), fileId = f\<rparr>"
      by (auto simp: stored_file_def R_FAILED_iff split: if_splits)
    with F show ?thesis
      using FromString_sound [of c k junk sid "entry_name d" zero_AlbumFileId f]
      by (simp add: listed_entry_def wf_entry_def wf_file_id_def zero_AlbumFileId_def)
  qed
  then show "e \<in> set (stored_entries c k junk sid tree) \<Longrightarrow> listed_entry sid e"
    by (auto simp: stored_entries_def folder_entries_def split: if_splits)
qed

section \<open>The walk feeds these entries\<close>

lemma same_listings_trans:
  "same_listings rest used intact hs u v \<Longrightarrow> same_listings rest used intact hs v w \<Longrightarrow>
   same_listings rest used intact hs u w"
  by (simp add: same_listings_def)

lemma same_listings_mono:
  "same_listings rest used intact hs u v \<Longrightarrow> hs' \<subseteq> hs \<Longrightarrow> same_listings rest used intact hs' u v"
  by (auto simp: same_listings_def)

text \<open>
  What became of a walk that had \<open>stop\<close> and \<open>s\<close> to reach: it goes on with the callback's state \<open>s\<close>, and
  \<open>I\<close> intact, or it was stopped in the state \<open>s\<close>.
\<close>

definition reaches :: "('s walk \<Rightarrow> bool) \<Rightarrow> bool \<Rightarrow> 's \<Rightarrow> 's walk flow \<Rightarrow> bool" where
  "reaches I stop s fl \<longleftrightarrow>
     (case fl of Next st \<Rightarrow> \<not> stop \<and> I st \<and> snd st = s
      | Return rc st \<Rightarrow> stop \<and> rc = ResultSuccess \<and> snd st = s)"

text \<open>A body that feeds the entries \<open>ents e\<close> of a directory entry \<open>e\<close> to the callback.\<close>

definition tracks ::
  "(handle \<Rightarrow> 'w \<Rightarrow> dir_entry list) \<Rightarrow> ('w \<Rightarrow> handle set) \<Rightarrow> ('w \<Rightarrow> bool) \<Rightarrow> 's callback \<Rightarrow>
   ('s walk \<Rightarrow> bool) \<Rightarrow> (dir_entry \<Rightarrow> bool) \<Rightarrow> (dir_entry \<Rightarrow> AlbumEntry list) \<Rightarrow>
   (dir_entry \<Rightarrow> 's walk \<Rightarrow> 'w \<Rightarrow> ('s walk flow \<times> 'w) run) \<Rightarrow> bool" where
  "tracks rest used intact cb I P ents body \<longleftrightarrow> (\<forall>e st w stop s. P e \<longrightarrow> I st \<longrightarrow> intact w \<longrightarrow>
     feed cb (ents e) (snd st) = Inr (stop, s) \<longrightarrow>
     (\<exists>fl w'. body e st w = Inr (fl, w') \<and> same_listings rest used intact (used w) w w' \<and> reaches I stop s fl))"

lemma lists_treeD:
  assumes "lists_tree p tree rest used intact" and "intact w"
  shows "case tree path dirs of None \<Rightarrow> R_FAILED (fst (fs_OpenDirectory p path dirs w))
      | Some es \<Rightarrow> \<exists>h w'. fs_OpenDirectory p path dirs w = (ResultSuccess, h, w') \<and> h \<notin> used w \<and>
          h \<in> used w' \<and> rest h w' = es \<and> same_listings rest used intact (used w) w w'"
    and "h \<in> used w \<Longrightarrow> \<exists>w'. h \<in> used w' \<and> rest h w' = tl (rest h w) \<and>
        fs_ReadDirectory p h w =
          (ResultSuccess, (case rest h w of [] \<Rightarrow> None | e # es \<Rightarrow> Some e), w') \<and>
        same_listings rest used intact (used w - {h}) w w'"
    and "same_listings rest used intact (used w - {h}) w (fs_CloseDirectory p h w)"
  using assms unfolding lists_tree_def by blast+

lemma read_loop_tracks:
  assumes L: "lists_tree p tree rest used intact" and T: "tracks rest used intact cb I P ents body"
  shows "I st \<Longrightarrow> intact w \<Longrightarrow> h \<in> used w \<Longrightarrow> rest h w = es \<Longrightarrow> \<forall>e\<in>set es. P e \<Longrightarrow> length es < fuel \<Longrightarrow>
    feed cb (concat (map ents es)) (snd st) = Inr (stop, s) \<Longrightarrow>
    \<exists>fl w'. read_loop fuel p h body st w = Inr (fl, w') \<and>
      same_listings rest used intact (used w - {h}) w w' \<and> reaches I stop s fl"
proof (induction fuel arbitrary: st w es)
  case (Suc fuel)
  obtain w1 where r: "fs_ReadDirectory p h w =
      (ResultSuccess, (case es of [] \<Rightarrow> None | e # es \<Rightarrow> Some e), w1)"
    and h1: "h \<in> used w1" "rest h w1 = tl es" and s1: "same_listings rest used intact (used w - {h}) w w1"
    using lists_treeD(2) [OF L Suc.prems(2,3)] unfolding Suc.prems(4) by blast
  show ?case
  proof (cases es)
    case Nil
    with r s1 Suc.prems(1,7) show ?thesis by (auto simp: reaches_def)
  next
    case (Cons e es')
    obtain stop1 s2 where f1: "feed cb (ents e) (snd st) = Inr (stop1, s2)"
      and f2: "(if stop1 then Inr (True, s2) else feed cb (concat (map ents es')) s2) = Inr (stop, s)"
      using Suc.prems(7) unfolding Cons by (auto simp: feed_append then_run_eq_Inr)
    have P: "P e" "\<forall>e\<in>set es'. P e" using Suc.prems(5) Cons by simp_all
    have w1: "intact w1" using s1 by (simp add: same_listings_def)
    obtain fl w2 where b: "body e st w1 = Inr (fl, w2)" and s2: "same_listings rest used intact (used w1) w1 w2"
      and fl: "reaches I stop1 s2 fl"
      using T P(1) Suc.prems(1) w1 f1 unfolding tracks_def by blast
    have s12: "same_listings rest used intact (used w - {h}) w w2"
      using same_listings_trans [OF s1 same_listings_mono [OF s2]] s1 by (auto simp: same_listings_def)
    show ?thesis
    proof (cases fl)
      case (Return rc st')
      with fl f2 have "reaches I stop s fl" by (auto simp: reaches_def)
      with r b Cons Return s12 show ?thesis by simp
    next
      case (Next st')
      with fl f2 have st': "I st'" "feed cb (concat (map ents es')) (snd st') = Inr (stop, s)"
        by (auto simp: reaches_def)
      have h2: "h \<in> used w2" "rest h w2 = es'" "intact w2"
        using s2 h1 Cons by (auto simp: same_listings_def)
      have "length es' < fuel" using Suc.prems(6) Cons by simp
      from Suc.IH [OF st'(1) h2(3,1,2) P(2) this st'(2)] obtain fl' w3 where
        l: "read_loop fuel p h body st' w2 = Inr (fl', w3)"
        and s3: "same_listings rest used intact (used w2 - {h}) w2 w3" and fl': "reaches I stop s fl'"
        by blast
      have "used w - {h} \<subseteq> used w2 - {h}" using s12 by (auto simp: same_listings_def)
      then have "same_listings rest used intact (used w - {h}) w w3"
        by (intro same_listings_trans [OF s12] same_listings_mono [OF s3])
      with r b Cons Next l fl' show ?thesis by simp
    qed
  qed
qed simp

lemma scan_dir_tracks:
  assumes L: "lists_tree p tree rest used intact" and T: "tracks rest used intact cb I P ents body"
    and es: "tree path dirs = Some es" "\<forall>e\<in>set es. P e" "length es < fuel"
    and st: "I st" "intact w" "feed cb (concat (map ents es)) (snd st) = Inr (stop, s)"
  shows "\<exists>fl w'. scan_dir fuel p path dirs body st w = Inr (fl, w') \<and>
    same_listings rest used intact (used w) w w' \<and> reaches I stop s fl"
proof -
  obtain h w1 where o: "fs_OpenDirectory p path dirs w = (ResultSuccess, h, w1)"
    and h: "h \<notin> used w" "h \<in> used w1" "rest h w1 = es" and s1: "same_listings rest used intact (used w) w w1"
    using lists_treeD(1) [OF L st(2), of path dirs] by (auto simp: es(1))
  have w1: "intact w1" using s1 by (simp add: same_listings_def)
  obtain fl w2 where r: "read_loop fuel p h body st w1 = Inr (fl, w2)"
    and s2: "same_listings rest used intact (used w1 - {h}) w1 w2" and fl: "reaches I stop s fl"
    using read_loop_tracks [OF L T st(1) w1 h(2,3) es(2,3) st(3)] by blast
  let ?w3 = "fs_CloseDirectory p h w2"
  have s3: "same_listings rest used intact (used w2 - {h}) w2 ?w3"
    using lists_treeD(3) [OF L] s2 by (simp add: same_listings_def)
  have sub: "used w \<subseteq> used w1 - {h}" "used w \<subseteq> used w2 - {h}"
    using h(1) s1 s2 by (auto simp: same_listings_def)
  have "same_listings rest used intact (used w) w ?w3"
    by (rule same_listings_trans [OF same_listings_trans [OF s1]])
      (rule same_listings_mono [OF s2 sub(1)], rule same_listings_mono [OF s3 sub(2)])
  with o r fl show ?thesis by (simp add: scan_dir_def)
qed

text \<open>The path buffer begins with the path of the folder the walk is in.\<close>

definition path_starts :: "string \<Rightarrow> 's walk \<Rightarrow> bool" where
  "path_starts pre st \<longleftrightarrow> length (fst st) = EntryNameLengthMax + 1 \<and> take (length pre) (fst st) = pre"

lemma path_extended:
  assumes "path_starts pre st" and "NUL \<notin> set pre" and "NUL \<notin> set text"
    and "length pre + length text < EntryNameLengthMax + 1"
  obtains path where "path_put (fst st) (length pre) text = Inr path" "c_str path = pre @ text"
    "path_starts (pre @ text) (path, s)"
proof -
  let ?path = "poke (length pre) (text @ [NUL]) (fst st)"
  have l: "length (fst st) = EntryNameLengthMax + 1" and t: "take (length pre) (fst st) = pre"
    using assms(1) by (simp_all add: path_starts_def)
  have p: "path_put (fst st) (length pre) text = Inr ?path"
    using l assms(4) by (intro path_put_fits) simp_all
  have e: "?path = (pre @ text) @ NUL # drop (length pre + length text + 1) (fst st)"
    using t by (simp add: poke_def)
  have "NUL \<notin> set (pre @ text)" using assms(2,3) by simp
  then have "c_str ?path = pre @ text" unfolding e by (rule c_str_append_NUL)
  moreover have "path_starts (pre @ text) (?path, s)"
    using l assms(4) e by (simp add: path_starts_def)
  ultimately show thesis using p by (rule that [rotated])
qed

lemma reaches_outer:
  assumes "reaches (path_starts (pre @ text)) stop s fl"
  shows "reaches (path_starts pre) stop s fl"
proof -
  have "path_starts pre st" if p: "path_starts (pre @ text) st" for st :: "'a walk"
  proof -
    have "take (length pre) (fst st) = take (length pre) (take (length (pre @ text)) (fst st))"
      by (simp add: min_def)
    also have "\<dots> = pre" using p by (simp add: path_starts_def)
    finally show ?thesis using p by (simp add: path_starts_def)
  qed
  then show ?thesis using assms by (cases fl) (auto simp: reaches_def)
qed

definition opens :: "tree \<Rightarrow> string \<Rightarrow> bool \<Rightarrow> dir_entry \<Rightarrow> bool" where
  "opens tree pre dirs e \<longleftrightarrow> name_ok e \<and> (dirs \<longrightarrow> (\<forall>d. tree (pre @ entry_name e @ ''/'') d \<noteq> None))"

lemma tree_okD:
  "tree_ok n tree \<Longrightarrow> tree path dirs = Some es \<Longrightarrow> length es \<le> n"
  "tree_ok n tree \<Longrightarrow> tree path dirs = Some es \<Longrightarrow> \<forall>e\<in>set es. opens tree path dirs e"
  unfolding tree_ok_def opens_def
  by (drule spec [of _ path], drule spec [of _ dirs], drule spec [of _ es], drule (1) mp, erule conjunct1)
    (drule spec [of _ path], drule spec [of _ dirs], drule spec [of _ es], drule (1) mp, erule conjunct2)

lemma level_tracks:
  assumes L: "lists_tree p tree rest used intact" and ok: "tree_ok n tree" and "n < fuel"
    and pre: "NUL \<notin> set pre" "length pre \<le> 508"
    and inner: "\<And>pre'. NUL \<notin> set pre' \<Longrightarrow> length pre' \<le> length pre + 251 \<Longrightarrow>
      tracks rest used intact cb (path_starts pre') (opens tree pre' dirs) (ents pre') (inner (length pre'))"
  shows "tracks rest used intact cb (path_starts pre) (opens tree pre True)
    (folder_entries tree skip dirs ents pre) (level fuel p skip dirs (length pre) inner)"
  unfolding tracks_def
proof (intro allI impI)
  fix e :: dir_entry and st w stop s
  assume e: "opens tree pre True e" and I: "path_starts pre st" and w: "intact w"
    and f: "feed cb (folder_entries tree skip dirs ents pre e) (snd st) = Inr (stop, s)"
  let ?text = "entry_name e @ ''/''"
  show "\<exists>fl w'. level fuel p skip dirs (length pre) inner e st w = Inr (fl, w') \<and>
      same_listings rest used intact (used w) w w' \<and> reaches (path_starts pre) stop s fl"
  proof (cases "skip (atoi (entry_name e))")
    case True
    with f I w show ?thesis
      by (auto simp: level_def folder_entries_def reaches_def same_listings_def)
  next
    case False
    have name: "NUL \<notin> set ?text" "length ?text \<le> 251" using e by (simp_all add: opens_def name_ok_def)
    obtain es where es: "tree (pre @ ?text) dirs = Some es" using e by (auto simp: opens_def)
    obtain path where path: "path_put (fst st) (length pre) ?text = Inr path" "c_str path = pre @ ?text"
      "path_starts (pre @ ?text) (path, snd st)"
    proof (rule path_extended [OF I pre(1) name(1), where s = "snd st"])
      show "length pre + length ?text < EntryNameLengthMax + 1"
        using name(2) pre(2) by (simp add: EntryNameLengthMax_def)
    qed
    have "NUL \<notin> set (pre @ ?text)" "length (pre @ ?text) \<le> length pre + 251" using name pre(1) by simp_all
    note T = inner [OF this]
    have "feed cb (concat (map (ents (pre @ ?text)) es)) (snd (path, snd st)) = Inr (stop, s)"
      using f False es by (simp add: folder_entries_def listing_def)
    note f' = this
    have few: "length es < fuel" using tree_okD(1) [OF ok es] assms(3) by linarith
    from scan_dir_tracks [OF L T es tree_okD(2) [OF ok es] few path(3) w f'] obtain fl w' where
      sc: "scan_dir fuel p (pre @ ?text) dirs (inner (length (pre @ ?text))) (path, snd st) w = Inr (fl, w')"
      and sl: "same_listings rest used intact (used w) w w'"
      and fl: "reaches (path_starts (pre @ ?text)) stop s fl" by blast
    from sc have "level fuel p skip dirs (length pre) inner e st w = Inr (fl, w')"
      using False path(1,2) by (simp add: level_def)
    with sl reaches_outer [OF fl] show ?thesis by blast
  qed
qed

lemma visit_file_tracks:
  "tracks rest used intact cb (path_starts pre) P (stored_file c k junk sid) (visit_file c k junk sid cb)"
  unfolding tracks_def
proof (intro allI impI)
  fix e st w stop s
  assume I: "path_starts pre st" and w: "intact w"
    and f: "feed cb (stored_file c k junk sid e) (snd st) = Inr (stop, s)"
  obtain rc g where F: "FromString c k junk sid (entry_name e) zero_AlbumFileId = Inr (rc, g)"
    using FromString_total by blast
  show "\<exists>fl w'. visit_file c k junk sid cb e st w = Inr (fl, w') \<and>
      same_listings rest used intact (used w) w w' \<and> reaches (path_starts pre) stop s fl"
  proof (cases "R_FAILED rc")
    case True
    then show ?thesis
      using F f I w by (auto simp: visit_file_def stored_file_def reaches_def same_listings_def)
  next
    case False
    let ?e = "\<lparr>entry_size = word_of_int (entry_file_size e), fileId = g\<rparr>"
    have "cb ?e (snd st) = Inr (stop, s)"
      using f F False by (auto simp: stored_file_def then_run_eq_Inr split: if_splits)
    then have "visit_file c k junk sid cb e st w =
        Inr (if stop then Return ResultSuccess (fst st, s) else Next (fst st, s), w)"
      using F False by (simp add: visit_file_def)
    then show ?thesis
      using I w by (cases stop) (auto simp: reaches_def same_listings_def path_starts_def)
  qed
qed

text \<open>The walk as a whole. A root that cannot be opened ends it at once, with nothing found.\<close>

lemma ProcessImageDirectory_tree:
  assumes L: "lists_tree p tree rest used intact" and ok: "tree_ok n tree" and "n < fuel"
    and sid: "StorageValid sid" and w: "intact w"
    and f: "feed cb (stored_entries c k junk sid tree) s = Inr (stop, s')"
  shows "\<exists>rc w'. ProcessImageDirectory fuel p c k junk sid cb s w = Inr (rc, s', w')"
proof -
  let ?body = "level fuel p skip_year True 6 (\<lambda>off. level fuel p skip_month True off (\<lambda>off.
    level fuel p skip_day False off (\<lambda>off. visit_file c k junk sid cb)))"
  have root: "length (walk_root sid) = 6" "NUL \<notin> set (walk_root sid)" "unat sid < length MountPoints"
    using sid by (auto simp: walk_root_def StorageValid_def MountPoints_def)
  let ?path = "replicate (EntryNameLengthMax + 1) NUL"
  have start: "path_starts [] (?path, s)" by (simp add: path_starts_def)
  obtain path where path: "path_put ?path 0 (walk_root sid) = Inr path" "c_str path = walk_root sid"
    "path_starts (walk_root sid) (path, s)"
  proof (rule path_extended [OF start, of "walk_root sid" s])
    show "length ([] :: string) + length (walk_root sid) < EntryNameLengthMax + 1"
      using root(1) by (simp add: EntryNameLengthMax_def)
  qed (use root(2) in simp_all)
  show ?thesis
  proof (cases "tree (walk_root sid) True")
    case None
    then have "R_FAILED (fst (fs_OpenDirectory p (walk_root sid) True w))"
      using L w unfolding lists_tree_def by (metis (no_types, lifting) option.simps(4))
    then have "\<exists>rc w'. scan_dir fuel p (walk_root sid) True ?body (path, s) w = Inr (Return rc (path, s), w')"
      by (cases "fs_OpenDirectory p (walk_root sid) True w") (simp add: scan_dir_def)
    then show ?thesis
      using path root f None
      by (auto simp: ProcessImageDirectory_def walk_root_def stored_entries_def listing_def)
  next
    case (Some es)
    note lt = level_tracks [OF L ok assms(3)]
    have day: "tracks rest used intact cb (path_starts pre) (opens tree pre True)
        (folder_entries tree skip_day False (\<lambda>_. stored_file c k junk sid) pre)
        (level fuel p skip_day False (length pre) (\<lambda>off. visit_file c k junk sid cb))"
      if "NUL \<notin> set pre" "length pre \<le> 508" for pre
      by (rule lt [OF that]) (rule visit_file_tracks)
    have month: "tracks rest used intact cb (path_starts pre) (opens tree pre True)
        (folder_entries tree skip_month True (folder_entries tree skip_day False (\<lambda>_. stored_file c k junk sid)) pre)
        (level fuel p skip_month True (length pre) (\<lambda>off.
          level fuel p skip_day False off (\<lambda>off. visit_file c k junk sid cb)))"
      if "NUL \<notin> set pre" "length pre \<le> 257" for pre
      by (rule lt) (use that in simp, use that in simp, rule day, assumption, use that in simp)
    have year: "tracks rest used intact cb (path_starts (walk_root sid)) (opens tree (walk_root sid) True)
        (folder_entries tree skip_year True (folder_entries tree skip_month True
          (folder_entries tree skip_day False (\<lambda>_. stored_file c k junk sid))) (walk_root sid)) ?body"
      unfolding root(1) [symmetric] by (rule lt) (use root in simp, use root in simp, rule month, assumption, use root in simp)
    have few: "length es < fuel" using tree_okD(1) [OF ok Some] assms(3) by linarith
    note good = tree_okD(2) [OF ok Some]
    have "feed cb (concat (map (folder_entries tree skip_year True (folder_entries tree skip_month True
        (folder_entries tree skip_day False (\<lambda>_. stored_file c k junk sid))) (walk_root sid)) es))
        (snd (path, s)) = Inr (stop, s')"
      using f by (simp add: stored_entries_def listing_def Some)
    from scan_dir_tracks [OF L year Some good few path(3) w this] obtain fl w' where
      "scan_dir fuel p (walk_root sid) True ?body (path, s) w = Inr (fl, w')"
      "reaches (path_starts (walk_root sid)) stop s' fl" by blast
    then show ?thesis
      using path root
      by (cases fl) (auto simp: ProcessImageDirectory_def walk_root_def reaches_def)
  qed
qed

lemma walk_tree:
  assumes "lists_tree (plat x) tree rest used intact" and "tree_ok n tree" and "n < loop_fuel x"
    and "StorageValid sid" and "intact w"
    and "feed cb (stored_entries (lib x) (lib_keys x) (junk_ident x) sid tree) s = Inr (stop, s')"
  shows "\<exists>w'. walk x sid cb s w = Inr (s', w')"
  using ProcessImageDirectory_tree [OF assms] by (auto simp: walk_def)

section \<open>A sample storage\<close>

text \<open>Handles count the directories opened so far; the world is what is still to come for each.\<close>

definition tree_platform :: "tree \<Rightarrow> dir_entry list list platform" where
  "tree_platform tree = \<lparr>hos_version = 0x40000, fwdbg_IsQuest = False,
     fwdbg_IsDebugModeEnabled = False, fwdbg_GetSettingsItemValue = (\<lambda>_ _ _. (0, [])),
     setsysGetPrimaryAlbumStorage = (\<lambda>w. (0, 0, w)), timeGetCurrentTime = (\<lambda>w. (0, 1592224205, w)),
     timeToCalendarTimeWithMyRule = (\<lambda>_ w. (0, [0xE4, 7, 6, 15, 12, 30, 5, 0], w)),
     GenerateRandomBytes = (\<lambda>n w. (replicate n 0x2A, w)),
     fs_MountImageDirectory = (\<lambda>_ _ w. (0, w)), fs_CreateSystemSaveData = (\<lambda>w. (0, w)),
     fs_MountSystemSaveData = (\<lambda>_ w. (0, w)), fs_Unmount = (\<lambda>_ w. w),
     fs_OpenDirectory = (\<lambda>path dirs w. case tree path dirs of None \<Rightarrow> (2, 0, w)
       | Some es \<Rightarrow> (0, length w, w @ [es])),
     fs_ReadDirectory = (\<lambda>h w. (0, (case w ! h of [] \<Rightarrow> None | e # es \<Rightarrow> Some e), w[h := tl (w ! h)])),
     fs_CloseDirectory = (\<lambda>_ w. w), fs_EnsureParentDirectory = (\<lambda>_ w. (0, w)),
     fs_CreateFile = (\<lambda>_ _ w. (0, w)), fs_OpenFile = (\<lambda>_ _ w. (0, 0, w)),
     fs_CloseFile = (\<lambda>_ w. w), fs_DeleteFile = (\<lambda>_ w. (0, w)),
     fs_GetFileSize = (\<lambda>_ w. (0, 64, w)), fs_SetFileSize = (\<lambda>_ _ w. (0, w)),
     fs_ReadFile = (\<lambda>_ off n w. (0, take n (drop (nat off) sample_file), w)),
     fs_WriteFile = (\<lambda>_ _ _ w. (0, w)), fs_FlushFile = (\<lambda>_ w. (0, w))\<rparr>"

lemma tree_platform_lists:
  "lists_tree (tree_platform tree) tree (\<lambda>h w. w ! h) (\<lambda>w. {..<length w}) (\<lambda>_. True)"
  by (auto simp: lists_tree_def tree_platform_def same_listings_def R_FAILED_iff nth_append
      split: option.split)

definition tree_crypto :: "'w crypto_lib" where
  "tree_crypto = \<lparr>aes128_encrypt = mask_block, aes128_decrypt = mask_block,
     aes256_encrypt = mask_block, aes256_decrypt = mask_block,
     sha256 = (\<lambda>d. replicate 32 (of_nat (length d))), hmac_sha256 = (\<lambda>k d. replicate 32 1),
     splCryptoLockAesEngine = (\<lambda>n. (0, 3, n)), splCryptoUnlockAesEngine = (\<lambda>_ n. n),
     splCryptoLoadAesKey = (\<lambda>_ _ _ n. (0, n)),
     splCryptoComputeCmac = (\<lambda>d _ n. (0, take 16 d, n)),
     splCryptoGenerateAesKek = (\<lambda>d n. (0, d, n)),
     splCryptoGenerateAesKey = (\<lambda>_ d n. (0, d, n))\<rparr>"

text \<open>
  A storage with two screenshots and a text file in the folder of 15 June 2020; its month 13 is
  not entered.
\<close>

definition sample_name :: "u64 \<Rightarrow> string" where
  "sample_name app = date_text (date_time (fileId sample_entry)) @ ''-'' @
     hex32 (EncryptFileExtension (tree_crypto :: unit crypto_lib) initial_keys app False) @ ''.jpg''"

definition sample_folder :: "string \<Rightarrow> dir_entry" where
  "sample_folder name = \<lparr>entry_name = name, entry_file_size = 0\<rparr>"

definition sample_day :: "dir_entry list" where
  "sample_day = [\<lparr>entry_name = sample_name 0x0100000000010000, entry_file_size = 0x1234\<rparr>,
     \<lparr>entry_name = ''readme.txt'', entry_file_size = 7\<rparr>,
     \<lparr>entry_name = sample_name 0x0100000000010001, entry_file_size = 0x4321\<rparr>]"

definition sample_tree :: tree where
  "sample_tree path dirs = Some
     (if dirs then
        if path = ''SD:/:/'' then [sample_folder ''2020'']
        else if path = ''SD:/:/2020/'' then [sample_folder ''13'', sample_folder ''06'']
        else if path = ''SD:/:/2020/06/'' then [sample_folder ''15''] else []
      else if path = ''SD:/:/2020/06/15/'' then sample_day else [])"

definition sample_found :: "AlbumEntry list" where
  "sample_found = [\<lparr>entry_size = 0x1234, fileId = (fileId sample_entry)\<rparr>,
     \<lparr>entry_size = 0x4321, fileId = (fileId sample_entry)\<lparr>application_id := 0x0100000000010001\<rparr>\<rparr>]"

definition tree_site :: "dir_entry list list surroundings" where
  "tree_site = \<lparr>plat = tree_platform sample_tree, lib = tree_crypto, lib_keys = initial_keys,
     sett = booted_settings (sample_platform 0x40000), env = initial_environment,
     junk_ident = replicate 16 0,
     junk_cache = replicate 4 \<lparr>cache_count = 5, cache_unk_x8 = 0\<rparr>, loop_fuel = 70\<rparr>"

lemma tree_site_fields [simp]:
  "plat tree_site = tree_platform sample_tree" "lib tree_site = tree_crypto" "lib_keys tree_site = initial_keys"
  "junk_ident tree_site = replicate 16 0" "loop_fuel tree_site = 70"
  "junk_cache tree_site = replicate 4 \<lparr>cache_count = 5, cache_unk_x8 = 0\<rparr>"
  by (simp_all add: tree_site_def)

lemma tree_site_lists:
  "lists_tree (plat tree_site) sample_tree (\<lambda>h w. w ! h) (\<lambda>w. {..<length w}) (\<lambda>_. True)"
  by (simp add: tree_platform_lists)

lemma FromString_sample_name:
  "FromString (tree_crypto :: 'w crypto_lib) initial_keys (replicate 16 0) Sd (sample_name app) zero_AlbumFileId =
     Inr (0, (fileId sample_entry)\<lparr>application_id := app\<rparr>)"
proof -
  have "EncryptFileExtension (tree_crypto :: unit crypto_lib) initial_keys app False =
      EncryptFileExtension (tree_crypto :: 'w crypto_lib) initial_keys app False"
    by (simp add: EncryptFileExtension_def tree_crypto_def)
  then show ?thesis
    using FromString_full_name [where c = "tree_crypto :: 'w crypto_lib" and junk = "replicate 16 0" and
        d = "date_time (fileId sample_entry)" and t = Screenshot and ext = "''.jpg''" and
        k = initial_keys and st = Sd and app = app and f = zero_AlbumFileId]
    by (simp add: sample_name_def sample_cipher tree_crypto_def sample_entry_def date_ok_def
        GetFileExtension_def zero_AlbumFileId_def)
qed

lemma sample_day_found:
  "concat (map (stored_file (tree_crypto :: 'w crypto_lib) initial_keys (replicate 16 0) Sd) sample_day) =
   sample_found"
proof -
  have "FromString (tree_crypto :: 'w crypto_lib) initial_keys (replicate 16 0) Sd ''readme.txt'' zero_AlbumFileId =
      Inr (0x10, zero_AlbumFileId)"
    by (simp add: FromString_def)
  then show ?thesis
    by (simp add: sample_day_def sample_found_def stored_file_def FromString_sample_name R_FAILED_iff)
      (simp add: sample_entry_def)
qed

lemma sample_tree_found:
  "stored_entries (tree_crypto :: 'w crypto_lib) initial_keys (replicate 16 0) Sd sample_tree = sample_found"
proof -
  have "atoi ''2020'' = 2020" "atoi ''13'' = 13" "atoi ''06'' = 6" "atoi ''15'' = 15" by code_simp+
  then show ?thesis
    using sample_day_found
    by (simp add: stored_entries_def walk_root_def MountPoints_def listing_def sample_tree_def
        folder_entries_def sample_folder_def skip_year_def skip_month_def skip_day_def)
qed

lemma sample_tree_ok: "tree_ok 3 sample_tree"
proof -
  have "length (EncryptFileExtension (tree_crypto :: unit crypto_lib) initial_keys app False) = 16" for app
    by (rule length_encrypted(2)) (simp add: tree_crypto_def sample_cipher)
  moreover have "date_ok (date_time (fileId sample_entry))" by (simp add: sample_entry_def date_ok_def)
  ultimately have "name_ok \<lparr>entry_name = sample_name app, entry_file_size = n\<rparr>" for app n
    by (simp add: name_ok_def sample_name_def fmt_simps)
  then show ?thesis
    by (auto simp: tree_ok_def sample_tree_def sample_folder_def sample_day_def name_ok_def)
qed

text \<open>A refreshed counter: what was in it, and the files of its type; the counters of the other storage stay.\<close>

definition refreshed :: "'w surroundings \<Rightarrow> AlbumManager \<Rightarrow> StorageId \<Rightarrow> AlbumEntry list \<Rightarrow> StorageId \<Rightarrow> ContentType \<Rightarrow> u64" where
  "refreshed x m sid es j t =
     (if j = sid then cache_count (junk_cache x ! unat t) +
        of_nat (length (filter (\<lambda>e :: AlbumEntry. content_type (fileId e) = t) es))
      else Cache_GetCount j t (man_cache m))"

section \<open>Properties\<close>

text \<open>C15: counting on a mounted storage that holds a given tree of folders and files returns, with
  fuel above the number of entries of any directory, and reports the number of the files the tree
  holds in its year, month and day folders under the walk's root that carry a valid name, are
  selected by the type mask and not being written, each counted once; of the manager it changes
  nothing but the cleared work memory. Asked of the file system: the listed folders can be
  opened, names have at most 250 characters, and listing one directory does not disturb another. A
  root that cannot be opened counts as empty.\<close>

theorem count_entries_spec:
  "man_ok m \<Longrightarrow> StorageValid sid \<Longrightarrow> ms_state (with_status sid m) = mounted \<Longrightarrow>
   lists_tree (plat x) tree rest used intact \<Longrightarrow> tree_ok n tree \<Longrightarrow> n < loop_fuel x \<Longrightarrow> intact w \<Longrightarrow>
   \<exists>w'. CountEntries x out sid flags (m, w) = Inr (ResultSuccess,
     of_nat (length (filter (selected m flags)
       (stored_entries (lib x) (lib_keys x) (junk_ident x) sid tree))), (scrub m, w'))"
proof -
  assume A: "man_ok m" "StorageValid sid" "ms_state (with_status sid m) = mounted"
    "lists_tree (plat x) tree rest used intact" "tree_ok n tree" "n < loop_fuel x" "intact w"
  let ?es = "stored_entries (lib x) (lib_keys x) (junk_ident x) sid tree"
  obtain w' where "walk x sid (count_selected (scrub m) flags) 0 w =
      Inr (of_nat (length (filter (selected m flags) ?es)), w')"
    using walk_tree [OF A(4,5,6,2,7), where cb = "count_selected (scrub m) flags" and s = 0]
    by (auto simp: feed_count)
  moreover have "scrub (scrub m) = scrub m" by (simp add: scrub_def)
  ultimately show ?thesis using A(1-3) by (simp add: CountEntries_def scrubbed_Inr R_FAILED_iff)
qed

theorem count_entries_spec_witness:
  "\<exists>w'. CountEntries tree_site 9 Sd 1 (mounted_manager Sd, []) = Inr (0, 2, (scrub (mounted_manager Sd), w'))"
proof -
  have "filter (selected (mounted_manager Sd) 1) sample_found = sample_found"
    by (simp add: sample_found_def selected_def sample_entry_def type_selected_def)
  moreover have "length sample_found = 2" by (simp add: sample_found_def)
  ultimately show ?thesis
    using count_entries_spec [OF mounted_manager_ok(1) _ mounted_manager_ok(2) tree_site_lists sample_tree_ok,
        where sid = Sd and out = 9 and flags = 1 and w = "[]"]
    by (simp add: StorageValid_def sample_tree_found)
qed

text \<open>C14: listing on a mounted storage that holds a given tree of folders and files, into a buffer for
  at least one entry, never writes past it: it returns, and the buffer holds the first of the
  files of the tree that are selected, in the order in which the directories list them, as many as
  fit, and zeros after them; their number is reported. The demands on the file system and the
  fuel are those of counting.\<close>

theorem list_entries_spec:
  "man_ok m \<Longrightarrow> StorageValid sid \<Longrightarrow> ms_state (with_status sid m) = mounted \<Longrightarrow>
   lists_tree (plat x) tree rest used intact \<Longrightarrow> tree_ok n tree \<Longrightarrow> n < loop_fuel x \<Longrightarrow> intact w \<Longrightarrow> 0 < mx \<Longrightarrow>
   let found = take mx (filter (selected m flags)
     (stored_entries (lib x) (lib_keys x) (junk_ident x) sid tree)) in
   \<exists>w'. ListEntries x mx sid flags (m, w) = Inr (ResultSuccess, (of_nat (length found),
     found @ replicate (mx - length found) zero_AlbumEntry), (scrub m, w'))"
proof -
  assume A: "man_ok m" "StorageValid sid" "ms_state (with_status sid m) = mounted"
    "lists_tree (plat x) tree rest used intact" "tree_ok n tree" "n < loop_fuel x" "intact w" "0 < mx"
  let ?es = "stored_entries (lib x) (lib_keys x) (junk_ident x) sid tree"
  let ?z = "replicate mx zero_AlbumEntry" and ?cb = "list_selected (scrub m) flags mx"
  let ?found = "take mx (filter (selected m flags) ?es)"
  obtain stop entries k where F: "feed ?cb ?es (?z, 0) = Inr (stop, (entries, k))"
    using feed_list_returns [of 0 mx ?z "scrub m" flags ?es] A(8) by auto
  have r: "k = length ?found" "entries = poke 0 ?found ?z"
    using feed_list [of 0 mx ?z "scrub m" flags ?es stop entries k] A(8) F by (simp_all add: Let_def)
  obtain w' where "walk x sid ?cb (?z, 0) w = Inr ((entries, k), w')"
    using walk_tree [OF A(4,5,6,2,7) F] by blast
  moreover have "poke 0 ?found ?z = ?found @ replicate (mx - length ?found) zero_AlbumEntry"
    by (simp add: poke_def)
  moreover have "scrub (scrub m) = scrub m" by (simp add: scrub_def)
  ultimately have "ListEntries x mx sid flags (m, w) = Inr (0, (of_nat (length ?found),
      ?found @ replicate (mx - length ?found) zero_AlbumEntry), (scrub m, w'))"
    using A(1-3) r by (simp add: ListEntries_def scrubbed_Inr R_FAILED_iff)
  then show ?thesis by (auto simp: Let_def)
qed

theorem list_entries_spec_witness:
  "(\<exists>w'. ListEntries tree_site 3 Sd 15 (mounted_manager Sd, []) =
     Inr (0, (2, sample_found @ [zero_AlbumEntry]), (scrub (mounted_manager Sd), w'))) \<and>
   (\<exists>w'. ListEntries tree_site 1 Sd 15 (mounted_manager Sd, []) =
     Inr (0, (1, [hd sample_found]), (scrub (mounted_manager Sd), w')))"
proof -
  have "filter (selected (mounted_manager Sd) 15) sample_found = sample_found"
    by (simp add: sample_found_def selected_def sample_entry_def type_selected_def)
  moreover have "length sample_found = 2" "take 1 sample_found = [hd sample_found]" "take 3 sample_found = sample_found"
    by (simp_all add: sample_found_def)
  moreover note L = list_entries_spec [OF mounted_manager_ok(1) _ mounted_manager_ok(2) tree_site_lists
      sample_tree_ok, where sid = Sd and flags = 15 and w = "[]"]
  ultimately show ?thesis
    using L [where mx = 3] L [where mx = 1] by (simp add: StorageValid_def sample_tree_found Let_def)
qed

text \<open>C17: refreshing the cache of a mounted storage that holds a given tree of folders and files
  returns and sets each counter of the storage to the number of files of that type in the tree, whose
  names are valid, plus whatever the uninitialised counter held before; the counters of the other
  storage stay. The demands on the file system and the fuel are those of counting.\<close>

theorem refresh_cache_spec:
  "man_ok m \<Longrightarrow> StorageValid sid \<Longrightarrow> ms_state (with_status sid m) = mounted \<Longrightarrow>
   lists_tree (plat x) tree rest used intact \<Longrightarrow> tree_ok n tree \<Longrightarrow> n < loop_fuel x \<Longrightarrow> intact w \<Longrightarrow>
   length (junk_cache x) = 4 \<Longrightarrow>
   \<exists>m' w'. RefreshCache x sid (m, w) = Inr (ResultSuccess, (), (m', w')) \<and>
     (\<forall>j t. StorageValid j \<longrightarrow> ContentTypeValid t \<longrightarrow> Cache_GetCount j t (man_cache m') =
        refreshed x m sid (stored_entries (lib x) (lib_keys x) (junk_ident x) sid tree) j t)"
proof -
  assume A: "man_ok m" "StorageValid sid" "ms_state (with_status sid m) = mounted"
    "lists_tree (plat x) tree rest used intact" "tree_ok n tree" "n < loop_fuel x" "intact w"
    "length (junk_cache x) = 4"
  let ?es = "stored_entries (lib x) (lib_keys x) (junk_ident x) sid tree"
  obtain stop cache where F: "feed count_file ?es (junk_cache x) = Inr (stop, cache)"
    using feed_returns [of count_file ?es "junk_cache x"] by (auto simp: count_file_def Let_def)
  obtain w' where W: "walk x sid count_file (junk_cache x) w = Inr (cache, w')"
    using walk_tree [OF A(4,5,6,2,7) F] by blast
  let ?c = "Cache_Set sid ExtraMovie (cache ! 3) (Cache_Set sid ExtraScreenshot (cache ! 2)
    (Cache_Set sid Movie (cache ! 1) (Cache_Set sid Screenshot (cache ! 0) (man_cache m))))"
  have wf: "wf_cache (man_cache m)" using A(1) by (simp add: man_ok_def)
  have get: "Cache_GetCount j t ?c =
      (if j = sid then cache_count (cache ! unat t) else Cache_GetCount j t (man_cache m))"
    if "StorageValid j" "ContentTypeValid t" for j t
  proof -
    have C: "ContentTypeValid Screenshot" "ContentTypeValid Movie" "ContentTypeValid ExtraScreenshot"
      "ContentTypeValid ExtraMovie" by (simp_all add: ContentTypeValid_def)
    have "t = Screenshot \<or> t = Movie \<or> t = ExtraScreenshot \<or> t = ExtraMovie"
      using that(2) by (simp add: ContentTypeValid_def)
    then show ?thesis by (elim disjE) (simp_all add: GetCount_Set C wf A(2))
  qed
  have R: "RefreshCache x sid (m, w) = Inr (0, (), (scrub ((scrub m)\<lparr>man_cache := ?c\<rparr>), w'))"
    using A(1-3) W by (simp add: RefreshCache_def scrubbed_Inr R_FAILED_iff Let_def)
  have "Cache_GetCount j t (man_cache (scrub ((scrub m)\<lparr>man_cache := ?c\<rparr>))) =
      refreshed x m sid ?es j t" if "StorageValid j" "ContentTypeValid t" for j t
  proof -
    have "\<forall>e\<in>set ?es. listed_entry sid e" using stored_listed by blast
    from feed_count_file [OF A(8) this that(2) F] get [OF that] show ?thesis by (simp add: refreshed_def)
  qed
  with R show ?thesis by blast
qed

theorem refresh_cache_spec_witness:
  "\<exists>m' w'. RefreshCache tree_site Sd (mounted_manager Sd, []) = Inr (0, (), (m', w')) \<and>
     Cache_GetCount Sd Screenshot (man_cache m') = 7 \<and> Cache_GetCount Sd Movie (man_cache m') = 5 \<and>
     Cache_GetCount Nand Screenshot (man_cache m') = 0"
proof -
  have v: "StorageValid Sd" "StorageValid Nand" "ContentTypeValid Movie" "ContentTypeValid Screenshot"
    by (simp_all add: StorageValid_def ContentTypeValid_def)
  have n: "refreshed tree_site (mounted_manager Sd) Sd sample_found Sd Screenshot = 7"
    "refreshed tree_site (mounted_manager Sd) Sd sample_found Sd Movie = 5"
    "refreshed tree_site (mounted_manager Sd) Sd sample_found Nand Screenshot = 0"
    by (simp_all add: refreshed_def sample_found_def sample_entry_def Cache_GetCount_def empty_cache_def v)
  obtain m' w' where r: "RefreshCache tree_site Sd (mounted_manager Sd, []) = Inr (0, (), (m', w'))"
    and c: "\<forall>j t. StorageValid j \<longrightarrow> ContentTypeValid t \<longrightarrow> Cache_GetCount j t (man_cache m') =
      refreshed tree_site (mounted_manager Sd) Sd sample_found j t"
    using refresh_cache_spec [OF mounted_manager_ok(1) v(1) mounted_manager_ok(2) tree_site_lists
        sample_tree_ok, where w = "[]"] by (auto simp: sample_tree_found)
  from r c v n show ?thesis by auto
qed

text \<open>The folder walked is not the one files are written to: its path has a second \<open>:/\<close> that
  \<open>GetFolderPath\<close> does not put there.\<close>

lemma walk_root_elsewhere:
  "StorageValid sid \<Longrightarrow> storage_id f = sid \<Longrightarrow> take 6 (folder_text c k f) \<noteq> walk_root sid"
  by (auto simp: walk_root_def folder_text_def StorageValid_def MountPoints_def)

end
