(* ===== verification/FileIdGen.thy ===== *)
theory FileIdGen
  imports ManagerFacts
begin

text \<open>
  \<open>capsrv_file_id_generator.cpp\<close>: the identifier of a new file is made of the storage to save to,
  the calendar time and a counter that tells apart the files of one second.
\<close>

section \<open>State and operations\<close>

record AlbumFileIdGenerator =
  last_timestamp :: u64
  gen_counter :: u32

definition Generator_Initialize :: "AlbumFileIdGenerator \<Rightarrow> AlbumFileIdGenerator" where
  "Generator_Initialize g = g\<lparr>last_timestamp := 0, gen_counter := 0\<rparr>"

definition Generator_Exit :: "AlbumFileIdGenerator \<Rightarrow> AlbumFileIdGenerator" where
  "Generator_Exit g = g"

definition SetSysPrimaryAlbumStorage_SdCard :: u32 where
  "SetSysPrimaryAlbumStorage_SdCard = 1"

text \<open>Try a storage; on failure go on with \<open>k\<close>.\<close>

definition try_storage ::
  "'w surroundings \<Rightarrow> StorageId \<Rightarrow> 'w man \<Rightarrow> ('w man \<Rightarrow> (StorageId, 'w man) outcome) \<Rightarrow>
     (StorageId, 'w man) outcome" where
  "try_storage x sid st k =
     then_run (MountImageDirectory x sid st) (\<lambda>(rc, _, st).
       if R_SUCCEEDED rc then Inr (ResultSuccess, sid, st) else k st)"

definition GetAutoSavingStorage ::
  "'w surroundings \<Rightarrow> ContentType \<Rightarrow> 'w man \<Rightarrow> (StorageId, 'w man) outcome" where
  "GetAutoSavingStorage x type = (\<lambda>(m, w).
     let fail = (\<lambda>st. Inr (ResultAlbumIsNotMounted, Nand, st));
         nand = (\<lambda>st. try_storage x Nand st fail)
     in if IsNormal type then
          (let (rc, setsys_storage, w) = setsysGetPrimaryAlbumStorage (plat x) w
           in if R_FAILED rc then Inl Abort
              else if setsys_storage = SetSysPrimaryAlbumStorage_SdCard
              then try_storage x Sd (m, w) nand
              else nand (m, w))
        else
          try_storage x Sd (m, w) (\<lambda>st.
            if \<not> AllowSaveExtraMoviesOnNand (sett x) then Inr (ResultAlbumIsNotMounted, Nand, st)
            else nand st))"

definition tick :: "u64 \<Rightarrow> AlbumFileIdGenerator \<Rightarrow> AlbumFileIdGenerator" where
  "tick timestamp g =
     (if last_timestamp g = timestamp \<and> gen_counter g < 99
      then g\<lparr>gen_counter := gen_counter g + 1\<rparr>
      else g\<lparr>last_timestamp := timestamp, gen_counter := 0\<rparr>)"

text \<open>
  The eight bytes of the calendar time are written over the date, whose last byte is then the
  counter. The state is the generator, the manager and the world.
\<close>

definition GenerateFileId ::
  "'w surroundings \<Rightarrow> AlbumFileId \<Rightarrow> u64 \<Rightarrow> ContentType \<Rightarrow> AlbumFileIdGenerator \<times> 'w man \<Rightarrow>
     (AlbumFileId, AlbumFileIdGenerator \<times> 'w man) outcome" where
  "GenerateFileId x out app type = (\<lambda>(g, st).
     then_run (GetAutoSavingStorage x type st) (\<lambda>(rc, sid, (m, w)).
     if R_FAILED rc then Inr (rc, out, (g, (m, w))) else
     (let (rc, timestamp, w) = timeGetCurrentTime (plat x) w
      in if R_FAILED rc then Inr (rc, out, (g, (m, w))) else
     (let g = tick timestamp g;
          (rc, calendar, w) = timeToCalendarTimeWithMyRule (plat x) timestamp w
      in if R_FAILED rc then Inr (rc, out, (g, (m, w))) else
         Inr (ResultSuccess,
              out\<lparr>date_time := (AlbumDateTime_of_bytes calendar)\<lparr>dt_id := ucast (gen_counter g)\<rparr>,
                  application_id := app, storage_id := sid, content_type := type\<rparr>,
              (g, (m, w)))))))"

section \<open>Facts\<close>

definition gen_ok :: "AlbumFileIdGenerator \<Rightarrow> bool" where
  "gen_ok g \<longleftrightarrow> gen_counter g < 100"

lemma tick_ok: "gen_ok g \<Longrightarrow> gen_ok (tick ts g)"
proof (cases "gen_counter g < 99")
  case True
  then have "unat (gen_counter g) < 99" by (simp add: word_less_nat_alt)
  then have "unat (gen_counter g + 1) < 100" by (simp add: unat_word_ariths)
  then show ?thesis by (simp add: tick_def gen_ok_def word_less_nat_alt)
qed (simp add: tick_def gen_ok_def)

inductive gen_step ::
  "'w surroundings \<Rightarrow> AlbumFileIdGenerator \<Rightarrow> AlbumFileIdGenerator \<Rightarrow> bool" for x where
  "GenerateFileId x out app type (g, st) = Inr (rc, f, (h, st')) \<Longrightarrow> gen_step x g h"

lemma try_storage_cases:
  assumes "try_storage x sid st k = Inr (rc, out, st')"
  obtains (mounted) u where "MountImageDirectory x sid st = Inr (0, u, st')" "rc = 0" "out = sid"
  | (other) rc1 u st1 where "MountImageDirectory x sid st = Inr (rc1, u, st1)" "rc1 \<noteq> 0"
      "k st1 = Inr (rc, out, st')"
  using assms that unfolding try_storage_def then_run_eq_Inr
  by (auto simp: R_SUCCEEDED_def split: if_splits)

lemma GenerateFileId_parts:
  assumes "GenerateFileId x out app type (g, st) = Inr (rc, f, (h, st'))"
  obtains (early) "rc \<noteq> 0" "h = g \<or> (\<exists>ts. h = tick ts g)" "f = out"
  | (complete) sid st1 ts w w1 w2 cal where "GetAutoSavingStorage x type st = Inr (0, sid, st1)"
      "timeGetCurrentTime (plat x) w = (0, ts, w1)"
      "timeToCalendarTimeWithMyRule (plat x) ts w1 = (0, cal, w2)"
      "rc = 0" "h = tick ts g" "fst st' = fst st1"
      "f = out\<lparr>date_time := (AlbumDateTime_of_bytes cal)\<lparr>dt_id := ucast (gen_counter h)\<rparr>,
           application_id := app, storage_id := sid, content_type := type\<rparr>"
proof -
  obtain rc1 sid m w where A: "GetAutoSavingStorage x type st = Inr (rc1, sid, (m, w))"
    using assms by (auto simp: GenerateFileId_def then_run_eq_Inr)
  obtain rc2 ts w1 where T: "timeGetCurrentTime (plat x) w = (rc2, ts, w1)"
    by (cases "timeGetCurrentTime (plat x) w")
  obtain rc3 cal w2 where C: "timeToCalendarTimeWithMyRule (plat x) ts w1 = (rc3, cal, w2)"
    by (cases "timeToCalendarTimeWithMyRule (plat x) ts w1")
  show thesis
  proof (cases "rc1 = 0 \<and> rc2 = 0 \<and> rc3 = 0")
    case True
    with assms A T C show thesis
      by (intro complete [of sid "(m, w)" w ts w1 cal w2]) (auto simp: GenerateFileId_def Let_def)
  next
    case False
    with assms A T C show thesis
      by (intro early) (auto simp: GenerateFileId_def Let_def R_FAILED_iff split: if_splits)
  qed
qed

lemma gen_step_ok: "gen_step x g h \<Longrightarrow> gen_ok g \<Longrightarrow> gen_ok h"
proof (induction rule: gen_step.induct)
  case (1 out app type g st rc f h st')
  from 1(1) show ?case by (cases rule: GenerateFileId_parts) (use 1(2) tick_ok in auto)
qed

interpretation generator: state_machine
  "\<lambda>g. \<exists>g0. g = Generator_Initialize g0" "gen_step x" gen_ok
  for x :: "'w surroundings"
proof unfold_locales
  show "\<exists>g0. g = Generator_Initialize g0 \<Longrightarrow> gen_ok g" for g
    by (auto simp: gen_ok_def Generator_Initialize_def)
qed (rule gen_step_ok)

text \<open>The storage chosen is a mounted one.\<close>

lemma GetAutoSavingStorage_mounted:
  assumes "GetAutoSavingStorage x type (m, w) = Inr (0, sid, (m', w'))" and "man_ok m"
  shows "StorageValid sid \<and> ms_state (with_status sid m') = mounted \<and> man_ok m'"
proof -
  have mt: "StorageValid s \<and> ms_state (with_status s m2) = mounted \<and> man_ok m2"
    if "MountImageDirectory x s (m1, w1) = Inr (0, u, (m2, w2))" "man_ok m1" for s m1 w1 u m2 w2
    using MountImageDirectory_ok [OF that] by simp
  have nand: "StorageValid out \<and> ms_state (with_status out m2) = mounted \<and> man_ok m2"
    if "try_storage x Nand (m1, w1) (\<lambda>st. Inr (ResultAlbumIsNotMounted, Nand, st)) = Inr (0, out, (m2, w2))"
      "man_ok m1" for out m1 w1 m2 w2
    using that(1) by (cases rule: try_storage_cases) (use mt that(2) in \<open>auto simp: result_values\<close>)
  have sd: "StorageValid out \<and> ms_state (with_status out m2) = mounted \<and> man_ok m2"
    if "try_storage x Sd (m1, w1) k = Inr (0, out, (m2, w2))" "man_ok m1"
      and k: "\<And>m3 w3. man_ok m3 \<Longrightarrow> k (m3, w3) = Inr (0, out, (m2, w2)) \<Longrightarrow>
        StorageValid out \<and> ms_state (with_status out m2) = mounted \<and> man_ok m2"
    for out m1 w1 m2 w2 k
    using that(1)
  proof (cases rule: try_storage_cases)
    case (mounted u)
    with mt that(2) show ?thesis by blast
  next
    case (other rc1 u st1)
    obtain m3 w3 where st1: "st1 = (m3, w3)" by (cases st1)
    have "man_ok m3" by (rule MountImageDirectory_ok(1) [OF other(1) [unfolded st1] that(2)])
    from k [OF this other(3) [unfolded st1]] show ?thesis .
  qed
  let ?fail = "\<lambda>st :: 'a man. (Inr (ResultAlbumIsNotMounted, Nand, st) :: (StorageId, 'a man) outcome)"
  show ?thesis
  proof (cases "IsNormal type")
    case False
    then have "try_storage x Sd (m, w) ?fail = Inr (0, sid, (m', w'))"
      using assms(1) by (simp add: GetAutoSavingStorage_def Let_def AllowSaveExtraMoviesOnNand_def)
    from sd [OF this assms(2)] show ?thesis by (simp add: result_values)
  next
    case True
    obtain rc ss w1 where S: "setsysGetPrimaryAlbumStorage (plat x) w = (rc, ss, w1)"
      by (cases "setsysGetPrimaryAlbumStorage (plat x) w")
    show ?thesis
    proof (cases "ss = SetSysPrimaryAlbumStorage_SdCard")
      case ss: True
      then have "try_storage x Sd (m, w1) (\<lambda>st. try_storage x Nand st ?fail) = Inr (0, sid, (m', w'))"
        using assms(1) True S by (simp add: GetAutoSavingStorage_def Let_def split: if_splits)
      from sd [OF this assms(2) nand] show ?thesis .
    next
      case ss: False
      then have "try_storage x Nand (m, w1) ?fail = Inr (0, sid, (m', w'))"
        using assms(1) True S by (simp add: GetAutoSavingStorage_def Let_def split: if_splits)
      from nand [OF this assms(2)] show ?thesis .
    qed
  qed
qed

text \<open>The counters of \<open>n\<close> identifiers generated in one second, after the first.\<close>

primrec ticks :: "nat \<Rightarrow> u64 \<Rightarrow> AlbumFileIdGenerator \<Rightarrow> AlbumFileIdGenerator" where
  "ticks 0 ts g = g"
| "ticks (Suc n) ts g = tick ts (ticks n ts g)"

lemma ticks_counter:
  "gen_counter g = 0 \<Longrightarrow> last_timestamp g = ts \<Longrightarrow>
   gen_counter (ticks n ts g) = of_nat (n mod 100) \<and> last_timestamp (ticks n ts g) = ts"
proof (induction n)
  case (Suc n)
  let ?h = "ticks n ts g"
  from Suc have h: "gen_counter ?h = of_nat (n mod 100)" "last_timestamp ?h = ts" by simp_all
  have u: "unat (of_nat (n mod 100) :: u32) = n mod 100" by (simp add: unat_of_nat)
  show ?case
  proof (cases "n mod 100 < 99")
    case True
    then have "(of_nat (n mod 100) :: u32) < 99" using u by (simp add: word_less_nat_alt)
    moreover have "Suc n mod 100 = Suc (n mod 100)" using True by (simp add: mod_Suc)
    ultimately show ?thesis using h by (simp add: tick_def)
  next
    case False
    then have "n mod 100 = 99" using mod_less_divisor [of 100 n] by simp
    then have "\<not> (of_nat (n mod 100) :: u32) < 99" "Suc n mod 100 = 0"
      by (simp_all add: mod_Suc)
    then show ?thesis using h by (simp add: tick_def)
  qed
qed simp

section \<open>Properties\<close>

text \<open>C38: in every reachable state of the generator the counter is below 100, and whenever an
  identifier is generated for an application other than zero and a supported type at a time whose
  calendar time is a date, the identifier passes \<open>Verify\<close> and carries a counter below 100, and the
  storage it names is then mounted.\<close>

theorem generated_id_verifies:
  "(\<exists>g0. (gen_step x)\<^sup>*\<^sup>* (Generator_Initialize g0) g) \<Longrightarrow> man_ok m \<Longrightarrow>
   GenerateFileId x out app type (g, (m, w)) = Inr (ResultSuccess, f, (h, (m', w'))) \<Longrightarrow>
   app \<noteq> 0 \<Longrightarrow> IsTypeSupported (sett x) type \<Longrightarrow>
   date_ok ((date_time f)\<lparr>dt_id := 0\<rparr>) \<Longrightarrow>
   gen_counter g < 100 \<and> gen_counter h < 100 \<and>
   Verify (sett x) f = ResultSuccess \<and> dt_id (date_time f) < 100 \<and>
   ms_state (with_status (storage_id f) m') = mounted"
proof -
  assume A: "\<exists>g0. (gen_step x)\<^sup>*\<^sup>* (Generator_Initialize g0) g" "man_ok m"
    "GenerateFileId x out app type (g, (m, w)) = Inr (ResultSuccess, f, (h, (m', w')))"
    "app \<noteq> 0" "IsTypeSupported (sett x) type" "date_ok ((date_time f)\<lparr>dt_id := 0\<rparr>)"
  have "gen_ok g" using A(1) generator.reachable_inv [of _ x g] by blast
  from A(3) show ?thesis
  proof (cases rule: GenerateFileId_parts)
    case early
    then show ?thesis by simp
  next
    case (complete sid st1 ts v v1 v2 cal)
    obtain m1 w1 where st1: "st1 = (m1, w1)" by (cases st1)
    have sid: "StorageValid sid" "ms_state (with_status sid m1) = mounted"
      using GetAutoSavingStorage_mounted [OF complete(1) [unfolded st1] A(2)] by simp_all
    have "gen_ok h" using complete(5) tick_ok [OF \<open>gen_ok g\<close>] by simp
    then have c: "unat (gen_counter h) < 100" by (simp add: gen_ok_def word_less_nat_alt)
    then have "unat (ucast (gen_counter h) :: u8) < 100"
      by (simp add: unsigned_ucast_eq take_bit_nat_eq_self)
    then have id: "unat (dt_id (date_time f)) < 100" using complete(7) by simp
    have f: "application_id f = app" "storage_id f = sid" "content_type f = type"
      using complete(7) by simp_all
    have "date_ok (date_time f)" using A(6) id by (simp add: date_ok_def)
    with f sid A(4,5) id c \<open>gen_ok g\<close> complete(5,6,7) st1 show ?thesis
      by (simp add: Verify_ok_iff word_less_nat_alt gen_ok_def)
  qed
qed

lemma sample_generate:
  "GenerateFileId (sample_site 0x40000) zero_AlbumFileId 0x0100000000010000 Movie
     (Generator_Initialize \<lparr>last_timestamp = 1, gen_counter = 1\<rparr>, (mounted_manager Nand, 0)) =
   Inr (0, \<lparr>application_id = 0x0100000000010000, date_time = \<lparr>year = 2020, month = 6, day = 15,
        hour = 12, minute = 30, second = 5, dt_id = 0\<rparr>, storage_id = Nand, content_type = Movie,
        pad = replicate 6 0\<rparr>,
      (\<lparr>last_timestamp = 1592224205, gen_counter = 0\<rparr>, (mounted_manager Nand, 0)))"
proof -
  have "MountImageDirectory (sample_site 0x40000) Nand (mounted_manager Nand, 0) =
      Inr (0, (), (mounted_manager Nand, 0))"
    by (simp add: MountImageDirectory_def R_FAILED_iff StorageValid_def mounted_manager_def)
  then have "GetAutoSavingStorage (sample_site 0x40000) Movie (mounted_manager Nand, 0) =
      Inr (0, Nand, (mounted_manager Nand, 0))"
    by (simp add: GetAutoSavingStorage_def IsNormal_def try_storage_def R_SUCCEEDED_def Let_def
        sample_site_def sample_platform_def SetSysPrimaryAlbumStorage_SdCard_def)
  then show ?thesis
    by (simp add: GenerateFileId_def sample_site_def sample_platform_def Let_def tick_def
        Generator_Initialize_def AlbumDateTime_of_bytes_def zero_AlbumFileId_def)
qed

theorem generated_id_verifies_witness:
  "Verify (sett (sample_site 0x40000)) \<lparr>application_id = 0x0100000000010000, date_time =
     \<lparr>year = 2020, month = 6, day = 15, hour = 12, minute = 30, second = 5, dt_id = 0\<rparr>,
     storage_id = Nand, content_type = Movie, pad = replicate 6 0\<rparr> = 0 \<and>
   ms_state (with_status Nand (mounted_manager Nand)) = mounted"
proof -
  have "\<exists>g0. (gen_step (sample_site 0x40000))\<^sup>*\<^sup>* (Generator_Initialize g0)
      (Generator_Initialize \<lparr>last_timestamp = 1, gen_counter = 1\<rparr>)" by blast
  moreover have "IsTypeSupported (sett (sample_site 0x40000)) Movie"
    by (simp add: IsTypeSupported_def sample_site_def Initialize_settings_def sample_platform_def
        hosversionBefore_def make_hos_version_def read_switch_def Let_def)
  ultimately show ?thesis
    using generated_id_verifies [OF _ mounted_manager_ok(1) sample_generate]
    by (simp add: date_ok_def)
qed

text \<open>Within one second the first hundred identifiers get different counters, and the hundred and
  first repeats the first.\<close>

theorem counter_repeats_after_100:
  "gen_counter g = 0 \<Longrightarrow> last_timestamp g = ts \<Longrightarrow> i < 100 \<Longrightarrow> j < 100 \<Longrightarrow>
   (gen_counter (ticks i ts g) = gen_counter (ticks j ts g) \<longleftrightarrow> i = j) \<and>
   gen_counter (ticks 100 ts g) = gen_counter g"
proof -
  assume "gen_counter g = 0" "last_timestamp g = ts" "i < 100" "j < 100"
  then have "gen_counter (ticks i ts g) = of_nat i" "gen_counter (ticks j ts g) = of_nat j"
    "gen_counter (ticks 100 ts g) = 0"
    using ticks_counter [of g ts i] ticks_counter [of g ts j] ticks_counter [of g ts 100] by simp_all
  moreover have "(of_nat i = (of_nat j :: u32)) \<longleftrightarrow> i = j"
    using \<open>i < 100\<close> \<open>j < 100\<close> by (intro of_nat_word_inj) simp_all
  ultimately show ?thesis using \<open>gen_counter g = 0\<close> by simp
qed

theorem counter_repeats_after_100_witness:
  "gen_counter (ticks 99 7 \<lparr>last_timestamp = 7, gen_counter = 0\<rparr>) \<noteq>
     gen_counter (ticks 98 7 \<lparr>last_timestamp = 7, gen_counter = 0\<rparr>) \<and>
   gen_counter (ticks 100 7 \<lparr>last_timestamp = 7, gen_counter = 0\<rparr>) = 0"
  using counter_repeats_after_100 [of "\<lparr>last_timestamp = 7, gen_counter = 0\<rparr>" 7 99 98] by simp

end
