(* ===== verification/Overlay.thy ===== *)
theory Overlay
  imports Types
begin

text \<open>
  \<open>capsrv_overlay_holder.cpp\<close>: the last thumbnail of a screenshot and of a movie, shared between the
  threads of the server. Each call holds the mutex for its whole body, so a call is one atomic step;
  a writer fills the buffer it was given after its call has returned, outside the mutex.
\<close>

section \<open>State\<close>

definition OverlayHeight :: nat where "OverlayHeight = 54"
definition OverlayWidth :: nat where "OverlayWidth = 96"
definition OverlayComponents :: nat where "OverlayComponents = 4"
definition OverlayBufferSize :: nat where
  "OverlayBufferSize = OverlayHeight * OverlayWidth * OverlayComponents"

datatype OverlayThumbnailStatus = NotInitialized | Initialized
datatype OverlayStatus = Free | Occupied

text \<open>A buffer pointer is an offset of the memory given to \<open>SetMemory\<close>.\<close>

record OverlayCacheData =
  ov_buffer :: nat
  ov_file_id :: AlbumFileId
  ov_slot_status :: OverlayStatus

record OverlayThumbnailHolder =
  ov_status :: OverlayThumbnailStatus
  total_memory :: "u8 list"
  ov_data :: "OverlayCacheData list"

definition zero_OverlayCacheData :: OverlayCacheData where
  "zero_OverlayCacheData =
     \<lparr>ov_buffer = 0, ov_file_id = zero_AlbumFileId, ov_slot_status = Free\<rparr>"

definition Overlay_ctor :: OverlayThumbnailHolder where
  "Overlay_ctor = \<lparr>ov_status = NotInitialized, total_memory = [],
     ov_data = [zero_OverlayCacheData, zero_OverlayCacheData]\<rparr>"

section \<open>Operations\<close>

definition Overlay_SetMemory :: "u8 list \<Rightarrow> OverlayThumbnailHolder \<Rightarrow> OverlayThumbnailHolder" where
  "Overlay_SetMemory mem h = h\<lparr>total_memory := mem\<rparr>"

text \<open>The size of the memory is stored but never compared with.\<close>

definition Overlay_Initialize :: "OverlayThumbnailHolder \<Rightarrow> OverlayThumbnailHolder run" where
  "Overlay_Initialize h =
     (let n = OverlayBufferSize; mem = total_memory h
      in if length mem < 2 * n then Inl OutOfBounds else
         (let mem = poke 0 (replicate n 0xFF) mem; mem = poke n (replicate n 0xFF) mem
          in Inr (h\<lparr>total_memory := mem,
                    ov_data := [\<lparr>ov_buffer = 0, ov_file_id = zero_AlbumFileId, ov_slot_status = Free\<rparr>,
                                \<lparr>ov_buffer = n, ov_file_id = zero_AlbumFileId, ov_slot_status = Free\<rparr>],
                    ov_status := Initialized\<rparr>)))"

definition Overlay_Exit :: "OverlayThumbnailHolder \<Rightarrow> OverlayThumbnailHolder" where
  "Overlay_Exit h = h\<lparr>ov_status := NotInitialized\<rparr>"

definition slot :: "ContentType \<Rightarrow> OverlayThumbnailHolder \<Rightarrow> OverlayCacheData run" where
  "slot type h =
     (if unat type < length (ov_data h) then Inr (ov_data h ! unat type) else Inl OutOfBounds)"

text \<open>\<open>None\<close>: the caller waits on the condition variable, the mutex released.\<close>

definition GetLastOverlayThumbnail ::
  "nat \<Rightarrow> ContentType \<Rightarrow> OverlayThumbnailHolder \<Rightarrow>
     (result \<times> (AlbumFileId \<times> u8 list) option) option run" where
  "GetLastOverlayThumbnail out_buffer_size type h =
     (if \<not> out_buffer_size \<ge> OverlayBufferSize
      then Inr (Some (ResultAlbumReadBufferShortage, None)) else
      then_run (slot type h) (\<lambda>data.
      if ov_slot_status data = Occupied then Inr None else
      then_run (bytes_at (total_memory h) (ov_buffer data) OverlayBufferSize) (\<lambda>bytes.
        Inr (Some (ResultSuccess, Some (ov_file_id data, bytes))))))"

definition GetOverlayBuffer ::
  "AlbumFileId \<Rightarrow> ContentType \<Rightarrow> OverlayThumbnailHolder \<Rightarrow> (nat \<times> OverlayThumbnailHolder) option run" where
  "GetOverlayBuffer f type h =
     then_run (slot type h) (\<lambda>data.
       if ov_slot_status data = Occupied then Inr None else
       Inr (Some (ov_buffer data,
                  h\<lparr>ov_data := (ov_data h)[unat type := data\<lparr>ov_file_id := f\<rparr>]\<rparr>)))"

definition Overlay_Signal :: "ContentType \<Rightarrow> OverlayThumbnailHolder \<Rightarrow> OverlayThumbnailHolder run" where
  "Overlay_Signal type h =
     then_run (slot type h) (\<lambda>data.
       Inr (h\<lparr>ov_data := (ov_data h)[unat type := data\<lparr>ov_slot_status := Free\<rparr>]\<rparr>))"

section \<open>Threads\<close>

text \<open>
  The steps of the threads that share the holder: the atomic calls, and a writer's store of a byte
  through the pointer it holds (\<open>type\<close> picks the slot it was given).
\<close>

inductive overlay_step :: "OverlayThumbnailHolder \<Rightarrow> OverlayThumbnailHolder \<Rightarrow> bool" where
  read: "GetLastOverlayThumbnail n type h = Inr (Some r) \<Longrightarrow> overlay_step h h"
| begin_write: "GetOverlayBuffer f type h = Inr (Some (ptr, h')) \<Longrightarrow> overlay_step h h'"
| store: "unat (type :: ContentType) < 2 \<Longrightarrow> i < OverlayBufferSize \<Longrightarrow>
    overlay_step h (h\<lparr>total_memory := (total_memory h)[ov_buffer (ov_data h ! unat type) + i := b]\<rparr>)"
| signal: "Overlay_Signal type h = Inr h' \<Longrightarrow> overlay_step h h'"

inductive_cases overlay_stepE: "overlay_step h h'"

section \<open>Facts\<close>

text \<open>Both slots exist, are free, and have their buffers inside the memory, one after the other.\<close>

definition overlay_ok :: "OverlayThumbnailHolder \<Rightarrow> bool" where
  "overlay_ok h \<longleftrightarrow> (\<exists>f0 f1. ov_data h =
       [\<lparr>ov_buffer = 0, ov_file_id = f0, ov_slot_status = Free\<rparr>,
        \<lparr>ov_buffer = OverlayBufferSize, ov_file_id = f1, ov_slot_status = Free\<rparr>]) \<and>
     2 * OverlayBufferSize \<le> length (total_memory h)"

lemma overlay_ok_Initialize: "Overlay_Initialize h = Inr h' \<Longrightarrow> overlay_ok h'"
  by (auto simp: Overlay_Initialize_def overlay_ok_def Let_def split: if_splits)

lemma overlay_slot:
  assumes "overlay_ok h" and "slot type h = Inr data"
  shows "ov_slot_status data = Free" "data \<in> set (ov_data h)"
    "overlay_ok (h\<lparr>ov_data := (ov_data h)[unat type := data\<lparr>ov_file_id := f\<rparr>]\<rparr>)"
    "overlay_ok (h\<lparr>ov_data := (ov_data h)[unat type := data\<lparr>ov_slot_status := Free\<rparr>]\<rparr>)"
proof -
  obtain f0 f1 where d: "ov_data h = [\<lparr>ov_buffer = 0, ov_file_id = f0, ov_slot_status = Free\<rparr>,
      \<lparr>ov_buffer = OverlayBufferSize, ov_file_id = f1, ov_slot_status = Free\<rparr>]"
    and m: "2 * OverlayBufferSize \<le> length (total_memory h)"
    using assms(1) by (auto simp: overlay_ok_def)
  have "unat type < 2" using assms(2) d by (simp add: slot_def split: if_splits)
  then consider "unat type = 0" | "unat type = 1" by linarith
  then have "ov_slot_status data = Free \<and> data \<in> set (ov_data h) \<and>
      overlay_ok (h\<lparr>ov_data := (ov_data h)[unat type := data\<lparr>ov_file_id := f\<rparr>]\<rparr>) \<and>
      overlay_ok (h\<lparr>ov_data := (ov_data h)[unat type := data\<lparr>ov_slot_status := Free\<rparr>]\<rparr>)"
    using assms(2) d m by cases (auto simp: overlay_ok_def slot_def)
  then show "ov_slot_status data = Free" "data \<in> set (ov_data h)"
    "overlay_ok (h\<lparr>ov_data := (ov_data h)[unat type := data\<lparr>ov_file_id := f\<rparr>]\<rparr>)"
    "overlay_ok (h\<lparr>ov_data := (ov_data h)[unat type := data\<lparr>ov_slot_status := Free\<rparr>]\<rparr>)"
    by blast+
qed

lemma overlay_step_ok: "overlay_step h h' \<Longrightarrow> overlay_ok h \<Longrightarrow> overlay_ok h'"
proof (erule overlay_stepE, goal_cases)
  case (2 f type ptr)
  then show ?case using overlay_slot by (auto simp: GetOverlayBuffer_def then_run_eq_Inr)
next
  case (4 type)
  then show ?case using overlay_slot by (auto simp: Overlay_Signal_def then_run_eq_Inr)
qed (auto simp: overlay_ok_def)

interpretation overlay: state_machine
  "\<lambda>h. \<exists>h0. Overlay_Initialize h0 = Inr h" overlay_step overlay_ok
  by unfold_locales (auto intro: overlay_ok_Initialize overlay_step_ok)

section \<open>Properties\<close>

text \<open>C39: a reader with a large enough buffer never waits and never reads outside the memory: in every
  reachable state its call returns a whole thumbnail at once (no call ever marks a slot as
  occupied).\<close>

theorem overlay_reader_served:
  "Overlay_Initialize h0 = Inr h \<Longrightarrow> overlay_step\<^sup>*\<^sup>* h h' \<Longrightarrow> OverlayBufferSize \<le> n \<Longrightarrow>
   type = Screenshot \<or> type = Movie \<Longrightarrow>
   \<exists>f bytes. GetLastOverlayThumbnail n type h' = Inr (Some (ResultSuccess, Some (f, bytes))) \<and>
     length bytes = OverlayBufferSize"
proof -
  assume "Overlay_Initialize h0 = Inr h" "overlay_step\<^sup>*\<^sup>* h h'" and n: "OverlayBufferSize \<le> n"
    and t: "type = Screenshot \<or> type = Movie"
  then have "overlay_ok h'" using overlay.reachable_inv by blast
  then show ?thesis
    using n t by (auto simp: overlay_ok_def GetLastOverlayThumbnail_def slot_def)
qed

definition sample_overlay :: OverlayThumbnailHolder where
  "sample_overlay = \<lparr>ov_status = Initialized, total_memory = replicate (3 * OverlayBufferSize) 0xFF,
     ov_data = [\<lparr>ov_buffer = 0, ov_file_id = zero_AlbumFileId, ov_slot_status = Free\<rparr>,
       \<lparr>ov_buffer = OverlayBufferSize, ov_file_id = zero_AlbumFileId, ov_slot_status = Free\<rparr>]\<rparr>"

lemma sample_overlay_init:
  "Overlay_Initialize \<lparr>ov_status = NotInitialized,
     total_memory = replicate (3 * OverlayBufferSize) 0xFF, ov_data = []\<rparr> = Inr sample_overlay"
proof -
  have "poke i (replicate n b) (replicate m b) = replicate m b" if "i + n \<le> m" for i n m and b :: u8
    using that by (simp add: poke_def replicate_add [symmetric])
  then show ?thesis by (simp add: Overlay_Initialize_def Let_def sample_overlay_def)
qed

theorem overlay_reader_served_witness:
  "\<exists>f bytes. GetLastOverlayThumbnail OverlayBufferSize Movie sample_overlay =
     Inr (Some (0, Some (f, bytes))) \<and> length bytes = OverlayBufferSize"
  using overlay_reader_served [OF sample_overlay_init rtranclp.rtrancl_refl, of OverlayBufferSize Movie]
  by simp

text \<open>A reader can see the identifier of a new file with the thumbnail of the one before: from any
  initialised holder, after a writer was given the buffer and before it stores into it, reading
  returns the writer's identifier and the old bytes.\<close>

theorem overlay_torn_read:
  "Overlay_Initialize h0 = Inr h \<Longrightarrow> overlay_step\<^sup>*\<^sup>* h h1 \<Longrightarrow> type = Screenshot \<or> type = Movie \<Longrightarrow>
   \<exists>h2 g bytes. overlay_step h1 h2 \<and>
     GetLastOverlayThumbnail OverlayBufferSize type h1 = Inr (Some (ResultSuccess, Some (g, bytes))) \<and>
     GetLastOverlayThumbnail OverlayBufferSize type h2 = Inr (Some (ResultSuccess, Some (f, bytes)))"
proof -
  assume "Overlay_Initialize h0 = Inr h" "overlay_step\<^sup>*\<^sup>* h h1" and t: "type = Screenshot \<or> type = Movie"
  then have "overlay_ok h1" using overlay.reachable_inv by blast
  then obtain f0 f1 where d: "ov_data h1 = [\<lparr>ov_buffer = 0, ov_file_id = f0, ov_slot_status = Free\<rparr>,
      \<lparr>ov_buffer = OverlayBufferSize, ov_file_id = f1, ov_slot_status = Free\<rparr>]"
    and m: "2 * OverlayBufferSize \<le> length (total_memory h1)" by (auto simp: overlay_ok_def)
  let ?i = "unat type"
  let ?h2 = "h1\<lparr>ov_data := (ov_data h1)[?i := (ov_data h1 ! ?i)\<lparr>ov_file_id := f\<rparr>]\<rparr>"
  have "GetOverlayBuffer f type h1 = Inr (Some (ov_buffer (ov_data h1 ! ?i), ?h2))"
    using t d by (auto simp: GetOverlayBuffer_def slot_def)
  then have "overlay_step h1 ?h2" by (rule overlay_step.begin_write)
  moreover have "\<exists>g bytes.
      GetLastOverlayThumbnail OverlayBufferSize type h1 = Inr (Some (0, Some (g, bytes))) \<and>
      GetLastOverlayThumbnail OverlayBufferSize type ?h2 = Inr (Some (0, Some (f, bytes)))"
    using t d m by (auto simp: GetLastOverlayThumbnail_def slot_def)
  ultimately show ?thesis by blast
qed

theorem overlay_torn_read_witness:
  "\<exists>h2 g bytes. overlay_step sample_overlay h2 \<and>
     GetLastOverlayThumbnail OverlayBufferSize Movie sample_overlay = Inr (Some (0, Some (g, bytes))) \<and>
     GetLastOverlayThumbnail OverlayBufferSize Movie h2 =
       Inr (Some (0, Some (zero_AlbumFileId\<lparr>application_id := 7\<rparr>, bytes)))"
  using overlay_torn_read [OF sample_overlay_init rtranclp.rtrancl_refl, of Movie] by simp

end
