(* ===== verification/AppManager.thy ===== *)
theory AppManager
  imports Crypto
begin

text \<open>
  \<open>capsrv_application_manager.cpp\<close>: up to four applications are registered under the identifier of
  their applet resource; album entries handed to them are encrypted with a key of their own. Every
  call holds the mutex for its whole body.
\<close>

section \<open>State\<close>

record ApplicationResource =
  res_used :: bool
  res_aruid :: u64
  res_application_id :: u64
  res_version :: u64
  res_key :: "u8 list"

record ApplicationAlbumManager =
  am_initialized :: bool
  resources :: "ApplicationResource list"

definition zero_resource :: ApplicationResource where
  "zero_resource = \<lparr>res_used = False, res_aruid = 0, res_application_id = 0, res_version = 0,
     res_key = replicate 32 0\<rparr>"

definition ApplicationAlbumManager_ctor :: ApplicationAlbumManager where
  "ApplicationAlbumManager_ctor = \<lparr>am_initialized = False, resources = replicate 4 zero_resource\<rparr>"

definition AppManager_Initialize :: "ApplicationAlbumManager \<Rightarrow> ApplicationAlbumManager" where
  "AppManager_Initialize am = am\<lparr>am_initialized := True\<rparr>"

definition AppManager_Exit :: "ApplicationAlbumManager \<Rightarrow> ApplicationAlbumManager" where
  "AppManager_Exit am =
     am\<lparr>resources := map (\<lambda>res. if res_used res then zero_resource else res) (resources am),
        am_initialized := False\<rparr>"

section \<open>Registration\<close>

text \<open>Random keys are drawn until one is not all zero.\<close>

fun draw_key :: "nat \<Rightarrow> 'w platform \<Rightarrow> 'w \<Rightarrow> (u8 list \<times> 'w) run" where
  "draw_key 0 p w = Inl OutOfFuel"
| "draw_key (Suc n) p w =
     (let (k, w) = GenerateRandomBytes p 32 w
      in if k = replicate 32 0 then draw_key n p w else Inr (k, w))"

text \<open>The first unused slot decides, also about an identifier left in it.\<close>

fun register_in ::
  "nat \<Rightarrow> 'w platform \<Rightarrow> u64 \<Rightarrow> u64 \<Rightarrow> ApplicationResource list \<Rightarrow> 'w \<Rightarrow>
     (result \<times> ApplicationResource list \<times> 'w) run" where
  "register_in fuel p aruid app [] w = Inr (ResultControlResourceLimit, [], w)"
| "register_in fuel p aruid app (res # rs) w =
     (if \<not> res_used res then
        (if res_aruid res \<noteq> aruid then
           then_run (draw_key fuel p w) (\<lambda>(k, w).
             Inr (ResultSuccess, res\<lparr>res_used := True, res_version := 0, res_aruid := aruid,
               res_application_id := app, res_key := k\<rparr> # rs, w))
         else Inr (ResultControlAlreadyOpen, res # rs, w))
      else then_run (register_in fuel p aruid app rs w) (\<lambda>(rc, rs, w). Inr (rc, res # rs, w)))"

definition RegisterAppletResourceUserId ::
  "nat \<Rightarrow> 'w platform \<Rightarrow> u64 \<Rightarrow> u64 \<Rightarrow> ApplicationAlbumManager \<Rightarrow> 'w \<Rightarrow>
     (result \<times> ApplicationAlbumManager \<times> 'w) run" where
  "RegisterAppletResourceUserId fuel p aruid app am w =
     then_run (register_in fuel p aruid app (resources am) w) (\<lambda>(rc, rs, w).
       Inr (rc, am\<lparr>resources := rs\<rparr>, w))"

text \<open>The loop variable is a copy of each resource (\<open>for (auto res : ...)\<close>): the copies are
  cleared and dropped.\<close>

definition UnregisterAppletResourceUserId ::
  "u64 \<Rightarrow> u64 \<Rightarrow> ApplicationAlbumManager \<Rightarrow> ApplicationAlbumManager" where
  "UnregisterAppletResourceUserId aruid app am =
     (let copies = map (\<lambda>res. if res_aruid res \<noteq> aruid then res
                              else res\<lparr>res_used := False, res_aruid := 0, res_application_id := 0,
                                       res_version := 0, res_key := replicate 32 0\<rparr>) (resources am)
      in am)"

section \<open>Lookups\<close>

text \<open>The first resource that matches, used or not.\<close>

definition by_aruid :: "u64 \<Rightarrow> ApplicationAlbumManager \<Rightarrow> ApplicationResource option" where
  "by_aruid aruid am = find (\<lambda>res. res_aruid res = aruid) (resources am)"

definition by_application :: "u64 \<Rightarrow> ApplicationAlbumManager \<Rightarrow> ApplicationResource option" where
  "by_application app am = find (\<lambda>res. res_application_id res = app) (resources am)"

definition GetApplicationIdFromAruid :: "u64 \<Rightarrow> u64 \<Rightarrow> ApplicationAlbumManager \<Rightarrow> result \<times> u64" where
  "GetApplicationIdFromAruid out aruid am =
     (case by_aruid aruid am of None \<Rightarrow> (ResultControlNotOpened, out)
      | Some res \<Rightarrow> (ResultSuccess, res_application_id res))"

definition CheckApplicationIdRegistered :: "u64 \<Rightarrow> ApplicationAlbumManager \<Rightarrow> result" where
  "CheckApplicationIdRegistered app am =
     (case by_application app am of None \<Rightarrow> ResultControlNotOpened | Some res \<Rightarrow> ResultSuccess)"

text \<open>The new version is stored in a copy as well.\<close>

definition SetShimLibraryVersion ::
  "u64 \<Rightarrow> u64 \<Rightarrow> ApplicationAlbumManager \<Rightarrow> result \<times> ApplicationAlbumManager" where
  "SetShimLibraryVersion version aruid am =
     (case by_aruid aruid am of None \<Rightarrow> (ResultControlNotOpened, am)
      | Some res \<Rightarrow>
          if \<not> version = 1 then (ResultAlbumOutOfRange, am)
          else if res_version res = version then (ResultSuccess, am)
          else if \<not> res_version res = 0 then (ResultAlbumInvalidState, am)
          else (let copy = res\<lparr>res_version := version\<rparr> in (ResultSuccess, am)))"

section \<open>Entries\<close>

text \<open>\<open>junk\<close> is the uninitialised temporary; \<open>out\<close> the output before the call.\<close>

definition GenerateApplicationAlbumEntry ::
  "'w crypto_lib \<Rightarrow> crypto_keys \<Rightarrow> ApplicationAlbumEntry \<Rightarrow> ApplicationAlbumEntry \<Rightarrow> AlbumEntry \<Rightarrow> u64 \<Rightarrow>
     ApplicationAlbumManager \<Rightarrow> result \<times> ApplicationAlbumEntry" where
  "GenerateApplicationAlbumEntry c k junk out entry app am =
     (case by_application app am of None \<Rightarrow> (ResultControlNotOpened, out)
      | Some res \<Rightarrow>
          if res_version res = 0 then (ResultSuccess, EncryptV0 c entry (res_key res))
          else (let (rc, tmp) = EncryptV1 c k junk entry (res_version res)
                in if R_FAILED rc then (rc, out) else (ResultSuccess, tmp)))"

definition EntryV0Impl ::
  "'w crypto_lib \<Rightarrow> AlbumEntry \<Rightarrow> ApplicationAlbumEntry \<Rightarrow> u64 \<Rightarrow> u8 list \<Rightarrow> result \<times> AlbumEntry" where
  "EntryV0Impl c out src app key =
     (let tmp = DecryptV0 c src key
      in if \<not> application_id (fileId tmp) = app then (ResultAlbumInvalidApplicationId, out)
         else (ResultSuccess, tmp))"

definition EntryV1Impl ::
  "'w crypto_lib \<Rightarrow> crypto_keys \<Rightarrow> AlbumSettings \<Rightarrow> AlbumEntry \<Rightarrow> ApplicationAlbumEntry \<Rightarrow> u64 \<Rightarrow>
     result \<times> AlbumEntry" where
  "EntryV1Impl c k settings out src app =
     (let (rc, tmp) = DecryptV1 c k out src app
      in if R_FAILED rc then (rc, out)
         else if R_FAILED (Verify settings (fileId tmp)) then (Verify settings (fileId tmp), out)
         else (ResultSuccess, tmp))"

definition entry_of_resource ::
  "'w crypto_lib \<Rightarrow> crypto_keys \<Rightarrow> AlbumSettings \<Rightarrow> AlbumEntry \<Rightarrow> ApplicationAlbumEntry \<Rightarrow>
     ApplicationResource option \<Rightarrow> result \<times> AlbumEntry" where
  "entry_of_resource c k settings out src found =
     (case found of None \<Rightarrow> (ResultControlNotOpened, out)
      | Some res \<Rightarrow>
          if res_version res = 0 then EntryV0Impl c out src (res_application_id res) (res_key res)
          else EntryV1Impl c k settings out src (res_application_id res))"

definition GetAlbumEntryFromApplicationAlbumEntry ::
  "'w crypto_lib \<Rightarrow> crypto_keys \<Rightarrow> AlbumSettings \<Rightarrow> AlbumEntry \<Rightarrow> ApplicationAlbumEntry \<Rightarrow> u64 \<Rightarrow>
     ApplicationAlbumManager \<Rightarrow> result \<times> AlbumEntry" where
  "GetAlbumEntryFromApplicationAlbumEntry c k settings out src app am =
     entry_of_resource c k settings out src (by_application app am)"

definition GetAlbumEntryFromApplicationAlbumEntryAruid ::
  "'w crypto_lib \<Rightarrow> crypto_keys \<Rightarrow> AlbumSettings \<Rightarrow> AlbumEntry \<Rightarrow> ApplicationAlbumEntry \<Rightarrow> u64 \<Rightarrow>
     ApplicationAlbumManager \<Rightarrow> result \<times> AlbumEntry" where
  "GetAlbumEntryFromApplicationAlbumEntryAruid c k settings out src aruid am =
     entry_of_resource c k settings out src (by_aruid aruid am)"

text \<open>
  Encryption of a buffer in place: the bytes of each entry are source and destination. A count
  beyond the buffer is out of bounds; an error leaves the entries before it encrypted.
\<close>

fun encrypt_in_place ::
  "'w crypto_lib \<Rightarrow> crypto_keys \<Rightarrow> ApplicationResource \<Rightarrow> nat \<Rightarrow> ApplicationAlbumEntry list \<Rightarrow>
     (result \<times> ApplicationAlbumEntry list) run" where
  "encrypt_in_place c k res 0 es = Inr (ResultSuccess, es)"
| "encrypt_in_place c k res (Suc n) [] = Inl OutOfBounds"
| "encrypt_in_place c k res (Suc n) (e # es) =
     (let (rc, e') = (if res_version res = 0
                      then (ResultSuccess, EncryptV0 c (AlbumEntry_of_bytes e) (res_key res))
                      else EncryptV1 c k e (AlbumEntry_of_bytes e) (res_version res))
      in if R_FAILED rc then Inr (rc, e' # es)
         else then_run (encrypt_in_place c k res n es) (\<lambda>(rc, es). Inr (rc, e' # es)))"

definition EncryptAaeBuffer ::
  "'w crypto_lib \<Rightarrow> crypto_keys \<Rightarrow> ApplicationAlbumEntry list \<Rightarrow> nat \<Rightarrow> u64 \<Rightarrow>
     ApplicationAlbumManager \<Rightarrow> (result \<times> ApplicationAlbumEntry list) run" where
  "EncryptAaeBuffer c k es n aruid am =
     (case by_aruid aruid am of None \<Rightarrow> Inr (ResultControlNotOpened, es)
      | Some res \<Rightarrow> encrypt_in_place c k res n es)"

definition EncryptAafeBuffer ::
  "'w crypto_lib \<Rightarrow> crypto_keys \<Rightarrow> ApplicationAlbumFileEntry list \<Rightarrow> nat \<Rightarrow> u64 \<Rightarrow>
     ApplicationAlbumManager \<Rightarrow> (result \<times> ApplicationAlbumFileEntry list) run" where
  "EncryptAafeBuffer c k fs n aruid am =
     (case by_aruid aruid am of None \<Rightarrow> Inr (ResultControlNotOpened, fs)
      | Some res \<Rightarrow> then_run (encrypt_in_place c k res n (map aaf_entry fs)) (\<lambda>(rc, es).
          Inr (rc, map2 (\<lambda>f e. f\<lparr>aaf_entry := e\<rparr>) fs es)))"

section \<open>Reachable states\<close>

inductive app_step ::
  "'w platform \<Rightarrow> ApplicationAlbumManager \<Rightarrow> ApplicationAlbumManager \<Rightarrow> bool" for p where
  register: "RegisterAppletResourceUserId fuel p aruid app am w = Inr (rc, am', w') \<Longrightarrow> app_step p am am'"
| unregister: "app_step p am (UnregisterAppletResourceUserId aruid app am)"
| set_version: "SetShimLibraryVersion version aruid am = (rc, am') \<Longrightarrow> app_step p am am'"

text \<open>
  The registered resources come first, all with version zero, and untouched ones follow.
\<close>

definition app_slots :: "ApplicationResource list \<Rightarrow> ApplicationAlbumManager \<Rightarrow> bool" where
  "app_slots us am \<longleftrightarrow> (\<forall>r\<in>set us. res_used r \<and> res_version r = 0) \<and> length us \<le> 4 \<and>
     resources am = us @ replicate (4 - length us) zero_resource"

definition app_ok :: "ApplicationAlbumManager \<Rightarrow> bool" where
  "app_ok am \<longleftrightarrow> (\<exists>us. app_slots us am)"

lemma register_in_used:
  "\<forall>r\<in>set us. res_used r \<Longrightarrow> register_in fuel p aruid app (us @ rs) w =
     then_run (register_in fuel p aruid app rs w) (\<lambda>(rc, rs, w). Inr (rc, us @ rs, w))"
proof (induction us)
  case Nil
  then show ?case by (cases "register_in fuel p aruid app rs w") auto
next
  case (Cons r us)
  then show ?case by (auto simp: then_run_assoc intro!: arg_cong [where f = "then_run _"])
qed

text \<open>What registering does, by the number of resources in use and the identifier.\<close>

lemma Register_cases:
  assumes "app_slots us am"
    and "RegisterAppletResourceUserId fuel p aruid app am w = Inr (rc, am', w')"
  obtains (full) "length us = 4" "rc = ResultControlResourceLimit" "am' = am"
  | (zero) "length us < 4" "aruid = 0" "rc = ResultControlAlreadyOpen" "am' = am"
  | (new) r where "length us < 4" "aruid \<noteq> 0" "rc = 0" "app_slots (us @ [r]) am'"
      "res_aruid r = aruid" "res_application_id r = app"
proof -
  have us: "\<forall>r\<in>set us. res_used r" "length us \<le> 4"
    and rs: "resources am = us @ replicate (4 - length us) zero_resource"
    using assms(1) by (auto simp: app_slots_def)
  have same: "am\<lparr>resources := resources am\<rparr> = am" by simp
  show thesis
  proof (cases "length us = 4")
    case True
    have "register_in fuel p aruid app us w = Inr (ResultControlResourceLimit, us, w)"
      using register_in_used [OF us(1), of fuel p aruid app "[]" w] by simp
    with assms(2) rs same True show thesis
      by (intro full) (auto simp: RegisterAppletResourceUserId_def)
  next
    case False
    then have l: "length us < 4" using us(2) by simp
    then have rep: "replicate (4 - length us) zero_resource =
        zero_resource # replicate (4 - length (us @ [r])) zero_resource" for r
      by (simp add: Suc_diff_Suc [symmetric] replicate_Suc [symmetric] del: replicate_Suc)
    show thesis
    proof (cases "aruid = 0")
      case True
      with l assms(2) us rs same rep [of zero_resource] show thesis
        by (intro zero) (auto simp: RegisterAppletResourceUserId_def register_in_used
            zero_resource_def)
    next
      case False
      then obtain k v where k: "draw_key fuel p w = Inr (k, v)"
        using assms(2) us rs rep [of zero_resource]
        by (auto simp: RegisterAppletResourceUserId_def register_in_used zero_resource_def
            then_run_eq_Inr)
      let ?r = "zero_resource\<lparr>res_used := True, res_version := 0, res_aruid := aruid,
        res_application_id := app, res_key := k\<rparr>"
      have "rc = 0 \<and> am' = am\<lparr>resources := us @ ?r # replicate (4 - length (us @ [?r])) zero_resource\<rparr>"
        using assms(2) us rs rep [of ?r] False k
        by (simp add: RegisterAppletResourceUserId_def register_in_used zero_resource_def)
      moreover have "app_slots (us @ [?r])
          (am\<lparr>resources := us @ ?r # replicate (4 - length (us @ [?r])) zero_resource\<rparr>)"
        using assms(1) l by (simp add: app_slots_def)
      ultimately show thesis using l False by (intro new [of ?r]) simp_all
    qed
  qed
qed

lemma Unregister_same [simp]: "UnregisterAppletResourceUserId aruid app am = am"
  by (simp add: UnregisterAppletResourceUserId_def)

lemma SetShim_same: "SetShimLibraryVersion v aruid am = (rc, am') \<Longrightarrow> am' = am"
  by (auto simp: SetShimLibraryVersion_def Let_def split: option.splits if_splits)

lemma app_step_grows:
  "app_step p am am' \<Longrightarrow> app_slots us am \<Longrightarrow> \<exists>vs. app_slots (us @ vs) am'"
proof (induction rule: app_step.induct)
  case (register fuel aruid app am w rc am' w')
  show ?case
    by (rule Register_cases [OF register(2,1)])
      (use register(2) in \<open>auto intro: exI [of _ "[]"]\<close>)
next
  case (unregister am aruid app)
  then show ?case by (auto intro: exI [of _ "[]"])
next
  case (set_version version aruid am rc am')
  then show ?case by (auto dest!: SetShim_same intro: exI [of _ "[]"])
qed

lemma app_steps_grow: "(app_step p)\<^sup>*\<^sup>* am am' \<Longrightarrow> app_slots us am \<Longrightarrow> \<exists>vs. app_slots (us @ vs) am'"
proof (induction rule: rtranclp_induct)
  case base
  then show ?case by (auto intro: exI [of _ "[]"])
next
  case (step am' am'')
  then obtain vs where "app_slots (us @ vs) am'" by blast
  from app_step_grows [OF step(2) this] show ?case by auto
qed

lemma app_ok_ctor: "app_slots [] (AppManager_Initialize ApplicationAlbumManager_ctor)"
  by (simp add: app_slots_def AppManager_Initialize_def ApplicationAlbumManager_ctor_def)

interpretation applications: state_machine
  "\<lambda>am. am = AppManager_Initialize ApplicationAlbumManager_ctor" "app_step p" app_ok
  for p :: "'w platform"
  by unfold_locales (use app_ok_ctor app_step_grows in \<open>auto simp: app_ok_def, blast\<close>)

lemma app_ok_versions: "app_ok am \<Longrightarrow> r \<in> set (resources am) \<Longrightarrow> res_version r = 0"
  by (auto simp: app_ok_def app_slots_def zero_resource_def)

lemma by_application_Some: "by_application app am = Some r \<Longrightarrow>
    r \<in> set (resources am) \<and> res_application_id r = app"
  by (auto simp: by_application_def find_Some_iff)

section \<open>Properties\<close>

text \<open>A slot is never given back: once four applications were registered, every registration fails
  with \<open>ResultControlResourceLimit\<close>, however many are unregistered in between.\<close>

theorem registration_exhausts:
  "(app_step p)\<^sup>*\<^sup>* (AppManager_Initialize ApplicationAlbumManager_ctor) am \<Longrightarrow>
   length (filter res_used (resources am)) = 4 \<Longrightarrow> (app_step p)\<^sup>*\<^sup>* am am' \<Longrightarrow>
   RegisterAppletResourceUserId fuel p aruid app am' w = Inr (ResultControlResourceLimit, am', w)"
proof -
  assume A: "(app_step p)\<^sup>*\<^sup>* (AppManager_Initialize ApplicationAlbumManager_ctor) am"
    "length (filter res_used (resources am)) = 4" "(app_step p)\<^sup>*\<^sup>* am am'"
  obtain us where us: "app_slots us am" using app_steps_grow [OF A(1) app_ok_ctor] by blast
  have "filter res_used us = us" using us by (simp add: app_slots_def filter_True)
  then have "length us = 4" using A(2) us by (auto simp: app_slots_def zero_resource_def)
  then obtain vs where "app_slots (us @ vs) am'" using app_steps_grow [OF A(3) us] by blast
  then have "app_slots us am'" using \<open>length us = 4\<close> by (auto simp: app_slots_def)
  then have "resources am' = us" "\<forall>r\<in>set us. res_used r"
    using \<open>length us = 4\<close> by (auto simp: app_slots_def)
  moreover have "am'\<lparr>resources := resources am'\<rparr> = am'" by simp
  ultimately show ?thesis
    using register_in_used [of us fuel p aruid app "[]" w]
    by (simp add: RegisterAppletResourceUserId_def)
qed

definition sample_app :: "u64 \<Rightarrow> ApplicationResource" where
  "sample_app a = \<lparr>res_used = True, res_aruid = a, res_application_id = 0x0100000000010000,
     res_version = 0, res_key = replicate 32 0x2A\<rparr>"

definition sample_apps :: "u64 list \<Rightarrow> ApplicationAlbumManager" where
  "sample_apps as = \<lparr>am_initialized = True,
     resources = map sample_app as @ replicate (4 - length as) zero_resource\<rparr>"

lemma sample_register:
  assumes "length as < 4" and "a \<noteq> 0"
  shows "RegisterAppletResourceUserId 1 (sample_platform 0x40000) a 0x0100000000010000 (sample_apps as) 0 =
    Inr (0, sample_apps (as @ [a]), 0)"
proof -
  have r: "replicate (4 - length as) zero_resource =
      zero_resource # replicate (3 - length as) zero_resource"
    using assms(1) by (simp add: Suc_diff_Suc [symmetric] replicate_Suc [symmetric] eval_nat_numeral del: replicate_Suc)
  have u: "\<forall>r\<in>set (map sample_app as). res_used r" by (auto simp: sample_app_def)
  have "replicate 32 (0x2A :: u8) \<noteq> replicate 32 0" by (simp add: replicate_eq_replicate)
  then have "draw_key 1 (sample_platform 0x40000) 0 = Inr (replicate 32 0x2A, 0)"
    by (simp add: sample_platform_def)
  then have "register_in 1 (sample_platform 0x40000) a 0x0100000000010000
      (zero_resource # replicate (3 - length as) zero_resource) 0 =
      Inr (0, sample_app a # replicate (3 - length as) zero_resource, 0)"
    using assms(2) by (simp add: zero_resource_def sample_app_def del: draw_key.simps)
  then show ?thesis
    using register_in_used [OF u, where fuel = 1 and p = "sample_platform 0x40000" and aruid = a and
        app = "0x0100000000010000" and rs = "zero_resource # replicate (3 - length as) zero_resource" and
        w = 0]
    by (simp add: RegisterAppletResourceUserId_def sample_apps_def r del: register_in.simps)
qed

lemma sample_apps_reachable:
  "(app_step (sample_platform 0x40000))\<^sup>*\<^sup>*
     (AppManager_Initialize ApplicationAlbumManager_ctor) (sample_apps [1, 2, 3, 4])"
proof -
  have s: "app_step (sample_platform 0x40000) (sample_apps as) (sample_apps (as @ [a]))"
    if "length as < 4" "a \<noteq> 0" for as a
    by (rule app_step.register [OF sample_register [OF that]])
  have "AppManager_Initialize ApplicationAlbumManager_ctor = sample_apps []"
    by (simp add: AppManager_Initialize_def ApplicationAlbumManager_ctor_def sample_apps_def)
  then show ?thesis
    using s [of "[]" 1] s [of "[1]" 2] s [of "[1, 2]" 3] s [of "[1, 2, 3]" 4]
    by (auto intro: converse_rtranclp_into_rtranclp)
qed

theorem registration_exhausts_witness:
  "RegisterAppletResourceUserId 1 (sample_platform 0x40000) 5 9
     (UnregisterAppletResourceUserId 1 0x0100000000010000 (sample_apps [1, 2, 3, 4])) 0 =
   Inr (ResultControlResourceLimit, sample_apps [1, 2, 3, 4], 0)"
  using registration_exhausts [OF sample_apps_reachable _ rtranclp.rtrancl_refl,
      where fuel = 1 and aruid = 5 and app = 9 and w = 0]
  by (simp add: sample_apps_def sample_app_def)

text \<open>An entry generated for a registered application is given back by decryption in every
  reachable state, whatever shim version was set: the version of a resource stays zero, so entries
  always use the resource's own key; an entry of another application is refused.\<close>

theorem application_entry_roundtrip:
  "(app_step p)\<^sup>*\<^sup>* (AppManager_Initialize ApplicationAlbumManager_ctor) am \<Longrightarrow>
   block_cipher (aes256_encrypt c) (aes256_decrypt c) \<Longrightarrow> wf_entry e \<Longrightarrow>
   CheckApplicationIdRegistered app am = ResultSuccess \<Longrightarrow>
   \<exists>a. GenerateApplicationAlbumEntry c k junk dst e app am = (ResultSuccess, a) \<and>
     GetAlbumEntryFromApplicationAlbumEntry c k s out a app am =
       (if application_id (fileId e) = app then (ResultSuccess, e)
        else (ResultAlbumInvalidApplicationId, out))"
proof -
  assume A: "(app_step p)\<^sup>*\<^sup>* (AppManager_Initialize ApplicationAlbumManager_ctor) am"
    "block_cipher (aes256_encrypt c) (aes256_decrypt c)" "wf_entry e"
    "CheckApplicationIdRegistered app am = ResultSuccess"
  have ok: "app_ok am" using applications.reachable_inv [OF refl A(1)] .
  obtain r where r: "by_application app am = Some r"
    using A(4) by (auto simp: CheckApplicationIdRegistered_def result_values split: option.splits)
  with ok have v: "res_version r = 0" "res_application_id r = app"
    using by_application_Some app_ok_versions by blast+
  show ?thesis
    using r v DecryptV0_EncryptV0 [OF A(2,3)]
    by (simp add: GenerateApplicationAlbumEntry_def GetAlbumEntryFromApplicationAlbumEntry_def
        entry_of_resource_def EntryV0Impl_def Let_def)
qed

theorem application_entry_roundtrip_witness:
  "\<exists>a. GenerateApplicationAlbumEntry sample_crypto initial_keys [] [] sample_entry 0x0100000000010000
       (sample_apps [1, 2, 3, 4]) = (0, a) \<and>
     GetAlbumEntryFromApplicationAlbumEntry sample_crypto initial_keys zero_AlbumSettings
       (sample_entry\<lparr>entry_size := 0\<rparr>) a 0x0100000000010000 (sample_apps [1, 2, 3, 4]) = (0, sample_entry)"
proof -
  have "CheckApplicationIdRegistered 0x0100000000010000 (sample_apps [1, 2, 3, 4]) = 0"
    by (simp add: CheckApplicationIdRegistered_def by_application_def sample_apps_def sample_app_def)
  moreover have "block_cipher (aes256_encrypt sample_crypto) (aes256_decrypt sample_crypto)"
    by (simp add: sample_cipher)
  moreover have "application_id (fileId sample_entry) = 0x0100000000010000"
    by (simp add: sample_entry_def)
  ultimately show ?thesis
    using application_entry_roundtrip [OF sample_apps_reachable _ wf_sample_entry,
        where c = sample_crypto and k = initial_keys and junk = "[]" and dst = "[]" and
          s = zero_AlbumSettings and out = "sample_entry\<lparr>entry_size := 0\<rparr>" and
          app = "0x0100000000010000"] by simp
qed

text \<open>Setting the shim library version of a registered resource reports success for version 1,
  refuses every other version, and changes nothing in either case.\<close>

theorem set_version_without_effect:
  "(app_step p)\<^sup>*\<^sup>* (AppManager_Initialize ApplicationAlbumManager_ctor) am \<Longrightarrow>
   SetShimLibraryVersion version aruid am =
     (if by_aruid aruid am = None then ResultControlNotOpened
      else if version = 1 then ResultSuccess else ResultAlbumOutOfRange, am)"
proof -
  assume "(app_step p)\<^sup>*\<^sup>* (AppManager_Initialize ApplicationAlbumManager_ctor) am"
  then have ok: "app_ok am" using applications.reachable_inv [OF refl] by blast
  have "res_version r = 0" if "by_aruid aruid am = Some r" for r
    using that app_ok_versions [OF ok] by (auto simp: by_aruid_def find_Some_iff)
  then show ?thesis by (auto simp: SetShimLibraryVersion_def Let_def split: option.splits)
qed

theorem set_version_without_effect_witness:
  "SetShimLibraryVersion 1 2 (sample_apps [1, 2, 3, 4]) = (0, sample_apps [1, 2, 3, 4])"
  using set_version_without_effect [OF sample_apps_reachable, of 1 2]
  by (simp add: by_aruid_def sample_apps_def sample_app_def)

text \<open>While a slot is unused, application zero counts as registered, with the all-zero key.\<close>

lemma application_zero_registered:
  "app_slots us am \<Longrightarrow> length us < 4 \<Longrightarrow> CheckApplicationIdRegistered 0 am = ResultSuccess"
  by (auto simp: CheckApplicationIdRegistered_def by_application_def app_slots_def find_None_iff
      zero_resource_def split: option.splits)

end
