(* ===== verification/Exif.thy ===== *)
theory Exif
  imports Types
begin

text \<open>
  The EXIF reader: \<open>image/image_types.hpp\<close>, \<open>image/impl/exif_detail.cpp\<close> (byte order, TIFF
  header, directories and their entries) and \<open>image/exif_extractor.cpp\<close> (the analysis of a
  block and the accessors of its tags).

  A pointer into a block is its offset from the start of the block; \<open>eb_data\<close> holds every byte
  that may be read from there on, which need not be as many as \<open>eb_size\<close> claims. The 16-bit and
  32-bit arithmetic on offsets and sizes wraps as in the code.
\<close>

section \<open>Stages\<close>

datatype ProcessStage = Unregistered | Registered | Analyzed

instantiation ProcessStage :: linorder
begin

fun stage_number :: "ProcessStage \<Rightarrow> nat" where
  "stage_number Unregistered = 0"
| "stage_number Registered = 1"
| "stage_number Analyzed = 2"

definition less_eq_ProcessStage :: "ProcessStage \<Rightarrow> ProcessStage \<Rightarrow> bool" where
  "a \<le> b \<longleftrightarrow> stage_number a \<le> stage_number b"

definition less_ProcessStage :: "ProcessStage \<Rightarrow> ProcessStage \<Rightarrow> bool" where
  "a < b \<longleftrightarrow> stage_number a < stage_number b"

lemma stage_number_inject: "stage_number a = stage_number b \<longleftrightarrow> a = b"
  by (cases a; cases b) simp_all

instance
  by standard (auto simp: less_eq_ProcessStage_def less_ProcessStage_def stage_number_inject [symmetric])

end

definition JpegStatus_Ok :: int where "JpegStatus_Ok = 0"
definition JpegStatus_InvalidFormat :: int where "JpegStatus_InvalidFormat = - 0x20"

section \<open>Byte order\<close>

text \<open>\<open>BinaryIo\<close> holds four function pointers, always set together: to \<open>motorola\<close> or
  to \<open>intel\<close>.\<close>

datatype BinaryIo = motorola | intel

definition MOTOROLA_MAGIC :: u16 where "MOTOROLA_MAGIC = 0x4d4d"
definition INTEL_MAGIC :: u16 where "INTEL_MAGIC = 0x4949"

fun GetU16 :: "BinaryIo \<Rightarrow> u8 list \<Rightarrow> u16" where
  "GetU16 motorola src = push_bit 8 (ucast (src ! 0)) OR ucast (src ! 1)"
| "GetU16 intel src = le_word src"

fun GetU32 :: "BinaryIo \<Rightarrow> u8 list \<Rightarrow> u32" where
  "GetU32 motorola src =
     push_bit 24 (ucast (src ! 0)) OR push_bit 16 (ucast (src ! 1)) OR push_bit 8 (ucast (src ! 2)) OR
     ucast (src ! 3)"
| "GetU32 intel src = le_word src"

section \<open>Directories\<close>

definition asciiStrings :: u16 where "asciiStrings = 2"
definition unsignedShort :: u16 where "unsignedShort = 3"
definition unsignedLong :: u16 where "unsignedLong = 4"
definition undefined_format :: u16 where "undefined_format = 7"

definition DataFormatSize :: "u8 list" where
  "DataFormatSize = [1, 1, 2, 4, 8, 1, 1, 2, 4, 8, 4, 8]"

record IfdHeader =
  ih_offset :: u16
  ih_count :: u16
  ih_size :: u16

text \<open>The union of a tag is its 64-bit count; \<open>data.offset\<close> and \<open>data.size\<close> are its halves.\<close>

record IfdTag =
  it_marker :: u16
  it_format :: u16
  it_count :: u64

definition data_offset :: "IfdTag \<Rightarrow> u32" where
  "data_offset t = ucast (it_count t)"

definition data_size :: "IfdTag \<Rightarrow> u32" where
  "data_size t = ucast (drop_bit 32 (it_count t))"

definition set_data :: "u32 \<Rightarrow> u32 \<Rightarrow> IfdTag \<Rightarrow> IfdTag" where
  "set_data off n t = t\<lparr>it_count := push_bit 32 (ucast n) OR ucast off\<rparr>"

definition tag :: "u16 \<Rightarrow> u16 \<Rightarrow> u64 \<Rightarrow> IfdTag" where
  "tag m f n = \<lparr>it_marker = m, it_format = f, it_count = n\<rparr>"

text \<open>
  The three headers and the two words of padding are not initialised. \<open>eb_io\<close> is \<open>None\<close> as
  long as the function pointers are not set.
\<close>

record ExifBinary =
  eb_data :: "u8 list"
  eb_size :: u32
  eb_io :: "BinaryIo option"
  main_header :: IfdHeader
  main_tags :: "IfdTag list"
  exif_header :: IfdHeader
  exif_pad :: u32
  exif_tags :: "IfdTag list"
  thumbnail_header :: IfdHeader
  thumbnail_pad :: u32
  thumbnail_tags :: "IfdTag list"

definition ExifBinary_ctor :: "ExifBinary \<Rightarrow> ExifBinary" where
  "ExifBinary_ctor junk =
     junk\<lparr>eb_io := None,
       main_tags := [tag 0x010f asciiStrings 0, tag 0x0110 asciiStrings 0, tag 0x0112 unsignedShort 1,
         tag 0x0131 asciiStrings 0, tag 0x0132 asciiStrings 0x14, tag 0x8769 unsignedLong 1,
         tag 0x8825 unsignedLong 1],
       exif_tags := [tag 0x927c undefined_format 0, tag 0xa002 unsignedShort 1,
         tag 0xa003 unsignedShort 1, tag 0xa420 asciiStrings 0x21],
       thumbnail_tags := [tag 0x0103 unsignedShort 1, tag 0x0201 unsignedLong 1,
         tag 0x0202 unsignedLong 1, tag 0 0 0]\<rparr>"

definition get_u16 :: "ExifBinary \<Rightarrow> nat \<Rightarrow> u16 run" where
  "get_u16 e off =
     (case eb_io e of None \<Rightarrow> Inl OutOfBounds
      | Some io \<Rightarrow> then_run (bytes_at (eb_data e) off 2) (\<lambda>b. Inr (GetU16 io b)))"

definition get_u32 :: "ExifBinary \<Rightarrow> nat \<Rightarrow> u32 run" where
  "get_u32 e off =
     (case eb_io e of None \<Rightarrow> Inl OutOfBounds
      | Some io \<Rightarrow> then_run (bytes_at (eb_data e) off 4) (\<lambda>b. Inr (GetU32 io b)))"

text \<open>The offset of the main directory, when the function returns true.\<close>

definition ReadTiffHeader :: "ExifBinary \<Rightarrow> (u32 option \<times> ExifBinary) run" where
  "ReadTiffHeader e =
     then_run (bytes_at (eb_data e) 0 2) (\<lambda>m.
       let magic = le_word m in
       if magic \<noteq> MOTOROLA_MAGIC \<and> magic \<noteq> INTEL_MAGIC then Inr (None, e)
       else
         let e = e\<lparr>eb_io := Some (if magic = MOTOROLA_MAGIC then motorola else intel)\<rparr> in
         then_run (get_u16 e 2) (\<lambda>tagMark.
           if tagMark \<noteq> 0x2A then Inr (None, e)
           else then_run (get_u32 e 4) (\<lambda>offset.
             if offset < 8 \<or> eb_size e - 6 < offset then Inr (None, e) else Inr (Some offset, e))))"

definition ReadIfdHeader :: "u32 \<Rightarrow> ExifBinary \<Rightarrow> IfdHeader option run" where
  "ReadIfdHeader offset e =
     (if offset < 8 \<or> eb_size e - 6 < offset then Inr None
      else then_run (get_u16 e (unat offset)) (\<lambda>count.
        let headerSize = count * 3 * 4 in
        if eb_size e < offset + ucast headerSize + 6 then Inr None
        else then_run (get_u32 e (unat (headerSize OR 2) + unat offset)) (\<lambda>next_offset.
          let ifdSize = ucast next_offset :: u16 in
          if ifdSize \<noteq> 0 \<and> (ifdSize < 8 \<or> eb_size e - 6 < ucast ifdSize) then Inr None
          else Inr (Some \<lparr>ih_offset = ucast offset, ih_count = count, ih_size = ifdSize\<rparr>))))"

fun tag_index :: "u16 \<Rightarrow> IfdTag list \<Rightarrow> nat" where
  "tag_index marker [] = 0"
| "tag_index marker (t # ts) = (if marker = it_marker t then 0 else Suc (tag_index marker ts))"

definition format_size :: "u16 \<Rightarrow> u8 run" where
  "format_size format =
     (if 1 \<le> format \<and> format \<le> 12 then Inr (DataFormatSize ! (unat format - 1)) else Inl OutOfBounds)"

text \<open>
  One turn of the loop. \<open>tags\<close> is the array with what lies behind it: when no tag has the marker
  the code looks at \<open>tags[count]\<close>.
\<close>

definition search_entry :: "ExifBinary \<Rightarrow> u16 \<Rightarrow> IfdHeader \<Rightarrow> nat \<Rightarrow> IfdTag list \<Rightarrow> IfdTag list run" where
  "search_entry e count header entryIndex tags =
     (let offset = of_nat entryIndex * 0xc + 2 + ih_offset header; at = unat offset in
      then_run (get_u16 e at) (\<lambda>marker.
      let tagIndex = tag_index marker (take (unat count) tags) in
      if length tags \<le> tagIndex then Inl OutOfBounds
      else let t = tags ! tagIndex in
      if marker \<noteq> it_marker t then Inr tags
      else then_run (get_u16 e (at + 2)) (\<lambda>format.
      if format \<noteq> it_format t then Inr tags
      else then_run (get_u32 e (at + 4)) (\<lambda>componentNumber.
      if 0xffff \<le> componentNumber \<or> (it_count t \<noteq> 0 \<and> it_count t \<noteq> ucast componentNumber) then Inr tags
      else then_run (format_size format) (\<lambda>formatSize.
      let n = ucast formatSize * componentNumber in
      then_run (if n \<le> 4 then Inr (of_nat (at + 8)) else get_u32 e (at + 8)) (\<lambda>off.
        Inr (tags[tagIndex := set_data off n t])))))))"

fun search_entries :: "ExifBinary \<Rightarrow> u16 \<Rightarrow> IfdHeader \<Rightarrow> nat list \<Rightarrow> IfdTag list \<Rightarrow> IfdTag list run" where
  "search_entries e count header [] tags = Inr tags"
| "search_entries e count header (i # is) tags =
     then_run (search_entry e count header i tags) (search_entries e count header is)"

definition SearchIfdTags :: "IfdTag list \<Rightarrow> u16 \<Rightarrow> IfdHeader \<Rightarrow> ExifBinary \<Rightarrow> (bool \<times> IfdTag list) run" where
  "SearchIfdTags tags count header e =
     (if count = 0 then Inr (True, tags)
      else then_run (search_entries e count header [0..<unat (ih_count header)] tags)
        (\<lambda>tags. Inr (True, tags)))"

text \<open>What lies behind the first two arrays of tags, read as a tag: the header that follows and
  the first eight bytes of the array after it.\<close>

definition behind :: "IfdHeader \<Rightarrow> u32 \<Rightarrow> IfdTag list \<Rightarrow> IfdTag" where
  "behind header padding following =
     tag (ih_offset header) (ih_count header)
       (push_bit 32 (ucast padding) OR push_bit 16 (ucast (it_format (hd following))) OR
        ucast (it_marker (hd following)))"

section \<open>The extractor\<close>

record ExifExtractor =
  stage :: ProcessStage
  ex_data :: "u8 list"
  ex_size :: u64
  ex_binary :: ExifBinary

definition ExifExtractor_ctor :: "ExifBinary \<Rightarrow> ExifExtractor \<Rightarrow> ExifExtractor" where
  "ExifExtractor_ctor e junk = junk\<lparr>stage := Unregistered, ex_binary := e\<rparr>"

definition SetExifData :: "u8 list \<Rightarrow> u64 \<Rightarrow> ExifExtractor \<Rightarrow> ExifExtractor" where
  "SetExifData bytes n x = x\<lparr>ex_data := bytes, ex_size := n, stage := Registered\<rparr>"

text \<open>The three parts of the analysis, each with its success and the block as it leaves it.\<close>

definition analyse_main :: "ExifBinary \<Rightarrow> (bool \<times> ExifBinary) run" where
  "analyse_main e =
     then_run (ReadTiffHeader e) (\<lambda>(offset, e).
       case offset of None \<Rightarrow> Inr (False, e)
       | Some offset \<Rightarrow>
           then_run (ReadIfdHeader offset e) (\<lambda>header.
             case header of None \<Rightarrow> Inr (False, e)
             | Some h \<Rightarrow>
                 let e = e\<lparr>main_header := h\<rparr> in
                 then_run (SearchIfdTags
                     (main_tags e @ [behind (exif_header e) (exif_pad e) (exif_tags e)]) 7 h e)
                   (\<lambda>(success, tags). Inr (success, e\<lparr>main_tags := take 7 tags\<rparr>))))"

definition analyse_exif :: "ExifBinary \<Rightarrow> (bool \<times> ExifBinary) run" where
  "analyse_exif e =
     (let exifTagDataOffset = data_offset (main_tags e ! 5) in
      if exifTagDataOffset = 0
      then Inr (True, e\<lparr>exif_tags := map (\<lambda>t. t\<lparr>it_count := 0\<rparr>) (exif_tags e)\<rparr>)
      else then_run (get_u32 e (unat exifTagDataOffset)) (\<lambda>exifOffset.
        if eb_size e \<le> exifOffset then Inr (False, e)
        else then_run (ReadIfdHeader exifOffset e) (\<lambda>header.
          case header of None \<Rightarrow> Inr (False, e)
          | Some h \<Rightarrow>
              let e = e\<lparr>exif_header := h\<rparr> in
              then_run (SearchIfdTags
                  (exif_tags e @ [behind (thumbnail_header e) (thumbnail_pad e) (thumbnail_tags e)]) 4 h e)
                (\<lambda>(success, tags). Inr (success, e\<lparr>exif_tags := take 4 tags\<rparr>)))))"

definition analyse_thumbnail :: "ExifBinary \<Rightarrow> (bool \<times> ExifBinary) run" where
  "analyse_thumbnail e =
     (let exifSize = ih_size (main_header e) in
      if exifSize = 0
      then Inr (True, e\<lparr>thumbnail_tags :=
        map (\<lambda>t. t\<lparr>it_count := 0\<rparr>) (take 3 (thumbnail_tags e)) @ drop 3 (thumbnail_tags e)\<rparr>)
      else then_run (ReadIfdHeader (ucast exifSize) e) (\<lambda>header.
        case header of None \<Rightarrow> Inr (False, e)
        | Some h \<Rightarrow>
            let e = e\<lparr>thumbnail_header := h\<rparr> in
            then_run (SearchIfdTags (thumbnail_tags e) 3 h e)
              (\<lambda>(success, tags). Inr (success, e\<lparr>thumbnail_tags := tags\<rparr>))))"

definition if_ok ::
  "(bool \<times> ExifBinary) run \<Rightarrow> (ExifBinary \<Rightarrow> (bool \<times> ExifBinary) run) \<Rightarrow> (bool \<times> ExifBinary) run" where
  "if_ok m k = then_run m (\<lambda>(success, e). if success then k e else Inr (False, e))"

definition Analyse :: "ExifExtractor \<Rightarrow> (int \<times> ExifExtractor) run" where
  "Analyse x =
     (if stage x < Registered then Inl Abort
      else then_run
        (if_ok (analyse_main ((ex_binary x)\<lparr>eb_data := ex_data x, eb_size := ucast (ex_size x)\<rparr>)) (\<lambda>e.
         if_ok (analyse_exif e) analyse_thumbnail))
        (\<lambda>(success, e).
          if success then Inr (JpegStatus_Ok, x\<lparr>ex_binary := e, stage := Analyzed\<rparr>)
          else Inr (JpegStatus_InvalidFormat, x\<lparr>ex_binary := e\<rparr>)))"

subsection \<open>Accessors\<close>

fun scan_nonzero :: "u8 list \<Rightarrow> nat \<Rightarrow> nat \<Rightarrow> bool run" where
  "scan_nonzero bs i 0 = Inr True"
| "scan_nonzero bs i (Suc n) =
     then_run (byte_at bs i) (\<lambda>b. if b = 0 then Inr False else scan_nonzero bs (Suc i) n)"

text \<open>The check shared by the accessors of strings: \<open>n\<close> bytes, the last and only the last NUL.\<close>

definition terminated :: "u8 list \<Rightarrow> nat \<Rightarrow> nat \<Rightarrow> bool run" where
  "terminated bs off n =
     then_run (scan_nonzero bs off (n - 1)) (\<lambda>ok.
       if \<not> ok then Inr False
       else then_run (byte_at bs (off + (n - 1))) (\<lambda>b. Inr (b = 0)))"

definition extract_string :: "IfdTag \<Rightarrow> ExifExtractor \<Rightarrow> (u32 \<times> u32) option run" where
  "extract_string t x =
     (if data_size t = 0 then Inr None
      else then_run (terminated (eb_data (ex_binary x)) (unat (data_offset t)) (unat (data_size t)))
        (\<lambda>ok. Inr (if ok then Some (data_offset t, data_size t) else None)))"

definition ExtractMaker :: "ExifExtractor \<Rightarrow> (u32 \<times> u32) option run" where
  "ExtractMaker x = extract_string (main_tags (ex_binary x) ! 0) x"

definition ExtractModel :: "ExifExtractor \<Rightarrow> (u32 \<times> u32) option run" where
  "ExtractModel x = extract_string (main_tags (ex_binary x) ! 1) x"

definition ExtractOrientation :: "ExifExtractor \<Rightarrow> u16 option run" where
  "ExtractOrientation x =
     (let t = main_tags (ex_binary x) ! 2 in
      if data_size t \<noteq> 2 then Inr None
      else then_run (get_u16 (ex_binary x) (unat (data_offset t))) (\<lambda>num.
        Inr (if 9 \<le> num then None else Some num)))"

definition ExtractSoftware :: "ExifExtractor \<Rightarrow> (u32 \<times> u32) option run" where
  "ExtractSoftware x = extract_string (main_tags (ex_binary x) ! 3) x"

definition ExtractDateTime :: "ExifExtractor \<Rightarrow> (u32 \<times> u32) option run" where
  "ExtractDateTime x =
     (let t = main_tags (ex_binary x) ! 4 in
      if data_size t \<noteq> 0x14 then Inr None
      else then_run (terminated (eb_data (ex_binary x)) (unat (data_offset t)) 0x14)
        (\<lambda>ok. Inr (if ok then Some (data_offset t, 0x14) else None)))"

definition ExtractMakerNote :: "ExifExtractor \<Rightarrow> (u32 \<times> u32) option run" where
  "ExtractMakerNote x =
     (let t = exif_tags (ex_binary x) ! 0 in
      if data_size t = 0 then Inr None else Inr (Some (data_offset t, data_size t)))"

definition ExtractEffectiveDimension :: "ExifExtractor \<Rightarrow> (u32 \<times> u32) option run" where
  "ExtractEffectiveDimension x = Inr None"

text \<open>The size reported for the identifier is 0x14, not the 0x21 bytes that were checked.\<close>

definition ExtractUniqueId :: "ExifExtractor \<Rightarrow> (u32 \<times> u32) option run" where
  "ExtractUniqueId x =
     (let t = exif_tags (ex_binary x) ! 3 in
      if data_size t \<noteq> 0x21 then Inr None
      else then_run (terminated (eb_data (ex_binary x)) (unat (data_offset t)) 0x21)
        (\<lambda>ok. Inr (if ok then Some (data_offset t, 0x14) else None)))"

definition ExtractThumbnail :: "ExifExtractor \<Rightarrow> (u32 \<times> u32) option run" where
  "ExtractThumbnail x =
     (let e = ex_binary x; t = thumbnail_tags e in
      if data_size (t ! 0) \<noteq> 2 \<or> data_size (t ! 1) \<noteq> 4 \<or> data_size (t ! 2) \<noteq> 4 then Inr None
      else then_run (get_u16 e (unat (data_offset (t ! 0)))) (\<lambda>compression.
        if compression \<noteq> 6 then Inr None
        else then_run (get_u32 e (unat (data_offset (t ! 1)))) (\<lambda>jpegOffset.
        then_run (get_u32 e (unat (data_offset (t ! 2)))) (\<lambda>jpegSize.
          let max = eb_size e in
          if max < jpegOffset + jpegSize \<or> max < jpegOffset \<or> max < jpegSize then Inr None
          else Inr (Some (jpegOffset, jpegSize))))))"

section \<open>Finding the block in a JPEG file\<close>

definition EXIF_START :: "u8 list" where
  "EXIF_START = [0x45, 0x58, 0x49, 0x46, 0, 0]"

definition CheckSoi :: "u8 list \<Rightarrow> u32 \<Rightarrow> int run" where
  "CheckSoi soi n =
     then_run (byte_at soi 0) (\<lambda>a.
       if a \<noteq> 0xff then Inr (- 0x20)
       else then_run (byte_at soi 1) (\<lambda>b. Inr (if b = 0xd8 then 0 else - 0x20)))"

text \<open>
  The region starts at offset 0xC; its size is what the segment announces less eight, in 16 bits,
  and is not compared with the size of the file.
\<close>

definition GetExifInfo :: "u8 list \<Rightarrow> u32 \<Rightarrow> (nat \<times> u16) option run" where
  "GetExifInfo input n =
     then_run (byte_at input 2) (\<lambda>a. if a \<noteq> 0xff then Inr None
     else then_run (byte_at input 3) (\<lambda>b. if b \<noteq> 0xe1 then Inr None
     else then_run (bytes_at input 4 2) (\<lambda>l.
       let exif_size = GetU16 motorola l in
       then_run (bytes_at input 6 6) (\<lambda>m.
         if m \<noteq> EXIF_START then Inr None else Inr (Some (0xC, exif_size - 8))))))"

text \<open>
  The caller is compiled against the declaration of \<open>GetExifInfo\<close> with a 32-bit size, and
  the file only defines the overload with a 16-bit one: \<open>info\<close> is the function it is linked with.
\<close>

definition ExtractExifRegion ::
  "(u8 list \<Rightarrow> u32 \<Rightarrow> (nat \<times> u32) option run) \<Rightarrow> u8 list \<Rightarrow> u32 \<Rightarrow> (int \<times> (nat \<times> u32) option) run" where
  "ExtractExifRegion info input n =
     (if 1 < n
      then then_run (CheckSoi input n) (\<lambda>res.
        if res \<noteq> 0 then Inr (res, None)
        else then_run (info input n) (\<lambda>r. Inr (if r = None then - 0x20 else 0, r)))
      else Inr (- 0x20, None))"

definition linked_GetExifInfo :: "u8 list \<Rightarrow> u32 \<Rightarrow> (nat \<times> u32) option run" where
  "linked_GetExifInfo input n =
     then_run (GetExifInfo input n) (\<lambda>r. Inr (map_option (\<lambda>(p, k). (p, ucast k)) r))"

end
