(* ===== verification/ExifFacts.thy ===== *)
theory ExifFacts
  imports Exif
begin

text \<open>
  What the EXIF reader guarantees. A directory printed in either byte order is read back: the search
  over its bytes computes what the list of its entries says (\<open>apply_entries\<close>), the strings it
  hands out are terminated, the thumbnail lies in the block. And where it falls short: a block
  without a pointer to a second directory is always refused.
\<close>

section \<open>Byte order\<close>

text \<open>The interface of a byte order to the reader of directories.\<close>

locale byte_order =
  fixes get16 :: "u8 list \<Rightarrow> u16"
    and put16 :: "u16 \<Rightarrow> u8 list"
    and get32 :: "u8 list \<Rightarrow> u32"
    and put32 :: "u32 \<Rightarrow> u8 list"
  assumes get_put16: "get16 (put16 v) = v"
    and get_put32: "get32 (put32 w) = w"
    and length_put16: "length (put16 v) = 2"
    and length_put32: "length (put32 w) = 4"
begin

lemma read_entry:
  "bs = put16 m @ put16 f @ put32 n @ put32 v @ rest \<Longrightarrow>
   get16 (take 2 bs) = m \<and> get16 (take 2 (drop 2 bs)) = f \<and>
   get32 (take 4 (drop 4 bs)) = n \<and> get32 (take 4 (drop 8 bs)) = v"
  by (simp add: length_put16 length_put32 get_put16 get_put32)

lemma read_head: "get16 (take 2 (put16 v @ rest)) = v" "get32 (take 4 (put32 w @ rest)) = w"
  by (simp_all add: length_put16 length_put32 get_put16 get_put32)

end

fun PutU16 :: "BinaryIo \<Rightarrow> u16 \<Rightarrow> u8 list" where
  "PutU16 motorola w = rev (le_bytes 2 w)"
| "PutU16 intel w = le_bytes 2 w"

fun PutU32 :: "BinaryIo \<Rightarrow> u32 \<Rightarrow> u8 list" where
  "PutU32 motorola w = rev (le_bytes 4 w)"
| "PutU32 intel w = le_bytes 4 w"

lemma motorola_get_put16: "GetU16 motorola (PutU16 motorola w) = w"
proof (rule bit_word_eqI)
  fix k
  assume "k < LENGTH(16)"
  then have "k < 8 \<or> (\<exists>j < 8. k = 8 + j)" by (auto intro: exI [of _ "k - 8"])
  then show "bit (GetU16 motorola (PutU16 motorola w)) k = bit w k"
    by (auto simp: le_bytes_def bit_simps numeral_2_eq_2 dest: bit_imp_le_length)
qed

lemma PutU32_motorola:
  "PutU32 motorola w = [ucast (drop_bit 24 w), ucast (drop_bit 16 w), ucast (drop_bit 8 w), ucast w]"
  by (simp add: le_bytes_def upt_rec)

lemma motorola_get_put32: "GetU32 motorola (PutU32 motorola w) = w"
proof (rule bit_word_eqI)
  fix k
  assume "k < LENGTH(32)"
  then have "k < 32" by simp
  then have "k < 8 \<or> (\<exists>j < 8. k = 8 + j) \<or> (\<exists>j < 8. k = 16 + j) \<or> (\<exists>j < 8. k = 24 + j)"
    by presburger
  then show "bit (GetU32 motorola (PutU32 motorola w)) k = bit w k"
    by (elim disjE exE conjE) (simp_all add: PutU32_motorola bit_simps del: PutU32.simps)
qed

interpretation order: byte_order "GetU16 io" "PutU16 io" "GetU32 io" "PutU32 io" for io
proof
  fix v :: u16 and w :: u32
  show "GetU16 io (PutU16 io v) = v" using motorola_get_put16 by (cases io) simp_all
  show "GetU32 io (PutU32 io w) = w" using motorola_get_put32 by (cases io) simp_all
  show "length (PutU16 io v) = 2" by (cases io) simp_all
  show "length (PutU32 io w) = 4" by (cases io) simp_all
qed

section \<open>A directory and the list of its entries\<close>

text \<open>An entry: marker, format, number of components and the value or its offset.\<close>

type_synonym entry = "u16 \<times> u16 \<times> u32 \<times> u32"

fun entry_bytes :: "BinaryIo \<Rightarrow> entry \<Rightarrow> u8 list" where
  "entry_bytes io (m, f, n, v) = PutU16 io m @ PutU16 io f @ PutU32 io n @ PutU32 io v"

definition directory :: "BinaryIo \<Rightarrow> entry list \<Rightarrow> u32 \<Rightarrow> u8 list" where
  "directory io es next_ifd =
     PutU16 io (of_nat (length es)) @ concat (map (entry_bytes io) es) @ PutU32 io next_ifd"

lemma length_entry_bytes [simp]: "length (entry_bytes io e) = 12"
  by (cases e) (simp add: order.length_put16 order.length_put32)

lemma length_concat_entries [simp]: "length (concat (map (entry_bytes io) es)) = 12 * length es"
  by (induction es) simp_all

lemma drop_entries:
  "i < length es \<Longrightarrow> drop (12 * i) (concat (map (entry_bytes io) es)) =
     entry_bytes io (es ! i) @ concat (map (entry_bytes io) (drop (Suc i) es))"
proof (induction es arbitrary: i)
  case (Cons e es)
  then show ?case by (cases i) simp_all
qed simp

lemma length_directory [simp]: "length (directory io es nx) = 12 * length es + 6"
  by (simp add: directory_def order.length_put16 order.length_put32)

text \<open>
  What one entry, found at offset \<open>at\<close>, does to the tags. A matching entry of a format that has
  no size (a tag of the thumbnail's table has format 0) reads outside the table of sizes.
\<close>

fun apply_entry :: "nat \<Rightarrow> nat \<Rightarrow> entry \<Rightarrow> IfdTag list \<Rightarrow> IfdTag list run" where
  "apply_entry k at (m, f, n, v) tags =
     (let i = tag_index m (take k tags); t = tags ! i in
      if m = it_marker t \<and> f = it_format t \<and> n < 0xffff \<and> (it_count t = 0 \<or> it_count t = ucast n)
      then if 1 \<le> f \<and> f \<le> 12
        then let bytes = ucast (DataFormatSize ! (unat f - 1)) * n
             in Inr (tags[i := set_data (if bytes \<le> 4 then of_nat (at + 8) else v) bytes t])
        else Inl OutOfBounds
      else Inr tags)"

fun apply_entries :: "nat \<Rightarrow> nat \<Rightarrow> entry list \<Rightarrow> IfdTag list \<Rightarrow> IfdTag list run" where
  "apply_entries k at [] tags = Inr tags"
| "apply_entries k at (e # es) tags = then_run (apply_entry k at e tags) (apply_entries k (at + 12) es)"

text \<open>A tag no entry goes wrong on: its format has a size, or no entry can match its count.\<close>

definition tag_ok :: "IfdTag \<Rightarrow> bool" where
  "tag_ok t \<longleftrightarrow> 1 \<le> it_format t \<and> it_format t \<le> 12 \<or> 0xffff \<le> it_count t"

lemma tag_index_bound: "tag_index m ts \<le> length ts"
  by (induction ts) simp_all

lemma set_data_ok: "1 \<le> it_format t \<and> it_format t \<le> 12 \<Longrightarrow> tag_ok (set_data a b t)"
  by (simp add: tag_ok_def set_data_def)

lemma ucast_below: "(n :: u32) < 0xffff \<Longrightarrow> (ucast n :: u64) < 0xffff"
  by transfer simp

lemma apply_entry_length: "apply_entry k at e tags = Inr ts \<Longrightarrow> length ts = length tags"
  by (cases e) (auto simp: Let_def split: if_splits)

lemma apply_entry_ok:
  "list_all tag_ok tags \<Longrightarrow> k < length tags \<Longrightarrow>
   \<exists>ts. apply_entry k at e tags = Inr ts \<and> list_all tag_ok ts \<and> k < length ts"
proof (cases e)
  case (fields m f n v)
  assume A: "list_all tag_ok tags" "k < length tags"
  define i where "i = tag_index m (take k tags)"
  have i: "i < length tags" using tag_index_bound [of m "take k tags"] A(2) by (simp add: i_def)
  then have "tag_ok (tags ! i)" using A(1) by (simp add: list_all_length)
  moreover have "(ucast n :: u64) < 0xffff" if "n < 0xffff" using that
    by (rule ucast_below)
  ultimately have "1 \<le> it_format (tags ! i) \<and> it_format (tags ! i) \<le> 12"
    if "n < 0xffff" "it_count (tags ! i) = 0 \<or> it_count (tags ! i) = ucast n"
    using that by (auto simp: tag_ok_def)
  then show ?thesis
    using A i by (auto simp: fields Let_def i_def [symmetric] list_all_length nth_list_update
        intro: set_data_ok)
qed

lemma apply_entries_ok:
  "list_all tag_ok tags \<Longrightarrow> k < length tags \<Longrightarrow> \<exists>ts. apply_entries k at es tags = Inr ts"
proof (induction es arbitrary: at tags)
  case (Cons e es)
  obtain ts where "apply_entry k at e tags = Inr ts" "list_all tag_ok ts" "k < length ts"
    using apply_entry_ok [OF Cons.prems, of at e] by blast
  with Cons.IH [of ts "at + 12"] show ?case by simp
qed simp

lemma search_entry_apply:
  assumes "eb_io e = Some io"
    and "bs = entry_bytes io en @ rest"
    and "drop at (eb_data e) = bs" and "at + 12 \<le> length (eb_data e)"
    and "unat (of_nat i * 0xc + 2 + ih_offset h) = at" and "unat count < length tags"
  shows "search_entry e count h i tags = apply_entry (unat count) at en tags"
proof (cases en)
  case (fields m f n v)
  define j where "j = tag_index m (take (unat count) tags)"
  have j: "j < length tags"
    using tag_index_bound [of m "take (unat count) tags"] assms(6) by (simp add: j_def)
  have rd: "GetU16 io (take 2 (drop at (eb_data e))) = m"
    "GetU16 io (take 2 (drop (at + 2) (eb_data e))) = f"
    "GetU32 io (take 4 (drop (at + 4) (eb_data e))) = n"
    "GetU32 io (take 4 (drop (at + 8) (eb_data e))) = v"
  proof -
    have "bs = PutU16 io m @ PutU16 io f @ PutU32 io n @ PutU32 io v @ rest"
      using assms(2) fields by simp
    from order.read_entry [OF this] have r: "GetU16 io (take 2 bs) = m"
      "GetU16 io (take 2 (drop 2 bs)) = f" "GetU32 io (take 4 (drop 4 bs)) = n"
      "GetU32 io (take 4 (drop 8 bs)) = v" by simp_all
    have d: "drop (at + k) (eb_data e) = drop k bs" for k
      unfolding assms(3) [symmetric] drop_drop by (simp only: add.commute)
    show "GetU16 io (take 2 (drop at (eb_data e))) = m"
      "GetU16 io (take 2 (drop (at + 2) (eb_data e))) = f"
      "GetU32 io (take 4 (drop (at + 4) (eb_data e))) = n"
      "GetU32 io (take 4 (drop (at + 8) (eb_data e))) = v"
      by (simp_all only: d assms(3) r)
  qed
  have reads: "get_u16 e at = Inr m" "get_u16 e (at + 2) = Inr f" "get_u32 e (at + 4) = Inr n"
    "get_u32 e (at + 8) = Inr v"
    using assms(4) rd by (simp_all add: get_u16_def get_u32_def assms(1))
  have "\<not> length tags \<le> j" using j by simp
  then show ?thesis
    unfolding search_entry_def assms(5) Let_def reads then_run_Inr j_def [symmetric] fields
    by (auto simp: reads j_def [symmetric] Let_def not_le format_size_def)
qed

lemma search_entries_apply:
  assumes "eb_io e = Some io" and "ih_offset h = of_nat p" and "unat count < length tags"
    and "drop (p + 2) (eb_data e) = concat (map (entry_bytes io) es) @ rest"
    and "p + 2 + 12 * length es \<le> length (eb_data e)" and "length (eb_data e) \<le> 0xffff"
    and "i \<le> length es"
  shows "search_entries e count h [i..<length es] tags =
    apply_entries (unat count) (p + 2 + 12 * i) (drop i es) tags"
  using assms(3,7)
proof (induction "length es - i" arbitrary: i tags)
  case 0
  then show ?case by simp
next
  case (Suc k)
  then have i: "i < length es" by simp
  have at: "unat (of_nat i * 0xc + 2 + ih_offset h :: u16) = p + 2 + 12 * i"
  proof -
    have "of_nat i * 0xc + 2 + ih_offset h = (of_nat (p + 2 + 12 * i) :: u16)"
      using assms(2) by simp
    then show ?thesis
      using i assms(5,6) by (simp only: unat_of_nat) (simp add: take_bit_nat_eq_self)
  qed
  have "drop (p + 2 + 12 * i) (eb_data e) = drop (12 * i) (drop (p + 2) (eb_data e))"
    unfolding drop_drop by (simp only: ac_simps)
  also have "\<dots> = entry_bytes io (es ! i) @ concat (map (entry_bytes io) (drop (Suc i) es)) @ rest"
    unfolding assms(4) using i by (simp add: drop_entries)
  finally have d: "drop (p + 2 + 12 * i) (eb_data e) = \<dots>" .
  have step: "search_entry e count h i tags = apply_entry (unat count) (p + 2 + 12 * i) (es ! i) tags"
    by (rule search_entry_apply [OF assms(1) refl d _ at Suc.prems(1)]) (use i assms(5) in simp)
  have rest: "search_entries e count h [Suc i..<length es] ts =
      apply_entries (unat count) (p + 2 + 12 * Suc i) (drop (Suc i) es) ts"
    if "apply_entry (unat count) (p + 2 + 12 * i) (es ! i) tags = Inr ts" for ts
    using Suc i apply_entry_length [OF that] by (intro Suc.hyps(1)) simp_all
  show ?case
    using i step rest
    by (cases "apply_entry (unat count) (p + 2 + 12 * i) (es ! i) tags")
      (simp_all add: upt_conv_Cons Cons_nth_drop_Suc [symmetric])
qed

lemma or_two: "(w * 4) OR 2 = w * 4 + (2 :: u16)"
proof -
  have "w * 4 = push_bit 2 w" by (simp add: push_bit_eq_mult)
  moreover have "\<not> bit (push_bit 2 w) k \<or> \<not> bit (2 :: u16) k" for k
    by (auto simp: bit_simps)
  ultimately show ?thesis using disjunctive_add [of "push_bit 2 w" 2] by simp
qed

lemma ReadIfdHeader_directory:
  assumes "eb_io e = Some io" and "eb_data e = pre @ directory io es nx @ post"
    and "8 \<le> length pre" and "length (eb_data e) \<le> 0xffff"
    and "eb_size e = of_nat (length (eb_data e))"
    and "nx = 0 \<or> 8 \<le> nx \<and> nx \<le> eb_size e - 6"
  shows "ReadIfdHeader (of_nat (length pre)) e =
    Inr (Some \<lparr>ih_offset = of_nat (length pre), ih_count = of_nat (length es), ih_size = ucast nx\<rparr>)"
proof -
  let ?p = "length pre" and ?n = "length es" and ?hs = "of_nat (length es) * 3 * 4 :: u16"
  have len: "?p + 12 * ?n + 6 \<le> length (eb_data e)" using assms(2) by simp
  have un: "unat (of_nat k :: u32) = k" if "k \<le> 0xffff" for k
    using that by (simp add: unat_of_nat take_bit_nat_eq_self)
  have hs: "unat ?hs = 12 * ?n"
  proof -
    have "?hs = of_nat (12 * ?n)" by simp
    then show ?thesis using len assms(4) by (simp only: unat_of_nat) (simp add: take_bit_nat_eq_self)
  qed
  have hs2: "unat (?hs OR 2) = 12 * ?n + 2"
  proof -
    have "?hs OR 2 = of_nat (12 * ?n + 2)" unfolding or_two by simp
    then show ?thesis using len assms(4) by (simp only: unat_of_nat) (simp add: take_bit_nat_eq_self)
  qed
  have size: "eb_size e - 6 = of_nat (length (eb_data e) - 6)"
    using assms(5) len by (simp add: of_nat_diff)
  have usize: "unat (eb_size e - 6) = length (eb_data e) - 6"
    unfolding size by (rule un) (use assms(4) in simp)
  have rd1: "get_u16 e ?p = Inr (of_nat ?n)"
  proof -
    have "drop ?p (eb_data e) = PutU16 io (of_nat ?n) @
        concat (map (entry_bytes io) es) @ PutU32 io nx @ post"
      by (simp add: assms(2) directory_def)
    then show ?thesis
      using order.read_head(1) [of io "of_nat ?n" "concat (map (entry_bytes io) es) @ PutU32 io nx @ post"] len
      by (simp add: get_u16_def assms(1))
  qed
  have rd2: "get_u32 e (12 * ?n + 2 + ?p) = Inr nx"
  proof -
    have "drop (12 * ?n + 2 + ?p) (eb_data e) = PutU32 io nx @ post"
      by (simp add: assms(2) directory_def order.length_put16)
    then show ?thesis
      using order.read_head(2) [of io nx post] len by (simp add: get_u32_def assms(1))
  qed
  have b1: "\<not> (of_nat ?p < (8 :: u32) \<or> eb_size e - 6 < of_nat ?p)"
    using assms(3,4) len by (simp add: word_less_nat_alt usize un)
  have b2: "\<not> eb_size e < of_nat ?p + ucast ?hs + 6"
  proof -
    have "of_nat ?p + ucast ?hs + (6 :: u32) = of_nat (?p + 12 * ?n + 6)"
      using hs of_nat_unat [of ?hs, where ?'a = "32 word"] by simp
    then show ?thesis using assms(4,5) len by (simp only: word_less_nat_alt un)
  qed
  have b3: "\<not> ((ucast nx :: u16) \<noteq> 0 \<and> (ucast nx < (8 :: u16) \<or> eb_size e - 6 < ucast (ucast nx :: u16)))"
  proof -
    have "unat nx \<le> 0xffff"
      using assms(4,6) unfolding word_le_nat_alt usize by auto
    then have u: "unat (ucast nx :: u16) = unat nx"
      by (simp add: unsigned_ucast_eq unsigned_take_bit_eq take_bit_nat_eq_self)
    have "ucast (ucast nx :: u16) = (of_nat (unat (ucast nx :: u16)) :: u32)" by simp
    also have "\<dots> = nx" unfolding u by simp
    finally have "ucast (ucast nx :: u16) = nx" .
    with u show ?thesis using assms(6) by (auto simp: word_less_nat_alt word_le_nat_alt)
  qed
  have p: "unat (of_nat ?p :: u32) = ?p" using len assms(4) by (intro un) simp
  show ?thesis
    unfolding ReadIfdHeader_def if_not_P [OF b1] p rd1 then_run_Inr Let_def if_not_P [OF b2] hs2 rd2
      if_not_P [OF b3]
    using p of_nat_unat [of "of_nat ?p :: u32", where ?'a = "16 word"] by simp
qed

lemma small_link:
  assumes "length (eb_data e) \<le> 0xffff" and "eb_size e = of_nat (length (eb_data e))"
    and "nx = 0 \<or> 8 \<le> nx \<and> nx \<le> eb_size e - 6" and "6 \<le> length (eb_data e)"
  shows "ucast (ucast nx :: u16) = (nx :: u32)"
proof -
  have "eb_size e - 6 = of_nat (length (eb_data e) - 6)" using assms(2,4) by (simp add: of_nat_diff)
  then have "unat (eb_size e - 6) = length (eb_data e) - 6"
    using assms(1) by (simp only: unat_of_nat) (simp add: take_bit_nat_eq_self)
  then have "unat nx \<le> 0xffff" using assms(1,3) unfolding word_le_nat_alt by auto
  then have u: "unat (ucast nx :: u16) = unat nx"
    by (simp add: unsigned_ucast_eq unsigned_take_bit_eq take_bit_nat_eq_self)
  have "ucast (ucast nx :: u16) = (of_nat (unat (ucast nx :: u16)) :: u32)" by simp
  also have "\<dots> = nx" unfolding u by simp
  finally show ?thesis .
qed

text \<open>A block with one directory, an extractor with a string and one with a thumbnail.\<close>

definition sample_block :: "BinaryIo \<Rightarrow> ExifBinary" where
  "sample_block io =
     \<lparr>eb_data = replicate 8 0 @ directory io [(0x0112, 3, 1, 0x00060000)] 0, eb_size = 26,
      eb_io = Some io, main_header = \<lparr>ih_offset = 0, ih_count = 0, ih_size = 0\<rparr>, main_tags = [],
      exif_header = \<lparr>ih_offset = 0, ih_count = 0, ih_size = 0\<rparr>, exif_pad = 0, exif_tags = [],
      thumbnail_header = \<lparr>ih_offset = 0, ih_count = 0, ih_size = 0\<rparr>, thumbnail_pad = 0,
      thumbnail_tags = []\<rparr>"

definition sample_plain_exif :: "u8 list" where
  "sample_plain_exif =
     [0x4d, 0x4d, 0, 0x2a, 0, 0, 0, 8] @ directory motorola [(0x0112, 3, 1, 0x00060000)] 0"

definition sample_extractor :: ExifExtractor where
  "sample_extractor =
     \<lparr>stage = Analyzed, ex_data = [0x41, 0], ex_size = 2,
      ex_binary = (sample_block intel)\<lparr>eb_data := [0x41, 0], main_tags := [tag 0x010f 2 0x200000000]\<rparr>\<rparr>"

definition sample_thumbnail :: ExifExtractor where
  "sample_thumbnail =
     \<lparr>stage = Analyzed, ex_data = [], ex_size = 16,
      ex_binary = (sample_block intel)\<lparr>eb_data := [6, 0, 0, 0, 4, 0, 0, 0, 2, 0, 0, 0, 0, 0, 0, 0],
        eb_size := 16, thumbnail_tags := [tag 0x0103 3 0x200000000, tag 0x0201 4 0x400000004,
          tag 0x0202 4 0x400000008, tag 0 0 0]\<rparr>\<rparr>"

section \<open>Strings and thumbnails\<close>

lemma scan_nonzero_True:
  "scan_nonzero bs i n = Inr True \<Longrightarrow> (\<forall>j<n. i + j < length bs \<and> bs ! (i + j) \<noteq> 0)"
proof (induction bs i n rule: scan_nonzero.induct)
  case (2 bs i n)
  then have "i < length bs \<and> bs ! i \<noteq> 0" "scan_nonzero bs (Suc i) n = Inr True"
    by (auto simp: byte_at_def split: if_splits)
  with "2.IH" [of "bs ! i"] show ?case
    by (metis Suc_less_eq add_Suc add_Suc_right not0_implies_Suc add.right_neutral byte_at_in)
qed simp

lemma terminated_True:
  "terminated bs off n = Inr True \<Longrightarrow> 0 < n \<Longrightarrow>
   off + n \<le> length bs \<and> bs ! (off + (n - 1)) = 0 \<and> (\<forall>j<n - 1. bs ! (off + j) \<noteq> 0)"
proof -
  assume A: "terminated bs off n = Inr True" "0 < n"
  then have "scan_nonzero bs off (n - 1) = Inr True"
    by (auto simp: terminated_def then_run_eq_Inr split: if_splits)
  moreover from this A(1) have "off + (n - 1) < length bs \<and> bs ! (off + (n - 1)) = 0"
    by (auto simp: terminated_def byte_at_def split: if_splits)
  ultimately show ?thesis using A(2) scan_nonzero_True [of bs off "n - 1"] by auto
qed

lemma ExtractDateTime_Some:
  "ExtractDateTime x = Inr (Some (p, n)) \<Longrightarrow>
   n = 0x14 \<and> terminated (eb_data (ex_binary x)) (unat p) 0x14 = Inr True"
  by (auto simp: ExtractDateTime_def Let_def then_run_eq_Inr split: if_splits)

lemma extract_string_Some:
  "extract_string t x = Inr (Some (p, n)) \<Longrightarrow>
   n \<noteq> 0 \<and> terminated (eb_data (ex_binary x)) (unat p) (unat n) = Inr True"
  by (auto simp: extract_string_def then_run_eq_Inr split: if_splits)

lemma no_wrap_region:
  "a + b \<le> m \<Longrightarrow> a \<le> m \<Longrightarrow> b \<le> m \<Longrightarrow> m < 0x80000000 \<Longrightarrow> unat a + unat b \<le> unat (m :: u32)"
  by (simp add: word_le_nat_alt word_less_nat_alt unat_word_ariths take_bit_nat_eq_self)

section \<open>Tags that no entry carries\<close>

lemma tag_index_found:
  "tag_index m ts < length ts \<Longrightarrow> it_marker (ts ! tag_index m ts) = m"
  by (induction ts) auto

text \<open>A marker the block nowhere spells.\<close>

definition unspelled :: "ExifBinary \<Rightarrow> u16 \<Rightarrow> bool" where
  "unspelled e m \<longleftrightarrow> (\<forall>off. get_u16 e off \<noteq> Inr m)"

lemma search_entry_keeps:
  assumes "search_entry e count h i tags = Inr tags'" and "unspelled e (it_marker (tags ! k))"
  shows "length tags' = length tags \<and> tags' ! k = tags ! k"
  using assms
  by (auto simp: search_entry_def Let_def then_run_eq_Inr unspelled_def nth_list_update split: if_splits)

lemma search_entries_keeps:
  "search_entries e count h is tags = Inr tags' \<Longrightarrow> unspelled e (it_marker (tags ! k)) \<Longrightarrow>
   length tags' = length tags \<and> tags' ! k = tags ! k"
proof (induction "is" arbitrary: tags)
  case (Cons i "is")
  from Cons.prems(1) obtain ts where s: "search_entry e count h i tags = Inr ts"
    "search_entries e count h is ts = Inr tags'"
    by (auto simp: then_run_eq_Inr)
  from search_entry_keeps [OF s(1) Cons.prems(2)] Cons.IH [OF s(2)] Cons.prems(2) show ?case
    by simp
qed simp

lemma search_entries_length:
  "search_entries e count h is tags = Inr tags' \<Longrightarrow> length tags' = length tags"
proof (induction "is" arbitrary: tags)
  case (Cons i "is")
  then obtain ts where "search_entry e count h i tags = Inr ts" "length tags' = length ts"
    by (auto simp: then_run_eq_Inr)
  then show ?case by (auto simp: search_entry_def Let_def then_run_eq_Inr split: if_splits)
qed simp

lemma SearchIfdTags_keeps:
  "SearchIfdTags tags count h e = Inr (ok, tags') \<Longrightarrow> unspelled e (it_marker (tags ! k)) \<Longrightarrow>
   length tags' = length tags \<and> tags' ! k = tags ! k"
  by (auto simp: SearchIfdTags_def then_run_eq_Inr dest: search_entries_keeps split: if_splits)

lemma ReadTiffHeader_Some:
  assumes "ReadTiffHeader e = Inr (Some off, e')"
  shows "\<exists>io. e' = e\<lparr>eb_io := Some io\<rparr> \<and> get_u16 e' 2 = Inr 0x2A \<and> 4 \<le> length (eb_data e) \<and>
    le_word (take 2 (eb_data e)) = (if io = motorola then MOTOROLA_MAGIC else INTEL_MAGIC)"
proof -
  have "4 \<le> length (eb_data e)" if "get_u16 (e\<lparr>eb_io := x\<rparr>) 2 = Inr y" for x y
    using that by (auto simp: get_u16_def bytes_at_def split: option.splits if_splits)
  then show ?thesis
    using assms
    by (auto simp: ReadTiffHeader_def Let_def then_run_eq_Inr bytes_at_def MOTOROLA_MAGIC_def INTEL_MAGIC_def
        split: if_splits)
qed

lemma u16_bytes:
  assumes "le_word [a, b] = (w :: u16)"
  shows "a = ucast w \<and> b = ucast (drop_bit 8 w)"
proof -
  have "le_bytes (length [a, b]) (le_word [a, b] :: u16) = [a, b]" by (rule le_bytes_le_word) simp
  then show ?thesis unfolding assms by (simp add: le_bytes_def upt_rec)
qed

text \<open>Four bytes from offset 1 on are far beyond a block of up to 10825 bytes.\<close>

lemma offset_one_too_large:
  assumes "ReadTiffHeader e = Inr (Some off, e')" and "get_u32 e' 1 = Inr w"
  shows "0x2a49 \<le> w"
proof -
  from ReadTiffHeader_Some [OF assms(1)] obtain io where
    io: "e' = e\<lparr>eb_io := Some io\<rparr>" "get_u16 e' 2 = Inr 0x2A" "4 \<le> length (eb_data e)"
      "le_word (take 2 (eb_data e)) = (if io = motorola then MOTOROLA_MAGIC else INTEL_MAGIC)" by blast
  have "5 \<le> length (eb_data e)"
    using assms(2) io(1) by (auto simp: get_u32_def bytes_at_def split: if_splits)
  then obtain b0 b1 b2 b3 b4 r where d: "eb_data e = b0 # b1 # b2 # b3 # b4 # r"
    by (auto simp: Suc_le_length_iff numeral_eq_Suc)
  have mark: "GetU16 io [b2, b3] = 0x2A" and w: "w = GetU32 io [b1, b2, b3, b4]"
    using io(1,2) assms(2) d by (auto simp: get_u16_def get_u32_def bytes_at_def)
  have magic: "le_word [b0, b1] = (if io = motorola then MOTOROLA_MAGIC else INTEL_MAGIC)"
    using io(4) by (simp add: d del: le_word.simps)
  show ?thesis
  proof (cases io)
    case motorola
    then have "b1 = 0x4d" using u16_bytes [OF magic] by (simp add: MOTOROLA_MAGIC_def)
    then have "w = 0x4d000000 OR (push_bit 16 (ucast b2) OR push_bit 8 (ucast b3) OR ucast b4)"
      by (simp add: w motorola or.assoc)
    then have "0x4d000000 \<le> w" by (simp only: le_word_or2)
    moreover have "(0x2a49 :: u32) \<le> 0x4d000000" by simp
    ultimately show ?thesis by (rule order.trans [rotated])
  next
    case intel
    then have "le_word [b2, b3] = (0x2A :: u16)" using mark by (simp del: le_word.simps)
    with intel have b: "b1 = 0x49" "b2 = 0x2a" "b3 = 0"
      using u16_bytes [OF magic] u16_bytes [of b2 b3 "0x2A"] by (simp_all add: INTEL_MAGIC_def)
    then have "w = 0x2a49 OR push_bit 24 (ucast b4)" by (simp add: w intel or.assoc [symmetric])
    then show ?thesis by (simp only: le_word_or2)
  qed
qed

lemma analyse_main_keeps:
  assumes "analyse_main e = Inr (True, e')"
  shows "\<exists>off e0. ReadTiffHeader e = Inr (Some off, e0) \<and> eb_data e' = eb_data e \<and>
    eb_size e' = eb_size e \<and> eb_io e' = eb_io e0 \<and> exif_tags e' = exif_tags e \<and>
    (length (main_tags e) = 7 \<longrightarrow> length (main_tags e') = 7 \<and>
      (\<forall>k<7. unspelled e0 (it_marker (main_tags e ! k)) \<longrightarrow> main_tags e' ! k = main_tags e ! k))"
proof -
  from assms obtain off e0 h tags where
    r: "ReadTiffHeader e = Inr (Some off, e0)"
    and s: "SearchIfdTags (main_tags e0 @ [behind (exif_header e0) (exif_pad e0) (exif_tags e0)]) 7 h
        (e0\<lparr>main_header := h\<rparr>) = Inr (True, tags)"
    and e': "e' = e0\<lparr>main_header := h, main_tags := take 7 tags\<rparr>"
    by (auto simp: analyse_main_def then_run_eq_Inr Let_def split: option.splits)
  obtain io where e0: "e0 = e\<lparr>eb_io := Some io\<rparr>" using ReadTiffHeader_Some [OF r] by blast
  have u: "unspelled (e0\<lparr>main_header := h\<rparr>) = unspelled e0"
    by (rule ext) (simp add: unspelled_def get_u16_def cong: option.case_cong)
  have l: "length tags = Suc (length (main_tags e0))"
    using s by (auto simp: SearchIfdTags_def then_run_eq_Inr split: if_splits
        dest!: search_entries_length)
  have keep: "tags ! k = main_tags e ! k"
    if "length (main_tags e) = 7" "k < 7" "unspelled e0 (it_marker (main_tags e ! k))" for k
    using SearchIfdTags_keeps [OF s, of k, unfolded u] that by (simp add: e0 nth_append)
  show ?thesis
    using r keep l by (intro exI [of _ off] exI [of _ e0]) (auto simp: e' e0)
qed

text \<open>
  The pointer to the second directory has the default count 1 in the word its offset is read from:
  when no entry sets it, the offset is taken from the bytes 1 to 4 of the header.
\<close>

lemma analyse_exif_missing:
  assumes "ReadTiffHeader e0 = Inr (Some off, e1)" and "eb_data e = eb_data e1"
    and "eb_io e = eb_io e1" and "main_tags e ! 5 = tag 0x8769 unsignedLong 1"
    and "eb_size e \<le> 0x2a49"
  shows "analyse_exif e \<noteq> Inr (True, e')"
proof -
  have o1: "data_offset (main_tags e ! 5) = 1" by (simp add: assms(4) data_offset_def tag_def)
  have "get_u32 e 1 = get_u32 e1 1" using assms(2,3) by (simp add: get_u32_def cong: option.case_cong)
  then have "eb_size e \<le> w" if "get_u32 e 1 = Inr w" for w
    using offset_one_too_large [OF assms(1), of w] that assms(5) by (metis order.trans)
  then show ?thesis by (auto simp: analyse_exif_def o1 Let_def then_run_eq_Inr split: if_splits)
qed

lemma Analyse_without_pointer:
  assumes "\<And>io i. i + 2 \<le> length bytes \<Longrightarrow> GetU16 io (take 2 (drop i bytes)) \<noteq> 0x8769"
    and "n \<le> 0x2a49"
    and "Analyse (SetExifData bytes n (ExifExtractor_ctor (ExifBinary_ctor junk) x)) = Inr (res, x')"
  shows "res = JpegStatus_InvalidFormat"
proof (rule ccontr)
  assume bad: "res \<noteq> JpegStatus_InvalidFormat"
  let ?e = "(ExifBinary_ctor junk)\<lparr>eb_data := bytes, eb_size := ucast n\<rparr>"
  from assms(3) bad obtain e e' where
    m: "analyse_main ?e = Inr (True, e)" and x: "analyse_exif e = Inr (True, e')"
    by (auto simp: Analyse_def SetExifData_def ExifExtractor_ctor_def if_ok_def then_run_eq_Inr
        split: if_splits)
  obtain off e0 where r: "ReadTiffHeader ?e = Inr (Some off, e0)" and
    k: "eb_data e = eb_data ?e" "eb_size e = eb_size ?e" "eb_io e = eb_io e0"
      "unspelled e0 0x8769 \<longrightarrow> main_tags e ! 5 = tag 0x8769 unsignedLong 1"
    using analyse_main_keeps [OF m] by (fastforce simp: ExifBinary_ctor_def tag_def)
  obtain io where e0: "e0 = ?e\<lparr>eb_io := Some io\<rparr>" using ReadTiffHeader_Some [OF r] by blast
  have "unspelled e0 0x8769"
    using assms(1) by (auto simp: unspelled_def e0 get_u16_def bytes_at_def)
  moreover have "eb_size e \<le> 0x2a49"
    using assms(2) k(2) by (simp add: word_le_nat_alt unsigned_ucast_eq unsigned_take_bit_eq
        take_bit_nat_eq_self)
  ultimately show False
    using analyse_exif_missing [OF r, of e e'] k x by (simp add: e0)
qed

section \<open>Properties\<close>

text \<open>C25: in either byte order, a directory written as its list of entries anywhere in a block of at
  most 65535 bytes is read back: \<open>ReadIfdHeader\<close> gives its position, number of entries and link,
  and \<open>SearchIfdTags\<close>, for every table of tags, never reads outside the block and leaves in the
  table exactly what the entries say in order; it goes wrong on an entry only when that matches a tag
  whose format has no size (as one of the thumbnail's table, of format 0), and on none when all
  formats of the table have one.\<close>

theorem directory_read_back:
  "eb_io e = Some io \<Longrightarrow> eb_data e = pre @ directory io es nx @ post \<Longrightarrow> 8 \<le> length pre \<Longrightarrow>
   length (eb_data e) \<le> 0xffff \<Longrightarrow> eb_size e = of_nat (length (eb_data e)) \<Longrightarrow>
   nx = 0 \<or> 8 \<le> nx \<and> nx \<le> eb_size e - 6 \<Longrightarrow> 0 < count \<Longrightarrow> unat count < length tags \<Longrightarrow>
   (\<exists>h. ReadIfdHeader (of_nat (length pre)) e = Inr (Some h) \<and>
      unat (ih_offset h) = length pre \<and> unat (ih_count h) = length es \<and> ucast (ih_size h) = nx \<and>
      SearchIfdTags tags count h e =
        then_run (apply_entries (unat count) (length pre + 2) es tags) (\<lambda>ts. Inr (True, ts))) \<and>
   (list_all tag_ok tags \<longrightarrow> (\<exists>ts. apply_entries (unat count) (length pre + 2) es tags = Inr ts))"
proof -
  assume A: "eb_io e = Some io" "eb_data e = pre @ directory io es nx @ post" "8 \<le> length pre"
    "length (eb_data e) \<le> 0xffff" "eb_size e = of_nat (length (eb_data e))"
    "nx = 0 \<or> 8 \<le> nx \<and> nx \<le> eb_size e - 6" "0 < count" "unat count < length tags"
  define h where "h = \<lparr>ih_offset = of_nat (length pre), ih_count = of_nat (length es), ih_size = ucast nx\<rparr>"
  have len: "length pre + 12 * length es + 6 \<le> length (eb_data e)" using A(2) by simp
  have cnt: "unat (ih_count h) = length es" "unat (ih_offset h) = length pre"
    using len A(4) by (simp_all add: h_def unat_of_nat take_bit_nat_eq_self)
  have d: "drop (length pre + 2) (eb_data e) = concat (map (entry_bytes io) es) @ PutU32 io nx @ post"
    by (simp add: A(2) directory_def order.length_put16)
  have "search_entries e count h [0..<length es] tags =
      apply_entries (unat count) (length pre + 2 + 12 * 0) (drop 0 es) tags"
    using len A(4) by (intro search_entries_apply [OF A(1) _ A(8) d _ A(4)]) (simp_all add: h_def)
  then show ?thesis
    using ReadIfdHeader_directory [OF A(1-6)] A(7) cnt small_link [OF A(4-6)] len
      apply_entries_ok [OF _ A(8)]
    by (intro conjI exI [of _ h]) (auto simp: SearchIfdTags_def h_def)
qed

theorem directory_read_back_witness:
  "\<exists>h. ReadIfdHeader 8 (sample_block motorola) = Inr (Some h) \<and>
    SearchIfdTags [tag 0x0112 unsignedShort 1, tag 0 0 0xffff] 1 h (sample_block motorola) =
      Inr (True, [tag 0x0112 unsignedShort 0x200000012, tag 0 0 0xffff])"
  using directory_read_back [where e = "sample_block motorola" and io = motorola and
      pre = "replicate 8 0" and es = "[(0x0112, 3, 1, 0x00060000)]" and nx = 0 and post = "[]" and
      tags = "[tag 0x0112 unsignedShort 1, tag 0 0 0xffff]" and count = 1]
  by (auto simp: sample_block_def tag_ok_def tag_def unsignedShort_def set_data_def DataFormatSize_def)

text \<open>The strings handed out are terminated: when \<open>ExtractDateTime\<close> answers with a pointer, the
  twenty bytes from there lie inside the readable memory, the last is NUL and none before it is;
  the same holds for maker, model and software with the size they report.\<close>

theorem extracted_strings_terminated:
  "ExtractDateTime x = Inr (Some (p, n)) \<or> ExtractMaker x = Inr (Some (p, n)) \<or>
   ExtractModel x = Inr (Some (p, n)) \<or> ExtractSoftware x = Inr (Some (p, n)) \<Longrightarrow>
   0 < unat n \<and> unat p + unat n \<le> length (eb_data (ex_binary x)) \<and>
   eb_data (ex_binary x) ! (unat p + (unat n - 1)) = 0 \<and>
   (\<forall>j<unat n - 1. eb_data (ex_binary x) ! (unat p + j) \<noteq> 0)"
proof -
  assume "ExtractDateTime x = Inr (Some (p, n)) \<or> ExtractMaker x = Inr (Some (p, n)) \<or>
    ExtractModel x = Inr (Some (p, n)) \<or> ExtractSoftware x = Inr (Some (p, n))"
  then have "n \<noteq> 0 \<and> terminated (eb_data (ex_binary x)) (unat p) (unat n) = Inr True"
    using ExtractDateTime_Some [of x p n] extract_string_Some [of _ x p n]
    by (auto simp: ExtractMaker_def ExtractModel_def ExtractSoftware_def)
  then show ?thesis
    using terminated_True [of "eb_data (ex_binary x)" "unat p" "unat n"]
    by (auto simp: unat_gt_0)
qed

theorem extracted_strings_terminated_witness:
  "0 < unat (2 :: u32) \<and> eb_data (ex_binary sample_extractor) ! 1 = 0"
proof -
  have "ExtractMaker sample_extractor = Inr (Some (0, 2))" by code_simp
  then show ?thesis using extracted_strings_terminated [of sample_extractor 0 2] by simp
qed

text \<open>The thumbnail handed out lies inside the block, whatever offset and size the file claims,
  for blocks below 2 GB (above, the sum of both may wrap).\<close>

theorem thumbnail_inside_block:
  "ExtractThumbnail x = Inr (Some (p, n)) \<Longrightarrow> eb_size (ex_binary x) < 0x80000000 \<Longrightarrow>
   unat p + unat n \<le> unat (eb_size (ex_binary x))"
  by (rule no_wrap_region)
    (auto simp: ExtractThumbnail_def Let_def then_run_eq_Inr not_less split: if_splits)

theorem thumbnail_inside_block_witness: "unat (4 :: u32) + unat (2 :: u32) \<le> 16"
proof -
  have "ExtractThumbnail sample_thumbnail = Inr (Some (4, 2))" by code_simp
  moreover have "eb_size (ex_binary sample_thumbnail) = 16" by code_simp
  ultimately show ?thesis using thumbnail_inside_block [of sample_thumbnail 4 2] by simp
qed

text \<open>An EXIF block of at most 10825 bytes that nowhere spells the marker 0x8769 of the pointer to
  the second directory is never analysed successfully, although the code has a branch for blocks
  without it: the offset it reads from the untouched tag is 1, not 0.\<close>

theorem no_sub_ifd_rejected:
  "(\<And>io i. i + 2 \<le> length bytes \<Longrightarrow> GetU16 io (take 2 (drop i bytes)) \<noteq> 0x8769) \<Longrightarrow>
   n \<le> 0x2a49 \<Longrightarrow>
   Analyse (SetExifData bytes n (ExifExtractor_ctor (ExifBinary_ctor junk) x)) = Inr (res, x') \<Longrightarrow>
   res = JpegStatus_InvalidFormat"
  by (rule Analyse_without_pointer)

theorem no_sub_ifd_rejected_witness:
  "fst (projr (Analyse (SetExifData sample_plain_exif 26
     (ExifExtractor_ctor (ExifBinary_ctor (sample_block intel)) sample_extractor)))) = - 0x20"
proof -
  have plain: "GetU16 io (take 2 (drop i sample_plain_exif)) \<noteq> 0x8769"
    if "i + 2 \<le> length sample_plain_exif" for io i
  proof -
    have "list_all (\<lambda>i. list_all (\<lambda>io. GetU16 io (take 2 (drop i sample_plain_exif)) \<noteq> 0x8769)
        [motorola, intel]) [0..<25]"
      by code_simp
    then show ?thesis using that
      by (cases io) (auto simp: list_all_iff sample_plain_exif_def)
  qed
  have "isl (Analyse (SetExifData sample_plain_exif 26
     (ExifExtractor_ctor (ExifBinary_ctor (sample_block intel)) sample_extractor))) = False"
    by code_simp
  then obtain r where
    "Analyse (SetExifData sample_plain_exif 26
      (ExifExtractor_ctor (ExifBinary_ctor (sample_block intel)) sample_extractor)) = Inr r"
    by (cases "Analyse (SetExifData sample_plain_exif 26
      (ExifExtractor_ctor (ExifBinary_ctor (sample_block intel)) sample_extractor))") auto
  then show ?thesis
    using no_sub_ifd_rejected [OF plain, of 26 "sample_block intel" sample_extractor "fst r" "snd r"]
    by (simp add: JpegStatus_InvalidFormat_def)
qed

end
