(* ===== verification/ExifVerify.thy ===== *)
theory ExifVerify
  imports Exif FileName
begin

text \<open>
  \<open>image/exif_verify.cpp\<close>: the checks on a screenshot before its maker note is handed out or its
  signature accepted. \<open>info\<close> is the \<open>GetExifInfo\<close> the program is linked with (see
  \<open>Exif\<close>), \<open>junk\<close> the uninitialised memory of the EXIF block and its extractor.
\<close>

section \<open>The functions\<close>

text \<open>\<open>strncmp (a, b, n) == 0\<close> on NUL-terminated text.\<close>

definition strncmp_equal :: "string \<Rightarrow> string \<Rightarrow> nat \<Rightarrow> bool" where
  "strncmp_equal a b n \<longleftrightarrow> take n (c_str a @ [NUL]) = take n (c_str b @ [NUL])"

definition exif_date_text :: "AlbumDateTime \<Rightarrow> string" where
  "exif_date_text d =
     fmt_d 4 (unat (year d)) @ '':'' @ fmt_d 2 (unat (month d)) @ '':'' @ fmt_d 2 (unat (day d)) @ '' '' @
     fmt_d 2 (unat (hour d)) @ '':'' @ fmt_d 2 (unat (minute d)) @ '':'' @ fmt_d 2 (unat (second d))"

text \<open>\<open>ExtractMakerNote\<close> of the verification: where the maker note lies in the file.\<close>

definition ExtractMakerNote_file ::
  "ExifBinary \<Rightarrow> ExifExtractor \<Rightarrow> u8 list \<Rightarrow> u64 \<Rightarrow> 'w \<Rightarrow> (u64 \<times> u64, 'w) outcome" where
  "ExtractMakerNote_file junk junk_x jpeg jpeg_size w =
     (if jpeg_size = 0 then Inr (ResultInternalSignatureMakerNoteExtractionFailed, (0, 0), w)
      else
        let tiffSize = jpeg_size - 0xc;
            x = SetExifData (drop 0xc jpeg) tiffSize (ExifExtractor_ctor (ExifBinary_ctor junk) junk_x)
        in then_run (Analyse x) (\<lambda>(res, x).
             if res = 0 then Inr (ResultInternalSignatureMakerNoteExtractionFailed, (0, 0), w)
             else then_run (ExtractMakerNote x) (\<lambda>note.
               case note of
                 None \<Rightarrow> Inr (ResultInternalSignatureMakerNoteExtractionFailed, (0, 0), w)
               | Some (off, makernote_size) \<Rightarrow>
                   let makernote_offset = 0xc + ucast off in
                   if jpeg_size < makernote_offset + ucast makernote_size
                   then Inr (ResultAlbumInvalidFileData, (0, 0), w)
                   else Inr (ResultSuccess, (makernote_offset, ucast makernote_size), w))))"

definition VerifyMAC ::
  "'w crypto_lib \<Rightarrow> crypto_keys \<Rightarrow> u8 list \<Rightarrow> u64 \<Rightarrow> u64 \<Rightarrow> u64 \<Rightarrow> 'w \<Rightarrow> (unit, 'w) outcome" where
  "VerifyMAC c k jpeg jpeg_size makernote_offset makernote_size w =
     (if makernote_offset = 0 \<or> makernote_size = 0 \<or> jpeg_size = 0
      then Inr (ResultInternalError, (), w)
      else if jpeg_size < makernote_offset \<or> jpeg_size - makernote_offset < makernote_size
      then Inr (ResultAlbumInvalidFileData, (), w)
      else if 0x11000 - makernote_size < makernote_offset \<or> 0x1000 < makernote_size \<or>
        makernote_size < 0x10 \<or> jpeg_size < makernote_offset + 0x18
      then Inr (ResultAlbumInvalidFileData, (), w)
      else R_TRY (GenerateScreenshotMac c k jpeg jpeg_size (makernote_offset + 8) w) () (\<lambda>mac w.
        then_run (bytes_at jpeg (unat (makernote_offset + 8)) 0x10) (\<lambda>stored.
          if stored \<noteq> mac then Inr (ResultInternalFileDataVerificationInconsistentSignature, (), w)
          else Inr (ResultSuccess, (), w))))"

text \<open>
  The comparison of date, orientation and application with the identifier of the file;
  \<open>date\<close> and \<open>note\<close> are offsets into the block \<open>bytes\<close>.
\<close>

definition check_identity ::
  "'w crypto_lib \<Rightarrow> crypto_keys \<Rightarrow> AlbumFileId \<Rightarrow> u8 list \<Rightarrow> nat \<Rightarrow> nat \<Rightarrow> u16 \<Rightarrow> result run" where
  "check_identity c k file_id bytes date note orientation =
     then_run (bytes_at bytes date 0x14) (\<lambda>d.
       if \<not> strncmp_equal (exif_date_text (date_time file_id)) (map (\<lambda>b. char_of (unat b)) d) 0x14
       then Inr ResultInternalFileDataVerificationInconsistentDateTime
       else if 9 \<le> orientation then Inr ResultInternalFileDataVerificationInconsistentOrientation
       else then_run (bytes_at bytes (note + 0x14) 0x10) (\<lambda>src.
         let (app, flag) = Decrypt_path c k src in
         if flag = 1 \<and> \<not> IsExtra (content_type file_id) then Inr ResultAlbumInvalidApplicationId
         else if app \<noteq> application_id file_id
         then Inr ResultInternalFileDataVerificationInconsistentApplicationId
         else Inr ResultSuccess))"

text \<open>The part of \<open>VerifyMakerNote\<close> after the EXIF block has been found.\<close>

definition verify_block ::
  "'w crypto_lib \<Rightarrow> crypto_keys \<Rightarrow> ExifExtractor \<Rightarrow> bool \<Rightarrow> AlbumFileId \<Rightarrow> u8 list \<Rightarrow> (result \<times> u8 list) run" where
  "verify_block c k x verify file_id out =
     then_run (Analyse x) (\<lambda>(res, x).
       if res = 0 then Inr (ResultInternalFileDataVerificationExifAnalyzationFailed, out)
       else
     then_run (ExtractDateTime x) (\<lambda>date.
       if date = None \<and> verify
       then Inr (ResultInternalFileDataVerificationDateTimeExtractionFailed, out)
       else
     then_run (ExtractOrientation x) (\<lambda>o1.
     let orientation = (case o1 of None \<Rightarrow> 1 | Some v \<Rightarrow> v) in
     then_run (ExtractMakerNote x) (\<lambda>note.
       if note = None \<and> verify
       then Inr (ResultInternalFileDataVerificationMakerNoteExtractionFailed, out)
       else
     let bytes = eb_data (ex_binary x);
         copy = (case note of None \<Rightarrow> Inl OutOfBounds
           | Some (off, _) \<Rightarrow> then_run (bytes_at bytes (unat off) 0xc78) (\<lambda>b. Inr (poke 0 b out)))
     in if \<not> verify then then_run copy (\<lambda>out. Inr (ResultSuccess, out))
        else case (date, note) of
          (Some (d, dateStringLength), Some (n, _)) \<Rightarrow>
            if dateStringLength \<noteq> 0x14
            then Inr (ResultInternalFileDataVerificationInvalidDateTimeLength, out)
            else then_run (check_identity c k file_id bytes (unat d) (unat n) orientation) (\<lambda>rc.
              if R_FAILED rc then Inr (rc, out)
              else then_run copy (\<lambda>out. Inr (ResultSuccess, out)))
        | _ \<Rightarrow> Inl OutOfBounds))))"

definition VerifyMakerNote ::
  "'w crypto_lib \<Rightarrow> crypto_keys \<Rightarrow> (u8 list \<Rightarrow> u32 \<Rightarrow> (nat \<times> u32) option run) \<Rightarrow> ExifBinary \<Rightarrow>
   ExifExtractor \<Rightarrow> AlbumFileId \<Rightarrow> u8 list \<Rightarrow> u64 \<Rightarrow> AlbumSettings \<Rightarrow> bool \<Rightarrow> u8 list \<Rightarrow> 'w \<Rightarrow>
   (u8 list, 'w) outcome" where
  "VerifyMakerNote c k info junk junk_x file_id jpeg jpeg_size settings verify_mac out w =
     (let verify = GetVerifyScreenshotFiledata settings in
      if \<not> IsTypeSupported settings (content_type file_id)
      then Inr (ResultAlbumInvalidFileContents, out, w)
      else if jpeg_size = 0 then Inr (ResultInternalFileDataVerificationEmptyFileData, out, w)
      else R_TRY
        (if verify_mac \<and> verify
         then R_TRY (ExtractMakerNote_file junk junk_x jpeg jpeg_size w) () (\<lambda>(off, n) w.
           VerifyMAC c k jpeg jpeg_size off n w)
         else Inr (ResultSuccess, (), w)) out (\<lambda>_ w.
      if length out < 0xc90 then Inl OutOfBounds
      else
        let out = poke 0 (replicate 0xc90 0) out in
        then_run (ExtractExifRegion info jpeg (ucast jpeg_size)) (\<lambda>(res, region).
          case region of
            None \<Rightarrow> Inr (ResultInternalFileDataVerificationExifExtractionFailed, out, w)
          | Some (off, exif_size) \<Rightarrow>
              if res \<noteq> 0 \<or> exif_size = 0
              then Inr (ResultInternalFileDataVerificationExifExtractionFailed, out, w)
              else then_run
                (verify_block c k
                  (SetExifData (drop off jpeg) (ucast exif_size)
                    (ExifExtractor_ctor (ExifBinary_ctor junk) junk_x)) verify file_id out)
                (\<lambda>(rc, out). Inr (rc, out, w)))))"

section \<open>Lemmas\<close>

text \<open>The date is printed into a buffer of 0x20 characters, which it never fills.\<close>

lemma exif_date_text_fits: "length (exif_date_text d) < 0x20"
proof -
  have two: "length (fmt_d 2 (unat (b :: u8))) \<le> 3" for b
    using show_base_length_le [of 10 "unat b" 2] unsigned_less [of b, where 'a = nat]
    by (simp add: fmt_d_def pad_zero_def)
  have four: "length (fmt_d 4 (unat (y :: u16))) \<le> 5" for y
    using show_base_length_le [of 10 "unat y" 4] unsigned_less [of y, where 'a = nat]
    by (simp add: fmt_d_def pad_zero_def)
  show ?thesis
    using two [of "month d"] two [of "day d"] two [of "hour d"] two [of "minute d"] two [of "second d"]
      four [of "year d"]
    by (simp add: exif_date_text_def)
qed

lemma GenerateScreenshotMac_faults:
  "length jpeg = unat n \<Longrightarrow> unat n + 32 < 2 ^ 64 \<Longrightarrow>
   GenerateScreenshotMac c k jpeg n off w = Inl OutOfBounds"
  using screenshot_mac_region [of n off] by (simp add: GenerateScreenshotMac_def)

lemma VerifyMAC_never_accepts:
  "length jpeg = unat n \<Longrightarrow> unat n + 32 < 2 ^ 64 \<Longrightarrow>
   VerifyMAC c k jpeg n off m w \<noteq> Inr (ResultSuccess, u, w')"
  by (simp add: VerifyMAC_def GenerateScreenshotMac_faults R_TRY_def result_values)

lemma ExtractMakerNote_file_accepts:
  "ExtractMakerNote_file junk junk_x jpeg n w = Inr (ResultSuccess, r, w') \<Longrightarrow>
   \<exists>res x. res \<noteq> 0 \<and>
     Analyse (SetExifData (drop 0xc jpeg) (n - 0xc) (ExifExtractor_ctor (ExifBinary_ctor junk) junk_x)) =
       Inr (res, x)"
  by (auto simp: ExtractMakerNote_file_def Let_def then_run_eq_Inr result_values split: if_splits)

text \<open>A call that goes on into the same refusal after any check never succeeds.\<close>

lemma refused_after:
  "R_FAILED e \<Longrightarrow>
   case R_TRY check out (\<lambda>_ w. Inr (e, out', w)) of
     Inl f \<Rightarrow> check = Inl f | Inr (rc, _, _) \<Rightarrow> R_FAILED rc"
  by (auto simp: R_TRY_def then_run_def split: sum.split)

text \<open>A file with the smallest EXIF block that is analysed: a directory that points to an empty one.\<close>

definition sample_tiff :: "u8 list" where
  "sample_tiff = [0x4d, 0x4d, 0, 0x2a, 0, 0, 0, 8,
     0, 1, 0x87, 0x69, 0, 4, 0, 0, 0, 1, 0, 0, 0, 26, 0, 0, 0, 0,
     0, 0, 0, 0, 0, 0]"

definition sample_jpeg :: "u8 list" where
  "sample_jpeg = [0xff, 0xd8, 0xff, 0xe1, 0, 40] @ EXIF_START @ sample_tiff"

definition sample_junk :: ExifBinary where
  "sample_junk =
     \<lparr>eb_data = [], eb_size = 0, eb_io = None,
      main_header = \<lparr>ih_offset = 0, ih_count = 0, ih_size = 0\<rparr>, main_tags = [],
      exif_header = \<lparr>ih_offset = 0, ih_count = 0, ih_size = 0\<rparr>, exif_pad = 0, exif_tags = [],
      thumbnail_header = \<lparr>ih_offset = 0, ih_count = 0, ih_size = 0\<rparr>, thumbnail_pad = 0,
      thumbnail_tags = []\<rparr>"

definition sample_junk_x :: ExifExtractor where
  "sample_junk_x = \<lparr>stage = Unregistered, ex_data = [], ex_size = 0, ex_binary = sample_junk\<rparr>"

section \<open>Properties\<close>

text \<open>C31: the result of the analysis is taken the wrong way round, so a supported screenshot whose
  EXIF block is found and analysed successfully is never accepted. When no signature is checked
  (none is asked for, or the setting is off), the call returns
  \<open>ResultInternalFileDataVerificationExifAnalyzationFailed\<close> with a cleared maker note, whether
  or not the identity of the file would have been verified next; when the signature is checked first,
  the call ends in a failure as well, or in a read outside the file during that check.\<close>

theorem analysable_exif_refused:
  "IsTypeSupported s (content_type f) \<Longrightarrow> n \<noteq> 0 \<Longrightarrow> 0xc90 \<le> length out \<Longrightarrow>
   ExtractExifRegion info jpeg (ucast n) = Inr (0, Some (off, m)) \<Longrightarrow> m \<noteq> 0 \<Longrightarrow>
   Analyse (SetExifData (drop off jpeg) (ucast m) (ExifExtractor_ctor (ExifBinary_ctor junk) junk_x)) =
     Inr (0, x) \<Longrightarrow>
   (\<not> (verify_mac \<and> GetVerifyScreenshotFiledata s) \<longrightarrow>
      VerifyMakerNote c k info junk junk_x f jpeg n s verify_mac out w =
        Inr (ResultInternalFileDataVerificationExifAnalyzationFailed, poke 0 (replicate 0xc90 0) out, w)) \<and>
   (case VerifyMakerNote c k info junk junk_x f jpeg n s verify_mac out w of
      Inl e \<Rightarrow> verify_mac \<and> GetVerifyScreenshotFiledata s
    | Inr (rc, out', w') \<Rightarrow> R_FAILED rc)"
  using refused_after
    [where check = "if verify_mac \<and> GetVerifyScreenshotFiledata s
         then R_TRY (ExtractMakerNote_file junk junk_x jpeg n w) () (\<lambda>(off, m) w. VerifyMAC c k jpeg n off m w)
         else Inr (ResultSuccess, (), w)"
      and e = ResultInternalFileDataVerificationExifAnalyzationFailed
      and out = out and out' = "poke 0 (replicate 0xc90 0) out"]
  by (auto simp: VerifyMakerNote_def verify_block_def Let_def R_FAILED_iff result_values
      split: if_split_asm sum.splits)

theorem analysable_exif_refused_witness:
  "fst (projr (VerifyMakerNote sample_crypto initial_keys linked_GetExifInfo sample_junk sample_junk_x
     zero_AlbumFileId sample_jpeg 44 (booted_settings (sample_platform 0x40000)) False
     (replicate 0xc90 1) (0 :: nat))) =
   ResultInternalFileDataVerificationExifAnalyzationFailed \<and>
   (case VerifyMakerNote sample_crypto initial_keys linked_GetExifInfo sample_junk sample_junk_x
     zero_AlbumFileId sample_jpeg 44 (booted_settings (sample_platform 0x40000)) True
     (replicate 0xc90 1) (0 :: nat) of
      Inl e \<Rightarrow> GetVerifyScreenshotFiledata (booted_settings (sample_platform 0x40000))
    | Inr (rc, out, w) \<Rightarrow> R_FAILED rc)"
proof -
  have r: "ExtractExifRegion linked_GetExifInfo sample_jpeg (ucast (44 :: u64)) = Inr (0, Some (12, 32))"
    by code_simp
  have a: "fst (projr (Analyse (SetExifData (drop 12 sample_jpeg) (ucast (32 :: u32))
      (ExifExtractor_ctor (ExifBinary_ctor sample_junk) sample_junk_x)))) = 0"
    "\<not> isl (Analyse (SetExifData (drop 12 sample_jpeg) (ucast (32 :: u32))
      (ExifExtractor_ctor (ExifBinary_ctor sample_junk) sample_junk_x)))"
    by code_simp+
  then obtain x where x: "Analyse (SetExifData (drop 12 sample_jpeg) (ucast (32 :: u32))
      (ExifExtractor_ctor (ExifBinary_ctor sample_junk) sample_junk_x)) = Inr (0, x)"
    by (cases "Analyse (SetExifData (drop 12 sample_jpeg) (ucast (32 :: u32))
      (ExifExtractor_ctor (ExifBinary_ctor sample_junk) sample_junk_x))") auto
  have t: "IsTypeSupported (booted_settings (sample_platform 0x40000)) (content_type zero_AlbumFileId)"
    by (simp add: zero_AlbumFileId_def IsTypeSupported_def Initialize_settings_def
        hosversionBefore_def make_hos_version_def sample_platform_def read_switch_def Let_def
        SupportsScreenshot_def)
  note refused = analysable_exif_refused [OF t _ _ r _ x, of "replicate 0xc90 1" _ sample_crypto
      initial_keys 0]
  show ?thesis using refused [of False] refused [of True, THEN conjunct2]
    by (simp, force split: sum.splits)
qed

text \<open>No signed screenshot passes: with verification switched on and a request to check the
  signature, \<open>VerifyMakerNote\<close> never succeeds, for any file.\<close>

theorem signature_check_never_passes:
  "GetVerifyScreenshotFiledata s \<Longrightarrow> length jpeg = unat n \<Longrightarrow> unat n + 32 < 2 ^ 64 \<Longrightarrow>
   VerifyMakerNote c k info junk junk_x f jpeg n s True out w \<noteq> Inr (ResultSuccess, out', w')"
proof
  assume A: "GetVerifyScreenshotFiledata s" "length jpeg = unat n" "unat n + 32 < 2 ^ 64"
    and "VerifyMakerNote c k info junk junk_x f jpeg n s True out w = Inr (ResultSuccess, out', w')"
  then have "\<exists>off m w0 u w1. VerifyMAC c k jpeg n off m w0 = Inr (ResultSuccess, u, w1)"
    by (auto simp: VerifyMakerNote_def Let_def R_TRY_def then_run_eq_Inr R_FAILED_iff result_values
        split: if_splits)
  then show False by (simp add: VerifyMAC_never_accepts [OF A(2,3)])
qed

theorem signature_check_never_passes_witness:
  "VerifyMakerNote sample_crypto initial_keys linked_GetExifInfo sample_junk sample_junk_x
     zero_AlbumFileId sample_jpeg 44 (booted_settings (sample_platform 0x40000)) True
     (replicate 0xc90 1) (0 :: nat) \<noteq> Inr (ResultSuccess, replicate 0xc90 0, 0)"
  using signature_check_never_passes [of "booted_settings (sample_platform 0x40000)" sample_jpeg 44]
  by (simp add: GetVerifyScreenshotFiledata_def Initialize_settings_def Let_def hosversionBefore_def
      make_hos_version_def sample_platform_def read_switch_def sample_jpeg_def sample_tiff_def EXIF_START_def)

end
