(* ===== verification/ExifBuilder.thy ===== *)
theory ExifBuilder
  imports Exif
begin

text \<open>
  \<open>image/exif_builder.cpp\<close>: what a new EXIF block is to hold, kept in a caller's work buffer of
  0x2e8 bytes. The class has setters and no function that writes a block. Pointers are addresses.
\<close>

definition nullptr :: u64 where "nullptr = 0"

record ExifBuilderInternal =
  bi_software :: u64
  bi_software_size :: u16
  bi_orientation :: u16
  bi_date_time :: u64
  bi_date_time_size :: u16
  bi_maker_note :: u64
  bi_maker_note_size :: u16
  bi_unique_id :: u64
  bi_thumbnail :: u64
  bi_thumbnail_size :: u64

record ExifBuilder =
  bu_stage :: ProcessStage
  work_buffer :: ExifBuilderInternal

definition GetWorkBufferSize :: nat where
  "GetWorkBufferSize = 0x2e8"

text \<open>The object is built in place without a look at the size of the buffer.\<close>

definition ExifBuilder_ctor :: "nat \<Rightarrow> ExifBuilder run" where
  "ExifBuilder_ctor work_buffer_length =
     (if work_buffer_length < GetWorkBufferSize then Inl OutOfBounds
      else Inr \<lparr>bu_stage = Registered, work_buffer =
        \<lparr>bi_software = nullptr, bi_software_size = 0, bi_orientation = 0, bi_date_time = nullptr,
         bi_date_time_size = 0, bi_maker_note = nullptr, bi_maker_note_size = 0,
         bi_unique_id = nullptr, bi_thumbnail = nullptr, bi_thumbnail_size = 0\<rparr>\<rparr>)"

definition updated :: "(ExifBuilderInternal \<Rightarrow> ExifBuilderInternal) \<Rightarrow> ExifBuilder \<Rightarrow> ExifBuilder" where
  "updated f b = b\<lparr>work_buffer := f (work_buffer b), bu_stage := Registered\<rparr>"

definition SetOrientation :: "u16 \<Rightarrow> ExifBuilder \<Rightarrow> ExifBuilder" where
  "SetOrientation o' = updated (\<lambda>i. i\<lparr>bi_orientation := o'\<rparr>)"

definition SetSoftware :: "u64 \<Rightarrow> u64 \<Rightarrow> ExifBuilder \<Rightarrow> ExifBuilder" where
  "SetSoftware p n = updated (\<lambda>i. i\<lparr>bi_software := p,
     bi_software_size := (if p = nullptr then 0 else ucast n)\<rparr>)"

definition SetDateTime :: "u64 \<Rightarrow> u64 \<Rightarrow> ExifBuilder \<Rightarrow> ExifBuilder" where
  "SetDateTime p n = updated (\<lambda>i. i\<lparr>bi_date_time := p\<rparr>)"

definition SetMakerNote :: "u64 \<Rightarrow> u64 \<Rightarrow> ExifBuilder \<Rightarrow> ExifBuilder" where
  "SetMakerNote p n = updated (\<lambda>i. i\<lparr>bi_maker_note := p,
     bi_maker_note_size := (if p = nullptr then 0 else ucast n)\<rparr>)"

definition SetUniqueId :: "u64 \<Rightarrow> u64 \<Rightarrow> ExifBuilder \<Rightarrow> ExifBuilder" where
  "SetUniqueId p n = updated (\<lambda>i. i\<lparr>bi_unique_id := p\<rparr>)"

definition SetThumbnail :: "u64 \<Rightarrow> u64 \<Rightarrow> ExifBuilder \<Rightarrow> ExifBuilder" where
  "SetThumbnail p n = updated (\<lambda>i. i\<lparr>bi_thumbnail := p,
     bi_thumbnail_size := (if p = nullptr then 0 else n)\<rparr>)"

text \<open>A builder is driven through its setters; it stays registered, a missing part has size 0, and
  the size of the date is never set.\<close>

inductive builder_step :: "ExifBuilder \<Rightarrow> ExifBuilder \<Rightarrow> bool" where
  "builder_step b (SetOrientation v b)"
| "builder_step b (SetSoftware p n b)"
| "builder_step b (SetDateTime p n b)"
| "builder_step b (SetMakerNote p n b)"
| "builder_step b (SetUniqueId p n b)"
| "builder_step b (SetThumbnail p n b)"

inductive_cases builder_stepE: "builder_step b b'"

definition builder_ok :: "ExifBuilder \<Rightarrow> bool" where
  "builder_ok b \<longleftrightarrow> bu_stage b = Registered \<and> (let i = work_buffer b in
     bi_date_time_size i = 0 \<and>
     (bi_software i = nullptr \<longrightarrow> bi_software_size i = 0) \<and>
     (bi_maker_note i = nullptr \<longrightarrow> bi_maker_note_size i = 0) \<and>
     (bi_thumbnail i = nullptr \<longrightarrow> bi_thumbnail_size i = 0))"

lemmas builder_defs = updated_def SetOrientation_def SetSoftware_def SetDateTime_def
  SetMakerNote_def SetUniqueId_def SetThumbnail_def

interpretation builder: state_machine "\<lambda>b. \<exists>n. ExifBuilder_ctor n = Inr b" builder_step builder_ok
proof
  fix b b'
  show "\<exists>n. ExifBuilder_ctor n = Inr b \<Longrightarrow> builder_ok b"
    by (auto simp: ExifBuilder_ctor_def builder_ok_def split: if_splits)
  show "builder_ok b \<Longrightarrow> builder_step b b' \<Longrightarrow> builder_ok b'"
    by (erule builder_stepE) (auto simp: builder_defs builder_ok_def Let_def)
qed

lemma builder_reachable_ok:
  "ExifBuilder_ctor n = Inr b \<Longrightarrow> builder_step\<^sup>*\<^sup>* b b' \<Longrightarrow> builder_ok b'"
  by (rule builder.reachable_inv) blast

end
