(* ===== verification/Video.thy ===== *)
theory Video
  imports Results
begin

text \<open>
  \<open>video/video_extractor.cpp\<close>: where the thumbnail and the table of MACs lie in a movie file.
  All sizes and offsets are 64-bit and wrap.
\<close>

definition MAX_JPEG_SIZE :: u64 where "MAX_JPEG_SIZE = 0x80000"
definition BLOCK_COUNT :: "u64 \<Rightarrow> u64" where "BLOCK_COUNT n = drop_bit 0x12 n"
definition BLOCK_SIZE :: u64 where "BLOCK_SIZE = 0x20"
definition HASH_SIZE :: u64 where "HASH_SIZE = 0x28"

definition MIN_SIZE :: u64 where
  "MIN_SIZE = MAX_JPEG_SIZE + BLOCK_COUNT MAX_JPEG_SIZE * BLOCK_SIZE + HASH_SIZE"

record video_offsets =
  jpegOffset :: u64
  jpegSize :: u64
  macOffset :: u64
  macSize :: u64

text \<open>The four output arguments are only written on success.\<close>

definition GetOffsets :: "u64 \<Rightarrow> u64 \<Rightarrow> result \<times> video_offsets option" where
  "GetOffsets mpegSize mpegTail =
     (if mpegTail \<noteq> 1 then (ResultAlbumInvalidFileData, None)
      else if mpegSize < MIN_SIZE then (ResultAlbumInvalidFileData, None)
      else
        let blockCount = BLOCK_COUNT mpegSize in
        (ResultSuccess,
         Some \<lparr>jpegOffset = (mpegSize - MAX_JPEG_SIZE) AND 0xfffffffffffc0000,
               jpegSize = MAX_JPEG_SIZE,
               macOffset = mpegSize AND 0xfffffffffffc0000,
               macSize = push_bit 5 blockCount\<rparr>))"

section \<open>Lemmas\<close>

lemma MIN_SIZE_value: "MIN_SIZE = 0x80068"
  by (simp add: MIN_SIZE_def MAX_JPEG_SIZE_def BLOCK_COUNT_def BLOCK_SIZE_def HASH_SIZE_def)

text \<open>Clearing the low eighteen bits rounds down to a multiple of the block of 256 KB.\<close>

lemma unat_mask_blocks: "unat (w AND 0xfffffffffffc0000 :: u64) = unat w div 0x40000 * 0x40000"
proof -
  have m: "(0xfffffffffffc0000 :: u64) = push_bit 18 (mask 46)" by (simp add: mask_eq_exp_minus_1)
  have "w AND 0xfffffffffffc0000 = push_bit 18 (drop_bit 18 w)"
    unfolding m by (rule bit_word_eqI) (auto simp: bit_simps)
  moreover have "unat w div 0x40000 * 0x40000 < 2 ^ 64"
    using unsigned_less [of w, where 'a = nat] by simp
  ultimately show ?thesis
    by (simp only: unsigned_push_bit_eq unsigned_drop_bit_eq)
      (simp add: push_bit_eq_mult drop_bit_eq_div take_bit_nat_eq_self)
qed

lemma GetOffsets_regions:
  assumes "GetOffsets n mpegTail = (ResultSuccess, Some v)"
  shows "unat (jpegOffset v) + unat (jpegSize v) = unat (macOffset v)"
    and "unat (macOffset v) = unat n div 0x40000 * 0x40000"
    and "unat (macSize v) = unat n div 0x40000 * 32"
proof -
  from assms have ge: "0x80068 \<le> n" and
    v: "v = \<lparr>jpegOffset = (n - 0x80000) AND 0xfffffffffffc0000, jpegSize = 0x80000,
      macOffset = n AND 0xfffffffffffc0000, macSize = push_bit 5 (drop_bit 18 n)\<rparr>"
    by (auto simp: GetOffsets_def MIN_SIZE_value MAX_JPEG_SIZE_def BLOCK_COUNT_def not_less
        split: if_splits)
  have "unat (n - 0x80000) = unat n - 0x80000"
    using ge by (simp add: unat_sub word_le_nat_alt)
  moreover have "2 * 0x40000 \<le> unat n" using ge by (simp add: word_le_nat_alt)
  then obtain k where k: "unat n = k + 2 * 0x40000" by (metis le_Suc_ex add.commute)
  moreover have "(k + 2 * 0x40000) div 0x40000 = 2 + k div (0x40000 :: nat)"
    by (rule div_mult_self1) simp
  ultimately show "unat (jpegOffset v) + unat (jpegSize v) = unat (macOffset v)"
    unfolding v video_offsets.select_convs unat_mask_blocks by simp
  show "unat (macOffset v) = unat n div 0x40000 * 0x40000" by (simp add: v unat_mask_blocks)
  have "unat n div 0x40000 * 32 < 2 ^ 64" using unsigned_less [of n, where 'a = nat] by simp
  moreover have "take_bit 64 (unat n) = unat n"
    using unsigned_less [of n, where 'a = nat] by (simp add: take_bit_nat_eq_self)
  ultimately show "unat (macSize v) = unat n div 0x40000 * 32"
    by (simp only: v video_offsets.select_convs unsigned_push_bit_eq unsigned_drop_bit_eq)
      (simp add: push_bit_eq_mult drop_bit_eq_div take_bit_nat_eq_self)
qed

section \<open>Properties\<close>

text \<open>The regions of a movie file: offsets are given exactly for a tail of one and a size of at
  least 0x80068; the 512 KB of the thumbnail end where the table of MACs starts, at the last
  multiple of 256 KB of the file; the table has 32 bytes for each full block, and lies inside the
  file only when the rest after the last full block is large enough, which is not checked.\<close>

theorem movie_regions:
  "GetOffsets n mpegTail = (rc, r) \<Longrightarrow>
   (rc = ResultSuccess \<longleftrightarrow> mpegTail = 1 \<and> 0x80068 \<le> n) \<and>
   (case r of None \<Rightarrow> rc = ResultAlbumInvalidFileData
    | Some v \<Rightarrow> rc = ResultSuccess \<and>
        unat (jpegOffset v) + 0x80000 = unat (macOffset v) \<and> jpegSize v = 0x80000 \<and>
        unat (macOffset v) \<le> unat n \<and> unat n < unat (macOffset v) + 0x40000 \<and>
        unat (macSize v) = 32 * (unat n div 0x40000) \<and>
        (unat (macOffset v) + unat (macSize v) \<le> unat n \<longleftrightarrow>
           32 * (unat n div 0x40000) \<le> unat n mod 0x40000))"
proof (cases r)
  case None
  moreover assume "GetOffsets n mpegTail = (rc, r)"
  ultimately show ?thesis
    by (auto simp: GetOffsets_def MIN_SIZE_value result_values Let_def split: if_splits)
next
  case (Some v)
  moreover assume A: "GetOffsets n mpegTail = (rc, r)"
  ultimately have ok: "rc = ResultSuccess" "mpegTail = 1" "0x80068 \<le> n" "jpegSize v = 0x80000"
    by (auto simp: GetOffsets_def MIN_SIZE_value MAX_JPEG_SIZE_def Let_def not_less split: if_splits)
  note g = GetOffsets_regions [OF A [unfolded Some ok(1)]]
  define q m where "q = unat n div 0x40000" and "m = unat n mod 0x40000"
  have n: "unat n = q * 0x40000 + m" unfolding q_def m_def by (rule div_mult_mod_eq [symmetric])
  have "m < 0x40000" by (simp add: m_def)
  then show ?thesis
    using g(1) ok Some n g(2,3) [folded q_def] unfolding q_def [symmetric] m_def [symmetric]
    by (auto simp: mult.commute)
qed

theorem movie_regions_witness:
  "GetOffsets 0x80068 1 = (0, Some \<lparr>jpegOffset = 0, jpegSize = 0x80000, macOffset = 0x80000, macSize = 0x40\<rparr>) \<and>
   unat (0 :: u64) + 0x80000 = unat (0x80000 :: u64)"
proof -
  have "GetOffsets 0x80068 1 =
      (0, Some \<lparr>jpegOffset = 0, jpegSize = 0x80000, macOffset = 0x80000, macSize = 0x40\<rparr>)"
    by code_simp
  with movie_regions [OF this] show ?thesis by simp
qed

end
