(* ===== verification/Objects.thy ===== *)
theory Objects
  imports Manager FileIdGen Overlay AppManager
begin

text \<open>
  The objects the services share (\<open>server/capsrv_album_object.cpp\<close>) and the converter of results
  (\<open>capsrv_error_converter.hpp\<close>), with the ways a service calls them. The album mutex makes every
  call that takes it atomic; a service method is then one step on the objects.
\<close>

section \<open>The error converter\<close>

record AlbumErrorConverter =
  should_convert :: bool

definition ConvertErrorImpl :: "result \<Rightarrow> result" where
  "ConvertErrorImpl rc = (if GetModuleFromValue rc = 206 then rc else rc)"

definition Converter_Initialize :: "AlbumErrorConverter \<Rightarrow> AlbumErrorConverter" where
  "Converter_Initialize c = c\<lparr>should_convert := True\<rparr>"

definition Converter_Exit :: "AlbumErrorConverter \<Rightarrow> AlbumErrorConverter" where
  "Converter_Exit c = c"

definition SetMode :: "bool \<Rightarrow> AlbumErrorConverter \<Rightarrow> AlbumErrorConverter" where
  "SetMode mode c = c\<lparr>should_convert := mode\<rparr>"

definition ConvertError :: "result \<Rightarrow> AlbumErrorConverter \<Rightarrow> result" where
  "ConvertError rc c = (if should_convert c then ConvertErrorImpl rc else rc)"

lemma ConvertError_id [simp]: "ConvertError rc c = rc"
  by (simp add: ConvertError_def ConvertErrorImpl_def)

section \<open>The objects\<close>

record 'w objects =
  g_ZeroHash :: "u8 list"
  g_AlbumSettings :: AlbumSettings
  g_StreamIdGenerator :: StreamIdGenerator
  g_AlbumErrorConverter :: AlbumErrorConverter
  g_AlbumManager :: AlbumManager
  g_AlbumFileIdGenerator :: AlbumFileIdGenerator
  g_OverlayThumbnailHolder :: OverlayThumbnailHolder
  g_ApplicationAlbumManager :: ApplicationAlbumManager
  IsInitialized :: bool
  g_world :: 'w

type_synonym ('a, 'w) service = "'w objects \<Rightarrow> ('a, 'w objects) outcome"

text \<open>The surroundings of a call: the settings are the shared object.\<close>

definition site :: "'w surroundings \<Rightarrow> 'w objects \<Rightarrow> 'w surroundings" where
  "site x g = x\<lparr>sett := g_AlbumSettings g\<rparr>"

definition on_manager ::
  "'w surroundings \<Rightarrow> ('w surroundings \<Rightarrow> 'w man \<Rightarrow> ('a, 'w man) outcome) \<Rightarrow> ('a, 'w) service" where
  "on_manager x f g =
     then_run (f (site x g) (g_AlbumManager g, g_world g)) (\<lambda>(rc, a, (m, w)).
       Inr (rc, a, g\<lparr>g_AlbumManager := m, g_world := w\<rparr>))"

text \<open>The result of a call passed through the converter.\<close>

definition converted :: "('a, 'w) service \<Rightarrow> ('a, 'w) service" where
  "converted f g = then_run (f g) (\<lambda>(rc, a, g'). Inr (ConvertError rc (g_AlbumErrorConverter g'), a, g'))"

text \<open>\<open>R_TRY\<close> of a call, then the output: a value only on success.\<close>

definition set_output :: "('a \<Rightarrow> 'b) \<Rightarrow> ('a, 'w) service \<Rightarrow> ('b option, 'w) service" where
  "set_output h f g = then_run (f g) (\<lambda>(rc, a, g').
     Inr (rc, if R_FAILED rc then None else Some (h a), g'))"

definition not_implemented :: "('a, 'w) service" where
  "not_implemented g = Inl Abort"

section \<open>Consistent objects\<close>

text \<open>Every object satisfies the invariant of its component.\<close>

definition objects_ok :: "'w objects \<Rightarrow> bool" where
  "objects_ok g \<longleftrightarrow> man_ok (g_AlbumManager g) \<and> gen_ok (g_AlbumFileIdGenerator g) \<and>
     overlay_ok (g_OverlayThumbnailHolder g) \<and> app_ok (g_ApplicationAlbumManager g)"

definition preserves :: "('a, 'w) service \<Rightarrow> bool" where
  "preserves f \<longleftrightarrow> (\<forall>g rc a g'. objects_ok g \<longrightarrow> f g = Inr (rc, a, g') \<longrightarrow> objects_ok g')"

named_theorems preserves_rules "service calls that keep the objects consistent"

lemma preservesI:
  "(\<And>g rc a g'. objects_ok g \<Longrightarrow> f g = Inr (rc, a, g') \<Longrightarrow> objects_ok g') \<Longrightarrow> preserves f"
  unfolding preserves_def by blast

lemma preservesD: "preserves f \<Longrightarrow> objects_ok g \<Longrightarrow> f g = Inr (rc, a, g') \<Longrightarrow> objects_ok g'"
  unfolding preserves_def by blast

lemma preserves_manager [preserves_rules]:
  assumes "\<And>x. keeps (f x)"
  shows "preserves (on_manager x f)"
proof (rule preservesI)
  fix g rc a g'
  assume ok: "objects_ok g" and "on_manager x f g = Inr (rc, a, g')"
  then obtain m w where r: "f (site x g) (g_AlbumManager g, g_world g) = Inr (rc, a, (m, w))"
    and g': "g' = g\<lparr>g_AlbumManager := m, g_world := w\<rparr>"
    by (auto simp: on_manager_def then_run_eq_Inr)
  have "man_ok m" using keepsD [OF assms _ r] ok by (simp add: objects_ok_def)
  then show "objects_ok g'" using ok by (simp add: g' objects_ok_def)
qed

lemma preserves_converted [preserves_rules]: "preserves f \<Longrightarrow> preserves (converted f)"
  by (rule preservesI) (auto simp: converted_def then_run_eq_Inr dest: preservesD)

lemma preserves_set_output [preserves_rules]: "preserves f \<Longrightarrow> preserves (set_output h f)"
  by (rule preservesI) (auto simp: set_output_def then_run_eq_Inr dest: preservesD)

lemma preserves_not_implemented [preserves_rules]: "preserves not_implemented"
  by (rule preservesI) (simp add: not_implemented_def)

lemma preserves_return [preserves_rules]: "preserves (\<lambda>g. Inr (rc, a g, g))"
  by (rule preservesI) simp

end
