(* ===== verification/AccessorService.thy ===== *)
theory AccessorService
  imports Objects
begin

text \<open>
  \<open>hipc/capsrv_album_accessor_service.cpp\<close>: the methods of \<open>caps:a\<close>. An output that is only
  set on success is an option; a buffer of the client is a list of bytes.
\<close>

section \<open>Counting, listing, files\<close>

definition Accessor_GetAlbumFileCount ::
  "'w surroundings \<Rightarrow> StorageId \<Rightarrow> (u64 option, 'w) service" where
  "Accessor_GetAlbumFileCount x sid =
     set_output id (converted (on_manager x (\<lambda>x. CountEntries x 0 sid ContentTypeFlag_Normal)))"

text \<open>The list is written to the client's buffer, the count only on success.\<close>

definition with_count ::
  "(u64 \<times> 'e list, 'w) service \<Rightarrow> ('e list \<times> u64 option, 'w) service" where
  "with_count f g = then_run (f g) (\<lambda>(rc, (n, es), g').
     Inr (rc, (es, if R_FAILED rc then None else Some n), g'))"

definition Accessor_GetAlbumFileList ::
  "'w surroundings \<Rightarrow> nat \<Rightarrow> StorageId \<Rightarrow> (AlbumEntry list \<times> u64 option, 'w) service" where
  "Accessor_GetAlbumFileList x entries_size sid =
     with_count (converted (on_manager x (\<lambda>x. ListEntries x entries_size sid ContentTypeFlag_Normal)))"

definition Accessor_LoadAlbumFile ::
  "'w surroundings \<Rightarrow> nat \<Rightarrow> AlbumFileId \<Rightarrow> (u8 list \<times> u64 option, 'w) service" where
  "Accessor_LoadAlbumFile x image_size f =
     with_count (converted (on_manager x (\<lambda>x. LoadJpeg x image_size f)))"

definition Accessor_DeleteAlbumFile :: "'w surroundings \<Rightarrow> AlbumFileId \<Rightarrow> (unit, 'w) service" where
  "Accessor_DeleteAlbumFile x f = converted (on_manager x (\<lambda>x. Manager_DeleteFile x f))"

definition Accessor_StorageCopyAlbumFile ::
  "'w surroundings \<Rightarrow> StorageId \<Rightarrow> AlbumFileId \<Rightarrow> (unit, 'w) service" where
  "Accessor_StorageCopyAlbumFile x dst f = converted (on_manager x (\<lambda>x. CopyFile x f dst))"

definition Accessor_IsAlbumMounted :: "'w surroundings \<Rightarrow> StorageId \<Rightarrow> (bool, 'w) service" where
  "Accessor_IsAlbumMounted x sid g =
     then_run (on_manager x (\<lambda>x. MountImageDirectory x sid) g) (\<lambda>(rc, _, g).
       Inr (ResultSuccess, R_SUCCEEDED rc, g))"

definition Accessor_GetAlbumUsage ::
  "'w surroundings \<Rightarrow> StorageId \<Rightarrow> (CapsAlbumContentsUsage \<times> CapsAlbumContentsUsage list, 'w) service" where
  "Accessor_GetAlbumUsage x sid =
     converted (on_manager x (\<lambda>x. GetAlbumUsage x 1 sid ContentTypeFlag_ScreenShot))"

definition Accessor_GetAlbumFileSize :: "'w surroundings \<Rightarrow> AlbumFileId \<Rightarrow> (int option, 'w) service" where
  "Accessor_GetAlbumFileSize x f = set_output id (converted (on_manager x (\<lambda>x. GetFileSize x f)))"

text \<open>Here the size is set on failure too.\<close>

definition Accessor_LoadAlbumFileThumbnail ::
  "'w surroundings \<Rightarrow> nat \<Rightarrow> AlbumFileId \<Rightarrow> (u64 \<times> u8 list, 'w) service" where
  "Accessor_LoadAlbumFileThumbnail x image_size f =
     converted (on_manager x (\<lambda>x. LoadJpegThumbnail x image_size f))"

section \<open>Decoded screenshots\<close>

text \<open>
  Decoding is not implemented: zero dimensions, zero attributes (\<open>attr_size\<close> bytes, the size of the
  library's structure), the client's image buffer as it was and the work buffer cleared.
\<close>

record screenshot_reply =
  rp_dims :: Dimensions
  rp_attr :: "u8 list option"
  rp_work :: "u8 list"
  rp_image :: "u8 list"

definition decode_nothing ::
  "nat option \<Rightarrow> u8 list \<Rightarrow> u8 list \<Rightarrow> (screenshot_reply, 'w) service" where
  "decode_nothing attr_size work jpeg g =
     Inr (ResultSuccess,
       \<lparr>rp_dims = \<lparr>width = 0, height = 0\<rparr>,
        rp_attr = map_option (\<lambda>n. replicate n 0) attr_size,
        rp_work = replicate (length work) 0, rp_image = jpeg\<rparr>, g)"

definition Accessor_LoadAlbumScreenShotImage ::
  "u8 list \<Rightarrow> u8 list \<Rightarrow> AlbumFileId \<Rightarrow> (screenshot_reply, 'w) service" where
  "Accessor_LoadAlbumScreenShotImage work jpeg f = decode_nothing None work jpeg"

definition Accessor_LoadAlbumScreenShotThumbnailImage ::
  "u8 list \<Rightarrow> u8 list \<Rightarrow> AlbumFileId \<Rightarrow> (screenshot_reply, 'w) service" where
  "Accessor_LoadAlbumScreenShotThumbnailImage work jpeg f = decode_nothing None work jpeg"

definition Accessor_LoadAlbumScreenShotImageEx ::
  "u8 list \<Rightarrow> u8 list \<Rightarrow> AlbumFileId \<Rightarrow> u8 list \<Rightarrow> (screenshot_reply, 'w) service" where
  "Accessor_LoadAlbumScreenShotImageEx work jpeg f opts = decode_nothing None work jpeg"

definition Accessor_LoadAlbumScreenShotThumbnailImageEx ::
  "u8 list \<Rightarrow> u8 list \<Rightarrow> AlbumFileId \<Rightarrow> u8 list \<Rightarrow> (screenshot_reply, 'w) service" where
  "Accessor_LoadAlbumScreenShotThumbnailImageEx work jpeg f opts = decode_nothing None work jpeg"

definition Accessor_LoadAlbumScreenShotImageEx0 ::
  "nat \<Rightarrow> u8 list \<Rightarrow> u8 list \<Rightarrow> AlbumFileId \<Rightarrow> u8 list \<Rightarrow> (screenshot_reply, 'w) service" where
  "Accessor_LoadAlbumScreenShotImageEx0 attr_size work jpeg f opts = decode_nothing (Some attr_size) work jpeg"

definition Accessor_LoadAlbumScreenShotThumbnailImageEx0 ::
  "nat \<Rightarrow> u8 list \<Rightarrow> u8 list \<Rightarrow> AlbumFileId \<Rightarrow> u8 list \<Rightarrow> (screenshot_reply, 'w) service" where
  "Accessor_LoadAlbumScreenShotThumbnailImageEx0 attr_size work jpeg f opts =
     decode_nothing (Some attr_size) work jpeg"

definition Accessor_LoadAlbumScreenShotImageEx1 ::
  "nat \<Rightarrow> u8 list \<Rightarrow> u8 list \<Rightarrow> AlbumFileId \<Rightarrow> u8 list \<Rightarrow> (screenshot_reply, 'w) service" where
  "Accessor_LoadAlbumScreenShotImageEx1 attr_size work jpeg f opts = decode_nothing (Some attr_size) work jpeg"

definition Accessor_LoadAlbumScreenShotThumbnailImageEx1 ::
  "nat \<Rightarrow> u8 list \<Rightarrow> u8 list \<Rightarrow> AlbumFileId \<Rightarrow> u8 list \<Rightarrow> (screenshot_reply, 'w) service" where
  "Accessor_LoadAlbumScreenShotThumbnailImageEx1 attr_size work jpeg f opts =
     decode_nothing (Some attr_size) work jpeg"

section \<open>Entries of applications\<close>

text \<open>These calls take no lock. \<open>junk\<close> is the uninitialised entry on the stack.\<close>

definition of_lookup :: "result \<times> 'a \<Rightarrow> ('a option, 'w) service" where
  "of_lookup r = set_output id (converted (\<lambda>g. Inr (fst r, snd r, g)))"

definition Accessor_GetAlbumEntryFromApplicationAlbumEntry ::
  "'w surroundings \<Rightarrow> AlbumEntry \<Rightarrow> ApplicationAlbumEntry \<Rightarrow> u64 \<Rightarrow> (AlbumEntry option, 'w) service" where
  "Accessor_GetAlbumEntryFromApplicationAlbumEntry x junk app_entry app g =
     of_lookup (GetAlbumEntryFromApplicationAlbumEntry (lib x) (lib_keys x) (g_AlbumSettings g) junk
       app_entry app (g_ApplicationAlbumManager g)) g"

definition Accessor_GetAlbumEntryFromApplicationAlbumEntryAruid ::
  "'w surroundings \<Rightarrow> AlbumEntry \<Rightarrow> u64 \<Rightarrow> ApplicationAlbumEntry \<Rightarrow> (AlbumEntry option, 'w) service" where
  "Accessor_GetAlbumEntryFromApplicationAlbumEntryAruid x junk aruid app_entry g =
     of_lookup (GetAlbumEntryFromApplicationAlbumEntryAruid (lib x) (lib_keys x) (g_AlbumSettings g) junk
       app_entry aruid (g_ApplicationAlbumManager g)) g"

section \<open>Usage, mounting, caches\<close>

definition Accessor_GetAlbumUsage3 ::
  "'w surroundings \<Rightarrow> StorageId \<Rightarrow> (CapsAlbumContentsUsage \<times> CapsAlbumContentsUsage list, 'w) service" where
  "Accessor_GetAlbumUsage3 x sid =
     converted (on_manager x (\<lambda>x. GetAlbumUsage x 2 sid ContentTypeFlag_Normal))"

definition Accessor_GetAlbumMountResult :: "'w surroundings \<Rightarrow> StorageId \<Rightarrow> (unit, 'w) service" where
  "Accessor_GetAlbumMountResult x sid = converted (on_manager x (\<lambda>x. MountImageDirectory x sid))"

definition Accessor_GetAlbumUsage16 ::
  "'w surroundings \<Rightarrow> StorageId \<Rightarrow> u8 \<Rightarrow>
     (CapsAlbumContentsUsage \<times> CapsAlbumContentsUsage list, 'w) service" where
  "Accessor_GetAlbumUsage16 x sid flags =
     converted (on_manager x (\<lambda>x. GetAlbumUsage x 0xf sid flags))"

text \<open>Two 64-bit values, least byte first; only an empty buffer is left alone.\<close>

definition applet_id_range :: "u8 list" where
  "applet_id_range =
     [0x00, 0x10, 0x00, 0x00, 0x00, 0x00, 0x00, 0x01, 0xff, 0x1f, 0x00, 0x00, 0x00, 0x00, 0x00, 0x01]"

definition Accessor_GetMinMaxAppletId :: "u8 list \<Rightarrow> (u8 list \<times> bool option, 'w) service" where
  "Accessor_GetMinMaxAppletId minMax g =
     (if length minMax = 0 then Inr (ResultSuccess, (minMax, None), g)
      else if length minMax < 16 then Inl OutOfBounds
      else Inr (ResultSuccess, (poke 0 applet_id_range minMax, Some True), g))"

definition Accessor_GetAlbumFileCountEx0 ::
  "'w surroundings \<Rightarrow> StorageId \<Rightarrow> u8 \<Rightarrow> (u64 option, 'w) service" where
  "Accessor_GetAlbumFileCountEx0 x sid flags =
     set_output id (converted (on_manager x (\<lambda>x. CountEntries x 0 sid flags)))"

definition Accessor_GetAlbumFileListEx0 ::
  "'w surroundings \<Rightarrow> nat \<Rightarrow> StorageId \<Rightarrow> u8 \<Rightarrow> (AlbumEntry list \<times> u64 option, 'w) service" where
  "Accessor_GetAlbumFileListEx0 x entries_size sid flags =
     with_count (converted (on_manager x (\<lambda>x. ListEntries x entries_size sid flags)))"

definition Accessor_SaveEditedScreenShot ::
  "u8 list \<Rightarrow> u8 list \<Rightarrow> u64 list \<Rightarrow> (AlbumEntry option, 'w) service" where
  "Accessor_SaveEditedScreenShot buf0 buf1 args = not_implemented"

definition Accessor_GetAutoSavingStorage :: "'w surroundings \<Rightarrow> (StorageId, 'w) service" where
  "Accessor_GetAutoSavingStorage x = converted (on_manager x (\<lambda>x. GetAutoSavingStorage x Screenshot))"

definition Accessor_GetRequiredStorageSpaceSizeToCopyAll ::
  "'w surroundings \<Rightarrow> StorageId \<Rightarrow> StorageId \<Rightarrow> (u64 option, 'w) service" where
  "Accessor_GetRequiredStorageSpaceSizeToCopyAll x dst src =
     set_output id (converted (on_manager x (\<lambda>x. GetRequiredStorageSpaceSizeToCopyAll x src dst)))"

definition Accessor_ForceAlbumUnmounted :: "'w surroundings \<Rightarrow> StorageId \<Rightarrow> (unit, 'w) service" where
  "Accessor_ForceAlbumUnmounted x sid = converted (on_manager x (\<lambda>x. CloseImageDirectory x sid))"

definition Accessor_ResetAlbumMountStatus :: "'w surroundings \<Rightarrow> StorageId \<Rightarrow> (unit, 'w) service" where
  "Accessor_ResetAlbumMountStatus x sid = converted (on_manager x (\<lambda>x. UnmountImageDirectory x sid))"

definition Accessor_RefreshAlbumCache :: "'w surroundings \<Rightarrow> StorageId \<Rightarrow> (unit, 'w) service" where
  "Accessor_RefreshAlbumCache x sid = converted (on_manager x (\<lambda>x. RefreshCache x sid))"

definition Accessor_GetAlbumCacheEx ::
  "'w surroundings \<Rightarrow> StorageId \<Rightarrow> ContentType \<Rightarrow> (CapsAlbumCache, 'w) service" where
  "Accessor_GetAlbumCacheEx x sid type =
     converted (\<lambda>g. then_run (GetCache (site x g) sid type (g_AlbumManager g)) (\<lambda>(rc, c). Inr (rc, c, g)))"

text \<open>\<open>hos::GetVersion\<close> and libnx compare versions alike (\<open>Hos\<close>). Nothing is output from 4.0.0 on.\<close>

definition Accessor_GetAlbumCache ::
  "'w surroundings \<Rightarrow> StorageId \<Rightarrow> (CapsAlbumCache option, 'w) service" where
  "Accessor_GetAlbumCache x sid g =
     (if hosversionBefore (plat x) 4 0 0
      then then_run (Accessor_GetAlbumCacheEx x sid Screenshot g) (\<lambda>(rc, c, g). Inr (rc, Some c, g))
      else Inr (ResultAlbumUnsupportedVersion, None, g))"

section \<open>Overlay thumbnails\<close>

text \<open>
  The identifier is written where the client reads it, the size only on success. A call that waits
  for a writer has no result here (\<open>OutOfFuel\<close>); \<open>overlay_ok\<close> excludes it.
\<close>

definition last_thumbnail ::
  "ContentType \<Rightarrow> nat \<Rightarrow> ((AlbumFileId \<times> u8 list) option, 'w) service" where
  "last_thumbnail type buffer_size =
     converted (\<lambda>g. then_run (GetLastOverlayThumbnail buffer_size type (g_OverlayThumbnailHolder g)) (\<lambda>r.
       case r of None \<Rightarrow> Inl OutOfFuel | Some (rc, a) \<Rightarrow> Inr (rc, a, g)))"

definition Accessor_GetLastOverlayScreenShotThumbnail ::
  "nat \<Rightarrow> ((AlbumFileId \<times> u8 list) option, 'w) service" where
  "Accessor_GetLastOverlayScreenShotThumbnail buffer_size = last_thumbnail Screenshot buffer_size"

definition Accessor_GetLastOverlayMovieThumbnail ::
  "nat \<Rightarrow> ((AlbumFileId \<times> u8 list) option, 'w) service" where
  "Accessor_GetLastOverlayMovieThumbnail buffer_size = last_thumbnail Movie buffer_size"

section \<open>Debugging\<close>

definition Accessor_SetInternalErrorConversionEnabled :: "bool \<Rightarrow> (unit, 'w) service" where
  "Accessor_SetInternalErrorConversionEnabled mode g =
     Inr (ResultSuccess, (), g\<lparr>g_AlbumErrorConverter := SetMode mode (g_AlbumErrorConverter g)\<rparr>)"

definition makernote_buffer_size :: nat where
  "makernote_buffer_size = 0xc78"

text \<open>
  The reply is the size on success and both buffers of the client. Verification is switched off for
  the call and restored on every exit after that.
\<close>

definition Accessor_LoadMakerNoteInfoForDebug ::
  "'w surroundings \<Rightarrow> u8 list \<Rightarrow> u8 list \<Rightarrow> AlbumFileId \<Rightarrow>
     (u64 option \<times> u8 list \<times> u8 list, 'w) service" where
  "Accessor_LoadMakerNoteInfoForDebug x makernote work f g =
     (if \<not> IsDebug (env x) then Inr (ResultNotSupported, (None, makernote, work), g)
      else if \<not> length makernote \<ge> makernote_buffer_size
      then Inr (ResultAlbumReadBufferShortage, (None, makernote, work), g)
      else if \<not> length work \<ge> 0x7d000
      then Inr (ResultAlbumWorkMemoryError, (None, makernote, work), g)
      else
     (let makernote = replicate (length makernote) 0;
          tmp_makernote = replicate makernote_buffer_size 0;
          (should_verify, s) = SetVerifyScreenshotFiledata (g_AlbumSettings g) False
      in then_run (converted (on_manager x (\<lambda>x. Manager_LoadMakerNoteInfo f)) (g\<lparr>g_AlbumSettings := s\<rparr>))
        (\<lambda>(rc, n, g).
          let on_exit = (\<lambda>g. g\<lparr>g_AlbumSettings :=
                snd (SetVerifyScreenshotFiledata (g_AlbumSettings g) should_verify)\<rparr>);
              cleared = replicate (length work) 0
          in if R_FAILED rc then Inr (rc, (None, makernote, cleared), on_exit g)
             else then_run (bytes_at tmp_makernote 0 (unat n)) (\<lambda>bytes.
               Inr (ResultSuccess, (Some n, poke 0 bytes makernote, cleared), on_exit g)))))"

text \<open>A session is an object without state.\<close>

datatype session = AccessorSession | ControlSession | AccessorApplicationSession

definition Accessor_OpenAccessorSession :: "u64 \<Rightarrow> (session, 'w) service" where
  "Accessor_OpenAccessorSession aruid g = Inr (ResultSuccess, AccessorSession, g)"

section \<open>Lemmas\<close>

lemma preserves_with_count [preserves_rules]: "preserves f \<Longrightarrow> preserves (with_count f)"
  by (rule preservesI) (auto simp: with_count_def then_run_eq_Inr dest: preservesD)

lemma preserves_of_lookup [preserves_rules]: "preserves (\<lambda>g. of_lookup (r g) g)"
  by (rule preservesI) (auto simp: of_lookup_def set_output_def converted_def then_run_eq_Inr)

lemma preserves_last_thumbnail [preserves_rules]: "preserves (last_thumbnail type n)"
  by (rule preservesI)
    (auto simp: last_thumbnail_def converted_def then_run_eq_Inr split: option.splits)

end
