(* ===== verification/ControlService.thy ===== *)
theory ControlService
  imports AccessorService
begin

text \<open>
  \<open>hipc/capsrv_album_control_service.cpp\<close>: the methods of \<open>caps:c\<close>.
\<close>

section \<open>Screen capture\<close>

definition CaptureRawImage :: "u8 list \<Rightarrow> u64 list \<Rightarrow> (unit, 'w) service" where
  "CaptureRawImage buf args = not_implemented"
definition CaptureRawImageWithTimeout :: "u8 list \<Rightarrow> u64 list \<Rightarrow> (unit, 'w) service" where
  "CaptureRawImageWithTimeout buf args = not_implemented"
definition RequestTakingScreenShot :: "u64 list \<Rightarrow> (unit, 'w) service" where
  "RequestTakingScreenShot args = not_implemented"
definition RequestTakingScreenShotWithTimeout :: "u64 list \<Rightarrow> (unit, 'w) service" where
  "RequestTakingScreenShotWithTimeout args = not_implemented"
definition NotifyTakingScreenShotRefused :: "u64 \<Rightarrow> (unit, 'w) service" where
  "NotifyTakingScreenShotRefused a = not_implemented"

section \<open>Storages\<close>

definition NotifyAlbumStorageIsAvailable :: "'w surroundings \<Rightarrow> StorageId \<Rightarrow> (unit, 'w) service" where
  "NotifyAlbumStorageIsAvailable x sid = converted (\<lambda>g.
     then_run (on_manager x (\<lambda>x. UnmountImageDirectory x sid) g) (\<lambda>(rc, _, g).
       if R_SUCCEEDED rc then on_manager x (\<lambda>x. RefreshCache x sid) g else Inr (rc, (), g)))"

definition NotifyAlbumStorageIsUnavailable :: "'w surroundings \<Rightarrow> StorageId \<Rightarrow> (unit, 'w) service" where
  "NotifyAlbumStorageIsUnavailable x sid = converted (on_manager x (\<lambda>x. CloseImageDirectory x sid))"

section \<open>Applications\<close>

definition Control_SetShimLibraryVersion :: "u64 \<Rightarrow> u64 \<Rightarrow> (unit, 'w) service" where
  "Control_SetShimLibraryVersion version aruid = converted (\<lambda>g.
     let (rc, am) = SetShimLibraryVersion version aruid (g_ApplicationAlbumManager g)
     in Inr (rc, (), g\<lparr>g_ApplicationAlbumManager := am\<rparr>))"

definition Control_RegisterAppletResourceUserId ::
  "'w surroundings \<Rightarrow> u64 \<Rightarrow> u64 \<Rightarrow> (unit, 'w) service" where
  "Control_RegisterAppletResourceUserId x aruid app = converted (\<lambda>g.
     then_run (RegisterAppletResourceUserId (loop_fuel x) (plat x) aruid app
       (g_ApplicationAlbumManager g) (g_world g)) (\<lambda>(rc, am, w).
       Inr (rc, (), g\<lparr>g_ApplicationAlbumManager := am, g_world := w\<rparr>)))"

definition Control_UnregisterAppletResourceUserId :: "u64 \<Rightarrow> u64 \<Rightarrow> (unit, 'w) service" where
  "Control_UnregisterAppletResourceUserId aruid app g =
     Inr (ResultSuccess, (), g\<lparr>g_ApplicationAlbumManager :=
       UnregisterAppletResourceUserId aruid app (g_ApplicationAlbumManager g)\<rparr>)"

definition Control_GetApplicationIdFromAruid :: "u64 \<Rightarrow> (u64 option, 'w) service" where
  "Control_GetApplicationIdFromAruid aruid g =
     of_lookup (GetApplicationIdFromAruid 0 aruid (g_ApplicationAlbumManager g)) g"

definition Control_CheckApplicationIdRegistered :: "u64 \<Rightarrow> (unit, 'w) service" where
  "Control_CheckApplicationIdRegistered app = converted (\<lambda>g.
     Inr (CheckApplicationIdRegistered app (g_ApplicationAlbumManager g), (), g))"

section \<open>Identifiers and entries\<close>

text \<open>The manager is used without the album mutex here.\<close>

definition GenerateCurrentAlbumFileId ::
  "'w surroundings \<Rightarrow> u64 \<Rightarrow> ContentType \<Rightarrow> (AlbumFileId option, 'w) service" where
  "GenerateCurrentAlbumFileId x app type = set_output id (converted (\<lambda>g.
     then_run (GenerateFileId (site x g) zero_AlbumFileId app type
       (g_AlbumFileIdGenerator g, (g_AlbumManager g, g_world g))) (\<lambda>(rc, f, (gen, (m, w))).
       Inr (rc, f, g\<lparr>g_AlbumFileIdGenerator := gen, g_AlbumManager := m, g_world := w\<rparr>))))"

definition Control_GenerateApplicationAlbumEntry ::
  "'w surroundings \<Rightarrow> ApplicationAlbumEntry \<Rightarrow> AlbumEntry \<Rightarrow> u64 \<Rightarrow>
     (ApplicationAlbumEntry option, 'w) service" where
  "Control_GenerateApplicationAlbumEntry x junk entry app g =
     of_lookup (GenerateApplicationAlbumEntry (lib x) (lib_keys x) junk (replicate 0x20 0) entry app
       (g_ApplicationAlbumManager g)) g"

section \<open>Saving\<close>

definition SaveAlbumScreenShotFile :: "'w surroundings \<Rightarrow> u8 list \<Rightarrow> AlbumFileId \<Rightarrow> (unit, 'w) service" where
  "SaveAlbumScreenShotFile x jpeg f =
     converted (on_manager x (\<lambda>x. SaveScreenshotFile jpeg f 0 0 0))"

definition SaveAlbumScreenShotFileEx ::
  "'w surroundings \<Rightarrow> u8 list \<Rightarrow> AlbumFileId \<Rightarrow> u64 \<Rightarrow> u64 \<Rightarrow> u64 \<Rightarrow> (unit, 'w) service" where
  "SaveAlbumScreenShotFileEx x jpeg f unk0 unk1 unk2 =
     converted (on_manager x (\<lambda>x. SaveScreenshotFile jpeg f unk0 unk1 unk2))"

section \<open>Overlay thumbnails\<close>

text \<open>
  The three calls one after the other; \<open>Overlay\<close> has the interleavings of their steps with
  those of a reader.
\<close>

definition set_thumbnail :: "ContentType \<Rightarrow> u8 list \<Rightarrow> AlbumFileId \<Rightarrow> (unit, 'w) service" where
  "set_thumbnail type buf f g =
     (if \<not> length buf \<ge> OverlayBufferSize then Inr (ResultAlbumError, (), g) else
      then_run (GetOverlayBuffer f type (g_OverlayThumbnailHolder g)) (\<lambda>r.
      case r of None \<Rightarrow> Inl OutOfFuel
      | Some (dst, h) \<Rightarrow>
         if length (total_memory h) < dst + OverlayBufferSize then Inl OutOfBounds else
         then_run (Overlay_Signal type
             (h\<lparr>total_memory := poke dst (take OverlayBufferSize buf) (total_memory h)\<rparr>)) (\<lambda>h.
           Inr (ResultSuccess, (), g\<lparr>g_OverlayThumbnailHolder := h\<rparr>))))"

definition SetOverlayScreenShotThumbnailData :: "u8 list \<Rightarrow> AlbumFileId \<Rightarrow> (unit, 'w) service" where
  "SetOverlayScreenShotThumbnailData buf f = set_thumbnail Screenshot buf f"

definition SetOverlayMovieThumbnailData :: "u8 list \<Rightarrow> AlbumFileId \<Rightarrow> (unit, 'w) service" where
  "SetOverlayMovieThumbnailData buf f = set_thumbnail Movie buf f"

definition OpenControlSession :: "u64 \<Rightarrow> (session, 'w) service" where
  "OpenControlSession aruid g = Inr (ResultSuccess, ControlSession, g)"

end
