(* ===== verification/ApplicationService.thy ===== *)
theory ApplicationService
  imports ControlService
begin

text \<open>
  \<open>hipc/capsrv_album_application_service.cpp\<close>, the methods of \<open>caps:u\<close>, and
  \<open>hipc/capsrv_stream_session.cpp\<close>, those of the sessions. Most are not implemented: they abort.
\<close>

section \<open>The application service\<close>

definition Application_SetShimLibraryVersion :: "u64 \<Rightarrow> u64 \<Rightarrow> (unit, 'w) service" where
  "Application_SetShimLibraryVersion version aruid = converted (\<lambda>g.
     let (rc, am) = SetShimLibraryVersion version aruid (g_ApplicationAlbumManager g)
     in Inr (rc, (), g\<lparr>g_ApplicationAlbumManager := am\<rparr>))"

definition GetAlbumFileList0AafeAruidDeprecated ::
  "u64 \<Rightarrow> ContentType \<Rightarrow> u64 \<Rightarrow> u64 \<Rightarrow> (u8 list, 'w) service" where
  "GetAlbumFileList0AafeAruidDeprecated aruid type start_timestamp end_timestamp = not_implemented"

definition DeleteAlbumFileByAruid ::
  "u64 \<Rightarrow> ContentType \<Rightarrow> ApplicationAlbumFileEntry \<Rightarrow> (unit, 'w) service" where
  "DeleteAlbumFileByAruid aruid type app_file_entry = not_implemented"

definition GetAlbumFileSizeByAruid ::
  "u64 \<Rightarrow> ApplicationAlbumFileEntry \<Rightarrow> (u64, 'w) service" where
  "GetAlbumFileSizeByAruid aruid app_file_entry = not_implemented"

definition DeleteAlbumFileByAruidForDebug ::
  "u64 \<Rightarrow> ApplicationAlbumFileEntry \<Rightarrow> (unit, 'w) service" where
  "DeleteAlbumFileByAruidForDebug aruid app_file_entry = not_implemented"

definition LoadAlbumScreenShotImageByAruid ::
  "u64 \<Rightarrow> ApplicationAlbumFileEntry \<Rightarrow> u8 list \<Rightarrow> (u8 list, 'w) service" where
  "LoadAlbumScreenShotImageByAruid aruid app_file_entry opts = not_implemented"

definition LoadAlbumScreenShotThumbnailImageByAruid ::
  "u64 \<Rightarrow> ApplicationAlbumFileEntry \<Rightarrow> u8 list \<Rightarrow> (u8 list, 'w) service" where
  "LoadAlbumScreenShotThumbnailImageByAruid aruid app_file_entry opts = not_implemented"

definition PrecheckToCreateContentsByAruid ::
  "ContentType \<Rightarrow> u64 \<Rightarrow> u64 \<Rightarrow> (unit, 'w) service" where
  "PrecheckToCreateContentsByAruid type sz aruid = not_implemented"

definition GetAlbumFileList1AafeAruidDeprecated ::
  "u64 \<Rightarrow> ContentType \<Rightarrow> AlbumDateTime \<Rightarrow> AlbumDateTime \<Rightarrow> (u8 list \<times> u64, 'w) service" where
  "GetAlbumFileList1AafeAruidDeprecated aruid type start_date end_date = not_implemented"

definition GetAlbumFileList2AafeUidAruidDeprecated ::
  "u64 \<Rightarrow> ContentType \<Rightarrow> AlbumDateTime \<Rightarrow> AlbumDateTime \<Rightarrow> u64 \<times> u64 \<Rightarrow> (u8 list \<times> u64, 'w) service" where
  "GetAlbumFileList2AafeUidAruidDeprecated aruid type start_date end_date uid = not_implemented"

definition GetAlbumFileList3AaeAruid ::
  "u64 \<Rightarrow> ContentType \<Rightarrow> AlbumDateTime \<Rightarrow> AlbumDateTime \<Rightarrow> (u8 list \<times> u64, 'w) service" where
  "GetAlbumFileList3AaeAruid aruid type start_date end_date = not_implemented"

definition GetAlbumFileList4AaeUidAruid ::
  "u64 \<Rightarrow> ContentType \<Rightarrow> AlbumDateTime \<Rightarrow> AlbumDateTime \<Rightarrow> u64 \<times> u64 \<Rightarrow> (u8 list \<times> u64, 'w) service" where
  "GetAlbumFileList4AaeUidAruid aruid type start_date end_date uid = not_implemented"

definition OpenAccessorSessionForApplication ::
  "u64 \<Rightarrow> ApplicationAlbumFileEntry \<Rightarrow> (session, 'w) service" where
  "OpenAccessorSessionForApplication aruid app_file_entry g = Inr (ResultSuccess, AccessorApplicationSession, g)"

section \<open>Sessions\<close>

definition AccessorSession_OpenAlbumMovieReadStream :: "AlbumFileId \<Rightarrow> (u64, 'w) service" where
  "AccessorSession_OpenAlbumMovieReadStream f = not_implemented"

definition ControlSession_OpenAlbumMovieReadStream :: "AlbumFileId \<Rightarrow> (u64, 'w) service" where
  "ControlSession_OpenAlbumMovieReadStream f = not_implemented"

definition AccessorApplicationSession_OpenAlbumMovieReadStream :: "u64 \<Rightarrow> ApplicationAlbumFileEntry \<Rightarrow> (u64, 'w) service" where
  "AccessorApplicationSession_OpenAlbumMovieReadStream client_pid app_file_entry = not_implemented"

definition CloseAlbumMovieReadStream :: "u64 \<Rightarrow> (unit, 'w) service" where
  "CloseAlbumMovieReadStream stream = not_implemented"

definition GetAlbumMovieReadStreamMovieDataSize :: "u64 \<Rightarrow> (u64, 'w) service" where
  "GetAlbumMovieReadStreamMovieDataSize stream = not_implemented"

definition ReadMovieDataFromAlbumMovieReadStream :: "u64 \<Rightarrow> u64 \<Rightarrow> (u8 list \<times> u64, 'w) service" where
  "ReadMovieDataFromAlbumMovieReadStream stream off = not_implemented"

definition GetAlbumMovieReadStreamBrokenReason :: "u64 \<Rightarrow> (unit, 'w) service" where
  "GetAlbumMovieReadStreamBrokenReason stream = not_implemented"

definition GetAlbumMovieReadStreamImageDataSize :: "u64 \<Rightarrow> (u64, 'w) service" where
  "GetAlbumMovieReadStreamImageDataSize stream = not_implemented"

definition ReadImageDataFromAlbumMovieReadStream :: "u64 \<Rightarrow> u64 \<Rightarrow> (u8 list \<times> u64, 'w) service" where
  "ReadImageDataFromAlbumMovieReadStream stream off = not_implemented"

definition ReadFileAttributeFromAlbumMovieReadStream :: "(u8 list, 'w) service" where
  "ReadFileAttributeFromAlbumMovieReadStream = not_implemented"

definition OpenAlbumMovieWriteStream :: "AlbumFileId \<Rightarrow> (u64, 'w) service" where
  "OpenAlbumMovieWriteStream f = not_implemented"

definition FinishAlbumMovieWriteStream :: "u64 \<Rightarrow> (unit, 'w) service" where
  "FinishAlbumMovieWriteStream stream = not_implemented"

definition CommitAlbumMovieWriteStream :: "u64 \<Rightarrow> (unit, 'w) service" where
  "CommitAlbumMovieWriteStream stream = not_implemented"

definition DiscardAlbumMovieWriteStream :: "u64 \<Rightarrow> (unit, 'w) service" where
  "DiscardAlbumMovieWriteStream stream = not_implemented"

definition DiscardAlbumMovieWriteStreamNoDelete :: "u64 \<Rightarrow> (unit, 'w) service" where
  "DiscardAlbumMovieWriteStreamNoDelete stream = not_implemented"

definition CommitAlbumMovieWriteStreamEx :: "u64 \<Rightarrow> (AlbumEntry, 'w) service" where
  "CommitAlbumMovieWriteStreamEx stream = not_implemented"

definition StartAlbumMovieWriteStreamDataSection :: "u64 \<Rightarrow> (unit, 'w) service" where
  "StartAlbumMovieWriteStreamDataSection stream = not_implemented"

definition EndAlbumMovieWriteStreamDataSection :: "u64 \<Rightarrow> (unit, 'w) service" where
  "EndAlbumMovieWriteStreamDataSection stream = not_implemented"

definition StartAlbumMovieWriteStreamMetaSection :: "u64 \<Rightarrow> (unit, 'w) service" where
  "StartAlbumMovieWriteStreamMetaSection stream = not_implemented"

definition EndAlbumMovieWriteStreamMetaSection :: "u64 \<Rightarrow> (unit, 'w) service" where
  "EndAlbumMovieWriteStreamMetaSection stream = not_implemented"

definition ReadDataFromAlbumMovieWriteStream :: "u64 \<Rightarrow> u64 \<Rightarrow> (u8 list, 'w) service" where
  "ReadDataFromAlbumMovieWriteStream stream off = not_implemented"

definition WriteDataToAlbumMovieWriteStream :: "u8 list \<Rightarrow> u64 \<Rightarrow> u64 \<Rightarrow> (unit, 'w) service" where
  "WriteDataToAlbumMovieWriteStream data stream off = not_implemented"

definition WriteMetaToAlbumMovieWriteStream :: "u8 list \<Rightarrow> u64 \<Rightarrow> u64 \<Rightarrow> u64 \<Rightarrow> u64 \<Rightarrow> (unit, 'w) service" where
  "WriteMetaToAlbumMovieWriteStream meta_data stream off unk0 unk1 = not_implemented"

definition GetAlbumMovieWriteStreamBrokenReason :: "u64 \<Rightarrow> (unit, 'w) service" where
  "GetAlbumMovieWriteStreamBrokenReason stream = not_implemented"

definition GetAlbumMovieWriteStreamDataSize :: "u64 \<Rightarrow> (u64, 'w) service" where
  "GetAlbumMovieWriteStreamDataSize stream = not_implemented"

definition SetAlbumMovieWriteStreamDataSize :: "u64 \<Rightarrow> u64 \<Rightarrow> (unit, 'w) service" where
  "SetAlbumMovieWriteStreamDataSize stream sz = not_implemented"

end
