(* ===== verification/Hos.thy ===== *)
theory Hos
  imports Platform Results
begin

text \<open>
  Firmware versions: \<open>ams_target_firmware.h\<close>, \<open>hos_types.hpp\<close> and
  \<open>hos_version_api.cpp\<close>. The monitor's target firmware is read once and kept; the packed form
  of libnx, which the album service compares with, is set from it.
\<close>

section \<open>Packed versions\<close>

type_synonym Version = u32

definition TARGET_FIRMWARE_WITH_REVISION :: "u32 \<Rightarrow> u32 \<Rightarrow> u32 \<Rightarrow> u32 \<Rightarrow> Version" where
  "TARGET_FIRMWARE_WITH_REVISION major minor micro revision =
     push_bit 24 major OR push_bit 16 minor OR push_bit 8 micro OR revision"

definition TARGET_FIRMWARE :: "u32 \<Rightarrow> u32 \<Rightarrow> u32 \<Rightarrow> Version" where
  "TARGET_FIRMWARE major minor micro = TARGET_FIRMWARE_WITH_REVISION major minor micro 0"

definition Version_Min :: Version where "Version_Min = TARGET_FIRMWARE 0 0 0"
definition Version_1_0_0 :: Version where "Version_1_0_0 = TARGET_FIRMWARE 1 0 0"
definition Version_2_0_0 :: Version where "Version_2_0_0 = TARGET_FIRMWARE 2 0 0"
definition Version_3_0_0 :: Version where "Version_3_0_0 = TARGET_FIRMWARE 3 0 0"
definition Version_4_0_0 :: Version where "Version_4_0_0 = TARGET_FIRMWARE 4 0 0"
definition Version_5_0_0 :: Version where "Version_5_0_0 = TARGET_FIRMWARE 5 0 0"
definition Version_6_0_0 :: Version where "Version_6_0_0 = TARGET_FIRMWARE 6 0 0"
definition Version_7_0_0 :: Version where "Version_7_0_0 = TARGET_FIRMWARE 7 0 0"
definition Version_10_0_4 :: Version where "Version_10_0_4 = TARGET_FIRMWARE 10 0 4"
definition Version_Max :: Version where "Version_Max = Version_10_0_4"

text \<open>The releases that have a name, and the enumeration of versions made of them.\<close>

definition target_firmwares :: "(string \<times> Version) list" where
  "target_firmwares =
   [
    (''1_0_0'', TARGET_FIRMWARE 1 0 0),
    (''2_0_0'', TARGET_FIRMWARE 2 0 0),
    (''2_1_0'', TARGET_FIRMWARE 2 1 0),
    (''2_2_0'', TARGET_FIRMWARE 2 2 0),
    (''2_3_0'', TARGET_FIRMWARE 2 3 0),
    (''3_0_0'', TARGET_FIRMWARE 3 0 0),
    (''3_0_1'', TARGET_FIRMWARE 3 0 1),
    (''3_0_2'', TARGET_FIRMWARE 3 0 2),
    (''4_0_0'', TARGET_FIRMWARE 4 0 0),
    (''4_0_1'', TARGET_FIRMWARE 4 0 1),
    (''4_1_0'', TARGET_FIRMWARE 4 1 0),
    (''5_0_0'', TARGET_FIRMWARE 5 0 0),
    (''5_0_1'', TARGET_FIRMWARE 5 0 1),
    (''5_0_2'', TARGET_FIRMWARE 5 0 2),
    (''5_1_0'', TARGET_FIRMWARE 5 1 0),
    (''6_0_0'', TARGET_FIRMWARE 6 0 0),
    (''6_0_1'', TARGET_FIRMWARE 6 0 1),
    (''6_1_0'', TARGET_FIRMWARE 6 1 0),
    (''6_2_0'', TARGET_FIRMWARE 6 2 0),
    (''7_0_0'', TARGET_FIRMWARE 7 0 0),
    (''7_0_1'', TARGET_FIRMWARE 7 0 1),
    (''8_0_0'', TARGET_FIRMWARE 8 0 0),
    (''8_0_1'', TARGET_FIRMWARE 8 0 1),
    (''8_1_0'', TARGET_FIRMWARE 8 1 0),
    (''8_1_1'', TARGET_FIRMWARE 8 1 1),
    (''9_0_0'', TARGET_FIRMWARE 9 0 0),
    (''9_0_1'', TARGET_FIRMWARE 9 0 1),
    (''9_1_0'', TARGET_FIRMWARE 9 1 0),
    (''9_2_0'', TARGET_FIRMWARE 9 2 0),
    (''10_0_0'', TARGET_FIRMWARE 10 0 0),
    (''10_0_1'', TARGET_FIRMWARE 10 0 1),
    (''10_0_2'', TARGET_FIRMWARE 10 0 2),
    (''10_0_3'', TARGET_FIRMWARE 10 0 3),
    (''10_0_4'', TARGET_FIRMWARE 10 0 4)]"

definition TargetFirmware :: "string \<Rightarrow> Version" where
  "TargetFirmware name =
     (if name = ''Min'' then TARGET_FIRMWARE 0 0 0
      else if name = ''Current'' \<or> name = ''Max'' then the (map_of target_firmwares ''10_0_4'')
      else the (map_of target_firmwares name))"

definition hos_versions :: "(string \<times> Version) list" where
  "hos_versions = map (\<lambda>name. (name, TargetFirmware name))
   [
    ''Min'',
    ''1_0_0'',
    ''2_0_0'',
    ''2_1_0'',
    ''2_2_0'',
    ''2_3_0'',
    ''3_0_0'',
    ''3_0_1'',
    ''3_0_2'',
    ''4_0_0'',
    ''4_0_1'',
    ''4_1_0'',
    ''5_0_0'',
    ''5_0_1'',
    ''5_0_2'',
    ''5_1_0'',
    ''6_0_0'',
    ''6_0_1'',
    ''6_1_0'',
    ''6_2_0'',
    ''7_0_0'',
    ''7_0_1'',
    ''8_0_0'',
    ''8_0_1'',
    ''8_1_0'',
    ''8_1_1'',
    ''9_0_0'',
    ''9_0_1'',
    ''9_1_0'',
    ''9_2_0'',
    ''10_0_0'',
    ''10_0_1'',
    ''10_0_2'',
    ''Current'',
    ''Max'']"

named_theorems version_values "every firmware version as a number"

lemma version_numbers [version_values]:
  "Version_Min = 0" "Version_1_0_0 = 0x1000000" "Version_2_0_0 = 0x2000000"
  "Version_3_0_0 = 0x3000000" "Version_4_0_0 = 0x4000000" "Version_5_0_0 = 0x5000000"
  "Version_6_0_0 = 0x6000000" "Version_7_0_0 = 0x7000000" "Version_Max = 0xA000400"
  by (simp_all add: Version_Min_def Version_1_0_0_def Version_2_0_0_def Version_3_0_0_def
      Version_4_0_0_def Version_5_0_0_def Version_6_0_0_def Version_7_0_0_def Version_10_0_4_def
      Version_Max_def TARGET_FIRMWARE_def TARGET_FIRMWARE_WITH_REVISION_def)

text \<open>The enumerators are in the order of their values; each constant above is one of them.\<close>

lemma hos_version_values:
  "map snd hos_versions =
   [0, 0x1000000, 0x2000000, 0x2010000, 0x2020000, 0x2030000, 0x3000000, 0x3000100, 0x3000200,
    0x4000000, 0x4000100, 0x4010000, 0x5000000, 0x5000100, 0x5000200, 0x5010000,
    0x6000000, 0x6000100, 0x6010000, 0x6020000, 0x7000000, 0x7000100, 0x8000000,
    0x8000100, 0x8010000, 0x8010100, 0x9000000, 0x9000100, 0x9010000, 0x9020000,
    0xa000000, 0xa000100, 0xa000200, 0xa000400, 0xa000400]"
  by (simp add: hos_versions_def TargetFirmware_def target_firmwares_def TARGET_FIRMWARE_def
      TARGET_FIRMWARE_WITH_REVISION_def)

lemma hos_versions_sorted: "sorted (map snd hos_versions)"
  unfolding hos_version_values by simp

section \<open>The cached version\<close>

record version_cache =
  g_hos_version :: Version
  g_has_cached :: bool

definition version_part :: "nat \<Rightarrow> Version \<Rightarrow> u32" where
  "version_part k v = drop_bit k v AND 0xFF"

text \<open>\<open>target\<close> is what the monitor reports.\<close>

definition CacheValues :: "Version \<Rightarrow> version_cache \<Rightarrow> version_cache run" where
  "CacheValues target s =
     (if g_has_cached s then Inr s
      else
        let s = s\<lparr>g_hos_version := target\<rparr>;
            MaxMajor = version_part 24 Version_Max;
            MaxMinor = version_part 16 Version_Max;
            major = version_part 24 (g_hos_version s);
            minor = version_part 16 (g_hos_version s)
        in if \<not> (g_hos_version s \<le> Version_Max \<or> major = MaxMajor \<and> minor \<le> MaxMinor) then Inl Abort
           else Inr (s\<lparr>g_has_cached := True\<rparr>))"

definition GetVersion :: "Version \<Rightarrow> version_cache \<Rightarrow> (Version \<times> version_cache) run" where
  "GetVersion target s = then_run (CacheValues target s) (\<lambda>s. Inr (g_hos_version s, s))"

definition SetVersionForLibnxInternalDebug ::
  "Version \<Rightarrow> Version \<Rightarrow> version_cache \<times> 'w platform \<Rightarrow> (version_cache \<times> 'w platform) run" where
  "SetVersionForLibnxInternalDebug target debug_version = (\<lambda>(s, p).
     let s = s\<lparr>g_hos_version := debug_version, g_has_cached := True\<rparr> in
     then_run (GetVersion target s) (\<lambda>(v, s).
       Inr (s, p\<lparr>hos_version := make_hos_version (unat (version_part 24 v)) (unat (version_part 16 v))
                   (unat (version_part 8 v))\<rparr>)))"

definition SetVersionForLibnxInternal ::
  "Version \<Rightarrow> version_cache \<times> 'w platform \<Rightarrow> (version_cache \<times> 'w platform) run" where
  "SetVersionForLibnxInternal target = (\<lambda>(s, p).
     then_run (GetVersion target s) (\<lambda>(v, s).
       Inr (s, p\<lparr>hos_version := make_hos_version (unat (version_part 24 v)) (unat (version_part 16 v))
                   (unat (version_part 8 v))\<rparr>)))"

section \<open>Both forms order versions alike\<close>

lemma unat_version_part: "unat (version_part k v) = unat v div 2 ^ k mod 256"
proof -
  have "version_part k v = take_bit 8 (drop_bit k v)"
    by (simp add: version_part_def take_bit_eq_mask mask_eq_exp_minus_1)
  moreover have "take_bit LENGTH(32) (unat v) = unat v"
    using unsigned_less [of v, where 'a = nat] by (simp add: take_bit_nat_eq_self)
  ultimately have "unat (version_part k v) = take_bit 8 (drop_bit k (unat v))"
    by (simp only: unsigned_take_bit_eq unsigned_drop_bit_eq)
  then show ?thesis by (simp add: take_bit_eq_mod drop_bit_eq_div)
qed

lemma packed_version:
  "unat (v :: u32) div 256 = make_hos_version (unat (version_part 24 v)) (unat (version_part 16 v))
     (unat (version_part 8 v))"
proof -
  define n where "n = unat v"
  have "n < 2 ^ 32" unfolding n_def using unsigned_less [of v, where 'a = nat] by simp
  then have "n div 16777216 mod 256 = n div 16777216" by (simp add: div_less_iff_less_mult)
  moreover have "n div 256 = (n div 16777216 * 256 + n div 65536 mod 256) * 256 + n div 256 mod 256"
  proof -
    have "n div 65536 = n div 256 div 256" "n div 16777216 = n div 65536 div 256"
      by (simp_all add: div_mult2_eq [symmetric])
    then show ?thesis by (metis div_mult_mod_eq)
  qed
  ultimately show ?thesis by (simp add: unat_version_part make_hos_version_def n_def)
qed

lemma unat_TARGET_FIRMWARE:
  assumes "a < 256" and "b < 256" and "c < 256"
  shows "unat (TARGET_FIRMWARE (of_nat a) (of_nat b) (of_nat c)) = make_hos_version a b c * 256"
proof -
  have small: "unat (of_nat k :: u32) = k" if "k < 256" for k
    using that by (simp add: unat_of_nat take_bit_nat_eq_self)
  have bits: "k < 8" if "bit (of_nat m :: u32) k" "m < 256" for m k
    using bit_below [of "of_nat m :: u32" 8 k] that small by simp
  let ?a = "of_nat a :: u32" and ?b = "of_nat b :: u32" and ?c = "of_nat c :: u32"
  have "push_bit 24 ?a OR push_bit 16 ?b = push_bit 24 ?a + push_bit 16 ?b"
    using bits [OF _ assms(2)] by (intro disjunctive_add [symmetric]) (fastforce simp: bit_push_bit_iff)
  moreover have "(push_bit 24 ?a OR push_bit 16 ?b) OR push_bit 8 ?c =
      (push_bit 24 ?a OR push_bit 16 ?b) + push_bit 8 ?c"
    using bits [OF _ assms(3)]
    by (intro disjunctive_add [symmetric]) (fastforce simp: bit_push_bit_iff bit_or_iff)
  ultimately have "TARGET_FIRMWARE ?a ?b ?c = push_bit 24 ?a + push_bit 16 ?b + push_bit 8 ?c"
    by (simp only: TARGET_FIRMWARE_def TARGET_FIRMWARE_WITH_REVISION_def or.right_neutral
        or.assoc [symmetric])
  also have "\<dots> = of_nat (make_hos_version a b c * 256)"
    by (simp add: push_bit_eq_mult make_hos_version_def algebra_simps)
  finally have "TARGET_FIRMWARE ?a ?b ?c = of_nat (make_hos_version a b c * 256)" .
  moreover have "make_hos_version a b c * 256 < 2 ^ 32"
    using assms by (simp add: make_hos_version_def)
  ultimately show ?thesis by (simp only: unat_of_nat) (simp add: take_bit_nat_eq_self)
qed

section \<open>Properties\<close>

text \<open>After the libnx version is set, every comparison the album service makes through libnx gives
  the same answer as comparing the target firmware with the packed version, whatever the revision
  byte: both packings order the versions alike.\<close>

theorem version_comparisons_agree:
  "SetVersionForLibnxInternal target (s, p) = Inr (s', p') \<Longrightarrow> a < 256 \<Longrightarrow> b < 256 \<Longrightarrow> c < 256 \<Longrightarrow>
   (hosversionBefore p' a b c \<longleftrightarrow> g_hos_version s' < TARGET_FIRMWARE (of_nat a) (of_nat b) (of_nat c)) \<and>
   (hosversionAtLeast p' a b c \<longleftrightarrow> TARGET_FIRMWARE (of_nat a) (of_nat b) (of_nat c) \<le> g_hos_version s')"
proof -
  assume A: "SetVersionForLibnxInternal target (s, p) = Inr (s', p')" "a < 256" "b < 256" "c < 256"
  then have "hos_version p' = unat (g_hos_version s') div 256"
    by (auto simp: SetVersionForLibnxInternal_def GetVersion_def then_run_eq_Inr packed_version)
  moreover have "n div 256 < m \<longleftrightarrow> n < m * 256" for n m :: nat
    by (simp add: div_less_iff_less_mult)
  ultimately show ?thesis
    by (simp add: hosversionBefore_def hosversionAtLeast_def word_less_nat_alt word_le_nat_alt
        unat_TARGET_FIRMWARE [OF A(2-4)] less_eq_div_iff_mult_less_eq)
qed

theorem version_comparisons_agree_witness:
  "hosversionBefore ((sample_platform 0)\<lparr>hos_version := 0x050001\<rparr>) 6 0 0 \<longleftrightarrow>
   (0x05000100 :: u32) < TARGET_FIRMWARE 6 0 0"
proof -
  have "SetVersionForLibnxInternal 0x05000100 (\<lparr>g_hos_version = 0, g_has_cached = False\<rparr>, sample_platform 0) =
      Inr (\<lparr>g_hos_version = 0x05000100, g_has_cached = True\<rparr>, (sample_platform 0)\<lparr>hos_version := 0x050001\<rparr>)"
    by (simp add: SetVersionForLibnxInternal_def GetVersion_def CacheValues_def version_values
        make_hos_version_def unat_version_part Let_def)
  from version_comparisons_agree [OF this, of 6 0 0] show ?thesis by simp
qed

end
