(* ===== verification/Dispatch.thy ===== *)
theory Dispatch
  imports Hos
begin

text \<open>
  How a request finds its handler: \<open>sf_cmif_service_dispatch.{hpp,cpp}\<close> of the service framework
  and the tables of the three album services and three kinds of session (\<open>hipc/*.hpp\<close>). A handler
  is named by its method; what it does with the rest of the message is a parameter here (the services
  follow in their own theories).
\<close>

section \<open>Results of the framework\<close>

definition sf_ResultInvalidHeaderSize :: result where "sf_ResultInvalidHeaderSize = MakeValue 10 202"
definition sf_ResultInvalidInHeader :: result where "sf_ResultInvalidInHeader = MakeValue 10 211"
definition sf_ResultUnknownCommandId :: result where "sf_ResultUnknownCommandId = MakeValue 10 221"
definition sf_RequestContextChanged :: error_range where "sf_RequestContextChanged = ErrorRange 10 800 899"

section \<open>Dispatch\<close>

record 'h ServiceCommandMeta =
  hosver_low :: Version
  hosver_high :: Version
  cmd_id :: u32
  handler :: 'h

definition MakeServiceCommandMeta :: "'h \<Rightarrow> u32 \<Rightarrow> Version \<Rightarrow> Version \<Rightarrow> 'h ServiceCommandMeta" where
  "MakeServiceCommandMeta h command low high =
     \<lparr>hosver_low = low, hosver_high = high, cmd_id = command, handler = h\<rparr>"

definition Matches :: "u32 \<Rightarrow> Version \<Rightarrow> 'h ServiceCommandMeta \<Rightarrow> bool" where
  "Matches command hosver e \<longleftrightarrow> cmd_id e = command \<and> hosver_low e \<le> hosver \<and> hosver \<le> hosver_high e"

text \<open>The header of a request, four little-endian words, and its magic numbers are libnx's.\<close>

record cmif_lib =
  CMIF_IN_HEADER_MAGIC :: u32
  CMIF_IN_HEADER_SIZE :: nat

definition in_magic :: "u8 list \<Rightarrow> u32" where "in_magic raw = le_word (take 4 raw)"
definition in_version :: "u8 list \<Rightarrow> u32" where "in_version raw = le_word (take 4 (drop 4 raw))"
definition in_command_id :: "u8 list \<Rightarrow> u32" where "in_command_id raw = le_word (take 4 (drop 8 raw))"

definition max_cmif_version :: "Version \<Rightarrow> u32" where
  "max_cmif_version hosver = (if Version_5_0_0 \<le> hosver then 1 else 0)"

text \<open>
  \<open>invoke\<close> runs a handler on the rest of the message; it returns the command's result and
  whether the header of the reply was set up. The second component of the answer is the result
  written to that header.
\<close>

definition answer :: "result \<times> bool \<times> 'g \<Rightarrow> (result \<times> result option \<times> 'g) run" where
  "answer = (\<lambda>(command_result, out_header, g).
     if R_FAILED command_result \<and> Includes sf_RequestContextChanged command_result
     then Inr (command_result, None, g)
     else if R_FAILED command_result \<and> \<not> out_header then Inl Abort
     else Inr (ResultSuccess, if out_header then Some command_result else None, g))"

definition ProcessMessageImpl ::
  "cmif_lib \<Rightarrow> Version \<Rightarrow> ('h \<Rightarrow> u8 list \<Rightarrow> 'g \<Rightarrow> (result \<times> bool \<times> 'g) run) \<Rightarrow>
   'h ServiceCommandMeta list \<Rightarrow> u8 list \<Rightarrow> 'g \<Rightarrow> (result \<times> result option \<times> 'g) run" where
  "ProcessMessageImpl l hosver invoke entries raw g =
     (if length raw < CMIF_IN_HEADER_SIZE l then Inr (sf_ResultInvalidHeaderSize, None, g)
      else if \<not> (in_magic raw = CMIF_IN_HEADER_MAGIC l \<and> in_version raw \<le> max_cmif_version hosver)
      then Inr (sf_ResultInvalidInHeader, None, g)
      else case find (Matches (in_command_id raw) hosver) entries of
        None \<Rightarrow> Inr (sf_ResultUnknownCommandId, None, g)
      | Some e \<Rightarrow>
          then_run (invoke (handler e) (drop (CMIF_IN_HEADER_SIZE l) raw) g) answer)"

text \<open>The variant for services that sit between a client and another service: what has no handler
  or asks for it is forwarded.\<close>

definition ProcessMessageForMitmImpl ::
  "cmif_lib \<Rightarrow> Version \<Rightarrow> ('h \<Rightarrow> u8 list \<Rightarrow> 'g \<Rightarrow> (result \<times> bool \<times> 'g) run) \<Rightarrow> error_range \<Rightarrow>
   ('g \<Rightarrow> (result \<times> 'g) run) \<Rightarrow> 'h ServiceCommandMeta list \<Rightarrow> u8 list \<Rightarrow> 'g \<Rightarrow>
   (result \<times> result option \<times> 'g) run" where
  "ProcessMessageForMitmImpl l hosver invoke should_forward ForwardRequest entries raw g =
     (let forward = (\<lambda>g. then_run (ForwardRequest g) (\<lambda>(rc, g). Inr (rc, None, g))) in
      if length raw < CMIF_IN_HEADER_SIZE l then Inr (sf_ResultInvalidHeaderSize, None, g)
      else if \<not> (in_magic raw = CMIF_IN_HEADER_MAGIC l \<and> in_version raw \<le> max_cmif_version hosver)
      then Inr (sf_ResultInvalidInHeader, None, g)
      else case find (Matches (in_command_id raw) hosver) entries of
        None \<Rightarrow> forward g
      | Some e \<Rightarrow>
          then_run (invoke (handler e) (drop (CMIF_IN_HEADER_SIZE l) raw) g) (\<lambda>(command_result, out_header, g).
            if R_FAILED command_result \<and> Includes should_forward command_result then forward g
            else answer (command_result, out_header, g)))"

section \<open>Command identifiers\<close>

text \<open>The enumerations the tables take their identifiers from.\<close>

definition AlbumAccessorService_CommandId :: "(string \<times> u32) list" where
  "AlbumAccessorService_CommandId =
   [
    (''GetAlbumFileCount'', 0),
    (''GetAlbumFileList'', 1),
    (''LoadAlbumFile'', 2),
    (''DeleteAlbumFile'', 3),
    (''StorageCopyAlbumFile'', 4),
    (''IsAlbumMounted'', 5),
    (''GetAlbumUsage'', 6),
    (''GetAlbumFileSize'', 7),
    (''LoadAlbumFileThumbnail'', 8),
    (''LoadAlbumScreenShotImage'', 9),
    (''LoadAlbumScreenShotThumbnailImage'', 10),
    (''GetAlbumEntryFromApplicationAlbumEntry'', 11),
    (''LoadAlbumScreenShotImageEx'', 12),
    (''LoadAlbumScreenShotThumbnailImageEx'', 13),
    (''LoadAlbumScreenShotImageEx0'', 14),
    (''GetAlbumUsage3'', 15),
    (''GetAlbumMountResult'', 16),
    (''GetAlbumUsage16'', 17),
    (''GetMinMaxAppletId'', 18),
    (''GetAlbumFileCountEx0'', 100),
    (''GetAlbumFileListEx0'', 101),
    (''SaveEditedScreenShot'', 202),
    (''GetLastOverlayScreenShotThumbnail'', 301),
    (''GetLastOverlayMovieThumbnail'', 302),
    (''GetAutoSavingStorage'', 401),
    (''GetRequiredStorageSpaceSizeToCopyAll'', 501),
    (''LoadAlbumScreenShotThumbnailImageEx0'', 1001),
    (''LoadAlbumScreenShotImageEx1'', 1002),
    (''LoadAlbumScreenShotThumbnailImageEx1'', 1003),
    (''ForceAlbumUnmounted'', 8001),
    (''ResetAlbumMountStatus'', 8002),
    (''RefreshAlbumCache'', 8011),
    (''GetAlbumCache'', 8012),
    (''GetAlbumCacheEx'', 8013),
    (''GetAlbumEntryFromApplicationAlbumEntryAruid'', 8021),
    (''SetInternalErrorConversionEnabled'', 10011),
    (''LoadMakerNoteInfoForDebug'', 50000),
    (''OpenAccessorSession'', 60002)]"

definition AlbumControlService_CommandId :: "(string \<times> u32) list" where
  "AlbumControlService_CommandId =
   [
    (''CaptureRawImage'', 1),
    (''CaptureRawImageWithTimeout'', 2),
    (''SetShimLibraryVersion'', 33),
    (''RequestTakingScreenShot'', 1001),
    (''RequestTakingScreenShotWithTimeout'', 1002),
    (''NotifyTakingScreenShotRefused'', 1011),
    (''NotifyAlbumStorageIsAvailable'', 2001),
    (''NotifyAlbumStorageIsUnavailable'', 2002),
    (''RegisterAppletResourceUserId'', 2011),
    (''UnregisterAppletResourceUserId'', 2012),
    (''GetApplicationIdFromAruid'', 2013),
    (''CheckApplicationIdRegistered'', 2014),
    (''GenerateCurrentAlbumFileId'', 2101),
    (''GenerateApplicationAlbumEntry'', 2102),
    (''SaveAlbumScreenShotFile'', 2201),
    (''SaveAlbumScreenShotFileEx'', 2202),
    (''SetOverlayScreenShotThumbnailData'', 2301),
    (''SetOverlayMovieThumbnailData'', 2302),
    (''OpenControlSession'', 60001)]"

definition AlbumApplicationService_CommandId :: "(string \<times> u32) list" where
  "AlbumApplicationService_CommandId =
   [
    (''SetShimLibraryVersion'', 32),
    (''GetAlbumFileList0AafeAruidDeprecated'', 102),
    (''DeleteAlbumFileByAruid'', 103),
    (''GetAlbumFileSizeByAruid'', 104),
    (''DeleteAlbumFileByAruidForDebug'', 105),
    (''LoadAlbumScreenShotImageByAruid'', 110),
    (''LoadAlbumScreenShotThumbnailImageByAruid'', 120),
    (''PrecheckToCreateContentsByAruid'', 130),
    (''GetAlbumFileList1AafeAruidDeprecated'', 140),
    (''GetAlbumFileList2AafeUidAruidDeprecated'', 141),
    (''GetAlbumFileList3AaeAruid'', 142),
    (''GetAlbumFileList4AaeUidAruid'', 143),
    (''OpenAccessorSessionForApplication'', 60002)]"

definition ISession_CommandId :: "(string \<times> u32) list" where
  "ISession_CommandId =
   [
    (''OpenAlbumMovieReadStream'', 2001),
    (''CloseAlbumMovieReadStream'', 2002),
    (''GetAlbumMovieReadStreamMovieDataSize'', 2003),
    (''ReadMovieDataFromAlbumMovieReadStream'', 2004),
    (''GetAlbumMovieReadStreamBrokenReason'', 2005),
    (''GetAlbumMovieReadStreamImageDataSize'', 2006),
    (''ReadImageDataFromAlbumMovieReadStream'', 2007),
    (''ReadFileAttributeFromAlbumMovieReadStream'', 2008),
    (''OpenAlbumMovieWriteStream'', 2401),
    (''FinishAlbumMovieWriteStream'', 2402),
    (''CommitAlbumMovieWriteStream'', 2403),
    (''DiscardAlbumMovieWriteStream'', 2404),
    (''DiscardAlbumMovieWriteStreamNoDelete'', 2405),
    (''CommitAlbumMovieWriteStreamEx'', 2406),
    (''StartAlbumMovieWriteStreamDataSection'', 2411),
    (''EndAlbumMovieWriteStreamDataSection'', 2412),
    (''StartAlbumMovieWriteStreamMetaSection'', 2413),
    (''EndAlbumMovieWriteStreamMetaSection'', 2414),
    (''ReadDataFromAlbumMovieWriteStream'', 2421),
    (''WriteDataToAlbumMovieWriteStream'', 2422),
    (''WriteMetaToAlbumMovieWriteStream'', 2424),
    (''GetAlbumMovieWriteStreamBrokenReason'', 2431),
    (''GetAlbumMovieWriteStreamDataSize'', 2433),
    (''SetAlbumMovieWriteStreamDataSize'', 2434)]"

section \<open>The tables\<close>

abbreviation meta :: "string \<Rightarrow> u32 \<Rightarrow> Version \<Rightarrow> Version \<Rightarrow> string ServiceCommandMeta" where
  "meta \<equiv> MakeServiceCommandMeta"

definition AlbumAccessorService_table :: "string ServiceCommandMeta list" where
  "AlbumAccessorService_table =
   [
    meta ''GetAlbumFileCount'' 0 Version_Min Version_Max,
    meta ''GetAlbumFileList'' 1 Version_Min Version_Max,
    meta ''LoadAlbumFile'' 2 Version_Min Version_Max,
    meta ''DeleteAlbumFile'' 3 Version_Min Version_Max,
    meta ''StorageCopyAlbumFile'' 4 Version_Min Version_Max,
    meta ''IsAlbumMounted'' 5 Version_Min Version_Max,
    meta ''GetAlbumUsage'' 6 Version_Min Version_Max,
    meta ''GetAlbumFileSize'' 7 Version_Min Version_Max,
    meta ''LoadAlbumFileThumbnail'' 8 Version_Min Version_Max,
    meta ''LoadAlbumScreenShotImage'' 9 Version_2_0_0 Version_Max,
    meta ''LoadAlbumScreenShotThumbnailImage'' 10 Version_2_0_0 Version_Max,
    meta ''GetAlbumEntryFromApplicationAlbumEntry'' 11 Version_2_0_0 Version_Max,
    meta ''LoadAlbumScreenShotImageEx'' 12 Version_3_0_0 Version_Max,
    meta ''LoadAlbumScreenShotThumbnailImageEx'' 13 Version_3_0_0 Version_Max,
    meta ''LoadAlbumScreenShotImageEx0'' 14 Version_3_0_0 Version_Max,
    meta ''GetAlbumUsage3'' 15 Version_4_0_0 Version_Max,
    meta ''GetAlbumMountResult'' 16 Version_4_0_0 Version_Max,
    meta ''GetAlbumUsage16'' 17 Version_4_0_0 Version_Max,
    meta ''GetMinMaxAppletId'' 18 Version_6_0_0 Version_Max,
    meta ''GetAlbumFileCountEx0'' 100 Version_5_0_0 Version_Max,
    meta ''GetAlbumFileListEx0'' 101 Version_5_0_0 Version_Max,
    meta ''SaveEditedScreenShot'' 202 Version_1_0_0 Version_2_0_0,
    meta ''GetLastOverlayScreenShotThumbnail'' 301 Version_Min Version_Max,
    meta ''GetLastOverlayMovieThumbnail'' 302 Version_4_0_0 Version_Max,
    meta ''GetAutoSavingStorage'' 401 Version_Min Version_Max,
    meta ''GetRequiredStorageSpaceSizeToCopyAll'' 501 Version_Min Version_Max,
    meta ''LoadAlbumScreenShotThumbnailImageEx0'' 1001 Version_3_0_0 Version_Max,
    meta ''LoadAlbumScreenShotImageEx1'' 1002 Version_4_0_0 Version_Max,
    meta ''LoadAlbumScreenShotThumbnailImageEx1'' 1003 Version_4_0_0 Version_Max,
    meta ''ForceAlbumUnmounted'' 8001 Version_Min Version_Max,
    meta ''ResetAlbumMountStatus'' 8002 Version_Min Version_Max,
    meta ''RefreshAlbumCache'' 8011 Version_Min Version_Max,
    meta ''GetAlbumCache'' 8012 Version_Min Version_Max,
    meta ''GetAlbumCacheEx'' 8013 Version_4_0_0 Version_Max,
    meta ''GetAlbumEntryFromApplicationAlbumEntryAruid'' 8021 Version_2_0_0 Version_Max,
    meta ''SetInternalErrorConversionEnabled'' 10011 Version_Min Version_Max,
    meta ''LoadMakerNoteInfoForDebug'' 50000 Version_6_0_0 Version_Max,
    meta ''OpenAccessorSession'' 60002 Version_4_0_0 Version_Max]"

definition AlbumControlService_table :: "string ServiceCommandMeta list" where
  "AlbumControlService_table =
   [
    meta ''CaptureRawImage'' 1 Version_1_0_0 Version_1_0_0,
    meta ''CaptureRawImageWithTimeout'' 2 Version_1_0_0 Version_1_0_0,
    meta ''SetShimLibraryVersion'' 33 Version_Min Version_Max,
    meta ''RequestTakingScreenShot'' 1001 Version_1_0_0 Version_1_0_0,
    meta ''RequestTakingScreenShotWithTimeout'' 1002 Version_1_0_0 Version_1_0_0,
    meta ''NotifyTakingScreenShotRefused'' 1011 Version_1_0_0 Version_1_0_0,
    meta ''NotifyAlbumStorageIsAvailable'' 2001 Version_Min Version_Max,
    meta ''NotifyAlbumStorageIsUnavailable'' 2002 Version_Min Version_Max,
    meta ''RegisterAppletResourceUserId'' 2011 Version_Min Version_Max,
    meta ''UnregisterAppletResourceUserId'' 2012 Version_Min Version_Max,
    meta ''GetApplicationIdFromAruid'' 2013 Version_Min Version_Max,
    meta ''CheckApplicationIdRegistered'' 2014 Version_Min Version_Max,
    meta ''GenerateCurrentAlbumFileId'' 2101 Version_Min Version_Max,
    meta ''GenerateApplicationAlbumEntry'' 2102 Version_Min Version_Max,
    meta ''SaveAlbumScreenShotFile'' 2201 Version_Min Version_Max,
    meta ''SaveAlbumScreenShotFileEx'' 2202 Version_Min Version_Max,
    meta ''SetOverlayScreenShotThumbnailData'' 2301 Version_Min Version_Max,
    meta ''SetOverlayMovieThumbnailData'' 2302 Version_Min Version_Max,
    meta ''OpenControlSession'' 60001 Version_Min Version_Max]"

definition AlbumApplicationService_table :: "string ServiceCommandMeta list" where
  "AlbumApplicationService_table =
   [
    meta ''SetShimLibraryVersion'' 32 Version_Min Version_Max,
    meta ''GetAlbumFileList0AafeAruidDeprecated'' 102 Version_Min Version_Max,
    meta ''DeleteAlbumFileByAruid'' 103 Version_Min Version_Max,
    meta ''GetAlbumFileSizeByAruid'' 104 Version_Min Version_Max,
    meta ''DeleteAlbumFileByAruidForDebug'' 105 Version_Min Version_Max,
    meta ''LoadAlbumScreenShotImageByAruid'' 110 Version_Min Version_Max,
    meta ''LoadAlbumScreenShotThumbnailImageByAruid'' 120 Version_Min Version_Max,
    meta ''PrecheckToCreateContentsByAruid'' 130 Version_Min Version_Max,
    meta ''GetAlbumFileList1AafeAruidDeprecated'' 140 Version_6_0_0 Version_Max,
    meta ''GetAlbumFileList2AafeUidAruidDeprecated'' 141 Version_6_0_0 Version_Max,
    meta ''GetAlbumFileList3AaeAruid'' 142 Version_7_0_0 Version_Max,
    meta ''GetAlbumFileList4AaeUidAruid'' 143 Version_7_0_0 Version_Max,
    meta ''OpenAccessorSessionForApplication'' 60002 Version_Min Version_Max]"

definition AccessorSession_table :: "string ServiceCommandMeta list" where
  "AccessorSession_table =
   [
    meta ''OpenAlbumMovieReadStream'' 2001 Version_Min Version_Max,
    meta ''CloseAlbumMovieReadStream'' 2002 Version_Min Version_Max,
    meta ''GetAlbumMovieReadStreamMovieDataSize'' 2003 Version_Min Version_Max,
    meta ''ReadMovieDataFromAlbumMovieReadStream'' 2004 Version_Min Version_Max,
    meta ''GetAlbumMovieReadStreamBrokenReason'' 2005 Version_Min Version_Max,
    meta ''GetAlbumMovieReadStreamImageDataSize'' 2006 Version_Min Version_Max,
    meta ''ReadImageDataFromAlbumMovieReadStream'' 2007 Version_Min Version_Max,
    meta ''ReadFileAttributeFromAlbumMovieReadStream'' 2008 Version_Min Version_Max]"

definition ControlSession_table :: "string ServiceCommandMeta list" where
  "ControlSession_table =
   [
    meta ''OpenAlbumMovieReadStream'' 2001 Version_Min Version_Max,
    meta ''CloseAlbumMovieReadStream'' 2002 Version_Min Version_Max,
    meta ''GetAlbumMovieReadStreamMovieDataSize'' 2003 Version_Min Version_Max,
    meta ''ReadMovieDataFromAlbumMovieReadStream'' 2004 Version_Min Version_Max,
    meta ''GetAlbumMovieReadStreamBrokenReason'' 2005 Version_Min Version_Max,
    meta ''GetAlbumMovieReadStreamImageDataSize'' 2006 Version_Min Version_Max,
    meta ''ReadImageDataFromAlbumMovieReadStream'' 2007 Version_Min Version_Max,
    meta ''ReadFileAttributeFromAlbumMovieReadStream'' 2008 Version_Min Version_Max,
    meta ''OpenAlbumMovieWriteStream'' 2401 Version_Min Version_Max,
    meta ''FinishAlbumMovieWriteStream'' 2402 Version_Min Version_Max,
    meta ''CommitAlbumMovieWriteStream'' 2403 Version_Min Version_Max,
    meta ''DiscardAlbumMovieWriteStream'' 2404 Version_Min Version_Max,
    meta ''DiscardAlbumMovieWriteStreamNoDelete'' 2405 Version_Min Version_Max,
    meta ''CommitAlbumMovieWriteStreamEx'' 2406 Version_7_0_0 Version_Max,
    meta ''StartAlbumMovieWriteStreamDataSection'' 2411 Version_Min Version_Max,
    meta ''EndAlbumMovieWriteStreamDataSection'' 2412 Version_Min Version_Max,
    meta ''StartAlbumMovieWriteStreamMetaSection'' 2413 Version_Min Version_Max,
    meta ''EndAlbumMovieWriteStreamMetaSection'' 2414 Version_Min Version_Max,
    meta ''ReadDataFromAlbumMovieWriteStream'' 2421 Version_Min Version_Max,
    meta ''WriteDataToAlbumMovieWriteStream'' 2422 Version_Min Version_Max,
    meta ''WriteMetaToAlbumMovieWriteStream'' 2424 Version_Min Version_Max,
    meta ''GetAlbumMovieWriteStreamBrokenReason'' 2431 Version_Min Version_Max,
    meta ''GetAlbumMovieWriteStreamDataSize'' 2433 Version_Min Version_Max,
    meta ''SetAlbumMovieWriteStreamDataSize'' 2434 Version_Min Version_Max]"

definition AccessorApplicationSession_table :: "string ServiceCommandMeta list" where
  "AccessorApplicationSession_table =
   [
    meta ''OpenAlbumMovieReadStream'' 2001 Version_Min Version_Max,
    meta ''CloseAlbumMovieReadStream'' 2002 Version_Min Version_Max,
    meta ''GetAlbumMovieReadStreamMovieDataSize'' 2003 Version_Min Version_Max,
    meta ''ReadMovieDataFromAlbumMovieReadStream'' 2004 Version_Min Version_Max,
    meta ''GetAlbumMovieReadStreamBrokenReason'' 2005 Version_Min Version_Max]"

definition all_tables :: "string ServiceCommandMeta list list" where
  "all_tables = [AlbumAccessorService_table, AlbumControlService_table, AlbumApplicationService_table,
     AccessorSession_table, ControlSession_table, AccessorApplicationSession_table]"

section \<open>Lemmas\<close>

lemmas table_defs = AlbumAccessorService_table_def AlbumControlService_table_def
  AlbumApplicationService_table_def AccessorSession_table_def ControlSession_table_def
  AccessorApplicationSession_table_def

text \<open>Every table entry carries the identifier of its name, and the services list all of theirs.\<close>

lemma table_ids:
  "map (\<lambda>e. (handler e, cmd_id e)) AlbumAccessorService_table = AlbumAccessorService_CommandId"
  "map (\<lambda>e. (handler e, cmd_id e)) AlbumControlService_table = AlbumControlService_CommandId"
  "map (\<lambda>e. (handler e, cmd_id e)) AlbumApplicationService_table = AlbumApplicationService_CommandId"
  "map (\<lambda>e. (handler e, cmd_id e)) ControlSession_table = ISession_CommandId"
  by (simp_all add: table_defs MakeServiceCommandMeta_def AlbumAccessorService_CommandId_def
      AlbumControlService_CommandId_def AlbumApplicationService_CommandId_def ISession_CommandId_def)

lemma session_table_ids:
  "set (map (\<lambda>e. (handler e, cmd_id e)) AccessorSession_table) \<subseteq> set ISession_CommandId"
  "set (map (\<lambda>e. (handler e, cmd_id e)) AccessorApplicationSession_table) \<subseteq> set ISession_CommandId"
  by (simp_all add: table_defs MakeServiceCommandMeta_def ISession_CommandId_def)

lemma find_no_key: "k \<notin> key ` set es \<Longrightarrow> find (\<lambda>d. key d = k \<and> ok d) es = None"
  by (auto simp: find_None_iff)

lemma find_distinct_key:
  "distinct (map key es) \<Longrightarrow> e \<in> set es \<Longrightarrow>
   find (\<lambda>d. key d = key e \<and> ok d) es = (if ok e then Some e else None)"
proof (induction es)
  case (Cons d es)
  show ?case
  proof (cases "d = e")
    case True
    then show ?thesis using Cons.prems(1) find_no_key [of "key e" key es ok] by simp
  next
    case False
    with Cons.prems have "e \<in> set es" "key d \<noteq> key e" by auto
    then show ?thesis using Cons by simp
  qed
qed simp

text \<open>The tables are in increasing order of their command ids.\<close>

lemma tables_increasing: "t \<in> set all_tables \<Longrightarrow> successively (<) (map cmd_id t)"
  by (auto simp: all_tables_def table_defs MakeServiceCommandMeta_def)

lemma tables_distinct: "t \<in> set all_tables \<Longrightarrow> distinct (map cmd_id t)"
  using tables_increasing [of t] by (simp add: successively_conv_sorted_wrt strict_sorted_iff)

lemma find_Matches:
  "t \<in> set all_tables \<Longrightarrow> e \<in> set t \<Longrightarrow>
   find (Matches (cmd_id e) v) t = (if hosver_low e \<le> v \<and> v \<le> hosver_high e then Some e else None)"
  using find_distinct_key [OF tables_distinct, of t e "\<lambda>e. hosver_low e \<le> v \<and> v \<le> hosver_high e"]
  by (simp add: Matches_def [abs_def])

lemma find_Matches_None: "c \<notin> cmd_id ` set t \<Longrightarrow> find (Matches c v) t = None"
  using find_no_key [of c cmd_id t "\<lambda>e. hosver_low e \<le> v \<and> v \<le> hosver_high e"]
  by (simp add: Matches_def [abs_def])

text \<open>A request as a client sends it, with any version and token in its header.\<close>

definition request :: "cmif_lib \<Rightarrow> u32 \<Rightarrow> u32 \<Rightarrow> u8 list \<Rightarrow> u8 list \<Rightarrow> u8 list" where
  "request l version command token rest =
     le_bytes 4 (CMIF_IN_HEADER_MAGIC l) @ le_bytes 4 version @ le_bytes 4 command @ token @ rest"

lemma request_header:
  "length token + 12 = CMIF_IN_HEADER_SIZE l \<Longrightarrow>
   in_magic (request l n c token rest) = CMIF_IN_HEADER_MAGIC l \<and>
   in_version (request l n c token rest) = n \<and>
   in_command_id (request l n c token rest) = c \<and>
   \<not> length (request l n c token rest) < CMIF_IN_HEADER_SIZE l \<and>
   drop (CMIF_IN_HEADER_SIZE l) (request l n c token rest) = rest"
  by (simp add: request_def in_magic_def in_version_def in_command_id_def)

lemma processed_request:
  "length token + 12 = CMIF_IN_HEADER_SIZE l \<Longrightarrow>
   ProcessMessageImpl l v invoke t (request l n c token rest) g =
     (if n \<le> max_cmif_version v
      then case find (Matches c v) t of
             None \<Rightarrow> Inr (sf_ResultUnknownCommandId, None, g)
           | Some e \<Rightarrow> then_run (invoke (handler e) rest g) answer
      else Inr (sf_ResultInvalidInHeader, None, g))"
  using request_header [of token l n c rest] by (simp add: ProcessMessageImpl_def split: option.split)

definition sample_cmif :: cmif_lib where
  "sample_cmif = \<lparr>CMIF_IN_HEADER_MAGIC = 0x49434653, CMIF_IN_HEADER_SIZE = 16\<rparr>"

section \<open>Properties\<close>

text \<open>C27: a request reaches exactly the handler its service's table names: for every table of the
  album services and sessions, and for every header of the right magic number whose version the
  firmware knows (1 from firmware 5.0.0 on, else 0), whatever the token in the rest of the header, the
  request runs the one entry with its command id when the firmware version lies in the entry's range,
  on the bytes after the header, and is refused as unknown when it lies outside or no entry has the
  id; with a later version it is refused as a bad header. A refusal leaves the state untouched.\<close>

theorem command_dispatch:
  "t \<in> set all_tables \<Longrightarrow> length token + 12 = CMIF_IN_HEADER_SIZE l \<Longrightarrow>
   (n \<le> (if Version_5_0_0 \<le> v then 1 else 0) \<longrightarrow>
     (\<forall>e\<in>set t. ProcessMessageImpl l v invoke t (request l n (cmd_id e) token rest) g =
        (if hosver_low e \<le> v \<and> v \<le> hosver_high e then then_run (invoke (handler e) rest g) answer
         else Inr (sf_ResultUnknownCommandId, None, g))) \<and>
     (\<forall>c. c \<notin> cmd_id ` set t \<longrightarrow>
        ProcessMessageImpl l v invoke t (request l n c token rest) g =
          Inr (sf_ResultUnknownCommandId, None, g))) \<and>
   (\<not> n \<le> (if Version_5_0_0 \<le> v then 1 else 0) \<longrightarrow>
     (\<forall>c. ProcessMessageImpl l v invoke t (request l n c token rest) g =
        Inr (sf_ResultInvalidInHeader, None, g)))"
  by (auto simp: processed_request max_cmif_version_def [symmetric] find_Matches find_Matches_None)

theorem command_dispatch_witness:
  "ProcessMessageImpl sample_cmif Version_5_0_0 (\<lambda>h rest n. Inr (0, True, n + length h)) AlbumControlService_table
     (request sample_cmif 1 1 [7, 0, 0, 0] []) 0 = Inr (sf_ResultUnknownCommandId, None, 0 :: nat) \<and>
   ProcessMessageImpl sample_cmif Version_1_0_0 (\<lambda>h rest n. Inr (0, True, n + length h)) AlbumControlService_table
     (request sample_cmif 0 1 [0, 0, 0, 0] []) 0 = Inr (0, Some 0, 15 :: nat) \<and>
   ProcessMessageImpl sample_cmif Version_1_0_0 (\<lambda>h rest n. Inr (0, True, n + length h)) AlbumControlService_table
     (request sample_cmif 1 1 [0, 0, 0, 0] []) 0 = Inr (sf_ResultInvalidInHeader, None, 0 :: nat)"
proof -
  have e: "meta ''CaptureRawImage'' 1 Version_1_0_0 Version_1_0_0 \<in> set AlbumControlService_table"
    by (simp add: AlbumControlService_table_def)
  have t: "AlbumControlService_table \<in> set all_tables" by (simp add: all_tables_def)
  note all = command_dispatch [OF t, where l = sample_cmif and rest = "[]" and
      invoke = "\<lambda>h rest n. Inr (0, True, n + length h)" and g = "0 :: nat"]
  note d = all [THEN conjunct1, THEN mp, THEN conjunct1, rule_format, OF _ _ e]
  show ?thesis
    using d [of "[7, 0, 0, 0]" 1 Version_5_0_0] d [of "[0, 0, 0, 0]" 0 Version_1_0_0]
      all [of "[0, 0, 0, 0]" 1 Version_1_0_0, THEN conjunct2]
    by (simp add: sample_cmif_def MakeServiceCommandMeta_def version_values answer_def R_FAILED_iff)
qed

end
