(* ===== verification/Services.thy ===== *)
theory Services
  imports ApplicationService Dispatch
begin

text \<open>
  The services as the dispatcher sees them: every name of a dispatch table of \<open>Dispatch\<close> is
  joined to the method of that name, and whatever requests arrive in whatever order, the shared
  objects stay consistent.
\<close>

section \<open>Methods by name\<close>

text \<open>What a method does, its output aside.\<close>

type_synonym 'w effect = "'w objects \<Rightarrow> (result \<times> 'w objects) run"

definition effect :: "('a, 'w) service \<Rightarrow> 'w effect" where
  "effect f g = then_run (f g) (\<lambda>(rc, _, g). Inr (rc, g))"

inductive accessor_method :: "'w surroundings \<Rightarrow> string \<Rightarrow> 'w effect \<Rightarrow> bool" for x where
  "accessor_method x ''GetAlbumFileCount'' (effect (Accessor_GetAlbumFileCount x sid))"
| "accessor_method x ''GetAlbumFileList'' (effect (Accessor_GetAlbumFileList x entries_size sid))"
| "accessor_method x ''LoadAlbumFile'' (effect (Accessor_LoadAlbumFile x image_size f))"
| "accessor_method x ''DeleteAlbumFile'' (effect (Accessor_DeleteAlbumFile x f))"
| "accessor_method x ''StorageCopyAlbumFile'' (effect (Accessor_StorageCopyAlbumFile x dst f))"
| "accessor_method x ''IsAlbumMounted'' (effect (Accessor_IsAlbumMounted x sid))"
| "accessor_method x ''GetAlbumUsage'' (effect (Accessor_GetAlbumUsage x sid))"
| "accessor_method x ''GetAlbumFileSize'' (effect (Accessor_GetAlbumFileSize x f))"
| "accessor_method x ''LoadAlbumFileThumbnail''
     (effect (Accessor_LoadAlbumFileThumbnail x image_size f))"
| "accessor_method x ''LoadAlbumScreenShotImage''
     (effect (Accessor_LoadAlbumScreenShotImage work jpeg f))"
| "accessor_method x ''LoadAlbumScreenShotThumbnailImage''
     (effect (Accessor_LoadAlbumScreenShotThumbnailImage work jpeg f))"
| "accessor_method x ''GetAlbumEntryFromApplicationAlbumEntry''
     (effect (Accessor_GetAlbumEntryFromApplicationAlbumEntry x junk app_entry app))"
| "accessor_method x ''LoadAlbumScreenShotImageEx''
     (effect (Accessor_LoadAlbumScreenShotImageEx work jpeg f opts))"
| "accessor_method x ''LoadAlbumScreenShotThumbnailImageEx''
     (effect (Accessor_LoadAlbumScreenShotThumbnailImageEx work jpeg f opts))"
| "accessor_method x ''LoadAlbumScreenShotImageEx0''
     (effect (Accessor_LoadAlbumScreenShotImageEx0 attr_size work jpeg f opts))"
| "accessor_method x ''GetAlbumUsage3'' (effect (Accessor_GetAlbumUsage3 x sid))"
| "accessor_method x ''GetAlbumMountResult'' (effect (Accessor_GetAlbumMountResult x sid))"
| "accessor_method x ''GetAlbumUsage16'' (effect (Accessor_GetAlbumUsage16 x sid flags))"
| "accessor_method x ''GetMinMaxAppletId'' (effect (Accessor_GetMinMaxAppletId minMax))"
| "accessor_method x ''GetAlbumFileCountEx0'' (effect (Accessor_GetAlbumFileCountEx0 x sid flags))"
| "accessor_method x ''GetAlbumFileListEx0''
     (effect (Accessor_GetAlbumFileListEx0 x entries_size sid flags))"
| "accessor_method x ''SaveEditedScreenShot'' (effect (Accessor_SaveEditedScreenShot buf0 buf1 args))"
| "accessor_method x ''GetLastOverlayScreenShotThumbnail''
     (effect (Accessor_GetLastOverlayScreenShotThumbnail buffer_size))"
| "accessor_method x ''GetLastOverlayMovieThumbnail''
     (effect (Accessor_GetLastOverlayMovieThumbnail buffer_size))"
| "accessor_method x ''GetAutoSavingStorage'' (effect (Accessor_GetAutoSavingStorage x))"
| "accessor_method x ''GetRequiredStorageSpaceSizeToCopyAll''
     (effect (Accessor_GetRequiredStorageSpaceSizeToCopyAll x dst src))"
| "accessor_method x ''LoadAlbumScreenShotThumbnailImageEx0''
     (effect (Accessor_LoadAlbumScreenShotThumbnailImageEx0 attr_size work jpeg f opts))"
| "accessor_method x ''LoadAlbumScreenShotImageEx1''
     (effect (Accessor_LoadAlbumScreenShotImageEx1 attr_size work jpeg f opts))"
| "accessor_method x ''LoadAlbumScreenShotThumbnailImageEx1''
     (effect (Accessor_LoadAlbumScreenShotThumbnailImageEx1 attr_size work jpeg f opts))"
| "accessor_method x ''ForceAlbumUnmounted'' (effect (Accessor_ForceAlbumUnmounted x sid))"
| "accessor_method x ''ResetAlbumMountStatus'' (effect (Accessor_ResetAlbumMountStatus x sid))"
| "accessor_method x ''RefreshAlbumCache'' (effect (Accessor_RefreshAlbumCache x sid))"
| "accessor_method x ''GetAlbumCache'' (effect (Accessor_GetAlbumCache x sid))"
| "accessor_method x ''GetAlbumCacheEx'' (effect (Accessor_GetAlbumCacheEx x sid type))"
| "accessor_method x ''GetAlbumEntryFromApplicationAlbumEntryAruid''
     (effect (Accessor_GetAlbumEntryFromApplicationAlbumEntryAruid x junk aruid app_entry))"
| "accessor_method x ''SetInternalErrorConversionEnabled''
     (effect (Accessor_SetInternalErrorConversionEnabled mode))"
| "accessor_method x ''LoadMakerNoteInfoForDebug''
     (effect (Accessor_LoadMakerNoteInfoForDebug x makernote work f))"
| "accessor_method x ''OpenAccessorSession'' (effect (Accessor_OpenAccessorSession aruid))"

inductive control_method :: "'w surroundings \<Rightarrow> string \<Rightarrow> 'w effect \<Rightarrow> bool" for x where
  "control_method x ''CaptureRawImage'' (effect (CaptureRawImage buf args))"
| "control_method x ''CaptureRawImageWithTimeout'' (effect (CaptureRawImageWithTimeout buf args))"
| "control_method x ''SetShimLibraryVersion'' (effect (Control_SetShimLibraryVersion version aruid))"
| "control_method x ''RequestTakingScreenShot'' (effect (RequestTakingScreenShot args))"
| "control_method x ''RequestTakingScreenShotWithTimeout''
     (effect (RequestTakingScreenShotWithTimeout args))"
| "control_method x ''NotifyTakingScreenShotRefused'' (effect (NotifyTakingScreenShotRefused a))"
| "control_method x ''NotifyAlbumStorageIsAvailable'' (effect (NotifyAlbumStorageIsAvailable x sid))"
| "control_method x ''NotifyAlbumStorageIsUnavailable''
     (effect (NotifyAlbumStorageIsUnavailable x sid))"
| "control_method x ''RegisterAppletResourceUserId''
     (effect (Control_RegisterAppletResourceUserId x aruid app))"
| "control_method x ''UnregisterAppletResourceUserId''
     (effect (Control_UnregisterAppletResourceUserId aruid app))"
| "control_method x ''GetApplicationIdFromAruid'' (effect (Control_GetApplicationIdFromAruid aruid))"
| "control_method x ''CheckApplicationIdRegistered''
     (effect (Control_CheckApplicationIdRegistered app))"
| "control_method x ''GenerateCurrentAlbumFileId'' (effect (GenerateCurrentAlbumFileId x app type))"
| "control_method x ''GenerateApplicationAlbumEntry''
     (effect (Control_GenerateApplicationAlbumEntry x junk entry app))"
| "control_method x ''SaveAlbumScreenShotFile'' (effect (SaveAlbumScreenShotFile x jpeg f))"
| "control_method x ''SaveAlbumScreenShotFileEx''
     (effect (SaveAlbumScreenShotFileEx x jpeg f unk0 unk1 unk2))"
| "control_method x ''SetOverlayScreenShotThumbnailData''
     (effect (SetOverlayScreenShotThumbnailData buf f))"
| "control_method x ''SetOverlayMovieThumbnailData'' (effect (SetOverlayMovieThumbnailData buf f))"
| "control_method x ''OpenControlSession'' (effect (OpenControlSession aruid))"

inductive application_method :: "string \<Rightarrow> 'w effect \<Rightarrow> bool" where
  "application_method ''SetShimLibraryVersion''
     (effect (Application_SetShimLibraryVersion version aruid))"
| "application_method ''GetAlbumFileList0AafeAruidDeprecated''
     (effect (GetAlbumFileList0AafeAruidDeprecated aruid type start_timestamp end_timestamp))"
| "application_method ''DeleteAlbumFileByAruid''
     (effect (DeleteAlbumFileByAruid aruid type app_file_entry))"
| "application_method ''GetAlbumFileSizeByAruid''
     (effect (GetAlbumFileSizeByAruid aruid app_file_entry))"
| "application_method ''DeleteAlbumFileByAruidForDebug''
     (effect (DeleteAlbumFileByAruidForDebug aruid app_file_entry))"
| "application_method ''LoadAlbumScreenShotImageByAruid''
     (effect (LoadAlbumScreenShotImageByAruid aruid app_file_entry opts))"
| "application_method ''LoadAlbumScreenShotThumbnailImageByAruid''
     (effect (LoadAlbumScreenShotThumbnailImageByAruid aruid app_file_entry opts))"
| "application_method ''PrecheckToCreateContentsByAruid''
     (effect (PrecheckToCreateContentsByAruid type sz aruid))"
| "application_method ''GetAlbumFileList1AafeAruidDeprecated''
     (effect (GetAlbumFileList1AafeAruidDeprecated aruid type start_date end_date))"
| "application_method ''GetAlbumFileList2AafeUidAruidDeprecated''
     (effect (GetAlbumFileList2AafeUidAruidDeprecated aruid type start_date end_date uid))"
| "application_method ''GetAlbumFileList3AaeAruid''
     (effect (GetAlbumFileList3AaeAruid aruid type start_date end_date))"
| "application_method ''GetAlbumFileList4AaeUidAruid''
     (effect (GetAlbumFileList4AaeUidAruid aruid type start_date end_date uid))"
| "application_method ''OpenAccessorSessionForApplication''
     (effect (OpenAccessorSessionForApplication aruid app_file_entry))"

inductive session_method :: "string \<Rightarrow> 'w effect \<Rightarrow> bool" where
  "session_method ''OpenAlbumMovieReadStream'' (effect (AccessorSession_OpenAlbumMovieReadStream f))"
| "session_method ''OpenAlbumMovieReadStream'' (effect (ControlSession_OpenAlbumMovieReadStream f))"
| "session_method ''OpenAlbumMovieReadStream''
     (effect (AccessorApplicationSession_OpenAlbumMovieReadStream client_pid app_file_entry))"
| "session_method ''CloseAlbumMovieReadStream'' (effect (CloseAlbumMovieReadStream stream))"
| "session_method ''GetAlbumMovieReadStreamMovieDataSize''
     (effect (GetAlbumMovieReadStreamMovieDataSize stream))"
| "session_method ''ReadMovieDataFromAlbumMovieReadStream''
     (effect (ReadMovieDataFromAlbumMovieReadStream stream off))"
| "session_method ''GetAlbumMovieReadStreamBrokenReason''
     (effect (GetAlbumMovieReadStreamBrokenReason stream))"
| "session_method ''GetAlbumMovieReadStreamImageDataSize''
     (effect (GetAlbumMovieReadStreamImageDataSize stream))"
| "session_method ''ReadImageDataFromAlbumMovieReadStream''
     (effect (ReadImageDataFromAlbumMovieReadStream stream off))"
| "session_method ''ReadFileAttributeFromAlbumMovieReadStream''
     (effect (ReadFileAttributeFromAlbumMovieReadStream))"
| "session_method ''OpenAlbumMovieWriteStream'' (effect (OpenAlbumMovieWriteStream f))"
| "session_method ''FinishAlbumMovieWriteStream'' (effect (FinishAlbumMovieWriteStream stream))"
| "session_method ''CommitAlbumMovieWriteStream'' (effect (CommitAlbumMovieWriteStream stream))"
| "session_method ''DiscardAlbumMovieWriteStream'' (effect (DiscardAlbumMovieWriteStream stream))"
| "session_method ''DiscardAlbumMovieWriteStreamNoDelete''
     (effect (DiscardAlbumMovieWriteStreamNoDelete stream))"
| "session_method ''CommitAlbumMovieWriteStreamEx'' (effect (CommitAlbumMovieWriteStreamEx stream))"
| "session_method ''StartAlbumMovieWriteStreamDataSection''
     (effect (StartAlbumMovieWriteStreamDataSection stream))"
| "session_method ''EndAlbumMovieWriteStreamDataSection''
     (effect (EndAlbumMovieWriteStreamDataSection stream))"
| "session_method ''StartAlbumMovieWriteStreamMetaSection''
     (effect (StartAlbumMovieWriteStreamMetaSection stream))"
| "session_method ''EndAlbumMovieWriteStreamMetaSection''
     (effect (EndAlbumMovieWriteStreamMetaSection stream))"
| "session_method ''ReadDataFromAlbumMovieWriteStream''
     (effect (ReadDataFromAlbumMovieWriteStream stream off))"
| "session_method ''WriteDataToAlbumMovieWriteStream''
     (effect (WriteDataToAlbumMovieWriteStream data stream off))"
| "session_method ''WriteMetaToAlbumMovieWriteStream''
     (effect (WriteMetaToAlbumMovieWriteStream meta_data stream off unk0 unk1))"
| "session_method ''GetAlbumMovieWriteStreamBrokenReason''
     (effect (GetAlbumMovieWriteStreamBrokenReason stream))"
| "session_method ''GetAlbumMovieWriteStreamDataSize''
     (effect (GetAlbumMovieWriteStreamDataSize stream))"
| "session_method ''SetAlbumMovieWriteStreamDataSize''
     (effect (SetAlbumMovieWriteStreamDataSize stream sz))"

inductive_cases accessor_methodE: "accessor_method x h e"
inductive_cases control_methodE: "control_method x h e"
inductive_cases application_methodE: "application_method h e"

section \<open>Every method keeps the objects consistent\<close>

lemma keeps_try_storage [keeps_rules]:
  assumes "keeps k"
  shows "keeps (\<lambda>st. try_storage x sid st k)"
proof (rule keepsI)
  fix m w rc a m' w'
  assume ok: "man_ok m" and r: "try_storage x sid (m, w) k = Inr (rc, a, (m', w'))"
  from r show "man_ok m'"
  proof (cases rule: try_storage_cases)
    case (mounted u)
    from mounted(1) show ?thesis by (rule keepsD [OF keeps_mount(1) ok])
  next
    case (other rc1 u st1)
    obtain m1 w1 where st1: "st1 = (m1, w1)" by (cases st1)
    from other(1) have "man_ok m1" unfolding st1 by (rule keepsD [OF keeps_mount(1) ok])
    then show ?thesis using other(3) unfolding st1 by (rule keepsD [OF assms])
  qed
qed

lemma keeps_GetAutoSavingStorage [keeps_rules]: "keeps (GetAutoSavingStorage x type)"
proof (rule keepsI)
  fix m w rc a m' w'
  let ?fail = "\<lambda>st. Inr (ResultAlbumIsNotMounted, Nand, st)"
  let ?nand = "\<lambda>st. try_storage x Nand st ?fail"
  assume ok: "man_ok m" and r: "GetAutoSavingStorage x type (m, w) = Inr (rc, a, (m', w'))"
  obtain rc1 n w1 where p: "setsysGetPrimaryAlbumStorage (plat x) w = (rc1, n, w1)"
    by (cases "setsysGetPrimaryAlbumStorage (plat x) w")
  let ?extra = "\<lambda>st. if \<not> AllowSaveExtraMoviesOnNand (sett x) then ?fail st else ?nand st"
  consider "?nand (m, w1) = Inr (rc, a, (m', w'))"
    | "try_storage x Sd (m, w1) ?nand = Inr (rc, a, (m', w'))"
    | "try_storage x Sd (m, w) ?extra = Inr (rc, a, (m', w'))"
    using r unfolding GetAutoSavingStorage_def Let_def p prod.case by (meson sum.distinct(1))
  then show "man_ok m'"
  proof cases
    case 1
    have "keeps ?nand" by (intro keeps_rules)
    from keepsD [OF this ok 1] show ?thesis .
  next
    case 2
    have "keeps (\<lambda>st. try_storage x Sd st ?nand)" by (intro keeps_rules)
    from keepsD [OF this ok 2] show ?thesis .
  next
    case 3
    have "keeps (\<lambda>st. try_storage x Sd st ?extra)" by (intro keeps_rules)
    from keepsD [OF this ok 3] show ?thesis .
  qed
qed

lemma keeps_saving [keeps_rules]:
  "keeps (SaveScreenshotFile jpeg f a b c)" "keeps (Manager_LoadMakerNoteInfo f)"
  by (simp_all add: SaveScreenshotFile_def [abs_def] Manager_LoadMakerNoteInfo_def [abs_def]
      keeps_return)

lemma Register_ok:
  "app_ok am \<Longrightarrow> RegisterAppletResourceUserId fuel p aruid app am w = Inr (rc, am', w') \<Longrightarrow> app_ok am'"
  by (rule applications.step_inv [OF _ app_step.register])

lemma SetShim_ok:
  "app_ok am \<Longrightarrow> SetShimLibraryVersion v aruid am = (rc, am') \<Longrightarrow> app_ok am'"
  by (auto dest: SetShim_same)

lemma GenerateFileId_ok:
  assumes "GenerateFileId x out app type (gen, (m, w)) = Inr (rc, f, (gen', (m', w')))"
    and "gen_ok gen" and "man_ok m"
  shows "gen_ok gen'" and "man_ok m'"
proof -
  show "gen_ok gen'" using gen_step_ok [OF gen_step.intros [OF assms(1)] assms(2)] .
  obtain rc1 sid w1 where "GetAutoSavingStorage x type (m, w) = Inr (rc1, sid, (m', w1))"
    using assms(1) by (auto simp: GenerateFileId_def then_run_eq_Inr Let_def split: if_splits prod.splits)
  then show "man_ok m'" by (rule keepsD [OF keeps_GetAutoSavingStorage assms(3)])
qed

lemma preserves_then [preserves_rules]:
  assumes "preserves f" and "\<And>rc a. preserves (k rc a)"
  shows "preserves (\<lambda>g. then_run (f g) (\<lambda>(rc, a, g). k rc a g))"
proof (rule preservesI)
  fix g rc a g'
  assume ok: "objects_ok g" and "then_run (f g) (\<lambda>(rc, a, g). k rc a g) = Inr (rc, a, g')"
  then obtain rc1 a1 g1 where f: "f g = Inr (rc1, a1, g1)" and k: "k rc1 a1 g1 = Inr (rc, a, g')"
    by (auto simp: then_run_eq_Inr)
  from f have "objects_ok g1" by (rule preservesD [OF assms(1) ok])
  then show "objects_ok g'" using k by (rule preservesD [OF assms(2)])
qed

lemma preserves_if [preserves_rules]:
  "preserves f \<Longrightarrow> preserves h \<Longrightarrow> preserves (\<lambda>g. if b then f g else h g)"
  by (cases b) simp_all

lemma preserves_converter [preserves_rules]:
  "preserves (\<lambda>g. Inr (rc, a g, g\<lparr>g_AlbumErrorConverter := c g\<rparr>))"
  by (rule preservesI) (auto simp: objects_ok_def)

lemma preserves_shim [preserves_rules]:
  "preserves (\<lambda>g. let (rc, am) = SetShimLibraryVersion v aruid (g_ApplicationAlbumManager g)
     in Inr (rc, (), g\<lparr>g_ApplicationAlbumManager := am\<rparr>))"
  by (rule preservesI) (auto simp: objects_ok_def dest: SetShim_ok split: prod.splits)

lemma preserves_register [preserves_rules]:
  "preserves (\<lambda>g. then_run (RegisterAppletResourceUserId n p aruid app (g_ApplicationAlbumManager g) (g_world g))
     (\<lambda>(rc, am, w). Inr (rc, (), g\<lparr>g_ApplicationAlbumManager := am, g_world := w\<rparr>)))"
  by (rule preservesI) (auto simp: objects_ok_def then_run_eq_Inr dest: Register_ok)

lemma preserves_generate [preserves_rules]:
  "preserves (\<lambda>g. then_run (GenerateFileId (site x g) zero_AlbumFileId app type
      (g_AlbumFileIdGenerator g, (g_AlbumManager g, g_world g))) (\<lambda>(rc, f, (gen, (m, w))).
      Inr (rc, f, g\<lparr>g_AlbumFileIdGenerator := gen, g_AlbumManager := m, g_world := w\<rparr>)))"
  by (rule preservesI) (auto simp: objects_ok_def then_run_eq_Inr dest: GenerateFileId_ok)

lemma overlay_ok_memory:
  "overlay_ok h \<Longrightarrow> length mem = length (total_memory h) \<Longrightarrow> overlay_ok (h\<lparr>total_memory := mem\<rparr>)"
  by (simp add: overlay_ok_def)

lemma preserves_set_thumbnail [preserves_rules]: "preserves (set_thumbnail type buf f)"
proof (rule preservesI)
  fix g rc a g'
  assume ok: "objects_ok g" and r: "set_thumbnail type buf f g = Inr (rc, a, g')"
  show "objects_ok g'"
  proof (cases "length buf < OverlayBufferSize")
    case True
    then show ?thesis using r ok by (simp add: set_thumbnail_def)
  next
    case False
    then obtain v where b: "GetOverlayBuffer f type (g_OverlayThumbnailHolder g) = Inr v"
      and r: "(case v of None \<Rightarrow> Inl OutOfFuel
      | Some (dst, h) \<Rightarrow>
         if length (total_memory h) < dst + OverlayBufferSize then Inl OutOfBounds else
         then_run (Overlay_Signal type
             (h\<lparr>total_memory := poke dst (take OverlayBufferSize buf) (total_memory h)\<rparr>)) (\<lambda>h.
           Inr (ResultSuccess, (), g\<lparr>g_OverlayThumbnailHolder := h\<rparr>))) = Inr (rc, a, g')"
      using r by (auto simp: set_thumbnail_def then_run_eq_Inr)
    then obtain dst h where v: "v = Some (dst, h)" by (cases v) auto
    with r have l: "dst + OverlayBufferSize \<le> length (total_memory h)" by (auto split: if_splits)
    then obtain h' where s: "Overlay_Signal type
          (h\<lparr>total_memory := poke dst (take OverlayBufferSize buf) (total_memory h)\<rparr>) = Inr h'"
      and g': "g' = g\<lparr>g_OverlayThumbnailHolder := h'\<rparr>"
      using r v by (auto simp: then_run_eq_Inr)
    note b = b [unfolded v]
    have "overlay_ok h"
      using overlay.step_inv [OF _ overlay_step.begin_write [OF b]] ok by (simp add: objects_ok_def)
    then have "overlay_ok (h\<lparr>total_memory := poke dst (take OverlayBufferSize buf) (total_memory h)\<rparr>)"
      using l False by (intro overlay_ok_memory) simp_all
    then have "overlay_ok h'" using overlay.step_inv [OF _ overlay_step.signal [OF s]] by blast
    then show ?thesis using ok by (simp add: g' objects_ok_def)
  qed
qed

lemma preserves_maker_note [preserves_rules]:
  "preserves (Accessor_LoadMakerNoteInfoForDebug x makernote work f)"
  by (rule preservesI)
    (auto simp: Accessor_LoadMakerNoteInfoForDebug_def converted_def on_manager_def
      Manager_LoadMakerNoteInfo_def then_run_eq_Inr objects_ok_def Let_def
      split: if_splits prod.splits)

lemmas accessor_defs =
  Accessor_GetAlbumFileCount_def Accessor_GetAlbumFileList_def Accessor_LoadAlbumFile_def
  Accessor_DeleteAlbumFile_def Accessor_StorageCopyAlbumFile_def   Accessor_GetAlbumUsage_def Accessor_GetAlbumFileSize_def Accessor_LoadAlbumFileThumbnail_def
  Accessor_LoadAlbumScreenShotImage_def Accessor_LoadAlbumScreenShotThumbnailImage_def
  Accessor_LoadAlbumScreenShotImageEx_def Accessor_LoadAlbumScreenShotThumbnailImageEx_def
  Accessor_LoadAlbumScreenShotImageEx0_def Accessor_LoadAlbumScreenShotThumbnailImageEx0_def
  Accessor_LoadAlbumScreenShotImageEx1_def Accessor_LoadAlbumScreenShotThumbnailImageEx1_def
  Accessor_GetAlbumEntryFromApplicationAlbumEntry_def
  Accessor_GetAlbumEntryFromApplicationAlbumEntryAruid_def Accessor_GetAlbumUsage3_def
  Accessor_GetAlbumMountResult_def Accessor_GetAlbumUsage16_def   Accessor_GetAlbumFileCountEx0_def Accessor_GetAlbumFileListEx0_def
  Accessor_SaveEditedScreenShot_def Accessor_GetAutoSavingStorage_def
  Accessor_GetRequiredStorageSpaceSizeToCopyAll_def Accessor_ForceAlbumUnmounted_def
  Accessor_ResetAlbumMountStatus_def Accessor_RefreshAlbumCache_def Accessor_GetAlbumCacheEx_def
  Accessor_GetAlbumCache_def Accessor_GetLastOverlayScreenShotThumbnail_def
  Accessor_GetLastOverlayMovieThumbnail_def Accessor_SetInternalErrorConversionEnabled_def
  Accessor_OpenAccessorSession_def

lemmas control_defs =
  CaptureRawImage_def CaptureRawImageWithTimeout_def RequestTakingScreenShot_def
  RequestTakingScreenShotWithTimeout_def NotifyTakingScreenShotRefused_def
  NotifyAlbumStorageIsAvailable_def NotifyAlbumStorageIsUnavailable_def
  Control_SetShimLibraryVersion_def Control_RegisterAppletResourceUserId_def
  Control_GetApplicationIdFromAruid_def
  Control_CheckApplicationIdRegistered_def GenerateCurrentAlbumFileId_def
  Control_GenerateApplicationAlbumEntry_def SaveAlbumScreenShotFile_def
  SaveAlbumScreenShotFileEx_def SetOverlayScreenShotThumbnailData_def
  SetOverlayMovieThumbnailData_def OpenControlSession_def

lemmas application_defs =
  Application_SetShimLibraryVersion_def GetAlbumFileList0AafeAruidDeprecated_def
  DeleteAlbumFileByAruid_def GetAlbumFileSizeByAruid_def DeleteAlbumFileByAruidForDebug_def
  LoadAlbumScreenShotImageByAruid_def LoadAlbumScreenShotThumbnailImageByAruid_def
  PrecheckToCreateContentsByAruid_def GetAlbumFileList1AafeAruidDeprecated_def
  GetAlbumFileList2AafeUidAruidDeprecated_def GetAlbumFileList3AaeAruid_def
  GetAlbumFileList4AaeUidAruid_def OpenAccessorSessionForApplication_def
  AccessorSession_OpenAlbumMovieReadStream_def ControlSession_OpenAlbumMovieReadStream_def
  AccessorApplicationSession_OpenAlbumMovieReadStream_def CloseAlbumMovieReadStream_def
  GetAlbumMovieReadStreamMovieDataSize_def ReadMovieDataFromAlbumMovieReadStream_def
  GetAlbumMovieReadStreamBrokenReason_def GetAlbumMovieReadStreamImageDataSize_def
  ReadImageDataFromAlbumMovieReadStream_def ReadFileAttributeFromAlbumMovieReadStream_def
  OpenAlbumMovieWriteStream_def FinishAlbumMovieWriteStream_def CommitAlbumMovieWriteStream_def
  DiscardAlbumMovieWriteStream_def DiscardAlbumMovieWriteStreamNoDelete_def
  CommitAlbumMovieWriteStreamEx_def StartAlbumMovieWriteStreamDataSection_def
  EndAlbumMovieWriteStreamDataSection_def StartAlbumMovieWriteStreamMetaSection_def
  EndAlbumMovieWriteStreamMetaSection_def ReadDataFromAlbumMovieWriteStream_def
  WriteDataToAlbumMovieWriteStream_def WriteMetaToAlbumMovieWriteStream_def
  GetAlbumMovieWriteStreamBrokenReason_def GetAlbumMovieWriteStreamDataSize_def
  SetAlbumMovieWriteStreamDataSize_def

lemma effect_ok:
  assumes "preserves f" and "objects_ok g" and "effect f g = Inr (rc, g')"
  shows "objects_ok g'"
  using assms(3) preservesD [OF assms(1,2)] by (auto simp: effect_def then_run_eq_Inr)

lemma preserves_pointwise [preserves_rules]:
  "preserves (\<lambda>g. Inr (r g, v g, g))" "preserves (decode_nothing n work jpeg)"
  "preserves (Accessor_GetMinMaxAppletId minMax)" "preserves (Accessor_IsAlbumMounted x sid)"
  "preserves (Control_UnregisterAppletResourceUserId aruid app)"
  "preserves (\<lambda>g. then_run (u g) (\<lambda>(rc, c). Inr (rc, w c, g)))"
proof -
  show "preserves (Accessor_IsAlbumMounted x sid)"
    unfolding Accessor_IsAlbumMounted_def by (intro preserves_rules keeps_rules)
qed (auto intro!: preservesI simp: decode_nothing_def Accessor_GetMinMaxAppletId_def then_run_eq_Inr
    Control_UnregisterAppletResourceUserId_def objects_ok_def split: if_splits)

lemma accessor_method_ok:
  "accessor_method x h e \<Longrightarrow> objects_ok g \<Longrightarrow> e g = Inr (rc, g') \<Longrightarrow> objects_ok g'"
  by (erule accessor_methodE; hypsubst; erule effect_ok [rotated 1]; assumption?;
      (unfold accessor_defs)?; intro preserves_rules keeps_rules)

lemma control_method_ok:
  "control_method x h e \<Longrightarrow> objects_ok g \<Longrightarrow> e g = Inr (rc, g') \<Longrightarrow> objects_ok g'"
  by (erule control_methodE; hypsubst; erule effect_ok [rotated 1]; assumption?;
      (unfold control_defs)?; intro preserves_rules keeps_rules)

lemma application_method_ok:
  "application_method h e \<Longrightarrow> objects_ok g \<Longrightarrow> e g = Inr (rc, g') \<Longrightarrow> objects_ok g'"
  by (erule application_methodE; hypsubst; erule effect_ok [rotated 1]; assumption?;
      unfold application_defs; intro preserves_rules keeps_rules)

lemma session_method_aborts: "session_method h e \<Longrightarrow> e g = Inl Abort"
  by (induction rule: session_method.induct)
    (simp_all add: application_defs effect_def not_implemented_def)

end
