(* ===== verification/Server.thy ===== *)
theory Server
  imports Services
begin

text \<open>
  \<open>server/capsrv_album_server.cpp\<close> and \<open>capsrv_main.cpp\<close>: start-up and shut-down of the
  album server, and the server as a state machine that answers requests. Registration of a service
  with the service manager and the threads of the operating system are parameters.
\<close>

section \<open>Start-up and shut-down\<close>

definition ManagerMemorySize :: nat where "ManagerMemorySize = 0x51000"
definition OverlayMemorySize :: nat where "OverlayMemorySize = 0xC000"
definition TotalMemorySize :: nat where "TotalMemorySize = OverlayMemorySize + ManagerMemorySize"

text \<open>\<open>RegisterServer\<close>: the name of the service and its greatest number of sessions.\<close>

type_synonym 'w registry = "string \<Rightarrow> nat \<Rightarrow> 'w \<Rightarrow> result \<times> 'w"

definition R_ABORT_UNLESS :: "result \<times> 'w \<Rightarrow> 'w run" where
  "R_ABORT_UNLESS r = (if R_FAILED (fst r) then Inl Abort else Inr (snd r))"

definition InitializeAlbumControlServerServer :: "'w registry \<Rightarrow> 'w \<Rightarrow> (unit, 'w) outcome" where
  "InitializeAlbumControlServerServer RegisterServer w =
     then_run (R_ABORT_UNLESS (RegisterServer ''caps:c'' 0x10 w)) (\<lambda>w. Inr (ResultSuccess, (), w))"

definition InitializeAlbumServerServer ::
  "'w platform \<Rightarrow> 'w registry \<Rightarrow> 'w \<Rightarrow> (unit, 'w) outcome" where
  "InitializeAlbumServerServer p RegisterServer w =
     then_run (R_ABORT_UNLESS (RegisterServer ''caps:a'' 0x10 w)) (\<lambda>w.
     then_run (if hosversionAtLeast p 5 0 0 then R_ABORT_UNLESS (RegisterServer ''caps:u'' 0x10 w)
               else Inr w) (\<lambda>w.
     Inr (ResultSuccess, (), w)))"

text \<open>The objects as their constructors leave them.\<close>

definition initial_objects :: "'w \<Rightarrow> 'w objects" where
  "initial_objects w = \<lparr>g_ZeroHash = replicate 32 0,
     g_AlbumSettings = AlbumSettings_ctor zero_AlbumSettings, g_StreamIdGenerator = 0,
     g_AlbumErrorConverter = \<lparr>should_convert = False\<rparr>, g_AlbumManager = AlbumManager_ctor,
     g_AlbumFileIdGenerator = \<lparr>last_timestamp = 0, gen_counter = 0\<rparr>,
     g_OverlayThumbnailHolder = Overlay_ctor,
     g_ApplicationAlbumManager = ApplicationAlbumManager_ctor, IsInitialized = False, g_world = w\<rparr>"

text \<open>The objects before the services are registered.\<close>

definition Initialize_objects :: "'w surroundings \<Rightarrow> 'w objects \<Rightarrow> 'w objects run" where
  "Initialize_objects x g =
     (let g_AlbumWorkMemory = replicate TotalMemorySize 0;
          g = g\<lparr>g_AlbumSettings := Initialize_settings (plat x) (g_AlbumSettings g)\<rparr>;
          g = g\<lparr>g_StreamIdGenerator := StreamId_Initialize (g_StreamIdGenerator g)\<rparr>;
          g = g\<lparr>g_AlbumErrorConverter := Converter_Initialize (g_AlbumErrorConverter g)\<rparr>;
          g = g\<lparr>g_ZeroHash := sha256 (lib x) (take 0x40000 g_AlbumWorkMemory)\<rparr>
      in then_run (Manager_Initialize (site x g) (g_AlbumManager g, g_world g)) (\<lambda>(m, w).
     let g = g\<lparr>g_AlbumManager := SetMemory (take ManagerMemorySize g_AlbumWorkMemory) m, g_world := w\<rparr>;
         g = g\<lparr>g_AlbumFileIdGenerator := Generator_Initialize (g_AlbumFileIdGenerator g)\<rparr>
      in then_run (Overlay_Initialize (Overlay_SetMemory (drop ManagerMemorySize g_AlbumWorkMemory)
           (g_OverlayThumbnailHolder g))) (\<lambda>h.
     let g = g\<lparr>g_OverlayThumbnailHolder := h\<rparr>
      in Inr (g\<lparr>g_ApplicationAlbumManager := AppManager_Initialize (g_ApplicationAlbumManager g)\<rparr>))))"

definition server_Initialize :: "'w registry \<Rightarrow> 'w surroundings \<Rightarrow> (unit, 'w) service" where
  "server_Initialize RegisterServer x g =
     (if IsInitialized g then Inl Abort else
      then_run (Initialize_objects x g) (\<lambda>g.
      then_run (InitializeAlbumControlServerServer RegisterServer (g_world g)) (\<lambda>(rc, _, w).
      if R_FAILED rc then Inl Abort else
      then_run (InitializeAlbumServerServer (plat x) RegisterServer w) (\<lambda>(rc, _, w).
      if R_FAILED rc then Inl Abort else
      then_run (on_manager x (\<lambda>x. MountImageDirectory x Nand) (g\<lparr>g_world := w\<rparr>)) (\<lambda>(_, _, g).
      then_run (on_manager x (\<lambda>x. RefreshCache x Nand) g) (\<lambda>(_, _, g).
      Inr (ResultSuccess, (), g\<lparr>IsInitialized := True\<rparr>)))))))"

definition server_Exit :: "'w surroundings \<Rightarrow> 'w objects \<Rightarrow> 'w objects run" where
  "server_Exit x g =
     (if \<not> IsInitialized g then Inl Abort else
     (let g = g\<lparr>g_ApplicationAlbumManager := AppManager_Exit (g_ApplicationAlbumManager g)\<rparr>;
          g = g\<lparr>g_OverlayThumbnailHolder := Overlay_Exit (g_OverlayThumbnailHolder g)\<rparr>;
          g = g\<lparr>g_AlbumFileIdGenerator := Generator_Exit (g_AlbumFileIdGenerator g)\<rparr>
      in then_run (Manager_Exit (site x g) (g_AlbumManager g, g_world g)) (\<lambda>(m, w).
     let g = g\<lparr>g_AlbumManager := m, g_world := w\<rparr>;
         g = g\<lparr>g_AlbumErrorConverter := Converter_Exit (g_AlbumErrorConverter g)\<rparr>;
         g = g\<lparr>g_StreamIdGenerator := StreamId_Exit (g_StreamIdGenerator g)\<rparr>;
         g = g\<lparr>g_AlbumSettings := Exit_settings (g_AlbumSettings g)\<rparr>
      in Inr (g\<lparr>IsInitialized := False\<rparr>))))"

section \<open>The program\<close>

text \<open>\<open>LoopProcess\<close> answers requests; it is \<open>server_steps\<close> below.\<close>

definition AlbumControlServerThreadFunction ::
  "('w objects \<Rightarrow> 'w objects run) \<Rightarrow> 'w objects \<Rightarrow> 'w objects run" where
  "AlbumControlServerThreadFunction LoopProcess g = (if \<not> IsInitialized g then Inl Abort else LoopProcess g)"

definition AlbumServerThreadFunction ::
  "('w objects \<Rightarrow> 'w objects run) \<Rightarrow> 'w objects \<Rightarrow> 'w objects run" where
  "AlbumServerThreadFunction LoopProcess g = (if \<not> IsInitialized g then Inl Abort else LoopProcess g)"

text \<open>
  \<open>CreateThread\<close> may fail; \<open>run_both\<close> runs the two threads to their end, interleaved
  in whatever way.
\<close>

record 'w os_lib =
  CreateThread :: "'w \<Rightarrow> result \<times> 'w"
  run_both :: "('w objects \<Rightarrow> 'w objects run) \<Rightarrow> ('w objects \<Rightarrow> 'w objects run) \<Rightarrow>
    'w objects \<Rightarrow> 'w objects run"
  LoopControl :: "'w objects \<Rightarrow> 'w objects run"
  LoopAlbum :: "'w objects \<Rightarrow> 'w objects run"

definition main_program ::
  "'w os_lib \<Rightarrow> 'w registry \<Rightarrow> 'w surroundings \<Rightarrow> 'w \<Rightarrow> (int \<times> 'w objects) run" where
  "main_program os RegisterServer x w =
     (let x = x\<lparr>env := LoadEnvironment (plat x) (env x)\<rparr>
      in then_run (Initialize_crypto (lib x) (lib_keys x, w)) (\<lambda>(rc, _, (k, w)).
     if R_FAILED rc then Inl Abort else
     (let x = x\<lparr>lib_keys := k\<rparr>
      in then_run (server_Initialize RegisterServer x (initial_objects w)) (\<lambda>(_, _, g).
     then_run (R_ABORT_UNLESS (CreateThread os (g_world g))) (\<lambda>w.
     then_run (R_ABORT_UNLESS (CreateThread os w)) (\<lambda>w.
     then_run (run_both os (AlbumControlServerThreadFunction (LoopControl os))
         (AlbumServerThreadFunction (LoopAlbum os)) (g\<lparr>g_world := w\<rparr>)) (\<lambda>g.
     then_run (server_Exit x g) (\<lambda>g. Inr (0, g)))))))))"

section \<open>The server as a state machine\<close>

text \<open>
  \<open>invoke\<close> is the framework's generated code around a method: on the rest of a message it refuses
  what it cannot decode, before the header of the reply is there, or calls the method of that name on
  some arguments; it may also take the process down. That the generated code does this, and when it
  aborts, is shown with its model (\<open>ServerMessages\<close>).
\<close>

definition invokes :: "(string \<Rightarrow> 'w effect \<Rightarrow> bool) \<Rightarrow>
    (string \<Rightarrow> u8 list \<Rightarrow> 'w objects \<Rightarrow> (result \<times> bool \<times> 'w objects) run) \<Rightarrow> u8 list \<Rightarrow> bool" where
  "invokes M invoke rest \<longleftrightarrow> (\<forall>h g. invoke h rest g = Inl Abort \<or>
     (\<exists>rc. invoke h rest g = Inr (rc, False, g)) \<or>
     (\<exists>e hdr. M h e \<and> invoke h rest g = then_run (e g) (\<lambda>(rc, g). Inr (rc, hdr, g))))"

text \<open>
  A request to a service or to a session that is open, served as one step. The album mutex makes a
  step of every method that takes it; the application manager, the identifier generator, the
  converter and \<open>LoadMakerNoteInfoForDebug\<close> are used without it, so there the two threads
  of the program could also interleave within a request, which is not modelled.
\<close>

inductive server_step :: "cmif_lib \<Rightarrow> Version \<Rightarrow> 'w surroundings \<Rightarrow> 'w objects \<Rightarrow> 'w objects \<Rightarrow> bool"
  for l v x where
  accessor: "invokes (accessor_method x) invoke (drop (CMIF_IN_HEADER_SIZE l) raw) \<Longrightarrow>
    ProcessMessageImpl l v invoke AlbumAccessorService_table raw g = Inr (rc, reply, g') \<Longrightarrow>
    server_step l v x g g'"
| control: "invokes (control_method x) invoke (drop (CMIF_IN_HEADER_SIZE l) raw) \<Longrightarrow>
    ProcessMessageImpl l v invoke AlbumControlService_table raw g = Inr (rc, reply, g') \<Longrightarrow>
    server_step l v x g g'"
| application: "Version_5_0_0 \<le> v \<Longrightarrow> invokes application_method invoke (drop (CMIF_IN_HEADER_SIZE l) raw) \<Longrightarrow>
    ProcessMessageImpl l v invoke AlbumApplicationService_table raw g = Inr (rc, reply, g') \<Longrightarrow>
    server_step l v x g g'"
| session: "t \<in> {AccessorSession_table, ControlSession_table, AccessorApplicationSession_table} \<Longrightarrow>
    invokes session_method invoke (drop (CMIF_IN_HEADER_SIZE l) raw) \<Longrightarrow>
    ProcessMessageImpl l v invoke t raw g = Inr (rc, reply, g') \<Longrightarrow> server_step l v x g g'"

inductive_cases server_stepE: "server_step l v x g g'"

section \<open>Lemmas\<close>

text \<open>Every name of a table is a method's.\<close>

lemma accessor_names: "e \<in> set AlbumAccessorService_table \<Longrightarrow> \<exists>m. accessor_method x (handler e) m"
  by (simp add: AlbumAccessorService_table_def MakeServiceCommandMeta_def, elim disjE; simp; rule exI; rule accessor_method.intros)

lemma control_names: "e \<in> set AlbumControlService_table \<Longrightarrow> \<exists>m. control_method x (handler e) m"
  by (simp add: AlbumControlService_table_def MakeServiceCommandMeta_def, elim disjE; simp; rule exI; rule control_method.intros)

lemma application_names: "e \<in> set AlbumApplicationService_table \<Longrightarrow> \<exists>m. application_method (handler e) m"
  by (simp add: AlbumApplicationService_table_def MakeServiceCommandMeta_def, elim disjE; simp; rule exI; rule application_method.intros)

text \<open>An invoked method, or nothing, changed the state.\<close>

lemma dispatched:
  assumes "invokes M invoke (drop (CMIF_IN_HEADER_SIZE l) raw)" and "ProcessMessageImpl l v invoke t raw g = Inr (rc, reply, g')"
  obtains (nothing) "g' = g" | (applied) h e rc' where "M h e" "e g = Inr (rc', g')"
proof (cases "g' = g")
  case False
  then obtain e :: "string ServiceCommandMeta"
    where r: "then_run (invoke (handler e) (drop (CMIF_IN_HEADER_SIZE l) raw) g) answer =
      Inr (rc, reply, g')"
    using assms(2) unfolding ProcessMessageImpl_def by (auto split: if_splits option.splits)
  have a: "answer y = Inr (rc, reply, g') \<Longrightarrow> snd (snd y) = g'" for y :: "result \<times> bool \<times> _"
    by (auto simp: answer_def split: if_splits prod.splits)
  from r obtain y where y: "invoke (handler e) (drop (CMIF_IN_HEADER_SIZE l) raw) g = Inr y"
    and "snd (snd y) = g'"
    using a by (auto simp: then_run_eq_Inr)
  have "\<exists>h m rc'. M h m \<and> m g = Inr (rc', g')"
    using assms(1) [unfolded invokes_def, rule_format, of "handler e" g]
  proof (elim disjE exE conjE)
    fix m hdr
    assume M: "M (handler e) m" and
      "invoke (handler e) (drop (CMIF_IN_HEADER_SIZE l) raw) g = then_run (m g) (\<lambda>(rc, g). Inr (rc, hdr, g))"
    with y have "then_run (m g) (\<lambda>(rc, g). Inr (rc, hdr, g)) = Inr y" by simp
    then obtain rc' where "m g = Inr (rc', g')"
      using \<open>snd (snd y) = g'\<close> by (auto simp: then_run_eq_Inr)
    with M show ?thesis by (intro exI conjI)
  qed (use y \<open>snd (snd y) = g'\<close> False in auto)
  then show thesis using applied by blast
qed (use nothing in simp)

lemma Initialize_objects_ok:
  assumes "Initialize_objects x g = Inr g'" and "man_ok (g_AlbumManager g)"
    and "app_ok (g_ApplicationAlbumManager g)"
  shows "objects_ok g'" and "StorageValid sid \<Longrightarrow> with_status sid (g_AlbumManager g') = MountStatus_ctor"
    and "scrub (g_AlbumManager g') = g_AlbumManager g'"
    and "man_cache (g_AlbumManager g') = man_cache (g_AlbumManager g)"
    and "IsInitialized g' = IsInitialized g"
proof -
  obtain s m w h where M: "Manager_Initialize (site x s) (g_AlbumManager g, g_world g) = Inr (m, w)"
    and H: "Overlay_Initialize (Overlay_SetMemory (drop ManagerMemorySize (replicate TotalMemorySize 0))
        (g_OverlayThumbnailHolder g)) = Inr h"
    and m': "g_AlbumManager g' = SetMemory (take ManagerMemorySize (replicate TotalMemorySize 0)) m"
    and r: "g_OverlayThumbnailHolder g' = h"
      "g_AlbumFileIdGenerator g' = Generator_Initialize (g_AlbumFileIdGenerator g)"
      "g_ApplicationAlbumManager g' = AppManager_Initialize (g_ApplicationAlbumManager g)"
      "IsInitialized g' = IsInitialized g"
    using assms(1) by (fastforce simp: Initialize_objects_def Let_def then_run_eq_Inr)
  note i = Manager_Initialize_ok [OF M assms(2)]
  show "objects_ok g'"
    using i assms(3) overlay_ok_Initialize [OF H]
    by (simp add: objects_ok_def m' r SetMemory_def Generator_Initialize_def gen_ok_def
        AppManager_Initialize_def app_ok_def app_slots_def)
  show "with_status sid (g_AlbumManager g') = MountStatus_ctor"
    using i [of sid] by (simp add: m' SetMemory_def with_status_def split: if_splits)
  show "scrub (g_AlbumManager g') = g_AlbumManager g'"
    by (simp add: m' scrub_def SetMemory_def)
  show "man_cache (g_AlbumManager g') = man_cache (g_AlbumManager g)"
    using i by (simp add: m' SetMemory_def)
qed (use assms(1) in \<open>auto simp: Initialize_objects_def Let_def then_run_eq_Inr\<close>)

text \<open>Neither storage can be mounted at start-up, so both calls at its end change nothing.\<close>

lemma mount_refused:
  assumes "StorageValid sid" and "with_status sid m = MountStatus_ctor"
  shows "MountImageDirectory x sid (m, w) = Inr (ResultAlbumIsNotMounted, (), (m, w))"
  using assms by (simp add: MountImageDirectory_def MountStatus_ctor_def R_FAILED_iff)

lemma refresh_refused:
  assumes "man_ok m" and "StorageValid sid" and "with_status sid m = MountStatus_ctor"
    and "scrub m = m"
  shows "RefreshCache x sid (m, w) = Inr (ResultAlbumIsNotMounted, (), (m, w))"
  using assms
  by (simp add: RefreshCache_def scrubbed_def EnsureMountState_eq mount_refused R_TRY_def
      ON_SCOPE_EXIT_def R_FAILED_iff result_values)

lemma server_Initialize_parts:
  assumes "server_Initialize reg x g = Inr (rc, u, g')"
    and "man_ok (g_AlbumManager g)" and "app_ok (g_ApplicationAlbumManager g)"
  shows "rc = 0" and "objects_ok g'" and "IsInitialized g'" and "\<not> IsInitialized g"
    and "StorageValid sid \<Longrightarrow> with_status sid (g_AlbumManager g') = MountStatus_ctor"
    and "man_cache (g_AlbumManager g') = man_cache (g_AlbumManager g)"
proof -
  obtain g1 w where I: "Initialize_objects x g = Inr g1"
    and R: "then_run (on_manager x (\<lambda>x. MountImageDirectory x Nand) (g1\<lparr>g_world := w\<rparr>)) (\<lambda>(_, _, g).
      then_run (on_manager x (\<lambda>x. RefreshCache x Nand) g) (\<lambda>(_, _, g).
      Inr (ResultSuccess, (), g\<lparr>IsInitialized := True\<rparr>))) = Inr (rc, u, g')"
    and n: "\<not> IsInitialized g"
    using assms(1) unfolding server_Initialize_def
    by (simp only: then_run_eq_Inr Inl_Inr_False simp_thms split_paired_Ex prod.case
        split: if_splits) blast
  note ok = Initialize_objects_ok [OF I assms(2,3)]
  have s: "with_status Nand (g_AlbumManager g1) = MountStatus_ctor" "StorageValid Nand"
    using ok(2) [of Nand] by (simp_all add: StorageValid_def)
  have m: "man_ok (g_AlbumManager g1)" using ok(1) by (simp add: objects_ok_def)
  have e: "rc = 0 \<and> g' = g1\<lparr>g_world := w, IsInitialized := True\<rparr>"
    using R s(1) by (simp add: on_manager_def mount_refused [OF s(2)] refresh_refused [OF m s(2) _ ok(3)])
  then show "rc = 0" "objects_ok g'" "IsInitialized g'" "\<not> IsInitialized g"
    "man_cache (g_AlbumManager g') = man_cache (g_AlbumManager g)"
    using ok n by (simp_all add: objects_ok_def)
  show "with_status sid (g_AlbumManager g') = MountStatus_ctor" if "StorageValid sid"
    using ok(2) [OF that] e by simp
qed

lemma server_step_ok: "server_step l v x g g' \<Longrightarrow> objects_ok g \<Longrightarrow> objects_ok g'"
proof (induction rule: server_step.induct)
  case (accessor invoke raw g rc reply g')
  then show ?case by (auto elim!: dispatched dest: accessor_method_ok)
next
  case (control invoke raw g rc reply g')
  then show ?case by (auto elim!: dispatched dest: control_method_ok)
next
  case (application invoke raw g rc reply g')
  then show ?case by (auto elim!: dispatched dest: application_method_ok)
next
  case (session t invoke raw g rc reply g')
  from session(2,3) show ?case
    by (cases rule: dispatched) (simp_all add: session(4) session_method_aborts)
qed

text \<open>The states in which a server starts: after its objects' constructors, or after an exit.\<close>

definition server_started :: "'w surroundings \<Rightarrow> 'w objects \<Rightarrow> bool" where
  "server_started x g' \<longleftrightarrow> (\<exists>reg g rc u. man_ok (g_AlbumManager g) \<and>
     app_ok (g_ApplicationAlbumManager g) \<and> server_Initialize reg x g = Inr (rc, u, g'))"

interpretation server: state_machine "server_started x" "server_step l v x" objects_ok
  for l v and x :: "'w surroundings"
  by unfold_locales (use server_Initialize_parts(2) server_step_ok in
    \<open>auto simp: server_started_def\<close>)

lemma initial_ok:
  "man_ok (g_AlbumManager (initial_objects w))" "app_ok (g_ApplicationAlbumManager (initial_objects w))"
proof -
  have "app_slots [] ApplicationAlbumManager_ctor"
    by (simp add: app_slots_def ApplicationAlbumManager_ctor_def)
  then show "app_ok (g_ApplicationAlbumManager (initial_objects w))"
    by (auto simp: app_ok_def initial_objects_def)
qed (simp add: initial_objects_def)

text \<open>A start-up on the sample platform.\<close>

lemma sample_start:
  obtains g where "server_Initialize (\<lambda>_ _ w. (0, w)) (sample_site 0x40000) (initial_objects 0) = Inr (0, (), g)"
proof -
  let ?x = "sample_site 0x40000" and ?g = "initial_objects (0 :: nat)"
  have "Manager_Initialize y (AlbumManager_ctor, 0) = Inr (AlbumManager_ctor, 0)"
    if "plat y = plat ?x" for y
    using sample_boot by (simp only: Manager_Initialize_def prod.case that)
  moreover have "Overlay_Initialize (h\<lparr>total_memory := replicate OverlayMemorySize 0\<rparr>) \<noteq> Inl f" for h f
    by (simp add: Overlay_Initialize_def OverlayMemorySize_def OverlayBufferSize_def OverlayHeight_def
        OverlayWidth_def OverlayComponents_def Let_def)
  moreover have "drop ManagerMemorySize (replicate TotalMemorySize (0 :: u8)) = replicate OverlayMemorySize 0"
    by (simp add: TotalMemorySize_def)
  ultimately obtain g1 where I: "Initialize_objects ?x ?g = Inr g1"
    by (cases "Overlay_Initialize (Overlay_ctor\<lparr>total_memory := replicate OverlayMemorySize 0\<rparr>)")
      (auto simp: Initialize_objects_def initial_objects_def Let_def site_def Overlay_SetMemory_def)
  have ok: "man_ok (g_AlbumManager ?g)" "app_ok (g_ApplicationAlbumManager ?g)"
    by (simp_all add: initial_ok)
  note o = Initialize_objects_ok [OF I ok]
  have m: "man_ok (g_AlbumManager g1)" using o(1) by (simp add: objects_ok_def)
  have v: "StorageValid Nand" by (simp add: StorageValid_def)
  have "server_Initialize (\<lambda>_ _ w. (0, w)) ?x ?g = Inr (0, (), g1\<lparr>IsInitialized := True\<rparr>)"
    using o(2) [OF v] v
    by (simp add: server_Initialize_def I InitializeAlbumControlServerServer_def on_manager_def
        InitializeAlbumServerServer_def R_ABORT_UNLESS_def mount_refused refresh_refused [OF m _ _ o(3)])
       (simp add: initial_objects_def)
  then show thesis using that by blast
qed

section \<open>Properties\<close>

text \<open>C2: whatever requests clients send to the three album services and to open sessions, one served
  after the other, in whatever order and however malformed, every state the server reaches after
  start-up is consistent: each
  storage is mounted exactly when its last error is success, the cache and the reservations are well
  formed, no movie stream is open, the file counter is below 100, both thumbnails are free and lie
  inside their memory, and the registered applications come first in their table.\<close>

theorem server_invariant:
  "man_ok (g_AlbumManager g0) \<Longrightarrow> app_ok (g_ApplicationAlbumManager g0) \<Longrightarrow>
   server_Initialize reg x g0 = Inr (rc, u, g) \<Longrightarrow> (server_step l v x)\<^sup>*\<^sup>* g g' \<Longrightarrow>
   man_ok (g_AlbumManager g') \<and> gen_ok (g_AlbumFileIdGenerator g') \<and>
   overlay_ok (g_OverlayThumbnailHolder g') \<and> app_ok (g_ApplicationAlbumManager g')"
proof -
  assume "man_ok (g_AlbumManager g0)" "app_ok (g_ApplicationAlbumManager g0)"
    "server_Initialize reg x g0 = Inr (rc, u, g)" "(server_step l v x)\<^sup>*\<^sup>* g g'"
  then have "objects_ok g'" by (intro server.reachable_inv) (auto simp: server_started_def)
  then show ?thesis by (simp add: objects_ok_def)
qed

theorem server_invariant_witness:
  "\<exists>g. server_Initialize (\<lambda>_ _ w. (0, w)) (sample_site 0x40000) (initial_objects 0) = Inr (0, (), g) \<and>
     overlay_ok (g_OverlayThumbnailHolder g)"
proof (rule sample_start)
  fix g
  assume g: "server_Initialize (\<lambda>_ _ w. (0, w)) (sample_site 0x40000) (initial_objects 0) = Inr (0, (), g)"
  have "ProcessMessageImpl sample_cmif Version_4_0_0 (\<lambda>_ _ g. Inr (sf_ResultInvalidInHeader, False, g))
      AlbumAccessorService_table [] g = Inr (sf_ResultInvalidHeaderSize, None, g)"
    by (simp add: ProcessMessageImpl_def sample_cmif_def)
  then have "server_step sample_cmif Version_4_0_0 (sample_site 0x40000) g g"
    by (rule server_step.accessor [rotated 1]) (simp add: invokes_def)
  then have "(server_step sample_cmif Version_4_0_0 (sample_site 0x40000))\<^sup>*\<^sup>* g g" by blast
  from server_invariant [OF initial_ok g this] show ?thesis using g by blast
qed

text \<open>C29: a start of the server that returns has succeeded and leaves neither storage mounted: asking
  whether the album is mounted answers no for both storages, without a call of the file system or any
  other change, and the counts are those from before the start; resetting the mount status of a
  storage succeeds and makes it available.\<close>

theorem startup_leaves_unmounted:
  "man_ok (g_AlbumManager g0) \<Longrightarrow> app_ok (g_ApplicationAlbumManager g0) \<Longrightarrow>
   server_Initialize reg x g0 = Inr (rc, u, g) \<Longrightarrow> StorageValid sid \<Longrightarrow>
   rc = ResultSuccess \<and> IsInitialized g \<and>
   Accessor_IsAlbumMounted x sid g = Inr (ResultSuccess, False, g) \<and>
   man_cache (g_AlbumManager g) = man_cache (g_AlbumManager g0) \<and>
   (\<exists>g'. Accessor_ResetAlbumMountStatus x sid g = Inr (ResultSuccess, (), g') \<and>
      ms_state (with_status sid (g_AlbumManager g')) = available)"
proof -
  assume A: "man_ok (g_AlbumManager g0)" "app_ok (g_ApplicationAlbumManager g0)"
    "server_Initialize reg x g0 = Inr (rc, u, g)" "StorageValid sid"
  note i = server_Initialize_parts [OF A(3,1,2)]
  have m: "man_ok (g_AlbumManager g)" using i(2) by (simp add: objects_ok_def)
  obtain w' where "UnmountImageDirectory (site x g) sid (g_AlbumManager g, g_world g) = Inr (0, (),
      (set_status sid \<lparr>ms_state = available, ms_last_error = ResultAlbumIsNotMounted\<rparr> (g_AlbumManager g), w'))"
    using unmount_to_returns [OF m A(4), of available "site x g" "g_world g"]
    unfolding UnmountImageDirectory_def by blast
  then show ?thesis
    using i(1,3,6) mount_refused [OF A(4) i(5) [OF A(4)], of "site x g" "g_world g"]
    by (simp add: Accessor_IsAlbumMounted_def Accessor_ResetAlbumMountStatus_def on_manager_def
        converted_def R_SUCCEEDED_def result_values)
qed

theorem startup_leaves_unmounted_witness:
  "\<exists>g. server_Initialize (\<lambda>_ _ w. (0, w)) (sample_site 0x40000) (initial_objects 0) = Inr (0, (), g) \<and>
     Accessor_IsAlbumMounted (sample_site 0x40000) Nand g = Inr (0, False, g)"
proof (rule sample_start)
  fix g
  assume g: "server_Initialize (\<lambda>_ _ w. (0, w)) (sample_site 0x40000) (initial_objects 0) = Inr (0, (), g)"
  have "StorageValid Nand" by (simp add: StorageValid_def)
  from startup_leaves_unmounted [OF initial_ok g this] show ?thesis using g by simp
qed

text \<open>The maker note command for debugging is refused outside debug mode and for buffers that are too
  small, leaving the client's buffers alone; otherwise both come back all zero with size zero (the
  loading itself is not implemented). In every case the objects are as before: the verification
  switch it turns off is restored.\<close>

theorem maker_note_debug_restores:
  "Accessor_LoadMakerNoteInfoForDebug x makernote work f g =
     Inr (if \<not> IsDebug (env x) then (ResultNotSupported, (None, makernote, work), g)
          else if length makernote < 0xc78 then (ResultAlbumReadBufferShortage, (None, makernote, work), g)
          else if length work < 0x7d000 then (ResultAlbumWorkMemoryError, (None, makernote, work), g)
          else (ResultSuccess,
            (Some 0, replicate (length makernote) 0, replicate (length work) 0), g))"
proof -
  have r: "g\<lparr>g_AlbumManager := g_AlbumManager g, g_world := g_world g\<rparr> = g" by simp
  have s: "snd (SetVerifyScreenshotFiledata s (fst (SetVerifyScreenshotFiledata s' v))) = s'"
    if "s = snd (SetVerifyScreenshotFiledata s' v)" for s s' v
    by (simp add: that SetVerifyScreenshotFiledata_def)
  show ?thesis
    by (simp add: Accessor_LoadMakerNoteInfoForDebug_def makernote_buffer_size_def converted_def
        on_manager_def Manager_LoadMakerNoteInfo_def SetVerifyScreenshotFiledata_def Let_def
        R_FAILED_iff poke_def not_less)
qed

text \<open>A thumbnail set by the control service is what the accessor service hands out next, with its
  file identifier, until it is set again; the movie's thumbnail is as it was.\<close>

theorem overlay_set_then_get:
  "overlay_ok (g_OverlayThumbnailHolder g) \<Longrightarrow> OverlayBufferSize \<le> length buf \<Longrightarrow> OverlayBufferSize \<le> n \<Longrightarrow>
   \<exists>g' a. SetOverlayScreenShotThumbnailData buf f g = Inr (ResultSuccess, (), g') \<and>
     Accessor_GetLastOverlayScreenShotThumbnail n g' =
       Inr (ResultSuccess, Some (f, take OverlayBufferSize buf), g') \<and>
     Accessor_GetLastOverlayMovieThumbnail n g = Inr (ResultSuccess, a, g) \<and>
     Accessor_GetLastOverlayMovieThumbnail n g' = Inr (ResultSuccess, a, g')"
proof -
  assume "overlay_ok (g_OverlayThumbnailHolder g)" and b: "OverlayBufferSize \<le> length buf"
    and n: "OverlayBufferSize \<le> n"
  then obtain f0 f1 where d: "ov_data (g_OverlayThumbnailHolder g) =
      [\<lparr>ov_buffer = 0, ov_file_id = f0, ov_slot_status = Free\<rparr>,
       \<lparr>ov_buffer = OverlayBufferSize, ov_file_id = f1, ov_slot_status = Free\<rparr>]"
    and m: "2 * OverlayBufferSize \<le> length (total_memory (g_OverlayThumbnailHolder g))"
    by (auto simp: overlay_ok_def)
  then show ?thesis
    using b n
    by (simp add: SetOverlayScreenShotThumbnailData_def set_thumbnail_def GetOverlayBuffer_def
        Overlay_Signal_def slot_def Accessor_GetLastOverlayScreenShotThumbnail_def last_thumbnail_def
        Accessor_GetLastOverlayMovieThumbnail_def GetLastOverlayThumbnail_def converted_def not_less
        poke_def)
qed

theorem overlay_set_then_get_witness:
  "\<exists>g g' :: nat objects.
     SetOverlayScreenShotThumbnailData (replicate OverlayBufferSize 7) zero_AlbumFileId g = Inr (0, (), g') \<and>
     Accessor_GetLastOverlayScreenShotThumbnail OverlayBufferSize g' =
       Inr (0, Some (zero_AlbumFileId, replicate OverlayBufferSize 7), g')"
proof (rule sample_start)
  fix g
  assume "server_Initialize (\<lambda>_ _ w. (0, w)) (sample_site 0x40000) (initial_objects 0) = Inr (0, (), g)"
  from server_Initialize_parts(2) [OF this initial_ok]
  have "overlay_ok (g_OverlayThumbnailHolder g)" by (simp add: objects_ok_def)
  from overlay_set_then_get [OF this, of "replicate OverlayBufferSize 7" OverlayBufferSize zero_AlbumFileId]
  show ?thesis by auto
qed

text \<open>A request to a session never changes the objects: it is refused or it takes the process down.\<close>

lemma session_requests:
  assumes "invokes session_method invoke (drop (CMIF_IN_HEADER_SIZE l) raw)"
  shows "ProcessMessageImpl l v invoke t raw g = Inl Abort \<or>
    (\<exists>rc reply. ProcessMessageImpl l v invoke t raw g = Inr (rc, reply, g))"
proof -
  let ?rest = "drop (CMIF_IN_HEADER_SIZE l) raw"
  have i: "invoke h ?rest g = Inl Abort \<or> (\<exists>rc. invoke h ?rest g = Inr (rc, False, g))" for h
  proof -
    from assms [unfolded invokes_def, rule_format, of h g]
    show ?thesis by (elim disjE exE conjE) (simp_all add: session_method_aborts)
  qed
  have a: "answer (rc, False, g) = Inl Abort \<or> (\<exists>rc' reply. answer (rc, False, g) = Inr (rc', reply, g))" for rc
    by (simp add: answer_def)
  have "then_run (invoke h ?rest g) answer = Inl Abort \<or>
      (\<exists>rc reply. then_run (invoke h ?rest g) answer = Inr (rc, reply, g))" for h
    using i [of h] a by (elim disjE exE) simp_all
  then show ?thesis
    by (simp add: ProcessMessageImpl_def split: option.split)
qed

end
