(* ===== verification/Layout.thy ===== *)
theory Layout
  imports Prelude "HOL-Library.Multiset"
begin

text \<open>
  How the service framework lays out the arguments of a command in a message
  (\<open>sf/impl/sf_impl_command_serialization.hpp\<close>, \<open>sf/sf_buffers.hpp\<close>): the kinds of
  arguments, the attributes of buffers, the offsets of raw data, which are sorted by alignment, and
  the indices of the descriptors. The C++ code computes all of it from the types of a method's
  parameters at compile time; here a parameter type is a value of \<open>arg\<close>.
\<close>

section \<open>Alignment\<close>

definition AlignUp :: "u64 \<Rightarrow> u64 \<Rightarrow> u64" where
  "AlignUp v a = (let invmask = a - 1 in (v + invmask) AND NOT invmask)"

definition AlignDown :: "u64 \<Rightarrow> u64 \<Rightarrow> u64" where
  "AlignDown v a = (let invmask = a - 1 in v AND NOT invmask)"

text \<open>The same on numbers, for the sizes the compiler computes.\<close>

definition align_up :: "nat \<Rightarrow> nat \<Rightarrow> nat" where
  "align_up v a = (v + (a - 1)) div a * a"

definition power_of_two :: "nat \<Rightarrow> bool" where
  "power_of_two a \<longleftrightarrow> (\<exists>k. a = 2 ^ k)"

lemma mask_out: "unat (v AND NOT (2 ^ k - 1 :: u64)) = unat v div 2 ^ k * 2 ^ k"
proof -
  have "v AND NOT (2 ^ k - 1) = push_bit k (drop_bit k v)"
    by (rule bit_word_eqI) (auto simp: bit_simps simp flip: mask_eq_exp_minus_1)
  moreover have "take_bit 64 (unat v) = unat v" by (rule take_bit_nat_eq_self) (use unsigned_less [of v] in simp)
  ultimately have "unat (v AND NOT (2 ^ k - 1)) = take_bit 64 (push_bit k (drop_bit k (unat v)))"
    by (simp add: unsigned_push_bit_eq unsigned_drop_bit_eq)
  also have "push_bit k (drop_bit k (unat v)) = unat v div 2 ^ k * 2 ^ k"
    by (simp add: push_bit_eq_mult drop_bit_eq_div)
  also have "take_bit 64 (unat v div 2 ^ k * 2 ^ k) = unat v div 2 ^ k * 2 ^ k"
  proof -
    have "unat v div 2 ^ k * 2 ^ k \<le> unat v" by (rule div_times_less_eq_dividend)
    also have "unat v < 2 ^ 64" using unsigned_less [of v] by simp
    finally show ?thesis by (rule take_bit_nat_eq_self)
  qed
  finally show ?thesis .
qed

lemma AlignDown_unat: "k < 64 \<Longrightarrow> unat (AlignDown v (2 ^ k)) = unat v div 2 ^ k * 2 ^ k"
  using mask_out [of v k] by (simp add: AlignDown_def)

lemma AlignUp_unat:
  assumes "k < 64" and "unat v + (2 ^ k - 1) < 2 ^ 64"
  shows "unat (AlignUp v (2 ^ k)) = align_up (unat v) (2 ^ k)"
proof -
  have "(2 ^ k - 1 :: u64) = of_nat (2 ^ k - 1)" by (simp add: of_nat_diff)
  moreover have "(2 :: nat) ^ k - 1 < 2 ^ 64"
    using assms(1) by (intro less_imp_diff_less power_strict_increasing) simp_all
  ultimately have "unat (2 ^ k - 1 :: u64) = 2 ^ k - 1" by (simp only: unat_of_nat) simp
  then have "unat (v + (2 ^ k - 1)) = unat v + (2 ^ k - 1)"
    using assms(2) by (simp add: unat_word_ariths)
  then show ?thesis using mask_out [of "v + (2 ^ k - 1)" k] by (simp add: AlignUp_def Let_def align_up_def)
qed

lemma align_up_dvd [simp]: "a dvd align_up v a"
  by (simp add: align_up_def)

lemma align_up_bounds:
  assumes "0 < a"
  shows align_up_ge: "v \<le> align_up v a" and align_up_less: "align_up v a < v + a"
proof -
  let ?w = "v + (a - 1)"
  have "?w = align_up v a + ?w mod a" by (simp add: align_up_def)
  moreover have "?w mod a < a" using assms by simp
  ultimately show "v \<le> align_up v a" "align_up v a < v + a" using assms by linarith+
qed

section \<open>Buffers\<close>

text \<open>\<open>SfBufferAttr_...\<close> are flags of \<open>libnx\<close>; attributes are a set of them.\<close>

datatype SfBufferAttr = Attr_In | Attr_Out | Attr_HipcMapAlias | Attr_HipcPointer | Attr_FixedSize
  | Attr_HipcAutoSelect | Attr_HipcMapTransferAllowsNonSecure | Attr_HipcMapTransferAllowsNonDevice

datatype BufferTransferMode = MapAlias | Pointer | AutoSelect

definition BufferTransferModeAttributes :: "BufferTransferMode \<Rightarrow> SfBufferAttr set" where
  "BufferTransferModeAttributes m =
     (case m of MapAlias \<Rightarrow> {Attr_HipcMapAlias} | Pointer \<Rightarrow> {Attr_HipcPointer}
      | AutoSelect \<Rightarrow> {Attr_HipcAutoSelect})"

text \<open>
  The classes of buffer parameters: plain buffers and arrays with a transfer mode, and large data
  (a structure of a fixed size that travels in a buffer). \<open>extra\<close> are the
  \<open>ExtraAttributes\<close> of the class.
\<close>

datatype buffer_class =
    InBufferImpl BufferTransferMode "SfBufferAttr set"
  | OutBufferImpl BufferTransferMode "SfBufferAttr set"
  | InArrayImpl BufferTransferMode
  | OutArrayImpl BufferTransferMode
  | InLargeData BufferTransferMode nat
  | OutLargeData BufferTransferMode nat

definition InBuffer :: buffer_class where "InBuffer = InBufferImpl MapAlias {}"
definition InNonSecureBuffer :: buffer_class where
  "InNonSecureBuffer = InBufferImpl MapAlias {Attr_HipcMapTransferAllowsNonSecure}"
definition OutBuffer :: buffer_class where "OutBuffer = OutBufferImpl MapAlias {}"
definition OutNonSecureBuffer :: buffer_class where
  "OutNonSecureBuffer = OutBufferImpl MapAlias {Attr_HipcMapTransferAllowsNonSecure}"

definition PreferredTransferMode :: "bool \<Rightarrow> bool \<Rightarrow> bool \<Rightarrow> bool \<Rightarrow> BufferTransferMode" where
  "PreferredTransferMode prefers_map_alias prefers_pointer prefers_auto_select is_large_data =
     (if prefers_map_alias then MapAlias
      else if prefers_pointer then Pointer
      else if prefers_auto_select then AutoSelect
      else if is_large_data then Pointer
      else MapAlias)"

definition OutArray :: buffer_class where
  "OutArray = OutArrayImpl (PreferredTransferMode False False False False)"

definition IsLargeData :: "buffer_class \<Rightarrow> bool" where
  "IsLargeData b = (case b of InLargeData _ _ \<Rightarrow> True | OutLargeData _ _ \<Rightarrow> True | _ \<Rightarrow> False)"

definition LargeDataSize :: "buffer_class \<Rightarrow> nat" where
  "LargeDataSize b = (case b of InLargeData _ n \<Rightarrow> n | OutLargeData _ n \<Rightarrow> n | _ \<Rightarrow> 0)"

definition BufferAttributes :: "buffer_class \<Rightarrow> SfBufferAttr set" where
  "BufferAttributes b =
     (case b of
        InBufferImpl m extra \<Rightarrow> BufferTransferModeAttributes m \<union> {Attr_In} \<union> extra
      | OutBufferImpl m extra \<Rightarrow> BufferTransferModeAttributes m \<union> {Attr_Out} \<union> extra
      | InArrayImpl m \<Rightarrow> BufferTransferModeAttributes m \<union> {Attr_In}
      | OutArrayImpl m \<Rightarrow> BufferTransferModeAttributes m \<union> {Attr_Out}
      | InLargeData m n \<Rightarrow> {Attr_FixedSize} \<union> BufferTransferModeAttributes m \<union> {Attr_In}
      | OutLargeData m n \<Rightarrow> {Attr_FixedSize} \<union> BufferTransferModeAttributes m \<union> {Attr_Out})"

section \<open>Arguments\<close>

text \<open>Raw data: a trivial type by size and alignment, \<open>bool\<close>, or a holder of a process id.\<close>

datatype data_type = Data (data_bytes: nat) (data_align: nat) | BoolData
  | ClientProcessId | ClientAppletResourceUserId

definition size_of :: "data_type \<Rightarrow> nat" where
  "size_of t = (case t of Data n _ \<Rightarrow> n | BoolData \<Rightarrow> 1 | _ \<Rightarrow> 8)"

definition align_of :: "data_type \<Rightarrow> nat" where
  "align_of t = (case t of Data _ a \<Rightarrow> a | BoolData \<Rightarrow> 1 | _ \<Rightarrow> 8)"

definition IsProcessIdHolder :: "data_type \<Rightarrow> bool" where
  "IsProcessIdHolder t \<longleftrightarrow> t = ClientProcessId \<or> t = ClientAppletResourceUserId"

datatype arg =
    InDataArg data_type | OutDataArg data_type | BufferArg buffer_class
  | InMoveHandle | InCopyHandle | OutMoveHandle | OutCopyHandle
  | InObjectArg | OutObjectArg

datatype ArgumentType = InData | OutData | Buffer | InHandle | OutHandle | InObject | OutObject

definition GetArgumentType :: "arg \<Rightarrow> ArgumentType" where
  "GetArgumentType a =
     (case a of
        BufferArg _ \<Rightarrow> Buffer | InObjectArg \<Rightarrow> InObject | OutObjectArg \<Rightarrow> OutObject
      | InMoveHandle \<Rightarrow> InHandle | InCopyHandle \<Rightarrow> InHandle
      | OutMoveHandle \<Rightarrow> OutHandle | OutCopyHandle \<Rightarrow> OutHandle
      | OutDataArg _ \<Rightarrow> OutData | InDataArg _ \<Rightarrow> InData)"

text \<open>The filters of a parameter list.\<close>

definition of_type :: "ArgumentType \<Rightarrow> arg list \<Rightarrow> arg list" where
  "of_type t args = filter (\<lambda>a. GetArgumentType a = t) args"

definition InDatas :: "arg list \<Rightarrow> data_type list" where
  "InDatas args = concat (map (\<lambda>a. case a of InDataArg t \<Rightarrow> [t] | _ \<Rightarrow> []) args)"

definition OutDatas :: "arg list \<Rightarrow> data_type list" where
  "OutDatas args = concat (map (\<lambda>a. case a of OutDataArg t \<Rightarrow> [t] | _ \<Rightarrow> []) args)"

definition Buffers :: "arg list \<Rightarrow> buffer_class list" where
  "Buffers args = concat (map (\<lambda>a. case a of BufferArg b \<Rightarrow> [b] | _ \<Rightarrow> []) args)"

definition InProcessIdHolders :: "arg list \<Rightarrow> data_type list" where
  "InProcessIdHolders args = filter IsProcessIdHolder (InDatas args)"

definition HasInProcessIdHolder :: "arg list \<Rightarrow> bool" where
  "HasInProcessIdHolder args \<longleftrightarrow> 1 \<le> length (InProcessIdHolders args)"

section \<open>Offsets of raw data\<close>

text \<open>
  The insertion sort of \<open>RawDataOffsetCalculator\<close>: it permutes the indices \<open>map\<close> by the
  values they point to. \<open>sink\<close> is the inner loop, from \<open>j\<close> down.
\<close>

fun sink :: "nat list \<Rightarrow> nat \<Rightarrow> nat list \<Rightarrow> nat list" where
  "sink values 0 m = m"
| "sink values (Suc j) m =
     (if values ! (m ! j) > values ! (m ! Suc j)
      then sink values j (m[Suc j := m ! j, j := m ! Suc j]) else m)"

definition StableSort :: "nat list \<Rightarrow> nat list \<Rightarrow> nat list" where
  "StableSort m values = fold (sink values) [1..<length values] m"

text \<open>\<open>place\<close> is the loop over the sorted indices; the last entry of the result is the total.\<close>

fun place :: "nat list \<Rightarrow> nat list \<Rightarrow> nat list \<Rightarrow> nat \<Rightarrow> nat list \<Rightarrow> nat \<times> nat list" where
  "place sizes aligns [] cur_offset offsets = (cur_offset, offsets)"
| "place sizes aligns (i # m) cur_offset offsets =
     (let cur_offset = align_up cur_offset (aligns ! i);
          offsets = offsets[i := cur_offset]
      in place sizes aligns m (cur_offset + sizes ! i) offsets)"

definition Offsets :: "data_type list \<Rightarrow> nat list" where
  "Offsets ts =
     (let n = length ts; offsets = replicate (n + 1) 0 in
      if n > 0 then
        let sizes = map size_of ts; aligns = map align_of ts;
            m = StableSort [0..<n] aligns;
            (cur_offset, offsets) = place sizes aligns m 0 offsets
        in offsets[n := cur_offset]
      else offsets)"

definition InDataOffsets :: "arg list \<Rightarrow> nat list" where
  "InDataOffsets args = Offsets (InDatas args)"

definition InDataSize :: "arg list \<Rightarrow> nat" where
  "InDataSize args = align_up (InDataOffsets args ! length (InDatas args)) 2"

definition OutDataOffsets :: "arg list \<Rightarrow> nat list" where
  "OutDataOffsets args = Offsets (OutDatas args)"

definition OutDataSize :: "arg list \<Rightarrow> nat" where
  "OutDataSize args = align_up (OutDataOffsets args ! length (OutDatas args)) 4"

section \<open>The sort is stable\<close>

lemma length_sink [simp]: "length (sink values j m) = length m"
  by (induction j arbitrary: m) auto

lemma sink_split:
  "j < length m \<Longrightarrow> sorted (map ((!) values) (take j m)) \<Longrightarrow>
   sink values j m = filter (\<lambda>i. values ! i \<le> values ! (m ! j)) (take j m) @ m ! j #
     filter (\<lambda>i. \<not> values ! i \<le> values ! (m ! j)) (take j m) @ drop (Suc j) m"
proof (induction j arbitrary: m)
  case 0
  then show ?case by (simp add: Cons_nth_drop_Suc)
next
  case (Suc j)
  have t: "take (Suc j) m = take j m @ [m ! j]" using Suc.prems(1) by (simp add: take_Suc_conv_app_nth)
  have s: "sorted (map ((!) values) (take j m))" "\<forall>i \<in> set (take j m). values ! i \<le> values ! (m ! j)"
    using Suc.prems(2) unfolding t by (auto simp: sorted_append)
  show ?case
  proof (cases "values ! (m ! j) > values ! (m ! Suc j)")
    case True
    let ?m = "m[Suc j := m ! j, j := m ! Suc j]"
    have m: "j < length ?m" "take j ?m = take j m" "?m ! j = m ! Suc j"
      "drop (Suc j) ?m = m ! j # drop (Suc (Suc j)) m"
      using Suc.prems(1) by (simp_all add: drop_update_swap Cons_nth_drop_Suc [symmetric])
    show ?thesis using Suc.IH [OF m(1)] s(1) True unfolding m t by simp
  next
    case False
    then have le: "\<forall>i \<in> set (take j m). values ! i \<le> values ! (m ! Suc j)"
      using s(2) by force
    then show ?thesis
      using False Suc.prems(1) unfolding t
      by (simp add: Cons_nth_drop_Suc)
  qed
qed

lemma sink_stable:
  assumes "j < length m" and "sorted (map ((!) values) (take j m))"
  shows "mset (sink values j m) = mset m"
    and "filter (\<lambda>i. values ! i = k) (sink values j m) = filter (\<lambda>i. values ! i = k) m"
    and "sorted (map ((!) values) (take (Suc j) (sink values j m)))"
    and "drop (Suc j) (sink values j m) = drop (Suc j) m"
proof -
  let ?x = "m ! j" and ?xs = "take j m"
  let ?le = "\<lambda>i. values ! i \<le> values ! ?x"
  have m: "m = ?xs @ ?x # drop (Suc j) m" using assms(1) by (simp add: id_take_nth_drop)
  note S = sink_split [OF assms]
  show "mset (sink values j m) = mset m"
    unfolding S by (subst (3) m) (simp add: mset_filter)
  show "filter (\<lambda>i. values ! i = k) (sink values j m) = filter (\<lambda>i. values ! i = k) m"
  proof -
    have fm: "filter (\<lambda>i. values ! i = k) m = filter (\<lambda>i. values ! i = k) ?xs @
        (if values ! ?x = k then [?x] else []) @ filter (\<lambda>i. values ! i = k) (drop (Suc j) m)"
      using arg_cong [OF m, of "filter (\<lambda>i. values ! i = k)"] by simp
    show ?thesis
  proof (cases "k \<le> values ! ?x")
    case True
    then have "filter (\<lambda>i. values ! i = k) (filter ?le ?xs) = filter (\<lambda>i. values ! i = k) ?xs"
      "filter (\<lambda>i. values ! i = k) (filter (\<lambda>i. \<not> ?le i) ?xs) = []"
      by (auto simp: filter_empty_conv intro!: filter_cong)
    then show ?thesis unfolding S fm by auto
  next
    case False
    then have "filter (\<lambda>i. values ! i = k) (filter ?le ?xs) = []"
      "filter (\<lambda>i. values ! i = k) (filter (\<lambda>i. \<not> ?le i) ?xs) = filter (\<lambda>i. values ! i = k) ?xs"
      by (auto simp: filter_empty_conv intro!: filter_cong)
    then show ?thesis using False unfolding S fm by auto
  qed
  qed
  define new where "new = filter ?le ?xs @ ?x # filter (\<lambda>i. \<not> ?le i) ?xs"
  have len: "length new = Suc j"
    using assms(1) sum_length_filter_compl [of ?le ?xs] by (simp add: new_def)
  have parts: "sink values j m = new @ drop (Suc j) m" using S by (simp add: new_def)
  have "sorted (map ((!) values) new)"
    using assms(2) by (auto simp: new_def sorted_append sorted_filter)
  then show "sorted (map ((!) values) (take (Suc j) (sink values j m)))"
    unfolding parts using len by simp
  show "drop (Suc j) (sink values j m) = drop (Suc j) m" unfolding parts using len by simp
qed

lemma fold_sink:
  "i \<le> length m \<Longrightarrow> 0 < i \<Longrightarrow>
   mset (fold (sink values) [1..<i] m) = mset m \<and>
   (\<forall>k. filter (\<lambda>i. values ! i = k) (fold (sink values) [1..<i] m) = filter (\<lambda>i. values ! i = k) m) \<and>
   sorted (map ((!) values) (take i (fold (sink values) [1..<i] m)))"
proof (induction i)
  case 0
  then show ?case by simp
next
  case (Suc i)
  show ?case
  proof (cases "i = 0")
    case True
    then show ?thesis by (cases m) simp_all
  next
    case False
    let ?m = "fold (sink values) [1..<i] m"
    have IH: "mset ?m = mset m" "\<forall>k. filter (\<lambda>i. values ! i = k) ?m = filter (\<lambda>i. values ! i = k) m"
      "sorted (map ((!) values) (take i ?m))"
      using Suc False by simp_all
    have "length ?m = length m" using mset_eq_length [OF IH(1)] .
    then have "i < length ?m" using Suc.prems(1) by simp
    note S = sink_stable [OF this IH(3)]
    have "fold (sink values) [1..<Suc i] m = sink values i ?m" using False by simp
    then show ?thesis using S IH by simp
  qed
qed

theorem StableSort_sort_key:
  "length values = length m \<Longrightarrow> StableSort m values = sort_key ((!) values) m"
proof (cases "m = []")
  case False
  assume l: "length values = length m"
  have "length values \<le> length m" "0 < length values" using l False by simp_all
  note S = fold_sink [OF this, of "values"]
  have len: "length (fold (sink values) [1..<length values] m) = length m"
    using S mset_eq_length by blast
  show ?thesis
    unfolding StableSort_def
  proof (rule properties_for_sort_key [symmetric])
    fix k
    show "filter (\<lambda>x. values ! k = values ! x) (fold (sink values) [1..<length values] m) =
        filter (\<lambda>x. values ! k = values ! x) m"
      using S by (simp add: eq_commute [of "values ! k"])
  qed (use S len l in auto)
qed (simp add: StableSort_def)

section \<open>The layout\<close>

text \<open>
  What a layout of raw data promises: every value at a multiple of its alignment, inside the total
  size, and no two values in the same bytes.
\<close>

definition layout_ok :: "data_type list \<Rightarrow> nat list \<Rightarrow> bool" where
  "layout_ok ts offs \<longleftrightarrow>
     length offs = length ts + 1 \<and>
     (\<forall>i < length ts. align_of (ts ! i) dvd offs ! i) \<and>
     (\<forall>i < length ts. offs ! i + size_of (ts ! i) \<le> offs ! length ts) \<and>
     (\<forall>i < length ts. \<forall>j < length ts. i \<noteq> j \<longrightarrow>
        offs ! i + size_of (ts ! i) \<le> offs ! j \<or> offs ! j + size_of (ts ! j) \<le> offs ! i)"

lemma place_length: "length (snd (place sizes aligns m cur offs)) = length offs"
  by (induction sizes aligns m cur offs rule: place.induct) (auto simp: Let_def)

lemma place_other: "i \<notin> set m \<Longrightarrow> snd (place sizes aligns m cur offs) ! i = offs ! i"
  by (induction sizes aligns m cur offs rule: place.induct) (auto simp: Let_def)

lemma place_conj:
  "distinct m \<Longrightarrow> \<forall>i \<in> set m. i < length offs \<and> 0 < aligns ! i \<Longrightarrow>
   place sizes aligns m cur offs = (c, os) \<Longrightarrow>
   cur \<le> c \<and>
   (\<forall>i \<in> set m. aligns ! i dvd os ! i \<and> cur \<le> os ! i \<and> os ! i + sizes ! i \<le> c) \<and>
   (\<forall>i \<in> set m. \<forall>j \<in> set m. i \<noteq> j \<longrightarrow> os ! i + sizes ! i \<le> os ! j \<or> os ! j + sizes ! j \<le> os ! i)"
proof (induction m arbitrary: cur offs)
  case Nil
  then show ?case by simp
next
  case (Cons i m)
  let ?c = "align_up cur (aligns ! i)"
  have p: "place sizes aligns m (?c + sizes ! i) (offs[i := ?c]) = (c, os)"
    using Cons.prems(3) by (simp add: Let_def)
  have IH: "?c + sizes ! i \<le> c \<and>
      (\<forall>j \<in> set m. aligns ! j dvd os ! j \<and> ?c + sizes ! i \<le> os ! j \<and> os ! j + sizes ! j \<le> c) \<and>
      (\<forall>j \<in> set m. \<forall>k \<in> set m. j \<noteq> k \<longrightarrow> os ! j + sizes ! j \<le> os ! k \<or> os ! k + sizes ! k \<le> os ! j)"
    using Cons.prems(1,2) by (intro Cons.IH [OF _ _ p]) auto
  have c: "cur \<le> ?c" using Cons.prems(2) by (simp add: align_up_ge)
  have own: "os ! i = ?c"
    using place_other [of i m sizes aligns "?c + sizes ! i" "offs[i := ?c]"] Cons.prems(1,2) p by simp
  show ?case using IH c own by auto
qed

lemma StableSort_upt:
  "length vs = n \<Longrightarrow> set (StableSort [0..<n] vs) = {0..<n} \<and> distinct (StableSort [0..<n] vs)"
  by (simp add: StableSort_sort_key)

lemma Offsets_ok:
  assumes "\<forall>t \<in> set ts. 0 < align_of t"
  shows "layout_ok ts (Offsets ts)"
proof (cases "ts = []")
  case True
  then show ?thesis by (simp add: layout_ok_def Offsets_def)
next
  case False
  define n where "n = length ts"
  define m where "m = StableSort [0..<n] (map align_of ts)"
  obtain c os where r: "place (map size_of ts) (map align_of ts) m 0 (replicate (n + 1) 0) = (c, os)"
    by (metis surj_pair)
  have m: "set m = {0..<n}" "distinct m"
    using StableSort_upt [of "map align_of ts" n] by (simp_all add: m_def n_def)
  have "\<forall>i \<in> set m. i < length (replicate (n + 1) (0 :: nat)) \<and> 0 < map align_of ts ! i"
    using assms m by (simp add: n_def)
  note P = place_conj [OF m(2) this r]
  have o: "Offsets ts = os[n := c]"
    unfolding Offsets_def Let_def n_def [symmetric] m_def [symmetric] r
    using False by (simp add: n_def)
  have len: "length os = n + 1"
    using place_length [of "map size_of ts" "map align_of ts" m 0 "replicate (n + 1) 0"] r by simp
  show ?thesis
    unfolding layout_ok_def o n_def [symmetric]
    using P len m(1) by (auto simp: n_def)
qed

end
