(* ===== verification/Serialization.thy ===== *)
theory Serialization
  imports Layout Dispatch
begin

text \<open>
  How the framework takes a command's arguments from a request and puts its answer into the reply
  (\<open>sf/impl/sf_impl_command_serialization.hpp\<close>): the check of the request against the parameter
  list, buffers, raw data, process identifiers, the call, the reply.

  \<open>libnx\<close> parses the request (\<open>hipcParseRequest\<close>); the records below are its structures.
\<close>

section \<open>Requests\<close>

datatype HipcBufferMode = HipcBufferMode_Normal | HipcBufferMode_NonSecure
  | HipcBufferMode_Invalid | HipcBufferMode_NonDevice

record HipcBufferDescriptor =
  buffer_address :: u64
  buffer_size :: u64
  buffer_mode :: HipcBufferMode

record HipcStaticDescriptor =
  static_address :: u64
  static_size :: u64

record HipcMetadata =
  send_pid :: bool
  num_send_statics :: nat
  num_recv_statics :: nat
  num_send_buffers :: nat
  num_recv_buffers :: nat
  num_exch_buffers :: nat
  num_data_words :: nat
  num_copy_handles :: nat
  num_move_handles :: nat

text \<open>\<open>data_words\<close> are the bytes from the data words on, \<open>data_address\<close> their address.\<close>

record HipcRequest =
  hipc_meta :: HipcMetadata
  hipc_pid :: u64
  send_statics :: "HipcStaticDescriptor list"
  send_buffers :: "HipcBufferDescriptor list"
  recv_buffers :: "HipcBufferDescriptor list"
  data_address :: u64
  data_words :: "u8 list"
  copy_handles :: "u32 list"
  move_handles :: "u32 list"

text \<open>What \<open>hipcParseRequest\<close> returns: as many descriptors and handles as the header counts.\<close>

definition parsed :: "HipcRequest \<Rightarrow> bool" where
  "parsed r \<longleftrightarrow>
     length (send_statics r) = num_send_statics (hipc_meta r) \<and>
     length (send_buffers r) = num_send_buffers (hipc_meta r) \<and>
     length (recv_buffers r) = num_recv_buffers (hipc_meta r) \<and>
     length (copy_handles r) = num_copy_handles (hipc_meta r) \<and>
     length (move_handles r) = num_move_handles (hipc_meta r) \<and>
     4 * num_data_words (hipc_meta r) \<le> length (data_words r)"

section \<open>Results\<close>

definition sf_ResultNotSupported :: result where "sf_ResultNotSupported = MakeValue 10 1"
definition sf_ResultPreconditionViolation :: result where "sf_ResultPreconditionViolation = MakeValue 10 3"
definition sf_ResultInvalidOutRawSize :: result where "sf_ResultInvalidOutRawSize = MakeValue 10 232"
definition hipc_ResultInvalidCmifRequest :: result where "hipc_ResultInvalidCmifRequest = MakeValue 11 420"
definition hipc_ResultPointerBufferTooSmall :: result where "hipc_ResultPointerBufferTooSmall = MakeValue 11 141"

section \<open>Counts\<close>

definition InHipcMapAliasBufferPredicate :: "SfBufferAttr set \<Rightarrow> bool" where
  "InHipcMapAliasBufferPredicate a \<longleftrightarrow>
     Attr_In \<in> a \<and> Attr_Out \<notin> a \<and> (Attr_HipcMapAlias \<in> a \<or> Attr_HipcAutoSelect \<in> a)"

definition OutHipcMapAliasBufferPredicate :: "SfBufferAttr set \<Rightarrow> bool" where
  "OutHipcMapAliasBufferPredicate a \<longleftrightarrow>
     Attr_In \<notin> a \<and> Attr_Out \<in> a \<and> (Attr_HipcMapAlias \<in> a \<or> Attr_HipcAutoSelect \<in> a)"

definition InHipcPointerBufferPredicate :: "SfBufferAttr set \<Rightarrow> bool" where
  "InHipcPointerBufferPredicate a \<longleftrightarrow>
     Attr_In \<in> a \<and> Attr_Out \<notin> a \<and> (Attr_HipcPointer \<in> a \<or> Attr_HipcAutoSelect \<in> a)"

definition OutHipcPointerBufferPredicate :: "SfBufferAttr set \<Rightarrow> bool" where
  "OutHipcPointerBufferPredicate a \<longleftrightarrow>
     Attr_In \<notin> a \<and> Attr_Out \<in> a \<and> (Attr_HipcPointer \<in> a \<or> Attr_HipcAutoSelect \<in> a)"

definition FixedSizeOutHipcPointerBufferPredicate :: "SfBufferAttr set \<Rightarrow> bool" where
  "FixedSizeOutHipcPointerBufferPredicate a \<longleftrightarrow> OutHipcPointerBufferPredicate a \<and> Attr_FixedSize \<in> a"

definition GetCount :: "(SfBufferAttr set \<Rightarrow> bool) \<Rightarrow> arg list \<Rightarrow> nat" where
  "GetCount P args = length (filter P (map BufferAttributes (Buffers args)))"

definition NumUnfixedSizeOutHipcPointerBuffers :: "arg list \<Rightarrow> nat" where
  "NumUnfixedSizeOutHipcPointerBuffers args =
     GetCount OutHipcPointerBufferPredicate args - GetCount FixedSizeOutHipcPointerBufferPredicate args"

text \<open>The assertions on a command at compile time.\<close>

definition command_asserts :: "arg list \<Rightarrow> bool" where
  "command_asserts args \<longleftrightarrow>
     length (of_type Buffer args) \<le> 8 \<and> length (of_type InHandle args) \<le> 8 \<and>
     length (of_type OutHandle args) + length (of_type OutObject args) \<le> 8 \<and>
     length args \<le> 32"

record RuntimeMetadata =
  in_data_size :: nat
  out_data_size :: nat
  in_headers_size :: nat
  out_headers_size :: nat
  in_object_count :: nat
  out_object_count :: nat

definition CommandRuntimeMetadata :: "nat \<Rightarrow> nat \<Rightarrow> arg list \<Rightarrow> RuntimeMetadata" where
  "CommandRuntimeMetadata in_header out_header args =
     \<lparr>in_data_size = InDataSize args, out_data_size = OutDataSize args,
      in_headers_size = in_header, out_headers_size = out_header,
      in_object_count = length (of_type InObject args),
      out_object_count = length (of_type OutObject args)\<rparr>"

definition GetUnfixedOutPointerSizeOffset :: "RuntimeMetadata \<Rightarrow> nat" where
  "GetUnfixedOutPointerSizeOffset m = in_data_size m + in_headers_size m + 0x10"

section \<open>Indices\<close>

record ArgumentSerializationInfo =
  arg_type :: ArgumentType
  in_raw_data_index :: nat
  out_raw_data_index :: nat
  buffer_index :: nat
  send_map_alias_index :: nat
  recv_map_alias_index :: nat
  send_pointer_index :: nat
  recv_pointer_index :: nat
  unfixed_recv_pointer_index :: nat
  fixed_size :: nat
  in_move_handle_index :: nat
  in_copy_handle_index :: nat
  out_move_handle_index :: nat
  out_copy_handle_index :: nat
  in_object_index :: nat
  out_object_index :: nat

definition initial_info :: ArgumentSerializationInfo where
  "initial_info = \<lparr>arg_type = InData, in_raw_data_index = 0, out_raw_data_index = 0, buffer_index = 0,
     send_map_alias_index = 0, recv_map_alias_index = 0, send_pointer_index = 0,
     recv_pointer_index = 0, unfixed_recv_pointer_index = 0, fixed_size = 0,
     in_move_handle_index = 0, in_copy_handle_index = 0, out_move_handle_index = 0,
     out_copy_handle_index = 0, in_object_index = 0, out_object_index = 0\<rparr>"

text \<open>The buffer part of \<open>ProcessUpdate\<close>, and the whole: the info of an argument, and the next.\<close>

definition UpdateBuffer ::
  "buffer_class \<Rightarrow> ArgumentSerializationInfo \<Rightarrow> ArgumentSerializationInfo \<Rightarrow>
     ArgumentSerializationInfo \<times> ArgumentSerializationInfo" where
  "UpdateBuffer b returned current =
     (let attributes = BufferAttributes b;
          current = current\<lparr>buffer_index := buffer_index current + 1\<rparr>;
          sized = (\<lambda>returned current.
            if Attr_FixedSize \<notin> attributes
            then (returned, current\<lparr>unfixed_recv_pointer_index := unfixed_recv_pointer_index current + 1\<rparr>)
            else (returned\<lparr>fixed_size := LargeDataSize b\<rparr>, current))
      in if Attr_HipcMapAlias \<in> attributes then
           if Attr_In \<in> attributes
           then (returned, current\<lparr>send_map_alias_index := send_map_alias_index current + 1\<rparr>)
           else if Attr_Out \<in> attributes
           then (returned, current\<lparr>recv_map_alias_index := recv_map_alias_index current + 1\<rparr>)
           else (returned, current)
         else if Attr_HipcPointer \<in> attributes then
           if Attr_In \<in> attributes
           then (returned, current\<lparr>send_pointer_index := send_pointer_index current + 1\<rparr>)
           else if Attr_Out \<in> attributes
           then sized returned (current\<lparr>recv_pointer_index := recv_pointer_index current + 1\<rparr>)
           else (returned, current)
         else if Attr_HipcAutoSelect \<in> attributes then
           if Attr_In \<in> attributes
           then (returned, current\<lparr>send_map_alias_index := send_map_alias_index current + 1,
                                   send_pointer_index := send_pointer_index current + 1\<rparr>)
           else if Attr_Out \<in> attributes
           then sized returned (current\<lparr>recv_map_alias_index := recv_map_alias_index current + 1,
                                        recv_pointer_index := recv_pointer_index current + 1\<rparr>)
           else (returned, current)
         else (returned, current))"

definition ProcessUpdate ::
  "arg \<Rightarrow> ArgumentSerializationInfo \<Rightarrow> ArgumentSerializationInfo \<times> ArgumentSerializationInfo" where
  "ProcessUpdate a current =
     (let returned = current\<lparr>fixed_size := 0\<rparr>;
          current = current\<lparr>fixed_size := 0\<rparr>;
          returned = returned\<lparr>arg_type := GetArgumentType a\<rparr>
      in case a of
        InDataArg _ \<Rightarrow> (returned, current\<lparr>in_raw_data_index := in_raw_data_index current + 1\<rparr>)
      | OutDataArg _ \<Rightarrow> (returned, current\<lparr>out_raw_data_index := out_raw_data_index current + 1\<rparr>)
      | InMoveHandle \<Rightarrow> (returned, current\<lparr>in_move_handle_index := in_move_handle_index current + 1\<rparr>)
      | InCopyHandle \<Rightarrow> (returned, current\<lparr>in_copy_handle_index := in_copy_handle_index current + 1\<rparr>)
      | OutMoveHandle \<Rightarrow> (returned, current\<lparr>out_move_handle_index := out_move_handle_index current + 1\<rparr>)
      | OutCopyHandle \<Rightarrow> (returned, current\<lparr>out_copy_handle_index := out_copy_handle_index current + 1\<rparr>)
      | InObjectArg \<Rightarrow> (returned, current\<lparr>in_object_index := in_object_index current + 1\<rparr>)
      | OutObjectArg \<Rightarrow> (returned, current\<lparr>out_object_index := out_object_index current + 1\<rparr>)
      | BufferArg b \<Rightarrow> UpdateBuffer b returned current)"

fun infos_from :: "ArgumentSerializationInfo \<Rightarrow> arg list \<Rightarrow> ArgumentSerializationInfo list" where
  "infos_from current [] = []"
| "infos_from current (a # args) =
     (let (info, current) = ProcessUpdate a current in info # infos_from current args)"

definition ArgumentSerializationInfos :: "arg list \<Rightarrow> ArgumentSerializationInfo list" where
  "ArgumentSerializationInfos args = infos_from initial_info args"

section \<open>Checking a request\<close>

definition PrepareForProcess :: "HipcRequest \<Rightarrow> arg list \<Rightarrow> RuntimeMetadata \<Rightarrow> result" where
  "PrepareForProcess r args m =
     (let meta = hipc_meta r;
          is_request_valid =
            (send_pid meta = HasInProcessIdHolder args \<and>
             num_send_statics meta = GetCount InHipcPointerBufferPredicate args \<and>
             num_send_buffers meta = GetCount InHipcMapAliasBufferPredicate args \<and>
             num_recv_buffers meta = GetCount OutHipcMapAliasBufferPredicate args \<and>
             num_exch_buffers meta = 0 \<and>
             num_copy_handles meta = length (filter ((=) InCopyHandle) args) \<and>
             num_move_handles meta = length (filter ((=) InMoveHandle) args));
          meta_raw_size = num_data_words meta * 4;
          command_raw_size =
            align_up (GetUnfixedOutPointerSizeOffset m + NumUnfixedSizeOutHipcPointerBuffers args * 2) 4
      in if is_request_valid \<and> command_raw_size \<le> meta_raw_size then ResultSuccess
         else hipc_ResultInvalidCmifRequest)"

section \<open>Buffers\<close>

definition entry_at :: "'a list \<Rightarrow> nat \<Rightarrow> 'a run" where
  "entry_at xs i = (if i < length xs then Inr (xs ! i) else Inl OutOfBounds)"

lemma entry_at_in [simp]: "i < length xs \<Longrightarrow> entry_at xs i = Inr (xs ! i)"
  by (simp add: entry_at_def)

definition IsMapTransferModeValid :: "SfBufferAttr set \<Rightarrow> HipcBufferMode \<Rightarrow> bool" where
  "IsMapTransferModeValid attributes m \<longleftrightarrow>
     (if Attr_HipcMapTransferAllowsNonSecure \<in> attributes then m = HipcBufferMode_NonSecure
      else if Attr_HipcMapTransferAllowsNonDevice \<in> attributes then m = HipcBufferMode_NonDevice
      else m = HipcBufferMode_Normal)"

text \<open>
  A buffer as the command sees it, and what the processing of buffers carries along: whether the
  modes of the mapped ones were right, and the free part of the pointer buffer (input ends at
  \<open>pointer_tail\<close>, output is taken from \<open>pointer_head\<close> down).
\<close>

record PointerAndSize =
  pas_address :: u64
  pas_size :: u64

record buffer_progress =
  map_alias_buffers_valid :: bool
  pointer_head :: u64
  pointer_tail :: u64

type_synonym processed = "(PointerAndSize \<times> bool \<times> buffer_progress) run"

definition take_mapped :: "SfBufferAttr set \<Rightarrow> HipcBufferDescriptor \<Rightarrow> buffer_progress \<Rightarrow> processed" where
  "take_mapped attributes d p =
     Inr (\<lparr>pas_address = buffer_address d, pas_size = buffer_size d\<rparr>, True,
          if IsMapTransferModeValid attributes (buffer_mode d) then p
          else p\<lparr>map_alias_buffers_valid := False\<rparr>)"

definition take_sent :: "HipcStaticDescriptor \<Rightarrow> buffer_progress \<Rightarrow> processed" where
  "take_sent d p =
     Inr (\<lparr>pas_address = static_address d, pas_size = static_size d\<rparr>, False,
          if static_size d \<noteq> 0
          then p\<lparr>pointer_tail := max (pointer_tail p) (static_address d + static_size d)\<rparr> else p)"

definition take_pointer :: "u64 \<Rightarrow> buffer_progress \<Rightarrow> processed" where
  "take_pointer n p =
     (let head = AlignDown (pointer_head p - n) 0x10
      in Inr (\<lparr>pas_address = head, pas_size = n\<rparr>, False, p\<lparr>pointer_head := head\<rparr>))"

definition receive_pointer ::
  "HipcRequest \<Rightarrow> RuntimeMetadata \<Rightarrow> SfBufferAttr set \<Rightarrow> ArgumentSerializationInfo \<Rightarrow> buffer_progress \<Rightarrow>
     processed" where
  "receive_pointer r m attributes info p =
     (if Attr_FixedSize \<in> attributes then take_pointer (of_nat (fixed_size info)) p
      else then_run (bytes_at (data_words r)
             (GetUnfixedOutPointerSizeOffset m + 2 * unfixed_recv_pointer_index info) 2) (\<lambda>b.
           take_pointer (le_word b) p))"

text \<open>The last branches are static assertions: no class of buffer reaches them.\<close>

definition ProcessBufferImpl ::
  "HipcRequest \<Rightarrow> RuntimeMetadata \<Rightarrow> SfBufferAttr set \<Rightarrow> ArgumentSerializationInfo \<Rightarrow> buffer_progress \<Rightarrow>
     processed" where
  "ProcessBufferImpl r m attributes info p =
     (if Attr_HipcMapAlias \<in> attributes then
        if Attr_In \<in> attributes
        then then_run (entry_at (send_buffers r) (send_map_alias_index info)) (\<lambda>d. take_mapped attributes d p)
        else if Attr_Out \<in> attributes
        then then_run (entry_at (recv_buffers r) (recv_map_alias_index info)) (\<lambda>d. take_mapped attributes d p)
        else Inl Abort
      else if Attr_HipcPointer \<in> attributes then
        if Attr_In \<in> attributes
        then then_run (entry_at (send_statics r) (send_pointer_index info)) (\<lambda>d. take_sent d p)
        else if Attr_Out \<in> attributes then receive_pointer r m attributes info p
        else Inl Abort
      else if Attr_HipcAutoSelect \<in> attributes then
        if Attr_In \<in> attributes
        then then_run (entry_at (send_buffers r) (send_map_alias_index info)) (\<lambda>map_desc.
             then_run (entry_at (send_statics r) (send_pointer_index info)) (\<lambda>ptr_desc.
               if buffer_address map_desc \<noteq> 0 then take_mapped attributes map_desc p
               else take_sent ptr_desc p))
        else if Attr_Out \<in> attributes
        then then_run (entry_at (recv_buffers r) (recv_map_alias_index info)) (\<lambda>map_desc.
               if buffer_address map_desc \<noteq> 0 then take_mapped attributes map_desc p
               else receive_pointer r m attributes info p)
        else Inl Abort
      else Inl Abort)"

text \<open>The parameters that are buffers, with their infos, in order.\<close>

definition buffer_infos :: "arg list \<Rightarrow> (buffer_class \<times> ArgumentSerializationInfo) list" where
  "buffer_infos args =
     concat (map (\<lambda>(a, info). case a of BufferArg b \<Rightarrow> [(b, info)] | _ \<Rightarrow> [])
       (zip args (ArgumentSerializationInfos args)))"

fun process_buffers ::
  "HipcRequest \<Rightarrow> RuntimeMetadata \<Rightarrow> (buffer_class \<times> ArgumentSerializationInfo) list \<Rightarrow> buffer_progress \<Rightarrow>
     ((PointerAndSize \<times> bool) list \<times> buffer_progress) run" where
  "process_buffers r m [] p = Inr ([], p)"
| "process_buffers r m ((b, info) # bs) p =
     then_run (ProcessBufferImpl r m (BufferAttributes b) info p) (\<lambda>(pas, is_map_alias, p).
     then_run (process_buffers r m bs p) (\<lambda>(rest, p). Inr ((pas, is_map_alias) # rest, p)))"

definition ProcessBuffers ::
  "HipcRequest \<Rightarrow> RuntimeMetadata \<Rightarrow> PointerAndSize \<Rightarrow> arg list \<Rightarrow>
     (result \<times> (PointerAndSize \<times> bool) list) run" where
  "ProcessBuffers r m pointer_buffer args =
     then_run (process_buffers r m (buffer_infos args)
         \<lparr>map_alias_buffers_valid = True,
          pointer_head = pas_address pointer_buffer + pas_size pointer_buffer,
          pointer_tail = pas_address pointer_buffer\<rparr>) (\<lambda>(buffers, p).
       if \<not> map_alias_buffers_valid p then Inr (hipc_ResultInvalidCmifRequest, buffers)
       else if GetCount OutHipcPointerBufferPredicate args > 0 \<and> \<not> pointer_tail p \<le> pointer_head p
       then Inr (hipc_ResultPointerBufferTooSmall, buffers)
       else Inr (ResultSuccess, buffers))"

section \<open>Arguments\<close>

text \<open>
  What a parameter is bound to: bytes of the raw data, a flag, a place in the raw data of the reply,
  a handle, a place for a handle or an object, a buffer. Large data are read or written at the
  address of their buffer, whatever its size.
\<close>

datatype arg_value =
    InValue "u8 list" | InBool bool | OutPlace nat nat
  | BufferValue PointerAndSize | LargeIn u64 nat | LargeOut u64 nat
  | HandleValue u32 | OutMovePlace nat | OutCopyPlace nat
  | InObjectValue nat | OutObjectPlace nat

definition DeserializeArgumentImpl ::
  "HipcRequest \<Rightarrow> u8 list \<Rightarrow> arg list \<Rightarrow> (PointerAndSize \<times> bool) list \<Rightarrow> arg \<Rightarrow>
     ArgumentSerializationInfo \<Rightarrow> arg_value run" where
  "DeserializeArgumentImpl r in_raw_data args buffers a info =
     (case a of
        InDataArg t \<Rightarrow>
          (let offset = InDataOffsets args ! in_raw_data_index info in
           if t \<noteq> BoolData
           then then_run (bytes_at in_raw_data offset (size_of t)) (\<lambda>b. Inr (InValue b))
           else then_run (byte_at in_raw_data offset) (\<lambda>b. Inr (InBool (b AND 1 \<noteq> 0))))
      | OutDataArg t \<Rightarrow> Inr (OutPlace (OutDataOffsets args ! out_raw_data_index info) (size_of t))
      | InMoveHandle \<Rightarrow>
          then_run (entry_at (move_handles r) (in_move_handle_index info)) (\<lambda>h. Inr (HandleValue h))
      | InCopyHandle \<Rightarrow>
          then_run (entry_at (copy_handles r) (in_copy_handle_index info)) (\<lambda>h. Inr (HandleValue h))
      | OutMoveHandle \<Rightarrow> Inr (OutMovePlace (out_move_handle_index info))
      | OutCopyHandle \<Rightarrow> Inr (OutCopyPlace (out_copy_handle_index info))
      | InObjectArg \<Rightarrow> Inr (InObjectValue (in_object_index info))
      | OutObjectArg \<Rightarrow> Inr (OutObjectPlace (out_object_index info))
      | BufferArg b \<Rightarrow>
          then_run (entry_at buffers (buffer_index info)) (\<lambda>(pas, _).
            if IsLargeData b then
              if Attr_In \<in> BufferAttributes b then Inr (LargeIn (pas_address pas) (LargeDataSize b))
              else Inr (LargeOut (pas_address pas) (LargeDataSize b))
            else Inr (BufferValue pas)))"

fun map_run :: "('a \<Rightarrow> 'b run) \<Rightarrow> 'a list \<Rightarrow> 'b list run" where
  "map_run f [] = Inr []"
| "map_run f (x # xs) = then_run (f x) (\<lambda>y. then_run (map_run f xs) (\<lambda>ys. Inr (y # ys)))"

definition DeserializeArguments ::
  "HipcRequest \<Rightarrow> u8 list \<Rightarrow> arg list \<Rightarrow> (PointerAndSize \<times> bool) list \<Rightarrow> arg_value list run" where
  "DeserializeArguments r in_raw_data args buffers =
     map_run (\<lambda>(a, info). DeserializeArgumentImpl r in_raw_data args buffers a info)
       (zip args (ArgumentSerializationInfos args))"

text \<open>
  Process identifiers: \<open>ClientProcessId\<close> is overwritten with the client's; an applet resource
  user id must be the client's process id, or zero.
\<close>

definition MarshalProcessId :: "data_type \<Rightarrow> u64 \<Rightarrow> u8 list \<Rightarrow> result \<times> u8 list" where
  "MarshalProcessId t client_process_id v =
     (if t = ClientProcessId then (ResultSuccess, le_bytes 8 client_process_id)
      else if le_word v \<noteq> client_process_id \<and> (le_word v :: u64) \<noteq> 0
      then (sf_ResultPreconditionViolation, v)
      else (ResultSuccess, v))"

definition marshal_argument :: "u64 \<Rightarrow> arg \<Rightarrow> arg_value \<Rightarrow> result \<times> arg_value" where
  "marshal_argument pid a v =
     (case (a, v) of
        (InDataArg t, InValue b) \<Rightarrow>
          if IsProcessIdHolder t then (let (rc, b) = MarshalProcessId t pid b in (rc, InValue b))
          else (ResultSuccess, v)
      | _ \<Rightarrow> (ResultSuccess, v))"

fun marshal_process_ids :: "u64 \<Rightarrow> (arg \<times> arg_value) list \<Rightarrow> result \<times> arg_value list" where
  "marshal_process_ids pid [] = (ResultSuccess, [])"
| "marshal_process_ids pid ((a, v) # rest) =
     (let (rc, v) = marshal_argument pid a v in
      if R_FAILED rc then (rc, v # map snd rest)
      else (let (rc, vs) = marshal_process_ids pid rest in (rc, v # vs)))"

section \<open>Replies\<close>

text \<open>What is \<open>libnx\<close>'s or the kernel's: the sizes of the two headers and the handle that is none.\<close>

record sf_lib = cmif_lib +
  CMIF_OUT_HEADER_SIZE :: nat
  INVALID_HANDLE :: u32

text \<open>
  The reply \<open>hipcMakeRequestInline\<close> makes room for. It is made in the message buffer, whose old bytes
  are still there: what has not been written is \<open>None\<close>.
\<close>

record HipcResponse =
  rsp_num_data_words :: nat
  rsp_send_statics :: "(PointerAndSize \<times> nat) option list"
  rsp_copy_handles :: "u32 option list"
  rsp_move_handles :: "u32 option list"
  rsp_raw_data :: "u8 list option"

definition hipcMakeResponse :: "nat \<Rightarrow> nat \<Rightarrow> nat \<Rightarrow> nat \<Rightarrow> HipcResponse" where
  "hipcMakeResponse statics words copies moves =
     \<lparr>rsp_num_data_words = words, rsp_send_statics = replicate statics None,
      rsp_copy_handles = replicate copies None, rsp_move_handles = replicate moves None,
      rsp_raw_data = None\<rparr>"

text \<open>Both return the response and the size of its raw data.\<close>

definition PrepareForErrorReply :: "RuntimeMetadata \<Rightarrow> HipcResponse \<times> nat" where
  "PrepareForErrorReply m =
     (let raw_size = out_headers_size m
      in (hipcMakeResponse 0 ((align_up raw_size 4 + 0x10) div 4) 0 0, raw_size))"

definition PrepareForReply :: "arg list \<Rightarrow> RuntimeMetadata \<Rightarrow> HipcResponse \<times> nat" where
  "PrepareForReply args m =
     (let raw_size = out_data_size m + out_headers_size m
      in (hipcMakeResponse (GetCount OutHipcPointerBufferPredicate args)
            ((align_up raw_size 4 + 0x10) div 4)
            (length (filter ((=) OutCopyHandle) args))
            (length (filter ((=) OutMoveHandle) args) + out_object_count m), raw_size))"

text \<open>\<open>Inr\<close> is the size that is left after the header.\<close>

definition GetCmifOutHeaderPointer :: "sf_lib \<Rightarrow> nat \<Rightarrow> result + nat" where
  "GetCmifOutHeaderPointer l n =
     (if CMIF_OUT_HEADER_SIZE l \<le> n then Inr (n - CMIF_OUT_HEADER_SIZE l)
      else Inl sf_ResultInvalidHeaderSize)"

definition write_entry :: "'a list \<Rightarrow> nat \<Rightarrow> 'a \<Rightarrow> 'a list run" where
  "write_entry xs i x = (if i < length xs then Inr (xs[i := x]) else Inl OutOfBounds)"

lemma write_entry_in [simp]: "i < length xs \<Longrightarrow> write_entry xs i x = Inr (xs[i := x])"
  by (simp add: write_entry_def)

text \<open>
  What the method wrote through the pointers it was given: values of the raw data by offset, handles
  and objects by index. Raw data and handles start as zeros, objects as none.
\<close>

record 'o outputs =
  raw_writes :: "(nat \<times> u8 list) list"
  move_writes :: "(nat \<times> u32) list"
  copy_writes :: "(nat \<times> u32) list"
  object_writes :: "(nat \<times> 'o) list"

fun write_raw :: "(nat \<times> u8 list) list \<Rightarrow> u8 list \<Rightarrow> u8 list run" where
  "write_raw [] raw = Inr raw"
| "write_raw ((i, b) # ws) raw =
     (if i + length b \<le> length raw then write_raw ws (take i raw @ b @ drop (i + length b) raw)
      else Inl OutOfBounds)"

fun write_entries :: "(nat \<times> 'a) list \<Rightarrow> 'a list \<Rightarrow> 'a list run" where
  "write_entries [] xs = Inr xs"
| "write_entries ((i, x) # ws) xs = then_run (write_entry xs i x) (write_entries ws)"

definition SetOutBufferImpl ::
  "buffer_class \<Rightarrow> ArgumentSerializationInfo \<Rightarrow> PointerAndSize \<times> bool \<Rightarrow>
     (PointerAndSize \<times> nat) option list \<Rightarrow> (PointerAndSize \<times> nat) option list run" where
  "SetOutBufferImpl b info = (\<lambda>(pas, is_map_alias) statics.
     (let attributes = BufferAttributes b; i = recv_pointer_index info in
      if Attr_Out \<in> attributes then
        if Attr_HipcPointer \<in> attributes then write_entry statics i (Some (pas, i))
        else if Attr_HipcAutoSelect \<in> attributes then
          if \<not> is_map_alias then write_entry statics i (Some (pas, i))
          else write_entry statics i (Some (\<lparr>pas_address = 0, pas_size = 0\<rparr>, i))
        else Inr statics
      else Inr statics))"

fun set_out_buffers ::
  "((buffer_class \<times> ArgumentSerializationInfo) \<times> (PointerAndSize \<times> bool)) list \<Rightarrow>
     (PointerAndSize \<times> nat) option list \<Rightarrow> (PointerAndSize \<times> nat) option list run" where
  "set_out_buffers [] statics = Inr statics"
| "set_out_buffers (((b, info), buffer) # bs) statics =
     then_run (SetOutBufferImpl b info buffer statics) (set_out_buffers bs)"

definition SetOutBuffers ::
  "arg list \<Rightarrow> (PointerAndSize \<times> bool) list \<Rightarrow> HipcResponse \<Rightarrow> HipcResponse run" where
  "SetOutBuffers args buffers response =
     then_run (set_out_buffers (zip (buffer_infos args) buffers) (rsp_send_statics response))
       (\<lambda>statics. Inr (response\<lparr>rsp_send_statics := statics\<rparr>))"

text \<open>Handles follow the handles of the objects.\<close>

definition OutHandleHolder_CopyTo ::
  "u32 list \<Rightarrow> u32 list \<Rightarrow> nat \<Rightarrow> HipcResponse \<Rightarrow> HipcResponse run" where
  "OutHandleHolder_CopyTo moves copies num_out_object_handles response =
     then_run (write_entries (zip [0..<length copies] (map Some copies)) (rsp_copy_handles response)) (\<lambda>cs.
     then_run (write_entries (zip (map (\<lambda>n. n + num_out_object_handles) [0..<length moves]) (map Some moves))
                 (rsp_move_handles response)) (\<lambda>ms.
       Inr (response\<lparr>rsp_copy_handles := cs, rsp_move_handles := ms\<rparr>)))"

text \<open>
  Sessions for the objects a command returns. \<open>create_session\<close> is the kernel's and returns the two
  ends; \<open>register_session\<close> is the session manager's.
\<close>

record ('o, 'g) session_calls =
  create_session :: "'g \<Rightarrow> (result \<times> (u32 \<times> u32) \<times> 'g) run"
  register_session :: "u32 \<Rightarrow> 'o \<Rightarrow> 'g \<Rightarrow> (result \<times> 'g) run"

definition SetOutObjectImpl ::
  "sf_lib \<Rightarrow> ('o, 'g) session_calls \<Rightarrow> nat \<Rightarrow> 'o option \<Rightarrow> u32 option list \<times> 'g \<Rightarrow>
     (u32 option list \<times> 'g) run" where
  "SetOutObjectImpl l c i obj = (\<lambda>(moves, g).
     case obj of
       None \<Rightarrow> then_run (write_entry moves i (Some (INVALID_HANDLE l))) (\<lambda>moves. Inr (moves, g))
     | Some obj \<Rightarrow>
         then_run (create_session c g) (\<lambda>(rc, (server_handle, client_handle), g).
         if R_FAILED rc then Inl Abort
         else then_run (register_session c server_handle obj g) (\<lambda>(rc, g).
           if R_FAILED rc then Inl Abort
           else then_run (write_entry moves i (Some client_handle)) (\<lambda>moves. Inr (moves, g)))))"

fun set_out_objects ::
  "sf_lib \<Rightarrow> ('o, 'g) session_calls \<Rightarrow> nat \<Rightarrow> 'o option list \<Rightarrow> u32 option list \<times> 'g \<Rightarrow>
     (u32 option list \<times> 'g) run" where
  "set_out_objects l c i [] s = Inr s"
| "set_out_objects l c i (obj # objs) s =
     then_run (SetOutObjectImpl l c i obj s) (set_out_objects l c (Suc i) objs)"

section \<open>The call\<close>

text \<open>
  The method gets its arguments and returns its result and what it wrote. The answer is the result,
  and the response when the header of one was set up. A command without a result returns success.
\<close>

type_synonym ('o, 'g) method_call = "arg_value list \<Rightarrow> 'g \<Rightarrow> (result \<times> 'o outputs \<times> 'g) run"
type_synonym 'g reply = "(result \<times> HipcResponse option \<times> 'g) run"

definition encode_reply ::
  "sf_lib \<Rightarrow> ('o, 'g) session_calls \<Rightarrow> arg list \<Rightarrow> RuntimeMetadata \<Rightarrow>
     (PointerAndSize \<times> bool) list \<Rightarrow> 'o outputs \<Rightarrow> 'g \<Rightarrow> 'g reply" where
  "encode_reply l c args m buffers out g =
     (let (response, raw_size) = PrepareForReply args m in
      case GetCmifOutHeaderPointer l raw_size of
        Inl rc \<Rightarrow> Inr (rc, None, g)
      | Inr left \<Rightarrow>
          if left < OutDataSize args then Inr (sf_ResultInvalidOutRawSize, Some response, g)
          else
            then_run (write_raw (raw_writes out) (replicate (OutDataSize args) 0)) (\<lambda>raw.
            then_run (SetOutBuffers args buffers (response\<lparr>rsp_raw_data := Some raw\<rparr>)) (\<lambda>response.
            then_run (write_entries (move_writes out)
                (replicate (length (filter ((=) OutMoveHandle) args)) 0)) (\<lambda>moves.
            then_run (write_entries (copy_writes out)
                (replicate (length (filter ((=) OutCopyHandle) args)) 0)) (\<lambda>copies.
            then_run (OutHandleHolder_CopyTo moves copies (out_object_count m) response) (\<lambda>response.
            then_run (write_entries (map (\<lambda>(i, obj). (i, Some obj)) (object_writes out))
                (replicate (out_object_count m) None)) (\<lambda>objs.
            then_run (set_out_objects l c 0 objs (rsp_move_handles response, g)) (\<lambda>(moves, g).
              Inr (ResultSuccess, Some (response\<lparr>rsp_move_handles := moves\<rparr>), g)))))))))"

definition InvokeServiceCommandImpl ::
  "sf_lib \<Rightarrow> ('o, 'g) session_calls \<Rightarrow> arg list \<Rightarrow> ('o, 'g) method_call \<Rightarrow> HipcRequest \<Rightarrow>
     PointerAndSize \<Rightarrow> u8 list \<Rightarrow> 'g \<Rightarrow> 'g reply" where
  "InvokeServiceCommandImpl l c args call r pointer_buffer in_raw_data g =
     (let m = CommandRuntimeMetadata (CMIF_IN_HEADER_SIZE l) (CMIF_OUT_HEADER_SIZE l) args;
          rc = PrepareForProcess r args m
      in if R_FAILED rc then Inr (rc, None, g)
      else then_run (ProcessBuffers r m pointer_buffer args) (\<lambda>(rc, buffers).
        if R_FAILED rc then Inr (rc, None, g)
        else if in_object_count m > 0 then Inr (sf_ResultNotSupported, None, g)
        else then_run (DeserializeArguments r in_raw_data args buffers) (\<lambda>vs.
          let (rc, vs) = (if HasInProcessIdHolder args then marshal_process_ids (hipc_pid r) (zip args vs)
                          else (ResultSuccess, vs))
          in if R_FAILED rc then Inr (rc, None, g)
          else then_run (call vs g) (\<lambda>(command_result, out, g).
            if R_FAILED command_result then
              let (response, raw_size) = PrepareForErrorReply m in
              case GetCmifOutHeaderPointer l raw_size of
                Inl rc \<Rightarrow> Inr (rc, None, g)
              | Inr _ \<Rightarrow> Inr (command_result, Some response, g)
            else encode_reply l c args m buffers out g))))"

end
