(* ===== verification/Commands.thy ===== *)
theory Commands
  imports Serialization
begin

text \<open>
  The parameter lists of the commands of the three services and of the sessions (\<open>hipc/*.hpp\<close>),
  from which the framework generates the code that reads a request and writes a reply. The
  structures of \<open>libnx\<close> among the parameters are known by their size and alignment, which are
  the fields of \<open>libnx_types\<close>.
\<close>

record libnx_types =
  CapsAlbumUsage2 :: data_type
  CapsAlbumUsage3 :: data_type
  CapsScreenShotAttribute :: data_type
  CapsScreenShotDecodeOption :: data_type
  CapsAlbumCache :: data_type
  CapsAlbumEntry :: data_type
  AccountUid :: data_type
  CapsAlbumUsage16 :: nat
  CapsLoadAlbumScreenShotImageOutput :: nat
  CapsLoadAlbumScreenShotImageOutputForApplication :: nat

section \<open>Parameter types\<close>

definition u8_t :: data_type where "u8_t = Data 1 1"
definition u64_t :: data_type where "u64_t = Data 8 8"
definition AlbumDateTime_t :: data_type where "AlbumDateTime_t = Data 8 2"
definition AlbumFileId_t :: data_type where "AlbumFileId_t = Data 0x18 8"
definition AlbumEntry_t :: data_type where "AlbumEntry_t = Data 0x20 8"
definition ApplicationAlbumEntry_t :: data_type where "ApplicationAlbumEntry_t = Data 0x20 8"
definition ApplicationAlbumFileEntry_t :: data_type where "ApplicationAlbumFileEntry_t = Data 0x30 8"

text \<open>The three large structures prefer to be mapped.\<close>

definition OutLarge :: "nat \<Rightarrow> buffer_class" where
  "OutLarge n = OutLargeData (PreferredTransferMode True False False True) n"

section \<open>Parameter lists\<close>

type_synonym signatures = "(string \<times> arg list) list"

definition AlbumAccessorService_signatures :: "libnx_types \<Rightarrow> signatures" where
  "AlbumAccessorService_signatures x =
   [
    (''GetAlbumFileCount'', [OutDataArg u64_t, InDataArg u8_t]),
    (''GetAlbumFileList'', [OutDataArg u64_t, BufferArg OutArray, InDataArg u8_t]),
    (''LoadAlbumFile'', [BufferArg OutBuffer, OutDataArg u64_t, InDataArg AlbumFileId_t]),
    (''DeleteAlbumFile'', [InDataArg AlbumFileId_t]),
    (''StorageCopyAlbumFile'', [InDataArg u8_t, InDataArg AlbumFileId_t]),
    (''IsAlbumMounted'', [OutDataArg BoolData, InDataArg u8_t]),
    (''GetAlbumUsage'', [OutDataArg (CapsAlbumUsage2 x), InDataArg u8_t]),
    (''GetAlbumFileSize'', [OutDataArg u64_t, InDataArg AlbumFileId_t]),
    (''LoadAlbumFileThumbnail'', [BufferArg OutBuffer, OutDataArg u64_t, InDataArg AlbumFileId_t]),
    (''LoadAlbumScreenShotImage'',
      [OutDataArg u64_t, OutDataArg u64_t, BufferArg OutNonSecureBuffer, BufferArg OutBuffer,
       InDataArg AlbumFileId_t]),
    (''LoadAlbumScreenShotThumbnailImage'',
      [OutDataArg u64_t, OutDataArg u64_t, BufferArg OutNonSecureBuffer, BufferArg OutBuffer,
       InDataArg AlbumFileId_t]),
    (''GetAlbumEntryFromApplicationAlbumEntry'',
      [OutDataArg AlbumEntry_t, InDataArg ApplicationAlbumEntry_t, InDataArg u64_t]),
    (''LoadAlbumScreenShotImageEx'',
      [OutDataArg u64_t, OutDataArg u64_t, BufferArg OutNonSecureBuffer, BufferArg OutBuffer,
       InDataArg AlbumFileId_t, InDataArg (CapsScreenShotDecodeOption x)]),
    (''LoadAlbumScreenShotThumbnailImageEx'',
      [OutDataArg u64_t, OutDataArg u64_t, BufferArg OutNonSecureBuffer, BufferArg OutBuffer,
       InDataArg AlbumFileId_t, InDataArg (CapsScreenShotDecodeOption x)]),
    (''LoadAlbumScreenShotImageEx0'',
      [OutDataArg (CapsScreenShotAttribute x), OutDataArg u64_t, OutDataArg u64_t,
       BufferArg OutNonSecureBuffer, BufferArg OutBuffer, InDataArg AlbumFileId_t,
       InDataArg (CapsScreenShotDecodeOption x)]),
    (''GetAlbumUsage3'', [OutDataArg (CapsAlbumUsage3 x), InDataArg u8_t]),
    (''GetAlbumMountResult'', [InDataArg u8_t]),
    (''GetAlbumUsage16'',
      [BufferArg (OutLarge (CapsAlbumUsage16 x)), InDataArg u8_t, InDataArg u8_t]),
    (''GetMinMaxAppletId'', [BufferArg OutNonSecureBuffer, OutDataArg BoolData]),
    (''GetAlbumFileCountEx0'', [OutDataArg u64_t, InDataArg u8_t, InDataArg u8_t]),
    (''GetAlbumFileListEx0'',
      [BufferArg OutArray, OutDataArg u64_t, InDataArg u8_t, InDataArg u8_t]),
    (''SaveEditedScreenShot'',
      [BufferArg InBuffer, BufferArg InBuffer, OutDataArg AlbumEntry_t, InDataArg u64_t,
       InDataArg u64_t, InDataArg u64_t, InDataArg u64_t, InDataArg u64_t, InDataArg u64_t,
       InDataArg u64_t]),
    (''GetLastOverlayScreenShotThumbnail'',
      [BufferArg OutBuffer, OutDataArg AlbumFileId_t, OutDataArg u64_t]),
    (''GetLastOverlayMovieThumbnail'',
      [BufferArg OutBuffer, OutDataArg AlbumFileId_t, OutDataArg u64_t]),
    (''GetAutoSavingStorage'', [OutDataArg u8_t]),
    (''GetRequiredStorageSpaceSizeToCopyAll'', [OutDataArg u64_t, InDataArg u8_t, InDataArg u8_t]),
    (''LoadAlbumScreenShotThumbnailImageEx0'',
      [OutDataArg (CapsScreenShotAttribute x), OutDataArg u64_t, OutDataArg u64_t,
       BufferArg OutNonSecureBuffer, BufferArg OutBuffer, InDataArg AlbumFileId_t,
       InDataArg (CapsScreenShotDecodeOption x)]),
    (''LoadAlbumScreenShotImageEx1'',
      [BufferArg (OutLarge (CapsLoadAlbumScreenShotImageOutput x)),
       BufferArg OutNonSecureBuffer, BufferArg OutBuffer, InDataArg AlbumFileId_t,
       InDataArg (CapsScreenShotDecodeOption x)]),
    (''LoadAlbumScreenShotThumbnailImageEx1'',
      [BufferArg (OutLarge (CapsLoadAlbumScreenShotImageOutput x)),
       BufferArg OutNonSecureBuffer, BufferArg OutBuffer, InDataArg AlbumFileId_t,
       InDataArg (CapsScreenShotDecodeOption x)]),
    (''ForceAlbumUnmounted'', [InDataArg u8_t]),
    (''ResetAlbumMountStatus'', [InDataArg u8_t]),
    (''RefreshAlbumCache'', [InDataArg u8_t]),
    (''GetAlbumCache'', [OutDataArg (CapsAlbumCache x), InDataArg u8_t]),
    (''GetAlbumCacheEx'', [OutDataArg (CapsAlbumCache x), InDataArg u8_t, InDataArg u8_t]),
    (''GetAlbumEntryFromApplicationAlbumEntryAruid'',
      [OutDataArg AlbumEntry_t, InDataArg ClientAppletResourceUserId,
       InDataArg ApplicationAlbumEntry_t]),
    (''SetInternalErrorConversionEnabled'', [InDataArg BoolData]),
    (''LoadMakerNoteInfoForDebug'',
      [OutDataArg u64_t, BufferArg OutBuffer, BufferArg OutBuffer, InDataArg AlbumFileId_t]),
    (''OpenAccessorSession'', [OutObjectArg, InDataArg ClientAppletResourceUserId])]"

definition AlbumControlService_signatures :: "libnx_types \<Rightarrow> signatures" where
  "AlbumControlService_signatures x =
   [
    (''CaptureRawImage'',
      [BufferArg OutNonSecureBuffer, InDataArg u64_t, InDataArg u64_t, InDataArg u64_t,
       InDataArg u64_t]),
    (''CaptureRawImageWithTimeout'',
      [BufferArg OutNonSecureBuffer, InDataArg u64_t, InDataArg u64_t, InDataArg u64_t,
       InDataArg u64_t, InDataArg u64_t]),
    (''SetShimLibraryVersion'', [InDataArg u64_t, InDataArg u64_t]),
    (''RequestTakingScreenShot'', [InDataArg u64_t, InDataArg u64_t]),
    (''RequestTakingScreenShotWithTimeout'', [InDataArg u64_t, InDataArg u64_t, InDataArg u64_t]),
    (''NotifyTakingScreenShotRefused'', [InDataArg u64_t]),
    (''NotifyAlbumStorageIsAvailable'', [InDataArg u8_t]),
    (''NotifyAlbumStorageIsUnavailable'', [InDataArg u8_t]),
    (''RegisterAppletResourceUserId'', [InDataArg u64_t, InDataArg u64_t]),
    (''UnregisterAppletResourceUserId'', [InDataArg u64_t, InDataArg u64_t]),
    (''GetApplicationIdFromAruid'', [OutDataArg u64_t, InDataArg u64_t]),
    (''CheckApplicationIdRegistered'', [InDataArg u64_t]),
    (''GenerateCurrentAlbumFileId'', [OutDataArg AlbumFileId_t, InDataArg u64_t, InDataArg u8_t]),
    (''GenerateApplicationAlbumEntry'',
      [OutDataArg ApplicationAlbumEntry_t, InDataArg AlbumEntry_t, InDataArg u64_t]),
    (''SaveAlbumScreenShotFile'', [BufferArg InBuffer, InDataArg AlbumFileId_t]),
    (''SaveAlbumScreenShotFileEx'',
      [BufferArg InNonSecureBuffer, InDataArg AlbumFileId_t, InDataArg u64_t, InDataArg u64_t,
       InDataArg u64_t]),
    (''SetOverlayScreenShotThumbnailData'', [BufferArg InNonSecureBuffer, InDataArg AlbumFileId_t]),
    (''SetOverlayMovieThumbnailData'', [BufferArg InNonSecureBuffer, InDataArg AlbumFileId_t]),
    (''OpenControlSession'', [OutObjectArg, InDataArg ClientAppletResourceUserId])]"

definition AlbumApplicationService_signatures :: "libnx_types \<Rightarrow> signatures" where
  "AlbumApplicationService_signatures x =
   [
    (''SetShimLibraryVersion'', [InDataArg u64_t, InDataArg ClientAppletResourceUserId]),
    (''GetAlbumFileList0AafeAruidDeprecated'',
      [BufferArg OutBuffer, InDataArg ClientAppletResourceUserId, InDataArg u8_t,
       InDataArg u64_t, InDataArg u64_t]),
    (''DeleteAlbumFileByAruid'',
      [InDataArg ClientAppletResourceUserId, InDataArg u8_t,
       InDataArg ApplicationAlbumFileEntry_t]),
    (''GetAlbumFileSizeByAruid'',
      [OutDataArg u64_t, InDataArg ClientAppletResourceUserId,
       InDataArg ApplicationAlbumFileEntry_t]),
    (''DeleteAlbumFileByAruidForDebug'',
      [InDataArg ClientAppletResourceUserId, InDataArg ApplicationAlbumFileEntry_t]),
    (''LoadAlbumScreenShotImageByAruid'',
      [BufferArg (OutLarge (CapsLoadAlbumScreenShotImageOutputForApplication x)),
       BufferArg OutNonSecureBuffer, BufferArg OutBuffer, InDataArg ClientAppletResourceUserId,
       InDataArg ApplicationAlbumFileEntry_t, InDataArg (CapsScreenShotDecodeOption x)]),
    (''LoadAlbumScreenShotThumbnailImageByAruid'',
      [BufferArg (OutLarge (CapsLoadAlbumScreenShotImageOutputForApplication x)),
       BufferArg OutNonSecureBuffer, BufferArg OutBuffer, InDataArg ClientAppletResourceUserId,
       InDataArg ApplicationAlbumFileEntry_t, InDataArg (CapsScreenShotDecodeOption x)]),
    (''PrecheckToCreateContentsByAruid'',
      [InDataArg u8_t, InDataArg u64_t, InDataArg ClientAppletResourceUserId]),
    (''GetAlbumFileList1AafeAruidDeprecated'',
      [BufferArg OutBuffer, OutDataArg u64_t, InDataArg ClientAppletResourceUserId,
       InDataArg u8_t, InDataArg AlbumDateTime_t, InDataArg AlbumDateTime_t]),
    (''GetAlbumFileList2AafeUidAruidDeprecated'',
      [BufferArg OutBuffer, OutDataArg u64_t, InDataArg ClientAppletResourceUserId,
       InDataArg u8_t, InDataArg AlbumDateTime_t, InDataArg AlbumDateTime_t,
       InDataArg (AccountUid x)]),
    (''GetAlbumFileList3AaeAruid'',
      [BufferArg OutBuffer, OutDataArg u64_t, InDataArg ClientAppletResourceUserId,
       InDataArg u8_t, InDataArg AlbumDateTime_t, InDataArg AlbumDateTime_t]),
    (''GetAlbumFileList4AaeUidAruid'',
      [BufferArg OutBuffer, OutDataArg u64_t, InDataArg ClientAppletResourceUserId,
       InDataArg u8_t, InDataArg AlbumDateTime_t, InDataArg AlbumDateTime_t,
       InDataArg (AccountUid x)]),
    (''OpenAccessorSessionForApplication'',
      [OutObjectArg, InDataArg ClientAppletResourceUserId, InDataArg ApplicationAlbumFileEntry_t])]"

definition ISession_signatures :: "libnx_types \<Rightarrow> signatures" where
  "ISession_signatures x =
   [
    (''CloseAlbumMovieReadStream'', [InDataArg u64_t]),
    (''GetAlbumMovieReadStreamMovieDataSize'', [OutDataArg u64_t, InDataArg u64_t]),
    (''ReadMovieDataFromAlbumMovieReadStream'',
      [BufferArg OutBuffer, OutDataArg u64_t, InDataArg u64_t, InDataArg u64_t]),
    (''GetAlbumMovieReadStreamBrokenReason'', [InDataArg u64_t]),
    (''GetAlbumMovieReadStreamImageDataSize'', [OutDataArg u64_t, InDataArg u64_t]),
    (''ReadImageDataFromAlbumMovieReadStream'',
      [BufferArg OutBuffer, OutDataArg u64_t, InDataArg u64_t, InDataArg u64_t]),
    (''ReadFileAttributeFromAlbumMovieReadStream'', [OutDataArg (CapsScreenShotAttribute x)]),
    (''OpenAlbumMovieWriteStream'', [OutDataArg u64_t, InDataArg AlbumFileId_t]),
    (''FinishAlbumMovieWriteStream'', [InDataArg u64_t]),
    (''CommitAlbumMovieWriteStream'', [InDataArg u64_t]),
    (''DiscardAlbumMovieWriteStream'', [InDataArg u64_t]),
    (''DiscardAlbumMovieWriteStreamNoDelete'', [InDataArg u64_t]),
    (''CommitAlbumMovieWriteStreamEx'', [OutDataArg (CapsAlbumEntry x), InDataArg u64_t]),
    (''StartAlbumMovieWriteStreamDataSection'', [InDataArg u64_t]),
    (''EndAlbumMovieWriteStreamDataSection'', [InDataArg u64_t]),
    (''StartAlbumMovieWriteStreamMetaSection'', [InDataArg u64_t]),
    (''EndAlbumMovieWriteStreamMetaSection'', [InDataArg u64_t]),
    (''ReadDataFromAlbumMovieWriteStream'', [BufferArg OutBuffer, InDataArg u64_t, InDataArg u64_t]),
    (''WriteDataToAlbumMovieWriteStream'', [BufferArg InBuffer, InDataArg u64_t, InDataArg u64_t]),
    (''WriteMetaToAlbumMovieWriteStream'',
      [BufferArg InBuffer, InDataArg u64_t, InDataArg u64_t, InDataArg u64_t, InDataArg u64_t]),
    (''GetAlbumMovieWriteStreamBrokenReason'', [InDataArg u64_t]),
    (''GetAlbumMovieWriteStreamDataSize'', [OutDataArg u64_t, InDataArg u64_t]),
    (''SetAlbumMovieWriteStreamDataSize'', [InDataArg u64_t, InDataArg u64_t])]"

definition AccessorSession_signatures :: "libnx_types \<Rightarrow> signatures" where
  "AccessorSession_signatures x =
   [
    (''OpenAlbumMovieReadStream'', [OutDataArg u64_t, InDataArg AlbumFileId_t])]
   @ ISession_signatures x"

definition ControlSession_signatures :: "libnx_types \<Rightarrow> signatures" where
  "ControlSession_signatures x =
   [
    (''OpenAlbumMovieReadStream'', [OutDataArg u64_t, InDataArg AlbumFileId_t])]
   @ ISession_signatures x"

definition AccessorApplicationSession_signatures :: "libnx_types \<Rightarrow> signatures" where
  "AccessorApplicationSession_signatures x =
   [
    (''OpenAlbumMovieReadStream'',
      [OutDataArg u64_t, InDataArg ClientProcessId, InDataArg ApplicationAlbumFileEntry_t])]
   @ ISession_signatures x"

definition all_signatures :: "libnx_types \<Rightarrow> signatures list" where
  "all_signatures x =
     [AlbumAccessorService_signatures x, AlbumControlService_signatures x, AlbumApplicationService_signatures x,
      AccessorSession_signatures x, ControlSession_signatures x, AccessorApplicationSession_signatures x]"

text \<open>The structures of \<open>libnx\<close> have a positive alignment, and the large ones a size.\<close>

definition types_ok :: "libnx_types \<Rightarrow> bool" where
  "types_ok x \<longleftrightarrow> 0 < align_of (CapsAlbumUsage2 x) \<and> 0 < align_of (CapsAlbumUsage3 x) \<and>
     0 < align_of (CapsScreenShotAttribute x) \<and> 0 < align_of (CapsScreenShotDecodeOption x) \<and>
     0 < align_of (CapsAlbumCache x) \<and> 0 < align_of (CapsAlbumEntry x) \<and> 0 < align_of (AccountUid x) \<and>
     0 < CapsAlbumUsage16 x \<and> 0 < CapsLoadAlbumScreenShotImageOutput x \<and>
     0 < CapsLoadAlbumScreenShotImageOutputForApplication x"

lemmas signature_defs = AlbumAccessorService_signatures_def AlbumControlService_signatures_def
  AlbumApplicationService_signatures_def AccessorSession_signatures_def ControlSession_signatures_def
  AccessorApplicationSession_signatures_def ISession_signatures_def

lemmas type_defs = u8_t_def u64_t_def AlbumDateTime_t_def AlbumFileId_t_def AlbumEntry_t_def
  ApplicationAlbumEntry_t_def ApplicationAlbumFileEntry_t_def

lemmas buffer_defs = InBuffer_def InNonSecureBuffer_def OutBuffer_def OutNonSecureBuffer_def OutArray_def
  OutLarge_def PreferredTransferMode_def

text \<open>
  What the code generator asks of a command, as far as it concerns the album: within the limits,
  every type with an alignment, no buffer that goes through the pointer buffer, no object as input.
\<close>

definition arg_ok :: "arg \<Rightarrow> bool" where
  "arg_ok a \<longleftrightarrow> (case a of
       InDataArg t \<Rightarrow> 0 < align_of t | OutDataArg t \<Rightarrow> 0 < align_of t
     | BufferArg b \<Rightarrow> Attr_HipcMapAlias \<in> BufferAttributes b \<and> Attr_HipcPointer \<notin> BufferAttributes b \<and>
         Attr_HipcAutoSelect \<notin> BufferAttributes b \<and>
         (Attr_In \<in> BufferAttributes b \<longleftrightarrow> Attr_Out \<notin> BufferAttributes b)
     | InObjectArg \<Rightarrow> False | _ \<Rightarrow> True)"

lemma arg_ok_buffer [simp]:
  "arg_ok (BufferArg (InBufferImpl MapAlias {}))" "arg_ok (BufferArg (OutBufferImpl MapAlias {}))"
  "arg_ok (BufferArg (InBufferImpl MapAlias {Attr_HipcMapTransferAllowsNonSecure}))"
  "arg_ok (BufferArg (OutBufferImpl MapAlias {Attr_HipcMapTransferAllowsNonSecure}))"
  "arg_ok (BufferArg (OutArrayImpl MapAlias))" "arg_ok (BufferArg (OutLargeData MapAlias n))"
  by (simp_all add: arg_ok_def BufferAttributes_def BufferTransferModeAttributes_def)

lemma signatures_ok:
  assumes "types_ok x"
  shows "\<forall>sigs \<in> set (all_signatures x). \<forall>(name, args) \<in> set sigs. list_all arg_ok args"
  using assms by (simp add: all_signatures_def signature_defs type_defs buffer_defs types_ok_def
      arg_ok_def [of "InDataArg t" for t] arg_ok_def [of "OutDataArg t" for t] arg_ok_def [of OutObjectArg]
      align_of_def [of "Data n a" for n a] align_of_def [of BoolData] align_of_def [of ClientProcessId]
      align_of_def [of ClientAppletResourceUserId])

lemma signatures_limits:
  "\<forall>sigs \<in> set (all_signatures x). \<forall>(name, args) \<in> set sigs. command_asserts args"
  by (simp add: all_signatures_def signature_defs command_asserts_def of_type_def GetArgumentType_def)

end
