(* ===== verification/SerializationFacts.thy ===== *)
theory SerializationFacts
  imports Commands
begin

text \<open>
  What the indices of the argument infos mean, and with it: a request that passed the check can be
  processed without a read outside of it, and a reply is written completely.
\<close>

section \<open>Positions among the selected elements of a list\<close>

lemma filter_position_less:
  assumes "i < length xs" and "P (xs ! i)"
  shows "length (filter P (take i xs)) < length (filter P xs)"
proof -
  have "xs = take i xs @ xs ! i # drop (Suc i) xs" using assms(1) by (rule id_take_nth_drop)
  then have "filter P xs = filter P (take i xs) @ xs ! i # filter P (drop (Suc i) xs)"
    using assms(2) by (metis filter.simps(2) filter_append)
  then show ?thesis by simp
qed

lemma filter_position_nth:
  assumes "i < length xs" and "P (xs ! i)"
  shows "filter P xs ! length (filter P (take i xs)) = xs ! i"
proof -
  have "xs = take i xs @ xs ! i # drop (Suc i) xs" using assms(1) by (rule id_take_nth_drop)
  then have "filter P xs = filter P (take i xs) @ xs ! i # filter P (drop (Suc i) xs)"
    using assms(2) by (metis filter.simps(2) filter_append)
  then show ?thesis by simp
qed

lemma filter_position_mono:
  assumes "i < j" and "j \<le> length xs" and "P (xs ! i)"
  shows "length (filter P (take i xs)) < length (filter P (take j xs))"
  using filter_position_less [of i "take j xs" P] assms by (simp add: min_def)

lemma filter_position_onto:
  "n < length (filter P xs) \<Longrightarrow> \<exists>i < length xs. P (xs ! i) \<and> length (filter P (take i xs)) = n"
proof (induction xs arbitrary: n)
  case (Cons x xs)
  show ?case
  proof (cases "P x")
    case True
    show ?thesis
    proof (cases n)
      case 0
      then show ?thesis using True by (intro exI [of _ 0]) simp
    next
      case (Suc m)
      with Cons.prems True have "m < length (filter P xs)" by simp
      then obtain i where "i < length xs" "P (xs ! i)" "length (filter P (take i xs)) = m"
        using Cons.IH by blast
      then show ?thesis using True Suc by (intro exI [of _ "Suc i"]) simp
    qed
  next
    case False
    with Cons.prems have "n < length (filter P xs)" by simp
    then obtain i where "i < length xs" "P (xs ! i)" "length (filter P (take i xs)) = n"
      using Cons.IH by blast
    then show ?thesis using False by (intro exI [of _ "Suc i"]) simp
  qed
qed simp

section \<open>Indices\<close>

text \<open>
  An index of the infos counts the parameters of one kind: \<open>kept\<close> and \<open>stepped\<close> are what
  \<open>ProcessUpdate\<close> does with it.
\<close>

locale counts =
  fixes f :: "ArgumentSerializationInfo \<Rightarrow> nat" and P :: "arg \<Rightarrow> bool"
  assumes start: "f initial_info = 0"
    and kept: "f (fst (ProcessUpdate a c)) = f c"
    and stepped: "f (snd (ProcessUpdate a c)) = f c + of_bool (P a)"
begin

lemma index_from:
  "i < length args \<Longrightarrow> f (infos_from c args ! i) = f c + length (filter P (take i args))"
proof (induction args arbitrary: c i)
  case (Cons a args)
  then show ?case
    by (cases i) (simp_all add: kept stepped split_beta Let_def)
qed simp

lemma index: "i < length args \<Longrightarrow> f (ArgumentSerializationInfos args ! i) = length (filter P (take i args))"
  by (simp add: ArgumentSerializationInfos_def index_from start)

lemma index_less:
  "i < length args \<Longrightarrow> P (args ! i) \<Longrightarrow> f (ArgumentSerializationInfos args ! i) < length (filter P args)"
  by (simp add: index filter_position_less)

lemma index_nth:
  "i < length args \<Longrightarrow> P (args ! i) \<Longrightarrow> filter P args ! f (ArgumentSerializationInfos args ! i) = args ! i"
  by (simp add: index filter_position_nth)

lemma index_mono:
  "i < j \<Longrightarrow> j < length args \<Longrightarrow> P (args ! i) \<Longrightarrow>
   f (ArgumentSerializationInfos args ! i) < f (ArgumentSerializationInfos args ! j)"
  by (simp add: index filter_position_mono)

lemma index_onto:
  "n < length (filter P args) \<Longrightarrow>
   \<exists>i < length args. P (args ! i) \<and> f (ArgumentSerializationInfos args ! i) = n"
  using filter_position_onto [of n P args] index by metis

end

text \<open>What each index counts. The buffers are told apart as \<open>ProcessUpdate\<close> does.\<close>

definition is_InData :: "arg \<Rightarrow> bool" where "is_InData a \<longleftrightarrow> GetArgumentType a = InData"
definition is_OutData :: "arg \<Rightarrow> bool" where "is_OutData a \<longleftrightarrow> GetArgumentType a = OutData"
definition is_Buffer :: "arg \<Rightarrow> bool" where "is_Buffer a \<longleftrightarrow> GetArgumentType a = Buffer"
definition is_InObject :: "arg \<Rightarrow> bool" where "is_InObject a \<longleftrightarrow> GetArgumentType a = InObject"
definition is_OutObject :: "arg \<Rightarrow> bool" where "is_OutObject a \<longleftrightarrow> GetArgumentType a = OutObject"

lemmas is_defs = is_InData_def is_OutData_def is_Buffer_def is_InObject_def is_OutObject_def

definition takes_map :: "SfBufferAttr \<Rightarrow> SfBufferAttr set \<Rightarrow> bool" where
  "takes_map d a \<longleftrightarrow> d \<in> a \<and> (d = Attr_In \<or> Attr_In \<notin> a) \<and>
     (Attr_HipcMapAlias \<in> a \<or> Attr_HipcPointer \<notin> a \<and> Attr_HipcAutoSelect \<in> a)"

definition takes_pointer :: "SfBufferAttr \<Rightarrow> SfBufferAttr set \<Rightarrow> bool" where
  "takes_pointer d a \<longleftrightarrow> d \<in> a \<and> (d = Attr_In \<or> Attr_In \<notin> a) \<and>
     Attr_HipcMapAlias \<notin> a \<and> (Attr_HipcPointer \<in> a \<or> Attr_HipcAutoSelect \<in> a)"

definition buffer_arg :: "(SfBufferAttr set \<Rightarrow> bool) \<Rightarrow> arg \<Rightarrow> bool" where
  "buffer_arg Q a \<longleftrightarrow> (case a of BufferArg b \<Rightarrow> Q (BufferAttributes b) | _ \<Rightarrow> False)"

lemma buffer_arg_simps [simp]: "buffer_arg Q (BufferArg b) \<longleftrightarrow> Q (BufferAttributes b)"
  by (simp add: buffer_arg_def)

text \<open>Every class of buffer has one direction and one mode, if its extra attributes are none of these.\<close>

definition buffer_ok :: "SfBufferAttr set \<Rightarrow> bool" where
  "buffer_ok a \<longleftrightarrow> (Attr_In \<in> a \<longleftrightarrow> Attr_Out \<notin> a) \<and>
     (Attr_HipcMapAlias \<in> a \<or> Attr_HipcPointer \<in> a \<or> Attr_HipcAutoSelect \<in> a) \<and>
     \<not> (Attr_HipcMapAlias \<in> a \<and> Attr_HipcPointer \<in> a) \<and>
     \<not> (Attr_HipcMapAlias \<in> a \<and> Attr_HipcAutoSelect \<in> a) \<and>
     \<not> (Attr_HipcPointer \<in> a \<and> Attr_HipcAutoSelect \<in> a)"

lemma predicates_of_ok:
  assumes "buffer_ok a"
  shows "InHipcMapAliasBufferPredicate a \<longleftrightarrow> takes_map Attr_In a"
    and "OutHipcMapAliasBufferPredicate a \<longleftrightarrow> takes_map Attr_Out a"
    and "InHipcPointerBufferPredicate a \<longleftrightarrow> takes_pointer Attr_In a"
    and "OutHipcPointerBufferPredicate a \<longleftrightarrow> takes_pointer Attr_Out a"
  using assms
  by (auto simp: buffer_ok_def takes_map_def takes_pointer_def InHipcMapAliasBufferPredicate_def
      OutHipcMapAliasBufferPredicate_def InHipcPointerBufferPredicate_def OutHipcPointerBufferPredicate_def)

lemmas update_defs = ProcessUpdate_def UpdateBuffer_def GetArgumentType_def Let_def initial_info_def
  takes_map_def takes_pointer_def buffer_arg_def is_defs

interpretation raw_in: counts in_raw_data_index is_InData
  by unfold_locales (simp_all add: update_defs split: arg.split)

interpretation raw_out: counts out_raw_data_index is_OutData
  by unfold_locales (simp_all add: update_defs split: arg.split)

interpretation buffers: counts buffer_index is_Buffer
  by unfold_locales (simp_all add: update_defs split: arg.split)

interpretation objects_in: counts in_object_index is_InObject
  by unfold_locales (simp_all add: update_defs split: arg.split)

interpretation objects_out: counts out_object_index is_OutObject
  by unfold_locales (simp_all add: update_defs split: arg.split)

interpretation move_in: counts in_move_handle_index "(=) InMoveHandle"
  by unfold_locales (simp_all add: update_defs split: arg.split)

interpretation copy_in: counts in_copy_handle_index "(=) InCopyHandle"
  by unfold_locales (simp_all add: update_defs split: arg.split)

interpretation move_out: counts out_move_handle_index "(=) OutMoveHandle"
  by unfold_locales (simp_all add: update_defs split: arg.split)

interpretation copy_out: counts out_copy_handle_index "(=) OutCopyHandle"
  by unfold_locales (simp_all add: update_defs split: arg.split)

interpretation maps_in: counts send_map_alias_index "buffer_arg (takes_map Attr_In)"
  by unfold_locales (simp_all add: update_defs split: arg.split)

interpretation maps_out: counts recv_map_alias_index "buffer_arg (takes_map Attr_Out)"
  by unfold_locales (simp_all add: update_defs split: arg.split)

interpretation pointers_in: counts send_pointer_index "buffer_arg (takes_pointer Attr_In)"
  by unfold_locales (simp_all add: update_defs split: arg.split)

interpretation pointers_out: counts recv_pointer_index "buffer_arg (takes_pointer Attr_Out)"
  by unfold_locales (simp_all add: update_defs split: arg.split)

interpretation unfixed_out: counts unfixed_recv_pointer_index
  "buffer_arg (\<lambda>a. takes_pointer Attr_Out a \<and> Attr_FixedSize \<notin> a)"
  by unfold_locales (simp_all add: update_defs split: arg.split)

section \<open>Counting parameters\<close>

lemma length_infos [simp]: "length (infos_from c args) = length args"
  by (induction args arbitrary: c) (simp_all add: split_beta Let_def)

lemma length_ArgumentSerializationInfos [simp]: "length (ArgumentSerializationInfos args) = length args"
  by (simp add: ArgumentSerializationInfos_def)

lemma InDatas_filter: "InDatas args = map (\<lambda>a. case a of InDataArg t \<Rightarrow> t) (filter is_InData args)"
  by (induction args) (simp_all add: InDatas_def is_InData_def GetArgumentType_def split: arg.split)

lemma OutDatas_filter: "OutDatas args = map (\<lambda>a. case a of OutDataArg t \<Rightarrow> t) (filter is_OutData args)"
  by (induction args) (simp_all add: OutDatas_def is_OutData_def GetArgumentType_def split: arg.split)

lemma GetCount_filter: "GetCount Q args = length (filter (buffer_arg Q) args)"
  by (induction args) (simp_all add: GetCount_def Buffers_def buffer_arg_def split: arg.split)

lemma length_filter_split:
  "length (filter P xs) = length (filter (\<lambda>x. P x \<and> Q x) xs) + length (filter (\<lambda>x. P x \<and> \<not> Q x) xs)"
  by (induction xs) auto

text \<open>What the album asks of a parameter list, and what it gives for the counts of a request.\<close>

definition well_formed :: "arg list \<Rightarrow> bool" where
  "well_formed args \<longleftrightarrow> (\<forall>a \<in> set args. case a of
       InDataArg t \<Rightarrow> 0 < align_of t | OutDataArg t \<Rightarrow> 0 < align_of t
     | BufferArg b \<Rightarrow> buffer_ok (BufferAttributes b) | InObjectArg \<Rightarrow> False | _ \<Rightarrow> True)"

lemma arg_ok_well_formed: "list_all arg_ok args \<Longrightarrow> well_formed args"
  by (auto simp: well_formed_def arg_ok_def list_all_iff buffer_ok_def split: arg.split_asm arg.split)

lemma counts_of_ok:
  assumes "well_formed args"
  shows "GetCount InHipcMapAliasBufferPredicate args = length (filter (buffer_arg (takes_map Attr_In)) args)"
    and "GetCount OutHipcMapAliasBufferPredicate args = length (filter (buffer_arg (takes_map Attr_Out)) args)"
    and "GetCount InHipcPointerBufferPredicate args = length (filter (buffer_arg (takes_pointer Attr_In)) args)"
    and "GetCount OutHipcPointerBufferPredicate args = length (filter (buffer_arg (takes_pointer Attr_Out)) args)"
    and "NumUnfixedSizeOutHipcPointerBuffers args =
      length (filter (buffer_arg (\<lambda>a. takes_pointer Attr_Out a \<and> Attr_FixedSize \<notin> a)) args)"
proof -
  have ok: "buffer_arg Q a = buffer_arg R a"
    if "a \<in> set args" "\<And>b. buffer_ok b \<Longrightarrow> Q b = R b" for a Q R
    using assms that by (auto simp: well_formed_def buffer_arg_def split: arg.split)
  show "GetCount InHipcMapAliasBufferPredicate args = length (filter (buffer_arg (takes_map Attr_In)) args)"
    "GetCount OutHipcMapAliasBufferPredicate args = length (filter (buffer_arg (takes_map Attr_Out)) args)"
    "GetCount InHipcPointerBufferPredicate args = length (filter (buffer_arg (takes_pointer Attr_In)) args)"
    and out: "GetCount OutHipcPointerBufferPredicate args =
      length (filter (buffer_arg (takes_pointer Attr_Out)) args)"
    unfolding GetCount_filter by (intro arg_cong [where f = length] filter_cong refl ok; simp add: predicates_of_ok)+
  have fixed: "GetCount FixedSizeOutHipcPointerBufferPredicate args =
      length (filter (\<lambda>a. buffer_arg (takes_pointer Attr_Out) a \<and> buffer_arg (\<lambda>a. Attr_FixedSize \<in> a) a) args)"
    unfolding GetCount_filter
    by (intro arg_cong [where f = length] filter_cong refl)
      (use assms in \<open>auto simp: well_formed_def buffer_arg_def FixedSizeOutHipcPointerBufferPredicate_def
        predicates_of_ok split: arg.splits\<close>)
  have rest: "filter (\<lambda>a. buffer_arg (takes_pointer Attr_Out) a \<and> \<not> buffer_arg (\<lambda>a. Attr_FixedSize \<in> a) a) args =
      filter (buffer_arg (\<lambda>a. takes_pointer Attr_Out a \<and> Attr_FixedSize \<notin> a)) args"
    by (intro filter_cong refl) (simp add: buffer_arg_def split: arg.split)
  show "NumUnfixedSizeOutHipcPointerBuffers args =
      length (filter (buffer_arg (\<lambda>a. takes_pointer Attr_Out a \<and> Attr_FixedSize \<notin> a)) args)"
    unfolding NumUnfixedSizeOutHipcPointerBuffers_def out fixed
    using length_filter_split [of "buffer_arg (takes_pointer Attr_Out)" args "buffer_arg (\<lambda>a. Attr_FixedSize \<in> a)"]
    unfolding rest by simp
qed

section \<open>A request that passed the check\<close>

definition accepted :: "HipcRequest \<Rightarrow> arg list \<Rightarrow> RuntimeMetadata \<Rightarrow> bool" where
  "accepted r args m \<longleftrightarrow> parsed r \<and> well_formed args \<and> PrepareForProcess r args m = ResultSuccess"

lemma PrepareForProcess_success:
  "PrepareForProcess r args m = ResultSuccess \<longleftrightarrow>
     send_pid (hipc_meta r) = HasInProcessIdHolder args \<and>
     num_send_statics (hipc_meta r) = GetCount InHipcPointerBufferPredicate args \<and>
     num_send_buffers (hipc_meta r) = GetCount InHipcMapAliasBufferPredicate args \<and>
     num_recv_buffers (hipc_meta r) = GetCount OutHipcMapAliasBufferPredicate args \<and>
     num_exch_buffers (hipc_meta r) = 0 \<and>
     num_copy_handles (hipc_meta r) = length (filter ((=) InCopyHandle) args) \<and>
     num_move_handles (hipc_meta r) = length (filter ((=) InMoveHandle) args) \<and>
     align_up (GetUnfixedOutPointerSizeOffset m + NumUnfixedSizeOutHipcPointerBuffers args * 2) 4
       \<le> num_data_words (hipc_meta r) * 4"
  by (auto simp: PrepareForProcess_def Let_def hipc_ResultInvalidCmifRequest_def
      MakeValue_def)

lemma accepted_counts:
  assumes "accepted r args m"
  shows "length (send_buffers r) = length (filter (buffer_arg (takes_map Attr_In)) args)"
    and "length (recv_buffers r) = length (filter (buffer_arg (takes_map Attr_Out)) args)"
    and "length (send_statics r) = length (filter (buffer_arg (takes_pointer Attr_In)) args)"
    and "length (move_handles r) = length (filter ((=) InMoveHandle) args)"
    and "length (copy_handles r) = length (filter ((=) InCopyHandle) args)"
    and "GetUnfixedOutPointerSizeOffset m +
      2 * length (filter (buffer_arg (\<lambda>a. takes_pointer Attr_Out a \<and> Attr_FixedSize \<notin> a)) args)
        \<le> length (data_words r)"
proof -
  have wf: "well_formed args" and p: "parsed r" and s: "PrepareForProcess r args m = ResultSuccess"
    using assms by (simp_all add: accepted_def)
  note c = counts_of_ok [OF wf]
  show "length (send_buffers r) = length (filter (buffer_arg (takes_map Attr_In)) args)"
    "length (recv_buffers r) = length (filter (buffer_arg (takes_map Attr_Out)) args)"
    "length (send_statics r) = length (filter (buffer_arg (takes_pointer Attr_In)) args)"
    "length (move_handles r) = length (filter ((=) InMoveHandle) args)"
    "length (copy_handles r) = length (filter ((=) InCopyHandle) args)"
    using p s unfolding parsed_def PrepareForProcess_success c by simp_all
  have "align_up (GetUnfixedOutPointerSizeOffset m + NumUnfixedSizeOutHipcPointerBuffers args * 2) 4
      \<le> length (data_words r)"
    using p s by (simp add: parsed_def PrepareForProcess_success)
  then show "GetUnfixedOutPointerSizeOffset m +
      2 * length (filter (buffer_arg (\<lambda>a. takes_pointer Attr_Out a \<and> Attr_FixedSize \<notin> a)) args)
        \<le> length (data_words r)"
    unfolding c(5) [symmetric] using align_up_ge [of 4] by (metis mult.commute order_trans zero_less_numeral)
qed

section \<open>Buffers of an accepted request\<close>

lemma buffer_infos_in:
  assumes "(b, info) \<in> set (buffer_infos args)"
  obtains i where "i < length args" "args ! i = BufferArg b" "info = ArgumentSerializationInfos args ! i"
proof -
  from assms obtain a where "(a, info) \<in> set (zip args (ArgumentSerializationInfos args))" "a = BufferArg b"
    by (auto simp: buffer_infos_def split: arg.split_asm)
  then show thesis using that by (auto simp: set_zip)
qed

lemma length_buffer_infos: "length (buffer_infos args) = length (filter is_Buffer args)"
proof -
  have "length xs = length ys \<Longrightarrow>
      length (concat (map (\<lambda>(a, info). case a of BufferArg b \<Rightarrow> [(b, info)] | _ \<Rightarrow> []) (zip xs ys))) =
      length (filter is_Buffer xs)" for xs :: "arg list" and ys :: "ArgumentSerializationInfo list"
    by (induction xs ys rule: list_induct2) (simp_all add: is_Buffer_def GetArgumentType_def split: arg.split)
  then show ?thesis by (simp add: buffer_infos_def)
qed

lemma receive_pointer_ok:
  assumes "accepted r args m" and "i < length args" and "args ! i = BufferArg b"
    and "takes_pointer Attr_Out (BufferAttributes b)"
  shows "\<exists>n. receive_pointer r m (BufferAttributes b) (ArgumentSerializationInfos args ! i) p = take_pointer n p"
proof (cases "Attr_FixedSize \<in> BufferAttributes b")
  case False
  then have "unfixed_recv_pointer_index (ArgumentSerializationInfos args ! i) <
      length (filter (buffer_arg (\<lambda>a. takes_pointer Attr_Out a \<and> Attr_FixedSize \<notin> a)) args)"
    using assms by (intro unfixed_out.index_less) simp_all
  with accepted_counts(6) [OF assms(1)]
  have "GetUnfixedOutPointerSizeOffset m +
      2 * unfixed_recv_pointer_index (ArgumentSerializationInfos args ! i) + 2 \<le> length (data_words r)"
    by linarith
  then show ?thesis using False unfolding receive_pointer_def by auto
qed (auto simp: receive_pointer_def)

lemma ProcessBufferImpl_ok:
  assumes "accepted r args m" and "(b, info) \<in> set (buffer_infos args)"
  shows "\<exists>y. ProcessBufferImpl r m (BufferAttributes b) info p = Inr y"
proof -
  obtain i where i: "i < length args" "args ! i = BufferArg b" "info = ArgumentSerializationInfos args ! i"
    using assms(2) by (rule buffer_infos_in)
  have ok: "buffer_ok (BufferAttributes b)"
    using assms(1) i nth_mem [OF i(1)] by (auto simp: accepted_def well_formed_def)
  note c = accepted_counts [OF assms(1)]
  let ?a = "BufferAttributes b"
  have send: "takes_map Attr_In ?a \<Longrightarrow> send_map_alias_index info < length (send_buffers r)"
    and recv: "takes_map Attr_Out ?a \<Longrightarrow> recv_map_alias_index info < length (recv_buffers r)"
    and static: "takes_pointer Attr_In ?a \<Longrightarrow> send_pointer_index info < length (send_statics r)"
    unfolding c i(3) using i maps_in.index_less [of i args] maps_out.index_less [of i args]
      pointers_in.index_less [of i args] by auto
  have pointer: "takes_pointer Attr_Out ?a \<Longrightarrow> \<exists>n. receive_pointer r m ?a info p = take_pointer n p"
    unfolding i(3) using receive_pointer_ok [OF assms(1) i(1,2)] by blast
  have done': "\<exists>y. take_mapped a d p = Inr y" "\<exists>y. take_sent s p = Inr y" "\<exists>y. take_pointer n p = Inr y"
    for a d s n
    by (auto simp: take_mapped_def take_sent_def take_pointer_def Let_def)
  have P: "takes_pointer Attr_Out ?a \<Longrightarrow> \<exists>y. receive_pointer r m ?a info p = Inr y"
    using pointer done'(3) by metis
  from ok show ?thesis
    using send recv static P done'
    by (auto simp: ProcessBufferImpl_def buffer_ok_def takes_map_def takes_pointer_def)
qed

lemma process_buffers_ok:
  "(\<And>b info p. (b, info) \<in> set bs \<Longrightarrow> \<exists>y. ProcessBufferImpl r m (BufferAttributes b) info p = Inr y) \<Longrightarrow>
   \<exists>out p'. process_buffers r m bs p = Inr (out, p') \<and> length out = length bs"
proof (induction bs arbitrary: p)
  case (Cons c bs)
  obtain b info where c: "c = (b, info)" by (cases c)
  obtain pas al p1 where 1: "ProcessBufferImpl r m (BufferAttributes b) info p = Inr (pas, al, p1)"
    using Cons.prems [of b info p] c by auto
  obtain out p2 where "process_buffers r m bs p1 = Inr (out, p2)" "length out = length bs"
    using Cons.IH [of p1] Cons.prems by auto
  then show ?case using 1 c by simp
qed simp

lemma ProcessBuffers_ok:
  assumes "accepted r args m"
  obtains rc buffers where "ProcessBuffers r m pointer_buffer args = Inr (rc, buffers)"
    "length buffers = length (filter is_Buffer args)"
proof -
  note ok = ProcessBufferImpl_ok [OF assms]
  obtain out p' where p: "process_buffers r m (buffer_infos args)
       \<lparr>map_alias_buffers_valid = True,
        pointer_head = pas_address pointer_buffer + pas_size pointer_buffer,
        pointer_tail = pas_address pointer_buffer\<rparr> = Inr (out, p')"
      and l: "length out = length (buffer_infos args)"
    using process_buffers_ok [OF ok] by blast
  have "\<exists>rc. ProcessBuffers r m pointer_buffer args = Inr (rc, out)"
    using p by (simp add: ProcessBuffers_def)
  then show thesis using that l length_buffer_infos by metis
qed

section \<open>Places of raw data\<close>

lemma positive_aligns:
  assumes "well_formed args"
  shows "\<forall>t \<in> set (InDatas args). 0 < align_of t" and "\<forall>t \<in> set (OutDatas args). 0 < align_of t"
  using assms by (fastforce simp: well_formed_def InDatas_def OutDatas_def split: arg.split_asm)+

lemma InData_layout: "well_formed args \<Longrightarrow> layout_ok (InDatas args) (InDataOffsets args)"
  unfolding InDataOffsets_def by (rule Offsets_ok [OF positive_aligns(1)])

lemma OutData_layout: "well_formed args \<Longrightarrow> layout_ok (OutDatas args) (OutDataOffsets args)"
  unfolding OutDataOffsets_def by (rule Offsets_ok [OF positive_aligns(2)])

lemma InDataSize_ge: "InDataOffsets args ! length (InDatas args) \<le> InDataSize args"
  unfolding InDataSize_def by (rule align_up_ge) simp

lemma OutDataSize_ge: "OutDataOffsets args ! length (OutDatas args) \<le> OutDataSize args"
  unfolding OutDataSize_def by (rule align_up_ge) simp

lemma InData_index:
  assumes "i < length args" and "args ! i = InDataArg t"
  shows "in_raw_data_index (ArgumentSerializationInfos args ! i) < length (InDatas args)"
    and "InDatas args ! in_raw_data_index (ArgumentSerializationInfos args ! i) = t"
  using raw_in.index_less [OF assms(1)] raw_in.index_nth [OF assms(1)] assms(2)
  by (simp_all add: InDatas_filter is_InData_def GetArgumentType_def)

lemma OutData_index:
  assumes "i < length args" and "args ! i = OutDataArg t"
  shows "out_raw_data_index (ArgumentSerializationInfos args ! i) < length (OutDatas args)"
    and "OutDatas args ! out_raw_data_index (ArgumentSerializationInfos args ! i) = t"
  using raw_out.index_less [OF assms(1)] raw_out.index_nth [OF assms(1)] assms(2)
  by (simp_all add: OutDatas_filter is_OutData_def GetArgumentType_def)

section \<open>Arguments of an accepted request\<close>

lemma map_run_ok:
  "(\<And>x. x \<in> set xs \<Longrightarrow> \<exists>y. f x = Inr y) \<Longrightarrow> \<exists>ys. map_run f xs = Inr ys"
proof (induction xs)
  case (Cons x xs)
  obtain y where "f x = Inr y" using Cons.prems [of x] by auto
  moreover obtain ys where "map_run f xs = Inr ys" using Cons by auto
  ultimately show ?case by simp
qed simp

lemma map_run_nth:
  "map_run f xs = Inr ys \<Longrightarrow> length ys = length xs \<and> (\<forall>i < length xs. f (xs ! i) = Inr (ys ! i))"
proof (induction xs arbitrary: ys)
  case (Cons x xs)
  then obtain z zs where z: "f x = Inr z" "map_run f xs = Inr zs" "ys = z # zs"
    by (auto simp: then_run_eq_Inr)
  have "length zs = length xs" "\<forall>i < length xs. f (xs ! i) = Inr (zs ! i)" using Cons.IH [OF z(2)] by auto
  then show ?case using z by (auto simp: less_Suc_eq_0_disj)
qed simp

lemma InData_place:
  assumes "well_formed args" and "i < length args" and "args ! i = InDataArg t"
  defines "offset \<equiv> InDataOffsets args ! in_raw_data_index (ArgumentSerializationInfos args ! i)"
  shows "offset + size_of t \<le> InDataSize args" and "align_of t dvd offset"
  using InData_layout [OF assms(1)] InData_index [OF assms(2,3)] InDataSize_ge [of args]
  unfolding layout_ok_def offset_def by force+

lemma OutData_place:
  assumes "well_formed args" and "i < length args" and "args ! i = OutDataArg t"
  defines "offset \<equiv> OutDataOffsets args ! out_raw_data_index (ArgumentSerializationInfos args ! i)"
  shows "offset + size_of t \<le> OutDataSize args" and "align_of t dvd offset"
  using OutData_layout [OF assms(1)] OutData_index [OF assms(2,3)] OutDataSize_ge [of args]
  unfolding layout_ok_def offset_def by force+

lemma DeserializeArgumentImpl_ok:
  assumes "accepted r args m" and "InDataSize args \<le> length in_raw_data"
    and "length buffers = length (filter is_Buffer args)" and "i < length args"
  shows "\<exists>v. DeserializeArgumentImpl r in_raw_data args buffers (args ! i) (ArgumentSerializationInfos args ! i) = Inr v"
proof -
  have wf: "well_formed args" using assms(1) by (simp add: accepted_def)
  note c = accepted_counts [OF assms(1)]
  show ?thesis
  proof (cases "args ! i")
    case (InDataArg t)
    have "InDataOffsets args ! in_raw_data_index (ArgumentSerializationInfos args ! i) + size_of t
        \<le> length in_raw_data"
      using InData_place(1) [OF wf assms(4) InDataArg] assms(2) by linarith
    then show ?thesis
      using InDataArg by (cases "t = BoolData") (simp_all add: DeserializeArgumentImpl_def size_of_def Let_def)
  next
    case (BufferArg b)
    then have "buffer_index (ArgumentSerializationInfos args ! i) < length buffers"
      unfolding assms(3) using assms(4) by (intro buffers.index_less) (simp_all add: is_Buffer_def GetArgumentType_def)
    then show ?thesis
      using BufferArg by (simp add: DeserializeArgumentImpl_def split_beta)
  next
    case InMoveHandle
    then show ?thesis
      using c(4) move_in.index_less [OF assms(4)] by (simp add: DeserializeArgumentImpl_def)
  next
    case InCopyHandle
    then show ?thesis
      using c(5) copy_in.index_less [OF assms(4)] by (simp add: DeserializeArgumentImpl_def)
  qed (simp_all add: DeserializeArgumentImpl_def)
qed

lemma DeserializeArguments_ok:
  assumes "accepted r args m" and "InDataSize args \<le> length in_raw_data"
    and "length buffers = length (filter is_Buffer args)"
  obtains vs where "DeserializeArguments r in_raw_data args buffers = Inr vs"
proof -
  have "\<exists>y. (case x of (a, info) \<Rightarrow> DeserializeArgumentImpl r in_raw_data args buffers a info) = Inr y"
    if "x \<in> set (zip args (ArgumentSerializationInfos args))" for x
    using that DeserializeArgumentImpl_ok [OF assms] by (auto simp: set_zip)
  then have "\<exists>ys. DeserializeArguments r in_raw_data args buffers = Inr ys"
    unfolding DeserializeArguments_def by (rule map_run_ok)
  then show thesis using that by blast
qed

section \<open>Raw data written and read\<close>

lemma write_raw_length: "write_raw ws raw = Inr raw' \<Longrightarrow> length raw' = length raw"
  by (induction ws raw rule: write_raw.induct) (auto split: if_splits)

lemma write_raw_ok: "\<forall>(i, b) \<in> set ws. i + length b \<le> length raw \<Longrightarrow> \<exists>raw'. write_raw ws raw = Inr raw'"
proof (induction ws raw rule: write_raw.induct)
  case (2 i b ws raw)
  then have "\<exists>raw'. write_raw ws (take i raw @ b @ drop (i + length b) raw) = Inr raw'"
    by (intro 2) auto
  then show ?case using 2 by simp
qed simp

definition apart :: "nat \<times> u8 list \<Rightarrow> nat \<times> u8 list \<Rightarrow> bool" where
  "apart = (\<lambda>(i, b) (j, c). i + length b \<le> j \<or> j + length c \<le> i)"

lemma write_raw_other:
  "write_raw ws raw = Inr raw' \<Longrightarrow> \<forall>(i, b) \<in> set ws. k < i \<or> i + length b \<le> k \<Longrightarrow> k < length raw \<Longrightarrow>
   raw' ! k = raw ! k"
proof (induction ws raw rule: write_raw.induct)
  case (2 i b ws raw)
  from 2(2) have w: "write_raw ws (take i raw @ b @ drop (i + length b) raw) = Inr raw'"
    and l: "i + length b \<le> length raw"
    by (auto split: if_splits)
  have "raw' ! k = (take i raw @ b @ drop (i + length b) raw) ! k"
    using 2(3,4) l by (intro 2(1) [OF l w]) auto
  also have "\<dots> = raw ! k" using 2(3,4) l by (auto simp: nth_append)
  finally show ?case .
qed simp

lemma write_raw_read:
  "write_raw ws raw = Inr raw' \<Longrightarrow> sorted_wrt apart ws \<Longrightarrow> (i, b) \<in> set ws \<Longrightarrow>
   take (length b) (drop i raw') = b"
proof (induction ws raw rule: write_raw.induct)
  case (2 j c ws raw)
  let ?raw = "take j raw @ c @ drop (j + length c) raw"
  from 2(2) have w: "write_raw ws ?raw = Inr raw'" and l: "j + length c \<le> length raw"
    by (auto split: if_splits)
  have len: "length raw' = length raw" using write_raw_length [OF w] l by simp
  show ?case
  proof (cases "(i, b) \<in> set ws")
    case True
    then show ?thesis using 2(1) [OF l w] 2(3) by simp
  next
    case False
    then have [simp]: "i = j" "b = c" using 2(4) by auto
    have "raw' ! (j + k) = c ! k" if "k < length c" for k
    proof -
      have "raw' ! (j + k) = ?raw ! (j + k)"
        using 2(3) that l by (intro write_raw_other [OF w]) (auto simp: apart_def)
      then show ?thesis using that l by (simp add: nth_append)
    qed
    then show ?thesis using l len by (auto intro!: nth_equalityI)
  qed
qed simp

text \<open>A layout keeps the values apart, so that writing all of them is writing each.\<close>

lemma layout_apart:
  assumes "layout_ok ts offs" and "length vs = length ts" and "\<forall>i < length ts. length (vs ! i) = size_of (ts ! i)"
  shows "sorted_wrt apart (zip offs vs)"
  unfolding sorted_wrt_iff_nth_less using assms by (auto simp: layout_ok_def apart_def)

lemma layout_write:
  assumes "layout_ok ts offs" and "length vs = length ts" and "\<forall>i < length ts. length (vs ! i) = size_of (ts ! i)"
    and "offs ! length ts \<le> length raw"
  obtains raw' where "write_raw (zip offs vs) raw = Inr raw'" "length raw' = length raw"
    "\<forall>i < length ts. take (size_of (ts ! i)) (drop (offs ! i) raw') = vs ! i"
proof -
  have "\<exists>raw'. write_raw (zip offs vs) raw = Inr raw'"
    using assms by (intro write_raw_ok) (fastforce simp: layout_ok_def in_set_zip)
  then obtain raw' where w: "write_raw (zip offs vs) raw = Inr raw'" by blast
  have "take (size_of (ts ! i)) (drop (offs ! i) raw') = vs ! i" if "i < length ts" for i
  proof -
    have "(offs ! i, vs ! i) \<in> set (zip offs vs)"
      using that assms(1,2) by (auto simp: in_set_zip layout_ok_def intro!: exI [of _ i])
    then show ?thesis
      using write_raw_read [OF w layout_apart [OF assms(1-3)]] assms(3) that by fastforce
  qed
  then show thesis using that w write_raw_length [OF w] by blast
qed

section \<open>Replies\<close>

text \<open>A method writes through the pointers it was given, with the types of its parameters.\<close>

definition outputs_ok :: "arg list \<Rightarrow> 'o outputs \<Rightarrow> bool" where
  "outputs_ok args out \<longleftrightarrow>
     (\<forall>(offset, b) \<in> set (raw_writes out). \<exists>i < length args. \<exists>t. args ! i = OutDataArg t \<and>
        offset = OutDataOffsets args ! out_raw_data_index (ArgumentSerializationInfos args ! i) \<and>
        length b = size_of t) \<and>
     (\<forall>(i, h) \<in> set (move_writes out). i < length (filter ((=) OutMoveHandle) args)) \<and>
     (\<forall>(i, h) \<in> set (copy_writes out). i < length (filter ((=) OutCopyHandle) args)) \<and>
     (\<forall>(i, h) \<in> set (object_writes out). i < length (of_type OutObject args))"

lemma write_entries_length: "write_entries ws xs = Inr ys \<Longrightarrow> length ys = length xs"
  by (induction ws xs rule: write_entries.induct) (auto simp: then_run_eq_Inr write_entry_def split: if_splits)

lemma write_entries_ok:
  "\<forall>(i, x) \<in> set ws. i < length xs \<Longrightarrow> \<exists>ys. write_entries ws xs = Inr ys"
  by (induction ws xs rule: write_entries.induct) auto

lemma write_entries_keep:
  "write_entries ws xs = Inr ys \<Longrightarrow> \<forall>(i, x) \<in> set ws. x \<noteq> None \<Longrightarrow> k < length xs \<Longrightarrow>
   xs ! k \<noteq> None \<or> k \<in> fst ` set ws \<Longrightarrow> ys ! k \<noteq> None"
proof (induction ws xs rule: write_entries.induct)
  case (2 i x ws xs)
  then have i: "i < length xs" and w: "write_entries ws (xs[i := x]) = Inr ys"
    by (auto simp: then_run_eq_Inr write_entry_def split: if_splits)
  have "xs[i := x] ! k \<noteq> None \<or> k \<in> fst ` set ws"
    using 2(3-5) by (cases "k = i") auto
  with 2(1) [OF w] 2(3,4) show ?case by simp
qed simp

lemma SetOutBufferImpl_ok:
  assumes "well_formed args" and "(b, info) \<in> set (buffer_infos args)"
    and "length statics = length (filter (buffer_arg (takes_pointer Attr_Out)) args)"
  shows "\<exists>st. SetOutBufferImpl b info x statics = Inr st \<and> length st = length statics \<and>
      (takes_pointer Attr_Out (BufferAttributes b) \<longrightarrow> st ! recv_pointer_index info \<noteq> None) \<and>
      (\<forall>k. statics ! k \<noteq> None \<longrightarrow> k < length statics \<longrightarrow> st ! k \<noteq> None)"
proof -
  obtain i where i: "i < length args" "args ! i = BufferArg b" "info = ArgumentSerializationInfos args ! i"
    using assms(2) by (rule buffer_infos_in)
  have ok: "buffer_ok (BufferAttributes b)"
    using assms(1) i nth_mem [OF i(1)] by (auto simp: well_formed_def)
  have "takes_pointer Attr_Out (BufferAttributes b) \<Longrightarrow> recv_pointer_index info < length statics"
    unfolding assms(3) i(3) using i by (intro pointers_out.index_less) simp_all
  then show ?thesis
    using ok by (cases x) (auto simp: SetOutBufferImpl_def Let_def takes_pointer_def buffer_ok_def nth_list_update)
qed

lemma set_out_buffers_ok:
  assumes "well_formed args" and "set (map fst bs) \<subseteq> set (buffer_infos args)"
    and "length statics = length (filter (buffer_arg (takes_pointer Attr_Out)) args)"
  shows "\<exists>st. set_out_buffers bs statics = Inr st \<and> length st = length statics \<and>
      (\<forall>(b, info) \<in> set (map fst bs). takes_pointer Attr_Out (BufferAttributes b) \<longrightarrow>
         st ! recv_pointer_index info \<noteq> None) \<and>
      (\<forall>k. statics ! k \<noteq> None \<longrightarrow> k < length statics \<longrightarrow> st ! k \<noteq> None)"
  using assms(2,3)
proof (induction bs arbitrary: statics)
  case (Cons c bs)
  obtain b info x where c: "c = ((b, info), x)" by (metis prod.exhaust)
  obtain st where st: "SetOutBufferImpl b info x statics = Inr st" "length st = length statics"
      "takes_pointer Attr_Out (BufferAttributes b) \<longrightarrow> st ! recv_pointer_index info \<noteq> None"
      "\<forall>k. statics ! k \<noteq> None \<longrightarrow> k < length statics \<longrightarrow> st ! k \<noteq> None"
    using SetOutBufferImpl_ok [OF assms(1) _ Cons.prems(2), of b info x] Cons.prems(1) c by auto
  obtain st' where st': "set_out_buffers bs st = Inr st'" "length st' = length st"
      "\<forall>(b, info) \<in> set (map fst bs). takes_pointer Attr_Out (BufferAttributes b) \<longrightarrow>
         st' ! recv_pointer_index info \<noteq> None"
      "\<forall>k. st ! k \<noteq> None \<longrightarrow> k < length st \<longrightarrow> st' ! k \<noteq> None"
    using Cons.IH [of st] Cons.prems st(2) by auto
  have "takes_pointer Attr_Out (BufferAttributes b) \<Longrightarrow> recv_pointer_index info < length statics"
  proof -
    assume t: "takes_pointer Attr_Out (BufferAttributes b)"
    obtain i where "i < length args" "args ! i = BufferArg b" "info = ArgumentSerializationInfos args ! i"
      using Cons.prems(1) c by (auto elim: buffer_infos_in)
    then show "recv_pointer_index info < length statics"
      unfolding Cons.prems(2) using t by (auto intro!: pointers_out.index_less)
  qed
  then show ?case using st st' by (auto simp: c)
qed simp

text \<open>Sessions for objects: the calls come back, or abort.\<close>

definition sessions_total :: "('o, 'g) session_calls \<Rightarrow> bool" where
  "sessions_total c \<longleftrightarrow> (\<forall>g f. create_session c g = Inl f \<longrightarrow> f = Abort) \<and>
     (\<forall>h obj g f. register_session c h obj g = Inl f \<longrightarrow> f = Abort)"

lemma SetOutObjectImpl_ok:
  assumes "sessions_total c" and "i < length moves"
  shows "SetOutObjectImpl l c i obj (moves, g) = Inl Abort \<or>
    (\<exists>h g'. SetOutObjectImpl l c i obj (moves, g) = Inr (moves[i := Some h], g'))"
proof (cases obj)
  case None
  then show ?thesis using assms(2) by (auto simp: SetOutObjectImpl_def)
next
  case (Some o')
  show ?thesis
  proof (cases "create_session c g")
    case (Inl f)
    then have "f = Abort" using assms(1) by (auto simp: sessions_total_def)
    then show ?thesis using Some Inl by (simp add: SetOutObjectImpl_def)
  next
    case (Inr y)
    obtain rc sh ch g1 where y: "y = (rc, (sh, ch), g1)" by (metis prod.exhaust)
    show ?thesis
    proof (cases "register_session c sh o' g1")
      case (Inl f)
      then have "f = Abort" using assms(1) by (auto simp: sessions_total_def)
      then show ?thesis using Some Inr Inl y by (simp add: SetOutObjectImpl_def)
    next
      case (Inr z)
      obtain rc' g2 where "z = (rc', g2)" by (cases z)
      then show ?thesis
        using Some Inr y assms(2) \<open>create_session c g = Inr _\<close>
        by (cases "R_FAILED rc"; cases "R_FAILED rc'") (auto simp: SetOutObjectImpl_def)
    qed
  qed
qed

lemma set_out_objects_ok:
  assumes "sessions_total c"
  shows "i + length objs \<le> length moves \<Longrightarrow>
    set_out_objects l c i objs (moves, g) = Inl Abort \<or>
    (\<exists>moves' g'. set_out_objects l c i objs (moves, g) = Inr (moves', g') \<and> length moves' = length moves \<and>
       (\<forall>k < length moves. moves ! k \<noteq> None \<or> i \<le> k \<and> k < i + length objs \<longrightarrow> moves' ! k \<noteq> None))"
proof (induction objs arbitrary: i moves g)
  case (Cons obj objs)
  from Cons.prems have "i < length moves" by simp
  from SetOutObjectImpl_ok [OF assms this, of l obj g] show ?case
  proof (elim disjE exE)
    fix h g1
    assume 1: "SetOutObjectImpl l c i obj (moves, g) = Inr (moves[i := Some h], g1)"
    have "Suc i + length objs \<le> length (moves[i := Some h])" using Cons.prems by simp
    from Cons.IH [OF this, of g1] show ?thesis
    proof (elim disjE exE conjE)
      fix moves' g'
      assume 2: "set_out_objects l c (Suc i) objs (moves[i := Some h], g1) = Inr (moves', g')"
        "length moves' = length (moves[i := Some h])"
        "\<forall>k < length (moves[i := Some h]). moves[i := Some h] ! k \<noteq> None \<or>
           Suc i \<le> k \<and> k < Suc i + length objs \<longrightarrow> moves' ! k \<noteq> None"
      have "moves' ! k \<noteq> None"
        if "k < length moves" "moves ! k \<noteq> None \<or> i \<le> k \<and> k < i + length (obj # objs)" for k
      proof -
        have "moves[i := Some h] ! k \<noteq> None \<or> Suc i \<le> k \<and> k < Suc i + length objs"
          using that by (cases "k = i") auto
        then show ?thesis using 2(3) that(1) by auto
      qed
      then show ?thesis using 1 2(1,2) by simp
    qed (use 1 in simp)
  qed simp
qed auto

text \<open>Nothing of the old contents of the message buffer is left where the reply has something.\<close>

definition complete :: "HipcResponse \<Rightarrow> bool" where
  "complete response \<longleftrightarrow> None \<notin> set (rsp_send_statics response) \<and> None \<notin> set (rsp_copy_handles response) \<and>
     None \<notin> set (rsp_move_handles response) \<and> rsp_raw_data response \<noteq> None"

lemma None_notin_iff: "None \<notin> set xs \<longleftrightarrow> (\<forall>k < length xs. xs ! k \<noteq> None)"
  by (metis in_set_conv_nth)

lemma SetOutBuffers_ok:
  assumes "well_formed args" and "length buffers = length (filter is_Buffer args)"
    and "length (rsp_send_statics response) = length (filter (buffer_arg (takes_pointer Attr_Out)) args)"
  obtains st where "SetOutBuffers args buffers response = Inr (response\<lparr>rsp_send_statics := st\<rparr>)"
    "None \<notin> set st"
proof -
  have l: "length (buffer_infos args) = length buffers"
    using assms(2) by (simp add: length_buffer_infos)
  then have z: "map fst (zip (buffer_infos args) buffers) = buffer_infos args"
    by (simp add: map_fst_zip)
  then have "set (map fst (zip (buffer_infos args) buffers)) \<subseteq> set (buffer_infos args)" by simp
  from set_out_buffers_ok [OF assms(1) this assms(3)]
  obtain st where st: "set_out_buffers (zip (buffer_infos args) buffers) (rsp_send_statics response) = Inr st"
      "length st = length (rsp_send_statics response)"
      "\<forall>(b, info) \<in> set (buffer_infos args). takes_pointer Attr_Out (BufferAttributes b) \<longrightarrow>
         st ! recv_pointer_index info \<noteq> None"
    unfolding z by auto
  have "st ! n \<noteq> None" if "n < length st" for n
  proof -
    have "n < length (filter (buffer_arg (takes_pointer Attr_Out)) args)" using that st(2) assms(3) by simp
    then obtain i where i: "i < length args" "buffer_arg (takes_pointer Attr_Out) (args ! i)"
        "recv_pointer_index (ArgumentSerializationInfos args ! i) = n"
      using pointers_out.index_onto by blast
    then obtain b where b: "args ! i = BufferArg b" "takes_pointer Attr_Out (BufferAttributes b)"
      by (auto simp: buffer_arg_def split: arg.split_asm)
    have "(BufferArg b, ArgumentSerializationInfos args ! i) \<in> set (zip args (ArgumentSerializationInfos args))"
      using i(1) b(1) by (auto simp: in_set_zip)
    then have "(b, ArgumentSerializationInfos args ! i) \<in> set (buffer_infos args)"
      by (force simp: buffer_infos_def)
    then show ?thesis using st(3) b(2) i(3) by auto
  qed
  then have "None \<notin> set st" by (simp add: None_notin_iff)
  then show thesis using that st(1) by (simp add: SetOutBuffers_def)
qed

lemma OutHandleHolder_CopyTo_ok:
  assumes "length (rsp_copy_handles response) = length copies"
    and "length (rsp_move_handles response) = length moves + n"
  obtains cs ms where
    "OutHandleHolder_CopyTo moves copies n response = Inr (response\<lparr>rsp_copy_handles := cs, rsp_move_handles := ms\<rparr>)"
    "None \<notin> set cs" "length ms = length moves + n" "\<forall>k. n \<le> k \<longrightarrow> k < length moves + n \<longrightarrow> ms ! k \<noteq> None"
proof -
  let ?cw = "zip [0..<length copies] (map Some copies)"
  let ?mw = "zip (map (\<lambda>k. k + n) [0..<length moves]) (map Some moves)"
  have "\<forall>(i, x) \<in> set ?cw. i < length (rsp_copy_handles response)"
    using assms(1) by (auto dest: set_zip_leftD)
  then obtain cs where c: "write_entries ?cw (rsp_copy_handles response) = Inr cs"
    using write_entries_ok by blast
  have "\<forall>(i, x) \<in> set ?mw. i < length (rsp_move_handles response)"
    using assms(2) by (auto dest: set_zip_leftD)
  then obtain ms where m: "write_entries ?mw (rsp_move_handles response) = Inr ms"
    using write_entries_ok by blast
  have some: "\<forall>(i, x) \<in> set ?cw. x \<noteq> None" "\<forall>(i, x) \<in> set ?mw. x \<noteq> None"
    by (auto dest!: set_zip_rightD)
  have fc: "fst ` set ?cw = {0..<length copies}" and fm: "fst ` set ?mw = {n..<length moves + n}"
    by (simp_all add: set_map [symmetric] del: set_map) (auto simp: image_add_atLeastLessThan' add.commute)
  have "None \<notin> set cs"
    unfolding None_notin_iff write_entries_length [OF c]
    using write_entries_keep [OF c some(1)] fc assms(1) by auto
  moreover have "\<forall>k. n \<le> k \<longrightarrow> k < length moves + n \<longrightarrow> ms ! k \<noteq> None"
    using write_entries_keep [OF m some(2)] fm assms(2) by auto
  moreover have "OutHandleHolder_CopyTo moves copies n response =
      Inr (response\<lparr>rsp_copy_handles := cs, rsp_move_handles := ms\<rparr>)"
    using c m by (simp add: OutHandleHolder_CopyTo_def)
  ultimately show thesis
    using that write_entries_length [OF m] assms(2) by metis
qed

lemma write_entries_replicate:
  assumes "\<forall>(i, x) \<in> set ws. i < n"
  obtains ys where "write_entries ws (replicate n z) = Inr ys" "length ys = n"
  using write_entries_ok [of ws "replicate n z"] write_entries_length [of ws "replicate n z"] assms that by auto

lemma PrepareForReply_parts:
  assumes "well_formed args" and "m = CommandRuntimeMetadata h (CMIF_OUT_HEADER_SIZE l) args"
  obtains r where "PrepareForReply args m = (r, OutDataSize args + CMIF_OUT_HEADER_SIZE l)"
    "length (rsp_send_statics r) = length (filter (buffer_arg (takes_pointer Attr_Out)) args)"
    "length (rsp_copy_handles r) = length (filter ((=) OutCopyHandle) args)"
    "length (rsp_move_handles r) = length (filter ((=) OutMoveHandle) args) + length (of_type OutObject args)"
proof -
  obtain r n where r: "PrepareForReply args m = (r, n)" by (cases "PrepareForReply args m")
  then show thesis
    by (intro that [of r]) (auto simp: PrepareForReply_def Let_def assms(2) CommandRuntimeMetadata_def
        hipcMakeResponse_def counts_of_ok(4) [OF assms(1)])
qed

lemma outputs_raw:
  assumes "well_formed args" and "outputs_ok args out"
  obtains raw where "write_raw (raw_writes out) (replicate (OutDataSize args) 0) = Inr raw"
    "length raw = OutDataSize args"
proof -
  have "offset + length b \<le> OutDataSize args" if "(offset, b) \<in> set (raw_writes out)" for offset b
    using that assms(2) OutData_place(1) [OF assms(1)] by (fastforce simp: outputs_ok_def)
  then have "\<forall>(i, b) \<in> set (raw_writes out). i + length b \<le> length (replicate (OutDataSize args) (0 :: u8))" by auto
  then obtain raw where "write_raw (raw_writes out) (replicate (OutDataSize args) 0) = Inr raw"
    using write_raw_ok by blast
  from this write_raw_length [OF this] show thesis by (intro that) simp_all
qed

text \<open>Up to the objects, the encoding of a reply always comes through.\<close>

lemma encode_reply_objects:
  assumes wf: "well_formed args" and out: "outputs_ok args out"
    and len: "length buffers = length (filter is_Buffer args)"
    and m: "m = CommandRuntimeMetadata h (CMIF_OUT_HEADER_SIZE l) args"
  obtains objs ms response raw where
    "\<And>g. encode_reply l c args m buffers out g = then_run (set_out_objects l c 0 objs (ms, g)) (\<lambda>(moves, g).
       Inr (ResultSuccess, Some (response\<lparr>rsp_move_handles := moves\<rparr>), g))"
    "length objs \<le> length ms" "\<forall>k. length objs \<le> k \<longrightarrow> k < length ms \<longrightarrow> ms ! k \<noteq> None"
    "None \<notin> set (rsp_send_statics response)" "None \<notin> set (rsp_copy_handles response)"
    "rsp_raw_data response = Some raw" "length raw = OutDataSize args"
    "write_raw (raw_writes out) (replicate (OutDataSize args) 0) = Inr raw"
    "length objs = length (of_type OutObject args)"
proof -
  let ?copies = "length (filter ((=) OutCopyHandle) args)" and ?moves = "length (filter ((=) OutMoveHandle) args)"
  let ?objs = "length (of_type OutObject args)"
  let ?ow = "map (\<lambda>(i, obj). (i, Some obj)) (object_writes out)"
  have n: "out_object_count m = ?objs" by (simp add: m CommandRuntimeMetadata_def)
  obtain r where prep: "PrepareForReply args m = (r, OutDataSize args + CMIF_OUT_HEADER_SIZE l)"
    and lens: "length (rsp_send_statics r) = length (filter (buffer_arg (takes_pointer Attr_Out)) args)"
      "length (rsp_copy_handles r) = ?copies" "length (rsp_move_handles r) = ?moves + ?objs"
    by (rule PrepareForReply_parts [OF wf m])
  obtain raw where raw: "write_raw (raw_writes out) (replicate (OutDataSize args) 0) = Inr raw"
    "length raw = OutDataSize args"
    by (rule outputs_raw [OF wf out])
  have o: "\<forall>(i, x) \<in> set (move_writes out). i < ?moves" "\<forall>(i, x) \<in> set (copy_writes out). i < ?copies"
    "\<forall>(i, x) \<in> set ?ow. i < ?objs" using out by (auto simp: outputs_ok_def)
  obtain moves where moves: "write_entries (move_writes out) (replicate ?moves 0) = Inr moves" "length moves = ?moves"
    by (rule write_entries_replicate [OF o(1)])
  obtain copies where copies: "write_entries (copy_writes out) (replicate ?copies 0) = Inr copies"
    "length copies = ?copies"
    by (rule write_entries_replicate [OF o(2)])
  obtain objs where objs: "write_entries ?ow (replicate ?objs None) = Inr objs" "length objs = ?objs"
    by (rule write_entries_replicate [OF o(3)])
  have "length (rsp_send_statics (r\<lparr>rsp_raw_data := Some raw\<rparr>)) =
      length (filter (buffer_arg (takes_pointer Attr_Out)) args)" using lens(1) by simp
  then obtain st where st: "SetOutBuffers args buffers (r\<lparr>rsp_raw_data := Some raw\<rparr>) =
      Inr (r\<lparr>rsp_raw_data := Some raw, rsp_send_statics := st\<rparr>)" "None \<notin> set st"
    by (rule SetOutBuffers_ok [OF wf len])
  let ?r = "r\<lparr>rsp_raw_data := Some raw, rsp_send_statics := st\<rparr>"
  have "length (rsp_copy_handles ?r) = length copies" "length (rsp_move_handles ?r) = length moves + ?objs"
    using lens moves(2) copies(2) by simp_all
  then obtain cs ms where h: "OutHandleHolder_CopyTo moves copies ?objs ?r =
      Inr (?r\<lparr>rsp_copy_handles := cs, rsp_move_handles := ms\<rparr>)"
    "None \<notin> set cs" "length ms = length moves + ?objs"
    "\<forall>k. ?objs \<le> k \<longrightarrow> k < length moves + ?objs \<longrightarrow> ms ! k \<noteq> None"
    by (rule OutHandleHolder_CopyTo_ok)
  show thesis
    by (rule that [of objs ms "?r\<lparr>rsp_copy_handles := cs\<rparr>" raw])
      (use st h raw objs(2) in \<open>auto simp: encode_reply_def prep GetCmifOutHeaderPointer_def moves copies objs n\<close>)
qed

lemma encode_reply_ok:
  assumes "well_formed args" and "outputs_ok args out" and total: "sessions_total c"
    and "length buffers = length (filter is_Buffer args)"
    and "m = CommandRuntimeMetadata h (CMIF_OUT_HEADER_SIZE l) args"
  shows "encode_reply l c args m buffers out g = Inl Abort \<or>
    (\<exists>response g' raw. encode_reply l c args m buffers out g = Inr (ResultSuccess, Some response, g') \<and>
       complete response \<and> rsp_raw_data response = Some raw \<and> length raw = OutDataSize args \<and>
       write_raw (raw_writes out) (replicate (OutDataSize args) 0) = Inr raw)"
proof (rule encode_reply_objects [OF assms(1,2,4,5), where c = c])
  fix objs ms response raw
  assume reply: "\<And>g. encode_reply l c args m buffers out g = then_run (set_out_objects l c 0 objs (ms, g)) (\<lambda>(moves, g).
       Inr (ResultSuccess, Some (response\<lparr>rsp_move_handles := moves\<rparr>), g))"
    and ms: "length objs \<le> length ms" "\<forall>k. length objs \<le> k \<longrightarrow> k < length ms \<longrightarrow> ms ! k \<noteq> None"
    and rest: "None \<notin> set (rsp_send_statics response)" "None \<notin> set (rsp_copy_handles response)"
      "rsp_raw_data response = Some raw" "length raw = OutDataSize args"
      "write_raw (raw_writes out) (replicate (OutDataSize args) 0) = Inr raw"
  have "0 + length objs \<le> length ms" using ms(1) by simp
  from set_out_objects_ok [OF total this, of l g] show ?thesis
  proof (elim disjE exE conjE)
    fix ms' g'
    assume 1: "set_out_objects l c 0 objs (ms, g) = Inr (ms', g')" "length ms' = length ms"
      "\<forall>k < length ms. ms ! k \<noteq> None \<or> 0 \<le> k \<and> k < 0 + length objs \<longrightarrow> ms' ! k \<noteq> None"
    have "None \<notin> set ms'"
      unfolding None_notin_iff using 1(2,3) ms(2) by (metis add.left_neutral not_le zero_le)
    then have "complete (response\<lparr>rsp_move_handles := ms'\<rparr>)"
      using rest by (simp add: complete_def)
    then show ?thesis using 1(1) rest by (auto simp: reply)
  qed (simp add: reply)
qed

section \<open>Process identifiers\<close>

lemma marshal_process_ids_nth:
  "marshal_process_ids pid avs = (rc, vs) \<Longrightarrow> \<not> R_FAILED rc \<Longrightarrow>
   length vs = length avs \<and>
   (\<forall>i < length avs. \<not> R_FAILED (fst (marshal_argument pid (fst (avs ! i)) (snd (avs ! i)))) \<and>
      vs ! i = snd (marshal_argument pid (fst (avs ! i)) (snd (avs ! i))))"
proof (induction pid avs arbitrary: rc vs rule: marshal_process_ids.induct)
  case (2 pid a v rest)
  obtain rc1 v1 where 1: "marshal_argument pid a v = (rc1, v1)" by (cases "marshal_argument pid a v")
  obtain rc2 vs2 where r: "marshal_process_ids pid rest = (rc2, vs2)" by (cases "marshal_process_ids pid rest")
  have "\<not> R_FAILED rc1" "rc = rc2" "vs = v1 # vs2"
    using 2(2,3) 1 r by (auto split: if_splits)
  then show ?case
    using 2(1) [OF _ _ _ r] 2(3) 1 by (auto simp: less_Suc_eq_0_disj)
qed simp

lemma marshal_argument_simps:
  "\<not> R_FAILED (fst (marshal_argument pid (InDataArg ClientProcessId) (InValue b)))"
  "snd (marshal_argument pid (InDataArg ClientProcessId) (InValue b)) = InValue (le_bytes 8 pid)"
  "\<not> R_FAILED (fst (marshal_argument pid (InDataArg ClientAppletResourceUserId) (InValue b))) \<longleftrightarrow>
     le_word b = pid \<or> (le_word b :: u64) = 0"
  "snd (marshal_argument pid (InDataArg ClientAppletResourceUserId) (InValue b)) = InValue b"
  by (auto simp: marshal_argument_def IsProcessIdHolder_def MarshalProcessId_def R_FAILED_iff
      sf_ResultPreconditionViolation_def MakeValue_def)

end
