(* ===== verification/Messages.thy ===== *)
theory Messages
  imports SerializationFacts "HOL-Library.Sublist"
begin

text \<open>
  The properties of the generated code that reads requests and writes replies: the layout of raw
  data, what a request can make it read, what the caller finds in the reply, the pointer buffer, and
  the commands of the album under these rules.
\<close>

abbreviation runtime_metadata :: "sf_lib \<Rightarrow> arg list \<Rightarrow> RuntimeMetadata" where
  "runtime_metadata l args \<equiv> CommandRuntimeMetadata (CMIF_IN_HEADER_SIZE l) (CMIF_OUT_HEADER_SIZE l) args"

section \<open>The call\<close>

text \<open>
  What is known of a method: it comes back or takes the process down, and when it succeeds it has
  written through its own parameters. The raw data of a request are its data words less the header
  and the padding.
\<close>

definition call_ok :: "arg list \<Rightarrow> ('o, 'g) method_call \<Rightarrow> bool" where
  "call_ok args call \<longleftrightarrow> (\<forall>vs g. (\<forall>f. call vs g = Inl f \<longrightarrow> f = Abort) \<and>
     (\<forall>rc out g'. call vs g = Inr (rc, out, g') \<longrightarrow> \<not> R_FAILED rc \<longrightarrow> outputs_ok args out))"

lemma call_okD:
  assumes "call_ok args call"
  shows "call vs g = Inl f \<Longrightarrow> f = Abort"
    and "call vs g = Inr (rc, out, g') \<Longrightarrow> \<not> R_FAILED rc \<Longrightarrow> outputs_ok args out"
  using assms unfolding call_ok_def by blast+

definition raw_of :: "sf_lib \<Rightarrow> HipcRequest \<Rightarrow> u8 list \<Rightarrow> bool" where
  "raw_of l r in_raw_data \<longleftrightarrow>
     4 * num_data_words (hipc_meta r) \<le> length in_raw_data + CMIF_IN_HEADER_SIZE l + 0x10"

lemma accepted_raw:
  assumes "accepted r args (runtime_metadata l args)" and "raw_of l r in_raw_data"
  shows "InDataSize args \<le> length in_raw_data"
proof -
  have "align_up (InDataSize args + CMIF_IN_HEADER_SIZE l + 0x10 + NumUnfixedSizeOutHipcPointerBuffers args * 2) 4
      \<le> num_data_words (hipc_meta r) * 4"
    using assms(1)
    by (simp add: accepted_def PrepareForProcess_success GetUnfixedOutPointerSizeOffset_def CommandRuntimeMetadata_def)
  then have "InDataSize args + CMIF_IN_HEADER_SIZE l + 0x10 \<le> num_data_words (hipc_meta r) * 4"
    using align_up_ge [of 4] by (meson add_leE order_trans zero_less_numeral)
  then show ?thesis using assms(2) by (simp add: raw_of_def)
qed

lemma DeserializeArguments_nth:
  assumes "DeserializeArguments r raw args buffers = Inr vs"
  shows "length vs = length args"
    and "i < length args \<Longrightarrow>
      DeserializeArgumentImpl r raw args buffers (args ! i) (ArgumentSerializationInfos args ! i) = Inr (vs ! i)"
  using map_run_nth [OF assms [unfolded DeserializeArguments_def]] by auto

lemma invoke_cases:
  assumes "parsed r" and "well_formed args" and "raw_of l r in_raw_data"
  obtains (refused) rc where "R_FAILED rc"
      "\<And>call g. InvokeServiceCommandImpl l c args call r pb in_raw_data g = Inr (rc, None, g)"
    | (called) vs buffers sent where "length buffers = length (filter is_Buffer args)"
      "\<And>call g. InvokeServiceCommandImpl l c args call r pb in_raw_data g =
        then_run (call vs g) (\<lambda>(command_result, out, g).
          if R_FAILED command_result
          then Inr (command_result, Some (fst (PrepareForErrorReply (runtime_metadata l args))), g)
          else encode_reply l c args (runtime_metadata l args) buffers out g)"
      "DeserializeArguments r in_raw_data args buffers = Inr sent"
      "HasInProcessIdHolder args \<Longrightarrow> marshal_process_ids (hipc_pid r) (zip args sent) = (ResultSuccess, vs)"
proof (cases "R_FAILED (PrepareForProcess r args (runtime_metadata l args))")
  case True
  then show thesis using refused by (simp add: InvokeServiceCommandImpl_def)
next
  case False
  then have a: "accepted r args (runtime_metadata l args)"
    using assms by (simp add: accepted_def R_FAILED_iff)
  have objs: "in_object_count (runtime_metadata l args) = 0"
    using assms(2) by (auto simp: CommandRuntimeMetadata_def of_type_def GetArgumentType_def well_formed_def
        filter_empty_conv split: arg.splits)
  obtain rc buffers where b: "ProcessBuffers r (runtime_metadata l args) pb args = Inr (rc, buffers)"
    "length buffers = length (filter is_Buffer args)"
    by (rule ProcessBuffers_ok [OF a])
  obtain vs where vs: "DeserializeArguments r in_raw_data args buffers = Inr vs"
    by (rule DeserializeArguments_ok [OF a accepted_raw [OF a assms(3)] b(2)])
  obtain rc' vs' where m: "(if HasInProcessIdHolder args then marshal_process_ids (hipc_pid r) (zip args vs)
      else (ResultSuccess, vs)) = (rc', vs')" by (meson surj_pair)
  have header: "GetCmifOutHeaderPointer l (snd (PrepareForErrorReply (runtime_metadata l args))) = Inr 0"
    by (simp add: GetCmifOutHeaderPointer_def PrepareForErrorReply_def CommandRuntimeMetadata_def Let_def)
  have i: "InvokeServiceCommandImpl l c args call r pb in_raw_data g =
      (if R_FAILED rc then Inr (rc, None, g) else if R_FAILED rc' then Inr (rc', None, g)
       else then_run (call vs' g) (\<lambda>(command_result, out, g).
          if R_FAILED command_result
          then Inr (command_result, Some (fst (PrepareForErrorReply (runtime_metadata l args))), g)
          else encode_reply l c args (runtime_metadata l args) buffers out g))" for call g
    unfolding InvokeServiceCommandImpl_def Let_def using False b(1) vs m objs header
    by (cases "PrepareForErrorReply (runtime_metadata l args)") (auto intro!: arg_cong [where f = "then_run _"] ext)
  show thesis
  proof (cases "R_FAILED rc")
    case True
    then show thesis by (intro refused [of rc]) (simp_all add: i)
  next
    case ok: False
    show thesis
    proof (cases "R_FAILED rc'")
      case True
      then show thesis using ok by (intro refused [of rc']) (simp_all add: i)
    next
      case False
      then show thesis using ok b(2) b(1) vs m
        by (intro called [of buffers vs' vs]) (simp_all add: i R_FAILED_iff)
    qed
  qed
qed

section \<open>The pointer buffer\<close>

text \<open>The buffers that a request took from the pointer buffer for output, in order.\<close>

fun pointer_outputs ::
  "(buffer_class \<times> ArgumentSerializationInfo) list \<Rightarrow> (PointerAndSize \<times> bool) list \<Rightarrow> PointerAndSize list" where
  "pointer_outputs ((b, info) # bs) ((pas, is_map_alias) # outs) =
     (if takes_pointer Attr_Out (BufferAttributes b) \<and> \<not> is_map_alias then [pas] else []) @ pointer_outputs bs outs"
| "pointer_outputs _ _ = []"

definition pas_end :: "PointerAndSize \<Rightarrow> nat" where
  "pas_end x = unat (pas_address x) + unat (pas_size x)"

lemma take_pointer_down:
  assumes "unat n \<le> k" and "k + 15 \<le> unat (pointer_head p)"
  defines "head \<equiv> AlignDown (pointer_head p - n) 0x10"
  shows "unat head + unat n \<le> unat (pointer_head p)" and "16 dvd unat head"
    and "unat (pointer_head p) - (k + 15) \<le> unat head"
proof -
  have s: "unat (pointer_head p - n) = unat (pointer_head p) - unat n"
    using assms(1,2) by (intro unat_sub) (simp add: word_le_nat_alt)
  have h: "unat head = (unat (pointer_head p) - unat n) div 16 * 16"
    using AlignDown_unat [of 4 "pointer_head p - n"] by (simp add: head_def s)
  show "16 dvd unat head" by (simp add: h)
  show "unat head + unat n \<le> unat (pointer_head p)"
    using assms(1,2) div_times_less_eq_dividend [of "unat (pointer_head p) - unat n" 16] unfolding h by linarith
  have "unat (pointer_head p) - unat n < (unat (pointer_head p) - unat n) div 16 * 16 + 16"
    using div_mult_mod_eq [of "unat (pointer_head p) - unat n" 16] mod_less_divisor [of 16] by (metis add_less_cancel_left zero_less_numeral)
  then show "unat (pointer_head p) - (k + 15) \<le> unat head"
    using assms(1,2) unfolding h by linarith
qed

text \<open>
  One buffer: either the head stays and the buffer is none of those, or the buffer is what
  \<open>take_pointer\<close> made, of at most \<open>0xFFFF\<close> bytes or of the fixed size.
\<close>

lemma ProcessBufferImpl_pointer:
  assumes "ProcessBufferImpl r m a info p = Inr (pas, al, p')" and "fixed_size info \<le> 0xFFFF"
  shows "pointer_tail p \<le> pointer_tail p'"
    and "(takes_pointer Attr_Out a \<and> \<not> al \<and> (\<exists>n. unat n \<le> 0xFFFF \<and> take_pointer n p = Inr (pas, al, p'))) \<or>
      (\<not> (takes_pointer Attr_Out a \<and> \<not> al) \<and> pointer_head p' = pointer_head p)"
proof -
  have word: "unat (le_word b :: u64) \<le> 0xFFFF" if "bytes_at bs i 2 = Inr b" for bs i b
  proof -
    have "length b = 2" using that by (rule bytes_at_length)
    then have "(le_word b :: u64) = take_bit 16 (le_word b)"
      by (intro bit_word_eqI) (auto simp: bit_le_word bit_take_bit_iff)
    then have "unat (le_word b :: u64) = take_bit 16 (unat (le_word b :: u64))"
      by (metis unsigned_take_bit_eq)
    then show ?thesis using take_bit_nat_less_exp [of 16 "unat (le_word b :: u64)"] by simp
  qed
  have fixed: "unat (of_nat (fixed_size info) :: u64) \<le> 0xFFFF"
    using assms(2) take_bit_nat_less_eq_self [of 64 "fixed_size info"] by (simp add: unat_of_nat)
  show "pointer_tail p \<le> pointer_tail p'"
    using assms(1) by (auto simp: ProcessBufferImpl_def receive_pointer_def take_mapped_def take_sent_def
        take_pointer_def Let_def then_run_eq_Inr split: if_splits)
  show "(takes_pointer Attr_Out a \<and> \<not> al \<and> (\<exists>n. unat n \<le> 0xFFFF \<and> take_pointer n p = Inr (pas, al, p'))) \<or>
      (\<not> (takes_pointer Attr_Out a \<and> \<not> al) \<and> pointer_head p' = pointer_head p)"
    using assms(1) fixed word
    by (auto simp: ProcessBufferImpl_def receive_pointer_def takes_pointer_def take_mapped_def take_sent_def
        then_run_eq_Inr split: if_splits) (auto simp: take_pointer_def Let_def)
qed

text \<open>So the head goes down by at most \<open>0xFFFF + 15\<close> for each, and the buffers follow one another down.\<close>

abbreviation pointer_step :: nat where "pointer_step \<equiv> 0xFFFF + 15"

lemma process_buffers_pointers:
  "process_buffers r m bs p = Inr (outs, p') \<Longrightarrow> \<forall>(b, info) \<in> set bs. fixed_size info \<le> 0xFFFF \<Longrightarrow>
   length bs * pointer_step \<le> unat (pointer_head p) \<Longrightarrow>
   pointer_tail p \<le> pointer_tail p' \<and> unat (pointer_head p') \<le> unat (pointer_head p) \<and>
   (\<forall>x \<in> set (pointer_outputs bs outs). unat (pointer_head p') \<le> unat (pas_address x) \<and>
      pas_end x \<le> unat (pointer_head p) \<and> 16 dvd unat (pas_address x)) \<and>
   sorted_wrt (\<lambda>x y. pas_end y \<le> unat (pas_address x)) (pointer_outputs bs outs)"
proof (induction bs arbitrary: p outs)
  case (Cons c bs)
  obtain b info where c: "c = (b, info)" by (cases c)
  from Cons.prems(1) obtain pas al p1 outs1
    where 1: "ProcessBufferImpl r m (BufferAttributes b) info p = Inr (pas, al, p1)"
      and rest: "process_buffers r m bs p1 = Inr (outs1, p')" and outs: "outs = (pas, al) # outs1"
    by (auto simp: c then_run_eq_Inr)
  have fixed: "fixed_size info \<le> 0xFFFF" and fixed': "\<forall>(b, info) \<in> set bs. fixed_size info \<le> 0xFFFF"
    using Cons.prems(2) c by auto
  have room: "length bs * pointer_step + pointer_step \<le> unat (pointer_head p)"
    using Cons.prems(3) by simp
  note step = ProcessBufferImpl_pointer [OF 1 fixed]
  show ?case
  proof (cases "takes_pointer Attr_Out (BufferAttributes b) \<and> \<not> al")
    case True
    with step(2) obtain n where n: "unat n \<le> 0xFFFF" "take_pointer n p = Inr (pas, al, p1)" by blast
    then have p1: "pointer_head p1 = AlignDown (pointer_head p - n) 0x10" "pas_address pas = pointer_head p1"
        "pas_size pas = n" by (auto simp: take_pointer_def Let_def)
    have "(0xFFFF :: nat) + 15 \<le> unat (pointer_head p)" using room by simp
    note down = take_pointer_down [OF n(1) this, folded p1(1)]
    have "length bs * pointer_step \<le> unat (pointer_head p1)" using down(3) room by linarith
    from Cons.IH [OF rest fixed' this] show ?thesis
      using down step(1) True p1 by (auto simp: c outs pas_end_def)
  next
    case False
    with step(2) have h: "pointer_head p1 = pointer_head p" by auto
    then have "length bs * pointer_step \<le> unat (pointer_head p1)" using room by simp
    from Cons.IH [OF rest fixed' this] show ?thesis
      using step(1) False h by (auto simp: c outs)
  qed
qed simp

text \<open>The fixed size of an info is the size of its large data.\<close>

lemma infos_fixed_size:
  "i < length args \<Longrightarrow> args ! i = BufferArg b \<Longrightarrow> fixed_size (infos_from c args ! i) \<le> LargeDataSize b"
proof (induction args arbitrary: c i)
  case (Cons a args)
  have "fixed_size (fst (ProcessUpdate (BufferArg b) c)) \<le> LargeDataSize b"
    by (simp add: ProcessUpdate_def UpdateBuffer_def Let_def)
  then show ?case using Cons by (cases i) (simp_all add: split_beta Let_def)
qed simp

lemma buffer_infos_fixed_size:
  "\<forall>b. BufferArg b \<in> set args \<longrightarrow> LargeDataSize b \<le> n \<Longrightarrow> (b, info) \<in> set (buffer_infos args) \<Longrightarrow>
   fixed_size info \<le> n"
  by (elim buffer_infos_in) (metis ArgumentSerializationInfos_def infos_fixed_size nth_mem order_trans)

lemma pointer_outputs_counted:
  "x \<in> set (pointer_outputs bs outs) \<Longrightarrow> \<exists>(b, info) \<in> set bs. takes_pointer Attr_Out (BufferAttributes b)"
  by (induction bs outs rule: pointer_outputs.induct) (auto split: if_splits)

lemma no_pointer_outputs:
  assumes "well_formed args" and "GetCount OutHipcPointerBufferPredicate args = 0"
  shows "pointer_outputs (buffer_infos args) outs = []"
proof (rule ccontr)
  assume "pointer_outputs (buffer_infos args) outs \<noteq> []"
  then obtain x where "x \<in> set (pointer_outputs (buffer_infos args) outs)" by (meson ex_in_conv set_empty)
  then obtain b info where "(b, info) \<in> set (buffer_infos args)" "takes_pointer Attr_Out (BufferAttributes b)"
    using pointer_outputs_counted by blast
  then have "\<exists>a \<in> set args. buffer_arg (takes_pointer Attr_Out) a"
    by (metis buffer_infos_in buffer_arg_simps nth_mem)
  then show False using assms(2) unfolding counts_of_ok(4) [OF assms(1)] by (simp add: filter_empty_conv)
qed

section \<open>Identities\<close>

text \<open>The eight bytes a client sent for parameter \<open>i\<close>; a request that is refused whatever its method.\<close>

definition sent_id :: "arg list \<Rightarrow> u8 list \<Rightarrow> nat \<Rightarrow> u8 list" where
  "sent_id args raw i =
     take 8 (drop (InDataOffsets args ! in_raw_data_index (ArgumentSerializationInfos args ! i)) raw)"

definition not_called :: "('call \<Rightarrow> 'g \<Rightarrow> (result \<times> 'r option \<times> 'g) run) \<Rightarrow> bool" where
  "not_called invoke \<longleftrightarrow> (\<exists>rc. R_FAILED rc \<and> (\<forall>call g. invoke call g = Inr (rc, None, g)))"

lemma has_id_holder:
  "i < length args \<Longrightarrow> args ! i = InDataArg t \<Longrightarrow> IsProcessIdHolder t \<Longrightarrow> HasInProcessIdHolder args"
  unfolding HasInProcessIdHolder_def InProcessIdHolders_def InDatas_def
  by (force simp: Suc_le_eq filter_empty_conv dest: nth_mem split: arg.splits)

lemma marshalled_identities:
  assumes D: "DeserializeArguments r raw args buffers = Inr sent"
    and m: "marshal_process_ids pid (zip args sent) = (ResultSuccess, bound)" and i: "i < length args"
  shows "args ! i = InDataArg ClientProcessId \<Longrightarrow> bound ! i = InValue (le_bytes 8 pid)"
    and "args ! i = InDataArg ClientAppletResourceUserId \<Longrightarrow>
      bound ! i = InValue (sent_id args raw i) \<and> le_word (sent_id args raw i) \<in> {0, pid}"
proof -
  have sent: "length sent = length args"
    "DeserializeArgumentImpl r raw args buffers (args ! i) (ArgumentSerializationInfos args ! i) = Inr (sent ! i)"
    using DeserializeArguments_nth [OF D] i by auto
  have got: "sent ! i = InValue (sent_id args raw i)" if "args ! i = InDataArg t" "IsProcessIdHolder t" for t
    using sent(2) that by (auto simp: DeserializeArgumentImpl_def IsProcessIdHolder_def Let_def then_run_eq_Inr
        sent_id_def size_of_def bytes_at_def split: if_splits)
  have one: "\<not> R_FAILED (fst (marshal_argument pid (args ! i) (sent ! i)))"
    "bound ! i = snd (marshal_argument pid (args ! i) (sent ! i))"
    using marshal_process_ids_nth [OF m] i sent(1) by auto
  show "bound ! i = InValue (le_bytes 8 pid)" if c: "args ! i = InDataArg ClientProcessId"
    using got [OF c] one(2) c by (simp add: marshal_argument_simps IsProcessIdHolder_def)
  show "bound ! i = InValue (sent_id args raw i) \<and> le_word (sent_id args raw i) \<in> {0, pid}"
    if c: "args ! i = InDataArg ClientAppletResourceUserId"
    using one got [OF c] by (auto simp: c IsProcessIdHolder_def marshal_argument_simps)
qed

section \<open>Properties\<close>

text \<open>The raw data of a command, in both directions, are laid out without overlap, each value at a
  multiple of its alignment and all within the size the message makes room for.\<close>

theorem raw_data_layout:
  "well_formed args \<Longrightarrow>
   layout_ok (InDatas args) (InDataOffsets args) \<and> layout_ok (OutDatas args) (OutDataOffsets args) \<and>
   InDataOffsets args ! length (InDatas args) \<le> InDataSize args \<and>
   OutDataOffsets args ! length (OutDatas args) \<le> OutDataSize args"
  using InData_layout OutData_layout InDataSize_ge OutDataSize_ge by blast

text \<open>The insertion sort of the offset calculator is the library's stable sort by the same key.\<close>

theorem insertion_sort_stable:
  "StableSort [0..<length values] values = sort_key ((!) values) [0..<length values]"
  by (rule StableSort_sort_key) simp

text \<open>C8: whatever a client sends, the generated code reads nothing outside of the request and writes
  nothing outside of the reply: with a request as \<open>libnx\<close> parses it and a method that keeps to its
  parameters, it comes back or takes the process down.\<close>

theorem no_access_outside:
  "parsed r \<Longrightarrow> well_formed args \<Longrightarrow> raw_of l r in_raw_data \<Longrightarrow> call_ok args call \<Longrightarrow> sessions_total c \<Longrightarrow>
   InvokeServiceCommandImpl l c args call r pb in_raw_data g = Inl f \<Longrightarrow> f = Abort"
proof -
  assume a: "parsed r" "well_formed args" "raw_of l r in_raw_data" "call_ok args call" "sessions_total c"
    and f: "InvokeServiceCommandImpl l c args call r pb in_raw_data g = Inl f"
  from a(1-3) show "f = Abort"
  proof (cases rule: invoke_cases [where c = c and pb = pb])
    case (refused rc)
    then show ?thesis using f by simp
  next
    case (called vs buffers)
    have encoded: "encode_reply l c args (runtime_metadata l args) buffers out g' = Inl f \<Longrightarrow> f = Abort"
      if "outputs_ok args out" for out g'
      using encode_reply_ok [OF a(2) that a(5) called(1) refl, where l = l and g = g' and h = "CMIF_IN_HEADER_SIZE l"] by auto
    show ?thesis
      using f call_okD [OF a(4)] encoded unfolding called(2) then_run_eq_Inl by (fastforce split: if_splits)
  qed
qed

text \<open>C10: a reply that says success has written every descriptor and handle it announces and all of its
  raw data, which are exactly what the method wrote over zeros: nothing of the message buffer's old
  contents reaches the client there.\<close>

theorem reply_complete:
  "parsed r \<Longrightarrow> well_formed args \<Longrightarrow> raw_of l r in_raw_data \<Longrightarrow> call_ok args call \<Longrightarrow> sessions_total c \<Longrightarrow>
   InvokeServiceCommandImpl l c args call r pb in_raw_data g = Inr (ResultSuccess, Some response, g') \<Longrightarrow>
   complete response \<and>
   (\<exists>vs out g1 raw. call vs g = Inr (ResultSuccess, out, g1) \<and> rsp_raw_data response = Some raw \<and>
      length raw = OutDataSize args \<and>
      write_raw (raw_writes out) (replicate (OutDataSize args) 0) = Inr raw)"
proof -
  assume a: "parsed r" "well_formed args" "raw_of l r in_raw_data" "call_ok args call" "sessions_total c"
    and i: "InvokeServiceCommandImpl l c args call r pb in_raw_data g = Inr (ResultSuccess, Some response, g')"
  from a(1-3) show ?thesis
  proof (cases rule: invoke_cases [where c = c and pb = pb])
    case (refused rc)
    then show ?thesis using i by simp
  next
    case (called vs buffers)
    from i obtain out g1 where o: "call vs g = Inr (ResultSuccess, out, g1)"
      and e: "encode_reply l c args (runtime_metadata l args) buffers out g1 = Inr (ResultSuccess, Some response, g')"
      unfolding called(2) by (auto simp: then_run_eq_Inr R_FAILED_iff split: if_splits)
    have "outputs_ok args out" using call_okD(2) [OF a(4) o] by simp
    from encode_reply_ok [OF a(2) this a(5) called(1) refl, where l = l and g = g1 and h = "CMIF_IN_HEADER_SIZE l"] e o show ?thesis by auto
  qed
qed

text \<open>C9: arguments arrive as they were sent: raw data that hold the client's values at the offsets of the
  parameters are read back as these values, a flag by its lowest bit.\<close>

theorem arguments_read_back:
  "well_formed args \<Longrightarrow> length vs = length (InDatas args) \<Longrightarrow>
   \<forall>i < length (InDatas args). length (vs ! i) = size_of (InDatas args ! i) \<Longrightarrow>
   InDataSize args \<le> length in_raw_data \<Longrightarrow>
   write_raw (zip (InDataOffsets args) vs) in_raw_data = Inr raw \<Longrightarrow>
   DeserializeArguments r raw args buffers = Inr bound \<Longrightarrow> i < length args \<Longrightarrow> args ! i = InDataArg t \<Longrightarrow>
   bound ! i =
     (let v = vs ! in_raw_data_index (ArgumentSerializationInfos args ! i)
      in if t = BoolData then InBool (v ! 0 AND 1 \<noteq> 0) else InValue v)"
proof -
  assume wf: "well_formed args" and vs: "length vs = length (InDatas args)"
      "\<forall>i < length (InDatas args). length (vs ! i) = size_of (InDatas args ! i)"
    and room: "InDataSize args \<le> length in_raw_data"
    and raw: "write_raw (zip (InDataOffsets args) vs) in_raw_data = Inr raw"
    and D: "DeserializeArguments r raw args buffers = Inr bound" and i: "i < length args" "args ! i = InDataArg t"
  let ?n = "in_raw_data_index (ArgumentSerializationInfos args ! i)"
  have fits: "InDataOffsets args ! length (InDatas args) \<le> length in_raw_data"
    using InDataSize_ge room by (rule order_trans)
  have len: "length raw = length in_raw_data" by (rule write_raw_length [OF raw])
  note n = InData_index [OF i]
  have v: "take (size_of t) (drop (InDataOffsets args ! ?n) raw) = vs ! ?n"
    using layout_write [OF InData_layout [OF wf] vs fits] raw n by auto
  have place: "InDataOffsets args ! ?n + size_of t \<le> length raw"
    using InData_place(1) [OF wf i] room len by linarith
  have "DeserializeArgumentImpl r raw args buffers (args ! i) (ArgumentSerializationInfos args ! i) = Inr (bound ! i)"
    by (rule DeserializeArguments_nth(2) [OF D i(1)])
  then show ?thesis
  proof (cases "t = BoolData")
    case True
    have "0 < size_of t" using True by (simp add: size_of_def)
    then have "vs ! ?n ! 0 = raw ! (InDataOffsets args ! ?n)" using place unfolding v [symmetric] by simp
    then show ?thesis
      using True place i(2) \<open>DeserializeArgumentImpl _ _ _ _ _ _ = _\<close>
      by (simp add: DeserializeArgumentImpl_def Let_def size_of_def)
  next
    case False
    then show ?thesis
      using place i(2) v \<open>DeserializeArgumentImpl _ _ _ _ _ _ = _\<close>
      by (simp add: DeserializeArgumentImpl_def Let_def)
  qed
qed

text \<open>C11: a command cannot be called in another's name. When any parameter that is an applet resource
  user id was sent as neither zero nor the process id the kernel gave for the client, the request is
  refused without calling the method, whatever it is. Otherwise the request is refused in the same
  way, or the method is called, once, on arguments where each client process id is the kernel's,
  whatever was sent, and each applet resource user id is what was sent.\<close>

theorem identity_checked:
  "parsed r \<Longrightarrow> well_formed args \<Longrightarrow> raw_of l r in_raw_data \<Longrightarrow>
   (if \<exists>i < length args. args ! i = InDataArg ClientAppletResourceUserId \<and>
        le_word (sent_id args in_raw_data i) \<notin> {0, hipc_pid r}
    then not_called (\<lambda>call. InvokeServiceCommandImpl l c args call r pb in_raw_data)
    else not_called (\<lambda>call. InvokeServiceCommandImpl l c args call r pb in_raw_data) \<or>
      (\<exists>vs reply. (\<forall>call g.
          InvokeServiceCommandImpl l c args call r pb in_raw_data g = then_run (call vs g) reply) \<and>
        (\<forall>i < length args.
          (args ! i = InDataArg ClientProcessId \<longrightarrow> vs ! i = InValue (le_bytes 8 (hipc_pid r))) \<and>
          (args ! i = InDataArg ClientAppletResourceUserId \<longrightarrow>
             vs ! i = InValue (sent_id args in_raw_data i)))))"
proof -
  assume a: "parsed r" "well_formed args" "raw_of l r in_raw_data"
  then show ?thesis
  proof (cases rule: invoke_cases [where c = c and pb = pb])
    case (refused rc)
    then have "not_called (\<lambda>call. InvokeServiceCommandImpl l c args call r pb in_raw_data)"
      unfolding not_called_def by blast
    then show ?thesis by simp
  next
    case (called vs buffers sent)
    have ids: "(args ! i = InDataArg ClientProcessId \<longrightarrow> vs ! i = InValue (le_bytes 8 (hipc_pid r))) \<and>
        (args ! i = InDataArg ClientAppletResourceUserId \<longrightarrow>
          vs ! i = InValue (sent_id args in_raw_data i) \<and>
          le_word (sent_id args in_raw_data i) \<in> {0, hipc_pid r})"
      if i: "i < length args" for i
      using marshalled_identities [OF called(3) _ i] called(4) has_id_holder [OF i]
      by (auto simp: IsProcessIdHolder_def)
    then have "\<not> (\<exists>i < length args. args ! i = InDataArg ClientAppletResourceUserId \<and>
        le_word (sent_id args in_raw_data i) \<notin> {0, hipc_pid r})" by blast
    moreover have "\<exists>reply. \<forall>call g.
        InvokeServiceCommandImpl l c args call r pb in_raw_data g = then_run (call vs g) reply"
      unfolding called(2) by blast
    ultimately show ?thesis using ids by (simp only: if_False) blast
  qed
qed

text \<open>C34: the buffers a request takes from the pointer buffer lie within it, at multiples of 16 and
  without overlap, provided the pointer buffer is not so close to address zero that the subtraction
  wraps around.\<close>

theorem pointer_buffers_disjoint:
  "well_formed args \<Longrightarrow> \<forall>b. BufferArg b \<in> set args \<longrightarrow> LargeDataSize b \<le> 0xFFFF \<Longrightarrow>
   length (buffer_infos args) * pointer_step \<le> unat (pas_address pb) \<Longrightarrow> pas_end pb < 2 ^ 64 \<Longrightarrow>
   ProcessBuffers r m pb args = Inr (ResultSuccess, outs) \<Longrightarrow>
   (\<forall>x \<in> set (pointer_outputs (buffer_infos args) outs).
      unat (pas_address pb) \<le> unat (pas_address x) \<and> pas_end x \<le> pas_end pb \<and> 16 dvd unat (pas_address x)) \<and>
   sorted_wrt (\<lambda>x y. pas_end y \<le> unat (pas_address x)) (pointer_outputs (buffer_infos args) outs)"
proof -
  assume wf: "well_formed args" and sizes: "\<forall>b. BufferArg b \<in> set args \<longrightarrow> LargeDataSize b \<le> 0xFFFF"
    and room: "length (buffer_infos args) * pointer_step \<le> unat (pas_address pb)" and top: "pas_end pb < 2 ^ 64"
    and ok: "ProcessBuffers r m pb args = Inr (ResultSuccess, outs)"
  show ?thesis
  proof (cases "GetCount OutHipcPointerBufferPredicate args = 0")
    case True
    then show ?thesis using no_pointer_outputs [OF wf] by simp
  next
    case False
    let ?p = "\<lparr>map_alias_buffers_valid = True, pointer_head = pas_address pb + pas_size pb,
      pointer_tail = pas_address pb\<rparr>"
    from ok False obtain p' where p: "process_buffers r m (buffer_infos args) ?p = Inr (outs, p')"
      and tail: "pointer_tail p' \<le> pointer_head p'"
      by (auto simp: ProcessBuffers_def then_run_eq_Inr hipc_ResultInvalidCmifRequest_def
          hipc_ResultPointerBufferTooSmall_def MakeValue_def split: if_splits)
    have head: "unat (pointer_head ?p) = pas_end pb"
      using top by (simp add: pas_end_def unat_word_ariths)
    have fixed: "\<forall>(b, info) \<in> set (buffer_infos args). fixed_size info \<le> 0xFFFF"
      using buffer_infos_fixed_size [OF sizes] by auto
    have below: "length (buffer_infos args) * pointer_step \<le> unat (pointer_head ?p)"
      unfolding head using room by (simp add: pas_end_def)
    note P = process_buffers_pointers [OF p fixed below]
    have "unat (pas_address pb) \<le> unat (pointer_head p')"
      using P tail by (auto simp: word_le_nat_alt)
    then show ?thesis using P unfolding head by fastforce
  qed
qed

text \<open>With no pointer buffer, as the album's server has none, that proviso is violated: a request for
  output of \<open>n\<close> bytes through it is not refused as too large, the command gets \<open>n\<close> bytes at
  the other end of the address space.\<close>

theorem empty_pointer_buffer_wraps:
  "bytes_at (data_words r) (GetUnfixedOutPointerSizeOffset m) 2 = Inr b \<Longrightarrow>
   ProcessBuffers r m \<lparr>pas_address = 0, pas_size = 0\<rparr> [BufferArg (OutBufferImpl Pointer {})] =
     Inr (ResultSuccess, [(\<lparr>pas_address = AlignDown (- le_word b) 0x10, pas_size = le_word b\<rparr>, False)])"
  by (simp add: ProcessBuffers_def buffer_infos_def ArgumentSerializationInfos_def ProcessUpdate_def UpdateBuffer_def
      Let_def initial_info_def BufferAttributes_def BufferTransferModeAttributes_def ProcessBufferImpl_def
      receive_pointer_def take_pointer_def)

section \<open>Commands of the album\<close>

text \<open>The lists name the commands in the order of the tables; the two sessions for readers offer the first
  of them.\<close>

lemma handler_meta: "handler (MakeServiceCommandMeta h c low high) = h"
  by (simp add: MakeServiceCommandMeta_def)

lemma names_prefix:
  "prefix (map handler AlbumAccessorService_table) (map fst (AlbumAccessorService_signatures x))"
  "prefix (map handler AlbumControlService_table) (map fst (AlbumControlService_signatures x))"
  "prefix (map handler AlbumApplicationService_table) (map fst (AlbumApplicationService_signatures x))"
  "prefix (map handler AccessorSession_table) (map fst (AccessorSession_signatures x))"
  "prefix (map handler ControlSession_table) (map fst (ControlSession_signatures x))"
  "prefix (map handler AccessorApplicationSession_table) (map fst (AccessorApplicationSession_signatures x))"
  by (simp_all only: table_defs signature_defs list.map handler_meta fst_conv append.simps
      Cons_prefix_Cons Nil_prefix simp_thms)

lemma names_in: "prefix (map handler t) (map fst sigs) \<Longrightarrow> handler ` set t \<subseteq> fst ` set sigs"
  by (metis set_map set_mono_prefix)

lemma all_names:
  "list_all2 (\<lambda>t sigs. handler ` set t \<subseteq> fst ` set sigs) all_tables (all_signatures x)"
  unfolding all_tables_def all_signatures_def by (intro list.rel_intros names_in names_prefix)

text \<open>C33: every command a table offers, of the three services and the three kinds of session, has a
  parameter list the code generator accepts, whose buffers are all mapped: none needs a pointer buffer
  and none takes an object as input.\<close>

theorem every_command_well_formed:
  "types_ok x \<Longrightarrow>
   list_all2 (\<lambda>t sigs. \<forall>e \<in> set t. \<exists>args. map_of sigs (handler e) = Some args \<and>
       command_asserts args \<and> well_formed args \<and> GetCount OutHipcPointerBufferPredicate args = 0 \<and>
       GetCount InHipcPointerBufferPredicate args = 0) all_tables (all_signatures x)"
proof -
  assume x: "types_ok x"
  have one: "\<exists>args. map_of sigs (handler e) = Some args \<and> command_asserts args \<and> well_formed args \<and>
      GetCount OutHipcPointerBufferPredicate args = 0 \<and> GetCount InHipcPointerBufferPredicate args = 0"
    if "sigs \<in> set (all_signatures x)" "handler ` set t \<subseteq> fst ` set sigs" "e \<in> set t" for t sigs e
  proof -
    have "handler e \<in> fst ` set sigs" using that by auto
    then obtain args where a: "map_of sigs (handler e) = Some args"
      by (metis map_of_eq_None_iff option.exhaust)
    then have "(handler e, args) \<in> set sigs" by (rule map_of_SomeD)
    then have "list_all arg_ok args" "command_asserts args"
      using signatures_ok [OF x] signatures_limits [of x] that(1) by fastforce+
    moreover from this(1) have "\<not> buffer_arg OutHipcPointerBufferPredicate a" "\<not> buffer_arg InHipcPointerBufferPredicate a"
      if "a \<in> set args" for a
      using that by (auto simp: list_all_iff arg_ok_def buffer_arg_def OutHipcPointerBufferPredicate_def
          InHipcPointerBufferPredicate_def split: arg.split_asm)
    ultimately show ?thesis
      using a by (auto simp: GetCount_filter arg_ok_well_formed filter_empty_conv)
  qed
  show ?thesis
    using all_names [of x] by (rule list.rel_mono_strong) (use one in blast)
qed

text \<open>C35: a structure that is returned in a mapped buffer is bound to the buffer's address whatever the
  buffer's size is: \<open>GetAlbumUsage16\<close> writes a whole structure into a buffer that may be shorter.\<close>

theorem large_output_unchecked:
  "map_of (AlbumAccessorService_signatures x) ''GetAlbumUsage16'' = Some args \<Longrightarrow> accepted r args m \<Longrightarrow>
   buffer_mode (recv_buffers r ! 0) = HipcBufferMode_Normal \<Longrightarrow> InDataSize args \<le> length raw \<Longrightarrow>
   \<exists>outs vs. ProcessBuffers r m pb args = Inr (ResultSuccess, outs) \<and>
     DeserializeArguments r raw args outs = Inr vs \<and>
     vs ! 0 = LargeOut (buffer_address (recv_buffers r ! 0)) (CapsAlbumUsage16 x)"
proof -
  assume a: "map_of (AlbumAccessorService_signatures x) ''GetAlbumUsage16'' = Some args"
    and acc: "accepted r args m" and mode: "buffer_mode (recv_buffers r ! 0) = HipcBufferMode_Normal"
    and raw: "InDataSize args \<le> length raw"
  have args: "args = [BufferArg (OutLargeData MapAlias (CapsAlbumUsage16 x)), InDataArg u8_t, InDataArg u8_t]"
    using a by (simp add: AlbumAccessorService_signatures_def buffer_defs)
  have attrs: "BufferAttributes (OutLargeData MapAlias n) = {Attr_FixedSize, Attr_HipcMapAlias, Attr_Out}" for n
    by (auto simp: BufferAttributes_def BufferTransferModeAttributes_def)
  have recv: "0 < length (recv_buffers r)"
    using accepted_counts(2) [OF acc] by (simp add: args takes_map_def buffer_arg_def attrs)
  let ?pas = "\<lparr>pas_address = buffer_address (recv_buffers r ! 0), pas_size = buffer_size (recv_buffers r ! 0)\<rparr>"
  have P: "ProcessBuffers r m pb args = Inr (ResultSuccess, [(?pas, True)])"
    using recv mode by (simp add: ProcessBuffers_def args buffer_infos_def ArgumentSerializationInfos_def
        ProcessUpdate_def UpdateBuffer_def Let_def initial_info_def attrs ProcessBufferImpl_def take_mapped_def
        IsMapTransferModeValid_def GetCount_def Buffers_def OutHipcPointerBufferPredicate_def)
  have "length [(?pas, True)] = length (filter is_Buffer args)"
    by (simp add: args is_Buffer_def GetArgumentType_def)
  then obtain vs where vs: "DeserializeArguments r raw args [(?pas, True)] = Inr vs"
    by (rule DeserializeArguments_ok [OF acc raw])
  have "DeserializeArgumentImpl r raw args [(?pas, True)] (args ! 0) (ArgumentSerializationInfos args ! 0) = Inr (vs ! 0)"
    by (rule DeserializeArguments_nth(2) [OF vs]) (simp add: args)
  then have "vs ! 0 = LargeOut (buffer_address (recv_buffers r ! 0)) (CapsAlbumUsage16 x)"
    by (simp add: DeserializeArgumentImpl_def args ArgumentSerializationInfos_def ProcessUpdate_def UpdateBuffer_def
        Let_def initial_info_def attrs IsLargeData_def LargeDataSize_def)
  then show ?thesis using P vs by blast
qed

section \<open>Witnesses\<close>

definition sample_sf :: sf_lib where
  "sample_sf = \<lparr>CMIF_IN_HEADER_MAGIC = 0x49434653, CMIF_IN_HEADER_SIZE = 16, CMIF_OUT_HEADER_SIZE = 16,
     INVALID_HANDLE = 0\<rparr>"

definition sample_args :: "arg list" where
  "sample_args = [OutDataArg BoolData, InDataArg u8_t]"

definition sample_message :: "nat \<Rightarrow> HipcBufferDescriptor list \<Rightarrow> HipcRequest" where
  "sample_message words recv =
     \<lparr>hipc_meta = \<lparr>send_pid = False, num_send_statics = 0, num_recv_statics = 0, num_send_buffers = 0,
        num_recv_buffers = length recv, num_exch_buffers = 0, num_data_words = words, num_copy_handles = 0,
        num_move_handles = 0\<rparr>,
      hipc_pid = 0, send_statics = [], send_buffers = [], recv_buffers = recv, data_address = 0x10,
      data_words = replicate (4 * words) 0, copy_handles = [], move_handles = []\<rparr>"

definition sample_call :: "(unit, unit) method_call" where
  "sample_call vs g = Inr (ResultSuccess,
     \<lparr>raw_writes = [(0, [1])], move_writes = [], copy_writes = [], object_writes = []\<rparr>, g)"

definition sample_sessions :: "(unit, unit) session_calls" where
  "sample_sessions = \<lparr>create_session = (\<lambda>g. Inr (ResultSuccess, (1, 2), g)),
     register_session = (\<lambda>h obj g. Inr (ResultSuccess, g))\<rparr>"

lemma sample_parsed: "parsed (sample_message words recv)"
  by (simp add: parsed_def sample_message_def)

lemma sample_well_formed: "well_formed sample_args"
  by (simp add: well_formed_def sample_args_def align_of_def u8_t_def)

lemma sample_raw: "raw_of sample_sf (sample_message 9 recv) (replicate 4 0)"
  by (simp add: raw_of_def sample_message_def sample_sf_def)

lemma sample_sizes: "InDataSize sample_args = 2" "OutDataSize sample_args = 4"
  "InDataOffsets sample_args = [0, 1]" "OutDataOffsets sample_args = [0, 1]"
  by code_simp+

lemma sample_call_ok: "call_ok sample_args sample_call"
  by (auto simp: call_ok_def sample_call_def outputs_ok_def sample_args_def size_of_def
      ArgumentSerializationInfos_def ProcessUpdate_def Let_def initial_info_def
      sample_sizes(4) [unfolded sample_args_def] intro!: exI [of _ 0])

lemma sample_total: "sessions_total sample_sessions"
  by (simp add: sessions_total_def sample_sessions_def)

lemma raw_data_layout_witness:
  "layout_ok (InDatas sample_args) (InDataOffsets sample_args)"
  using raw_data_layout [OF sample_well_formed] by blast

text \<open>The sample command's request passes the check, and its reply is the method's.\<close>

lemma sample_infos: "ArgumentSerializationInfos sample_args =
    [initial_info\<lparr>arg_type := OutData\<rparr>, initial_info\<lparr>arg_type := InData, out_raw_data_index := 1\<rparr>]"
  by (simp add: sample_args_def ArgumentSerializationInfos_def ProcessUpdate_def Let_def initial_info_def
      GetArgumentType_def)

lemma sample_args_simps: "buffer_infos sample_args = []" "HasInProcessIdHolder sample_args = False"
  "GetCount P sample_args = 0" "of_type OutObject sample_args = []" "of_type InObject sample_args = []"
  "filter ((=) OutCopyHandle) sample_args = []" "filter ((=) OutMoveHandle) sample_args = []"
  "filter ((=) InCopyHandle) sample_args = []" "filter ((=) InMoveHandle) sample_args = []"
  by (simp_all add: sample_args_def buffer_infos_def ArgumentSerializationInfos_def ProcessUpdate_def Let_def
      initial_info_def HasInProcessIdHolder_def InProcessIdHolders_def InDatas_def IsProcessIdHolder_def u8_t_def
      GetCount_def Buffers_def of_type_def GetArgumentType_def)

lemma sample_prepared: "PrepareForProcess (sample_message 9 []) sample_args (runtime_metadata sample_sf sample_args) = 0"
  by (simp add: PrepareForProcess_success sample_args_simps sample_message_def sample_sf_def sample_sizes
      GetUnfixedOutPointerSizeOffset_def CommandRuntimeMetadata_def NumUnfixedSizeOutHipcPointerBuffers_def
      align_up_def)

lemma sample_bound: "DeserializeArguments (sample_message 9 []) [7, 0, 0, 0] sample_args [] =
    Inr [OutPlace 0 1, InValue [7]]"
proof -
  have "size_of u8_t = 1" "u8_t \<noteq> BoolData" by (simp_all add: u8_t_def size_of_def)
  then show ?thesis
    unfolding DeserializeArguments_def sample_infos
    by (simp add: sample_args_def DeserializeArgumentImpl_def Let_def
        sample_sizes(3,4) [unfolded sample_args_def] initial_info_def size_of_def [of BoolData] bytes_at_def)
qed

lemma sample_invoked:
  "InvokeServiceCommandImpl sample_sf sample_sessions sample_args sample_call (sample_message 9 [])
     \<lparr>pas_address = 0, pas_size = 0\<rparr> [7, 0, 0, 0] () =
   Inr (ResultSuccess, Some \<lparr>rsp_num_data_words = 9, rsp_send_statics = [], rsp_copy_handles = [],
     rsp_move_handles = [], rsp_raw_data = Some [1, 0, 0, 0]\<rparr>, ())"
proof -
  let ?m = "runtime_metadata sample_sf sample_args"
  have p: "ProcessBuffers (sample_message 9 []) ?m \<lparr>pas_address = 0, pas_size = 0\<rparr> sample_args = Inr (0, [])"
    by (simp add: ProcessBuffers_def sample_args_simps)
  have n: "in_object_count ?m = 0" "out_object_count ?m = 0"
    by (simp_all add: CommandRuntimeMetadata_def sample_args_simps)
  have r: "replicate 4 (0 :: u8) = [0, 0, 0, 0]" by (simp add: numeral_eq_Suc)
  have h: "PrepareForReply sample_args ?m = (hipcMakeResponse 0 9 0 0, 20)"
    by (simp add: PrepareForReply_def CommandRuntimeMetadata_def sample_args_simps sample_sizes sample_sf_def
        align_up_def)
  have e: "encode_reply sample_sf sample_sessions sample_args ?m []
      \<lparr>raw_writes = [(0, [1])], move_writes = [], copy_writes = [], object_writes = []\<rparr> () =
    Inr (ResultSuccess, Some \<lparr>rsp_num_data_words = 9, rsp_send_statics = [], rsp_copy_handles = [],
      rsp_move_handles = [], rsp_raw_data = Some [1, 0, 0, 0]\<rparr>, ())"
    by (simp add: encode_reply_def h n r sample_sizes sample_args_simps GetCmifOutHeaderPointer_def hipcMakeResponse_def
        SetOutBuffers_def OutHandleHolder_CopyTo_def) (simp add: sample_sf_def)
  show ?thesis
    unfolding InvokeServiceCommandImpl_def Let_def sample_prepared
    by (simp add: p n sample_args_simps sample_bound sample_call_def e)
qed

lemma no_access_outside_witness:
  "\<exists>f. InvokeServiceCommandImpl sample_sf sample_sessions sample_args (\<lambda>vs g. Inl Abort) (sample_message 9 [])
     \<lparr>pas_address = 0, pas_size = 0\<rparr> [7, 0, 0, 0] () = Inl f \<and> f = Abort"
proof -
  have n: "in_object_count (runtime_metadata sample_sf sample_args) = 0"
    by (simp add: CommandRuntimeMetadata_def sample_args_simps)
  have i: "InvokeServiceCommandImpl sample_sf sample_sessions sample_args (\<lambda>vs g. Inl Abort) (sample_message 9 [])
      \<lparr>pas_address = 0, pas_size = 0\<rparr> [7, 0, 0, 0] () = Inl Abort"
    unfolding InvokeServiceCommandImpl_def Let_def sample_prepared
    by (simp add: ProcessBuffers_def sample_args_simps sample_bound n)
  have "raw_of sample_sf (sample_message 9 []) [7, 0, 0, 0]" using sample_raw [of "[]"] by (simp add: raw_of_def)
  moreover have "call_ok sample_args (\<lambda>vs g. Inl Abort)" by (simp add: call_ok_def)
  ultimately have "Abort = Abort"
    by (rule no_access_outside [OF sample_parsed sample_well_formed _ _ sample_total i])
  with i show ?thesis by blast
qed

lemma reply_complete_witness:
  "\<exists>response. complete response \<and> rsp_raw_data response = Some [1, 0, 0, 0]"
proof -
  have "raw_of sample_sf (sample_message 9 []) [7, 0, 0, 0]" using sample_raw [of "[]"] by (simp add: raw_of_def)
  from reply_complete [OF sample_parsed sample_well_formed this sample_call_ok sample_total sample_invoked]
  show ?thesis by (intro exI conjI) (auto simp: sample_call_def)
qed

lemma arguments_read_back_witness:
  "\<exists>bound. DeserializeArguments (sample_message 9 []) [7, 0, 0, 0] sample_args [] = Inr bound \<and>
     bound ! 1 = InValue [7]"
proof -
  have d: "InDatas sample_args = [u8_t]" by (simp add: sample_args_def InDatas_def)
  have w: "write_raw (zip (InDataOffsets sample_args) [[7]]) [0, 0, 0, 0] = Inr [7, 0, 0, 0]"
    by (simp add: sample_sizes)
  have "[OutPlace 0 1, InValue [7]] ! 1 = (let v = [[7]] ! in_raw_data_index (ArgumentSerializationInfos sample_args ! 1)
      in if u8_t = BoolData then InBool (v ! 0 AND 1 \<noteq> 0) else InValue v)"
    by (rule arguments_read_back [OF sample_well_formed _ _ _ w sample_bound])
      (simp_all add: d sample_sizes, simp_all add: sample_args_def u8_t_def size_of_def)
  then show ?thesis using sample_bound by simp
qed

text \<open>A client of process id \<open>0x55\<close> asks in the name of 7.\<close>

definition sample_foreign :: HipcRequest where
  "sample_foreign = (sample_message 9 [])\<lparr>hipc_pid := 0x55,
     hipc_meta := (hipc_meta (sample_message 9 []))\<lparr>send_pid := True\<rparr>\<rparr>"

lemma identity_checked_witness:
  "\<exists>rc. R_FAILED rc \<and>
     InvokeServiceCommandImpl sample_sf sample_sessions [InDataArg ClientAppletResourceUserId] sample_call
       sample_foreign \<lparr>pas_address = 0, pas_size = 0\<rparr> (le_bytes 8 (7 :: u64)) () = Inr (rc, None, ())"
proof -
  have r: "parsed sample_foreign"
    using sample_parsed [of 9 "[]"] by (simp add: parsed_def sample_foreign_def)
  have w: "well_formed [InDataArg ClientAppletResourceUserId]" by (simp add: well_formed_def align_of_def)
  have raw: "raw_of sample_sf sample_foreign (le_bytes 8 (7 :: u64))"
    by (simp add: raw_of_def sample_foreign_def sample_message_def sample_sf_def)
  have "InDataOffsets [InDataArg ClientAppletResourceUserId] = [0, 8]" by code_simp
  then have "sent_id [InDataArg ClientAppletResourceUserId] (le_bytes 8 (7 :: u64)) 0 = le_bytes 8 (7 :: u64)"
    by (simp add: sent_id_def ArgumentSerializationInfos_def ProcessUpdate_def Let_def initial_info_def)
  then have "\<exists>i < length [InDataArg ClientAppletResourceUserId].
      [InDataArg ClientAppletResourceUserId] ! i = InDataArg ClientAppletResourceUserId \<and>
      le_word (sent_id [InDataArg ClientAppletResourceUserId] (le_bytes 8 (7 :: u64)) i) \<notin>
        {0, hipc_pid sample_foreign}"
    by (intro exI [of _ 0]) (simp add: sample_foreign_def)
  then have "not_called (\<lambda>call. InvokeServiceCommandImpl sample_sf sample_sessions
      [InDataArg ClientAppletResourceUserId] call sample_foreign \<lparr>pas_address = 0, pas_size = 0\<rparr>
      (le_bytes 8 (7 :: u64)))"
    using identity_checked [OF r w raw, of sample_sessions "\<lparr>pas_address = 0, pas_size = 0\<rparr>"]
    by (simp only: if_True)
  then show ?thesis unfolding not_called_def by blast
qed

text \<open>Two buffers of 16 bytes from a pointer buffer of \<open>0x40\<close> bytes.\<close>

definition sample_pointers :: "arg list" where
  "sample_pointers = [BufferArg (OutLargeData Pointer 16), BufferArg (OutLargeData Pointer 16)]"

lemma sample_pointers_processed:
  "ProcessBuffers (sample_message 9 []) m \<lparr>pas_address = 0x100000, pas_size = 0x40\<rparr> sample_pointers =
   Inr (ResultSuccess, [(\<lparr>pas_address = 0x100030, pas_size = 16\<rparr>, False),
     (\<lparr>pas_address = 0x100020, pas_size = 16\<rparr>, False)])"
  by (simp add: ProcessBuffers_def sample_pointers_def buffer_infos_def ArgumentSerializationInfos_def
      ProcessUpdate_def UpdateBuffer_def Let_def initial_info_def BufferAttributes_def
      BufferTransferModeAttributes_def ProcessBufferImpl_def receive_pointer_def take_pointer_def
      LargeDataSize_def AlignDown_def GetCount_def Buffers_def OutHipcPointerBufferPredicate_def)

lemma pointer_buffers_disjoint_witness:
  "\<exists>outs. ProcessBuffers (sample_message 9 []) (runtime_metadata sample_sf sample_args)
       \<lparr>pas_address = 0x100000, pas_size = 0x40\<rparr> sample_pointers = Inr (ResultSuccess, outs) \<and>
     sorted_wrt (\<lambda>x y. pas_end y \<le> unat (pas_address x)) (pointer_outputs (buffer_infos sample_pointers) outs)"
proof -
  have w: "well_formed sample_pointers"
    by (simp add: well_formed_def sample_pointers_def buffer_ok_def BufferAttributes_def BufferTransferModeAttributes_def)
  have b: "\<exists>i j. buffer_infos sample_pointers = [(OutLargeData Pointer 16, i), (OutLargeData Pointer 16, j)]"
    by (simp add: sample_pointers_def buffer_infos_def ArgumentSerializationInfos_def split_beta Let_def)
  from b obtain i j where b: "buffer_infos sample_pointers = [(OutLargeData Pointer 16, i), (OutLargeData Pointer 16, j)]"
    by blast
  have "\<forall>b. BufferArg b \<in> set sample_pointers \<longrightarrow> LargeDataSize b \<le> 0xFFFF"
    by (simp add: sample_pointers_def LargeDataSize_def)
  from pointer_buffers_disjoint [OF w this _ _ sample_pointers_processed] sample_pointers_processed
  show ?thesis by (simp add: b pas_end_def)
qed

lemma empty_pointer_buffer_wraps_witness:
  "\<exists>outs. ProcessBuffers (sample_message 9 []) (runtime_metadata sample_sf sample_args)
     \<lparr>pas_address = 0, pas_size = 0\<rparr> [BufferArg (OutBufferImpl Pointer {})] = Inr (ResultSuccess, outs)"
proof -
  have "bytes_at (data_words (sample_message 9 []))
      (GetUnfixedOutPointerSizeOffset (runtime_metadata sample_sf sample_args)) 2 = Inr [0, 0]"
    by (simp add: sample_message_def sample_sf_def GetUnfixedOutPointerSizeOffset_def CommandRuntimeMetadata_def
        sample_sizes bytes_at_def) (simp add: numeral_2_eq_2)
  from empty_pointer_buffer_wraps [OF this] show ?thesis by blast
qed

text \<open>Some sizes and alignments for the structures of \<open>libnx\<close>.\<close>

definition sample_types :: libnx_types where
  "sample_types = \<lparr>CapsAlbumUsage2 = Data 0x30 8, CapsAlbumUsage3 = Data 0x30 8,
     CapsScreenShotAttribute = Data 0x40 4, CapsScreenShotDecodeOption = Data 0x20 8, CapsAlbumCache = Data 0x10 8,
     CapsAlbumEntry = Data 0x20 8, AccountUid = Data 0x10 8, CapsAlbumUsage16 = 0x190,
     CapsLoadAlbumScreenShotImageOutput = 0x450, CapsLoadAlbumScreenShotImageOutputForApplication = 0x450\<rparr>"

lemma sample_types_ok: "types_ok sample_types"
  by (simp add: types_ok_def sample_types_def align_of_def)

lemma every_command_well_formed_witness:
  "\<exists>args. map_of (AlbumAccessorService_signatures sample_types) ''GetAlbumFileCount'' = Some args \<and> well_formed args"
proof -
  have "meta ''GetAlbumFileCount'' 0 Version_Min Version_Max \<in> set AlbumAccessorService_table"
    by (simp add: AlbumAccessorService_table_def)
  moreover have "\<forall>e \<in> set AlbumAccessorService_table. \<exists>args.
      map_of (AlbumAccessorService_signatures sample_types) (handler e) = Some args \<and> well_formed args"
    using every_command_well_formed [OF sample_types_ok]
    unfolding all_tables_def all_signatures_def list.rel_inject by blast
  ultimately show ?thesis by (metis handler_meta)
qed

lemma large_output_unchecked_witness:
  "\<exists>outs vs. DeserializeArguments (sample_message 9
       [\<lparr>buffer_address = 0x1000, buffer_size = 1, buffer_mode = HipcBufferMode_Normal\<rparr>]) (replicate 4 0)
       [BufferArg (OutLargeData MapAlias 0x190), InDataArg u8_t, InDataArg u8_t] outs = Inr vs \<and>
     vs ! 0 = LargeOut 0x1000 0x190"
proof -
  let ?d = "\<lparr>buffer_address = 0x1000, buffer_size = 1, buffer_mode = HipcBufferMode_Normal\<rparr>"
  let ?r = "sample_message 9 [?d]"
  let ?args = "[BufferArg (OutLargeData MapAlias 0x190), InDataArg u8_t, InDataArg u8_t]"
  have a: "map_of (AlbumAccessorService_signatures sample_types) ''GetAlbumUsage16'' = Some ?args"
    by (simp add: AlbumAccessorService_signatures_def buffer_defs sample_types_def)
  have n: "InDataSize ?args = 2" by code_simp
  have ok: "BufferAttributes (OutLargeData MapAlias 0x190) = {Attr_FixedSize, Attr_HipcMapAlias, Attr_Out}"
    by (auto simp: BufferAttributes_def BufferTransferModeAttributes_def)
  have acc: "accepted ?r ?args (runtime_metadata sample_sf ?args)"
    by (simp add: accepted_def sample_parsed PrepareForProcess_success n n [unfolded u8_t_def, simplified] GetUnfixedOutPointerSizeOffset_def
        CommandRuntimeMetadata_def NumUnfixedSizeOutHipcPointerBuffers_def GetCount_def Buffers_def ok
        InHipcPointerBufferPredicate_def InHipcMapAliasBufferPredicate_def OutHipcMapAliasBufferPredicate_def
        OutHipcPointerBufferPredicate_def FixedSizeOutHipcPointerBufferPredicate_def HasInProcessIdHolder_def
        InProcessIdHolders_def InDatas_def IsProcessIdHolder_def well_formed_def buffer_ok_def u8_t_def align_of_def
        align_up_def) (simp add: sample_message_def sample_sf_def)
  have "\<exists>outs vs. ProcessBuffers ?r (runtime_metadata sample_sf ?args) \<lparr>pas_address = 0, pas_size = 0\<rparr> ?args =
      Inr (ResultSuccess, outs) \<and> DeserializeArguments ?r (replicate 4 0) ?args outs = Inr vs \<and>
      vs ! 0 = LargeOut (buffer_address (recv_buffers ?r ! 0)) (CapsAlbumUsage16 sample_types)"
    by (rule large_output_unchecked [OF a acc]) (simp_all add: n, simp add: sample_message_def)
  then show ?thesis by (auto simp: sample_message_def sample_types_def)
qed

end
