(* ===== verification/ServerMessages.thy ===== *)
theory ServerMessages
  imports Server Messages
begin

text \<open>
  The server's dispatch with the generated code in place of the abstract \<open>invoke\<close> of the
  \<open>Server\<close> theory: \<open>service_invoke\<close> looks up the parameter list of the handler and runs
  \<open>InvokeServiceCommandImpl\<close> on its method.
\<close>

section \<open>The generated code of a service\<close>

text \<open>The last branch is for a name no table has.\<close>

definition service_invoke ::
  "sf_lib \<Rightarrow> ('o, 'g) session_calls \<Rightarrow> signatures \<Rightarrow> (string \<Rightarrow> ('o, 'g) method_call) \<Rightarrow> HipcRequest \<Rightarrow>
     PointerAndSize \<Rightarrow> string \<Rightarrow> u8 list \<Rightarrow> 'g \<Rightarrow> (result \<times> bool \<times> 'g) run" where
  "service_invoke l c sigs methods r pb h rest g =
     (case map_of sigs h of
        Some args \<Rightarrow>
          then_run (InvokeServiceCommandImpl l c args (methods h) r pb rest g) (\<lambda>(rc, response, g).
            Inr (rc, response \<noteq> None, g))
      | None \<Rightarrow> Inr (sf_ResultUnknownCommandId, False, g))"

text \<open>The methods do what \<open>M\<close> says, on whatever arguments.\<close>

definition does :: "('o, 'w objects) method_call \<Rightarrow> arg_value list \<Rightarrow> 'w effect" where
  "does call vs g = then_run (call vs g) (\<lambda>(rc, out, g). Inr (rc, g))"

definition implements ::
  "(string \<Rightarrow> 'w effect \<Rightarrow> bool) \<Rightarrow> signatures \<Rightarrow> (string \<Rightarrow> ('o, 'w objects) method_call) \<Rightarrow> bool" where
  "implements M sigs methods \<longleftrightarrow> (\<forall>h args. map_of sigs h = Some args \<longrightarrow>
     call_ok args (methods h) \<and> (\<forall>vs. M h (does (methods h) vs)))"

text \<open>
  The calls that open a session for an object a command returns: with any result, or taking the
  process down, they leave the objects alone. \<open>session_opens\<close> says that they succeed in a state.
\<close>

definition sessions_apart :: "('o, 'g) session_calls \<Rightarrow> bool" where
  "sessions_apart c \<longleftrightarrow> (\<forall>g.
     (create_session c g = Inl Abort \<or> (\<exists>rc hs. create_session c g = Inr (rc, hs, g))) \<and>
     (\<forall>h obj. register_session c h obj g = Inl Abort \<or> (\<exists>rc. register_session c h obj g = Inr (rc, g))))"

definition session_opens :: "('o, 'g) session_calls \<Rightarrow> 'g \<Rightarrow> bool" where
  "session_opens c g \<longleftrightarrow> (\<exists>hs. create_session c g = Inr (ResultSuccess, hs, g)) \<and>
     (\<forall>h obj. register_session c h obj g = Inr (ResultSuccess, g))"

lemma SetOutObjectImpl_apart:
  assumes "sessions_apart c" and "i < length moves"
  shows "(\<exists>moves'. SetOutObjectImpl l c i obj (moves, g) = Inr (moves', g) \<and> length moves' = length moves) \<or>
    SetOutObjectImpl l c i obj (moves, g) = Inl Abort \<and> \<not> session_opens c g"
proof (cases obj)
  case None
  then show ?thesis using assms(2) by (auto simp: SetOutObjectImpl_def)
next
  case (Some x)
  note apart = assms(1) [unfolded sessions_apart_def, rule_format, of g]
  show ?thesis
  proof (cases "create_session c g")
    case (Inl f)
    then show ?thesis using apart by (auto simp: SetOutObjectImpl_def Some session_opens_def)
  next
    case (Inr y)
    obtain rc sh ch where create: "create_session c g = Inr (rc, (sh, ch), g)"
      using apart Inr by (metis surj_pair sum.distinct(1))
    from apart have "register_session c sh x g = Inl Abort \<or> (\<exists>rc. register_session c sh x g = Inr (rc, g))"
      by blast
    then show ?thesis
      using create assms(2) by (auto simp: SetOutObjectImpl_def Some session_opens_def R_FAILED_iff)
  qed
qed

lemma set_out_objects_apart:
  assumes "sessions_apart c"
  shows "i + length objs \<le> length moves \<Longrightarrow>
    (\<exists>moves'. set_out_objects l c i objs (moves, g) = Inr (moves', g)) \<or>
    set_out_objects l c i objs (moves, g) = Inl Abort \<and> objs \<noteq> [] \<and> \<not> session_opens c g"
proof (induction objs arbitrary: i moves)
  case (Cons obj objs)
  from Cons.prems have i: "i < length moves" by simp
  from SetOutObjectImpl_apart [OF assms i, of l obj g] show ?case
  proof (elim disjE exE conjE)
    fix moves'
    assume "SetOutObjectImpl l c i obj (moves, g) = Inr (moves', g)" "length moves' = length moves"
    then show ?thesis using Cons.IH [of "Suc i" moves'] Cons.prems by auto
  qed simp
qed simp

lemma encode_reply_apart:
  assumes "well_formed args" and "outputs_ok args out" and "sessions_apart c"
    and "length buffers = length (filter is_Buffer args)"
    and "m = CommandRuntimeMetadata h (CMIF_OUT_HEADER_SIZE l) args"
  shows "(\<exists>response. encode_reply l c args m buffers out g = Inr (ResultSuccess, Some response, g)) \<or>
    encode_reply l c args m buffers out g = Inl Abort \<and> of_type OutObject args \<noteq> [] \<and> \<not> session_opens c g"
proof (rule encode_reply_objects [OF assms(1,2,4,5), where c = c])
  fix objs ms response raw
  assume reply: "\<And>g. encode_reply l c args m buffers out g = then_run (set_out_objects l c 0 objs (ms, g)) (\<lambda>(moves, g).
       Inr (ResultSuccess, Some (response\<lparr>rsp_move_handles := moves\<rparr>), g))" and "length objs \<le> length ms"
    and "length objs = length (of_type OutObject args)"
  then show ?thesis using set_out_objects_apart [OF assms(3), of 0 objs ms l g] by auto
qed

text \<open>The method of a handler, called on arguments the message decides, then the reply.\<close>

lemma service_invoke_runs:
  assumes "well_formed args" and "map_of sigs h = Some args" and "parsed r" and "raw_of l r rest"
    and "call_ok args (methods h)" and "sessions_apart c"
  obtains (refused) rc where "R_FAILED rc" "\<And>g. service_invoke l c sigs methods r pb h rest g = Inr (rc, False, g)"
  | (runs) vs where "\<And>g. service_invoke l c sigs methods r pb h rest g =
        then_run (does (methods h) vs g) (\<lambda>(rc, g). Inr (rc, True, g)) \<or>
      service_invoke l c sigs methods r pb h rest g = Inl Abort \<and> of_type OutObject args \<noteq> [] \<and>
        (\<exists>g'. does (methods h) vs g = Inr (ResultSuccess, g') \<and> \<not> session_opens c g')"
  using assms(3,1,4)
proof (cases rule: invoke_cases [where c = c and pb = pb])
  case 1: (refused rc)
  show thesis by (rule refused [OF 1(1)]) (simp add: service_invoke_def assms(2) 1(2))
next
  case (called vs buffers sent)
  show thesis
  proof (rule runs)
    fix g
    show "service_invoke l c sigs methods r pb h rest g =
          then_run (does (methods h) vs g) (\<lambda>(rc, g). Inr (rc, True, g)) \<or>
        service_invoke l c sigs methods r pb h rest g = Inl Abort \<and> of_type OutObject args \<noteq> [] \<and>
          (\<exists>g'. does (methods h) vs g = Inr (ResultSuccess, g') \<and> \<not> session_opens c g')"
    proof (cases "methods h vs g")
      case (Inl f)
      then show ?thesis by (simp add: service_invoke_def assms(2) called(2) does_def)
    next
      case (Inr y)
      then obtain rc out g' where y: "methods h vs g = Inr (rc, out, g')" by (metis prod.exhaust)
      show ?thesis
      proof (cases "R_FAILED rc")
        case True
        then show ?thesis by (simp add: service_invoke_def assms(2) called(2) does_def y)
      next
        case False
        then have "outputs_ok args out" using call_okD(2) [OF assms(5) y] by simp
        from encode_reply_apart [OF assms(1) this assms(6) called(1) refl, where l = l and g = g' and h = "CMIF_IN_HEADER_SIZE l"] False
        show ?thesis by (auto simp: service_invoke_def assms(2) called(2) does_def y R_FAILED_iff)
      qed
    qed
  qed
qed

text \<open>C7: the generated code does what the model of the server assumes of it. Take a request as
  \<open>libnx\<close> parses it, methods that return or take the process down and fill their outputs when they
  succeed, and calls opening sessions that leave the objects alone. Whatever the client sent, each
  handler refuses the message with a failure and leaves the objects alone, or answers with the result
  of its method on some arguments and with the method's effect on the objects; or, for a command that
  returns an object, it takes the process down after its method succeeded, and then only because no
  session could be opened for the object.\<close>

theorem generated_code_invokes:
  "types_ok x \<Longrightarrow> sigs \<in> set (all_signatures x) \<Longrightarrow> parsed r \<Longrightarrow> raw_of l r rest \<Longrightarrow>
   implements M sigs methods \<Longrightarrow> sessions_apart c \<Longrightarrow>
   (\<forall>h g. (\<exists>rc. R_FAILED rc \<and> service_invoke l c sigs methods r pb h rest g = Inr (rc, False, g)) \<or>
      (\<exists>e. M h e \<and>
        (service_invoke l c sigs methods r pb h rest g = then_run (e g) (\<lambda>(rc, g). Inr (rc, True, g)) \<or>
         service_invoke l c sigs methods r pb h rest g = Inl Abort \<and>
           (\<exists>args. map_of sigs h = Some args \<and> of_type OutObject args \<noteq> []) \<and>
           (\<exists>g'. e g = Inr (ResultSuccess, g') \<and> \<not> session_opens c g')))) \<and>
   invokes M (service_invoke l c sigs methods r pb) rest"
proof -
  assume x: "types_ok x" "sigs \<in> set (all_signatures x)" and r: "parsed r" "raw_of l r rest"
    and M: "implements M sigs methods" and c: "sessions_apart c"
  have one: "(\<exists>rc. R_FAILED rc \<and> service_invoke l c sigs methods r pb h rest g = Inr (rc, False, g)) \<or>
      (\<exists>e. M h e \<and>
        (service_invoke l c sigs methods r pb h rest g = then_run (e g) (\<lambda>(rc, g). Inr (rc, True, g)) \<or>
         service_invoke l c sigs methods r pb h rest g = Inl Abort \<and>
           (\<exists>args. map_of sigs h = Some args \<and> of_type OutObject args \<noteq> []) \<and>
           (\<exists>g'. e g = Inr (ResultSuccess, g') \<and> \<not> session_opens c g')))"
    for h g
  proof (cases "map_of sigs h")
    case None
    then show ?thesis by (simp add: service_invoke_def R_FAILED_iff sf_ResultUnknownCommandId_def MakeValue_def)
  next
    case (Some args)
    have "(h, args) \<in> set sigs" using Some by (rule map_of_SomeD)
    then have wf: "well_formed args" using signatures_ok [OF x(1)] x(2) by (fastforce intro: arg_ok_well_formed)
    have m: "call_ok args (methods h)" "M h (does (methods h) vs)" for vs
      using M Some by (auto simp: implements_def)
    from wf Some r m(1) c show ?thesis
    proof (cases rule: service_invoke_runs [where pb = pb])
      case (refused rc)
      then show ?thesis by blast
    next
      case (runs vs)
      then show ?thesis using m(2) [of vs] Some by blast
    qed
  qed
  moreover have "invokes M (service_invoke l c sigs methods r pb) rest"
    unfolding invokes_def using one by blast
  ultimately show ?thesis by blast
qed

text \<open>The methods of a session all take the process down, so their generated code can be given.\<close>

lemma control_session_names: "map handler ControlSession_table = map fst (ControlSession_signatures x)"
  by (simp only: table_defs signature_defs list.map handler_meta fst_conv append.simps)

lemma session_method_names: "e \<in> set ControlSession_table \<Longrightarrow> \<exists>m. session_method (handler e) m"
  by (simp add: ControlSession_table_def MakeServiceCommandMeta_def, elim disjE; simp; rule exI; rule session_method.intros)

lemma session_method_abort:
  assumes "map_of (ControlSession_signatures x) h = Some args"
  shows "session_method h ((\<lambda>g. Inl Abort) :: 'w effect)"
proof -
  have "h \<in> set (map fst (ControlSession_signatures x))" using assms by (force dest: map_of_SomeD)
  then obtain e :: "'w effect" where e: "session_method h e"
    unfolding control_session_names [symmetric] using session_method_names by auto
  then have "e = (\<lambda>g. Inl Abort)" using session_method_aborts [OF e] by (simp add: fun_eq_iff)
  with e show ?thesis by simp
qed

lemma session_implements: "implements session_method (ControlSession_signatures x) (\<lambda>h vs g. Inl Abort)"
  by (auto simp: implements_def call_ok_def does_def [abs_def] intro: session_method_abort)

lemma generated_code_invokes_witness:
  "invokes session_method
     (service_invoke sample_sf \<lparr>create_session = (\<lambda>g. Inr (0xE401, (0, 0), g)),
        register_session = (\<lambda>h (obj :: unit) g. Inl Abort)\<rparr>
      (ControlSession_signatures sample_types) (\<lambda>h vs g. Inl Abort) (sample_message 9 [])
      \<lparr>pas_address = 0, pas_size = 0\<rparr>) (replicate 4 0)"
  by (rule generated_code_invokes [OF sample_types_ok _ sample_parsed sample_raw session_implements, THEN conjunct2])
    (simp_all add: all_signatures_def sessions_apart_def)

section \<open>Malformed requests\<close>

text \<open>C32: one malformed request takes the whole service down: when a request finds its command but its
  metadata (the number of buffers, statics or handles, the process id, the size of the data) are not
  those of the command, the dispatcher aborts, since no header of a reply has been set up.\<close>

theorem malformed_request_aborts:
  "CMIF_IN_HEADER_SIZE l \<le> length raw \<Longrightarrow> in_magic raw = CMIF_IN_HEADER_MAGIC l \<Longrightarrow>
   in_version raw \<le> max_cmif_version v \<Longrightarrow> find (Matches (in_command_id raw) v) t = Some e \<Longrightarrow>
   map_of sigs (handler e) = Some args \<Longrightarrow> PrepareForProcess r args (runtime_metadata l args) \<noteq> ResultSuccess \<Longrightarrow>
   ProcessMessageImpl (cmif_lib.truncate l) v (service_invoke l c sigs methods r pb) t raw g = Inl Abort"
proof -
  assume a: "CMIF_IN_HEADER_SIZE l \<le> length raw" "in_magic raw = CMIF_IN_HEADER_MAGIC l"
    "in_version raw \<le> max_cmif_version v" "find (Matches (in_command_id raw) v) t = Some e"
    "map_of sigs (handler e) = Some args" and p: "PrepareForProcess r args (runtime_metadata l args) \<noteq> ResultSuccess"
  have bad: "PrepareForProcess r args (runtime_metadata l args) = hipc_ResultInvalidCmifRequest"
    using p by (auto simp: PrepareForProcess_def Let_def split: if_splits)
  have "R_FAILED hipc_ResultInvalidCmifRequest" "\<not> Includes sf_RequestContextChanged hipc_ResultInvalidCmifRequest"
    by (simp_all add: R_FAILED_iff hipc_ResultInvalidCmifRequest_def sf_RequestContextChanged_def) code_simp+
  then have "then_run (service_invoke l c sigs methods r pb (handler e) rest g) answer = Inl Abort" for rest
    by (simp add: service_invoke_def a(5) InvokeServiceCommandImpl_def bad answer_def)
  then show ?thesis using a(1-4) by (simp add: ProcessMessageImpl_def cmif_lib.truncate_def)
qed

lemma malformed_request_aborts_witness:
  "ProcessMessageImpl sample_cmif Version_4_0_0
     (service_invoke sample_sf \<lparr>create_session = (\<lambda>g. Inr (ResultSuccess, (1, 2), g)),
        register_session = (\<lambda>h (obj :: unit) g. Inr (ResultSuccess, g))\<rparr>
      (AlbumAccessorService_signatures sample_types) (\<lambda>h vs g. Inl Abort) (sample_message 0 [])
      \<lparr>pas_address = 0, pas_size = 0\<rparr>)
     AlbumAccessorService_table (request sample_cmif 0 0 (replicate 4 0) []) () = Inl Abort"
proof -
  have t: "cmif_lib.truncate sample_sf = sample_cmif"
    by (simp add: cmif_lib.truncate_def sample_sf_def sample_cmif_def)
  have eq: "CMIF_IN_HEADER_SIZE sample_sf = CMIF_IN_HEADER_SIZE sample_cmif"
    "CMIF_IN_HEADER_MAGIC sample_sf = CMIF_IN_HEADER_MAGIC sample_cmif"
    by (simp_all add: sample_sf_def sample_cmif_def)
  have s: "length (replicate 4 (0 :: u8)) + 12 = CMIF_IN_HEADER_SIZE sample_cmif" by (simp add: sample_cmif_def)
  note h = request_header [OF s, of 0 0 "[]"]
  have m: "map_of (AlbumAccessorService_signatures sample_types)
      (handler (meta ''GetAlbumFileCount'' 0 Version_Min Version_Max)) = Some [OutDataArg u64_t, InDataArg u8_t]"
    by (simp add: handler_meta AlbumAccessorService_signatures_def)
  have f: "find (Matches (in_command_id (request sample_cmif 0 0 (replicate 4 0) [])) Version_4_0_0) AlbumAccessorService_table =
      Some (meta ''GetAlbumFileCount'' 0 Version_Min Version_Max)"
    by (simp add: h AlbumAccessorService_table_def Matches_def MakeServiceCommandMeta_def) code_simp
  have p: "PrepareForProcess (sample_message 0 []) [OutDataArg u64_t, InDataArg u8_t]
      (runtime_metadata sample_sf [OutDataArg u64_t, InDataArg u8_t]) \<noteq> ResultSuccess"
    by (simp add: PrepareForProcess_success sample_message_def GetUnfixedOutPointerSizeOffset_def align_up_def
        div_greater_zero_iff)
  show ?thesis
    unfolding t [symmetric]
    by (rule malformed_request_aborts [OF _ _ _ f [folded t] m p])
      (use h in \<open>simp_all add: t eq not_less\<close>)
qed

end
