(* ===== verification/HipcSessions.thy ===== *)
theory HipcSessions
  imports ServerMessages
begin

text \<open>
  The session manager of the framework (\<open>sf/hipc/sf_hipc_server_session_manager\<close>, the storage in
  \<open>sf_hipc_server_manager.hpp\<close>, the kernel calls of \<open>sf_hipc_api.cpp\<close> and the requests to the
  manager itself in \<open>sf_hipc_server_domain_session_manager.cpp\<close>): the slots sessions live in, how
  they are opened and closed, and how one message is received, dispatched and answered.

  No server of the program stands between a client and another service, so no session has a forward
  service and the branches for such sessions are left out. Every message is in the thread's message
  buffer (\<open>tls\<close>).
\<close>

section \<open>Results\<close>

definition hipc_ResultOutOfSessionMemory :: result where "hipc_ResultOutOfSessionMemory = MakeValue 11 102"
definition hipc_ResultOutOfSessions :: result where "hipc_ResultOutOfSessions = MakeValue 11 131"
definition hipc_ResultOutOfDomains :: result where "hipc_ResultOutOfDomains = MakeValue 11 200"
definition hipc_ResultInvalidRequestSize :: result where "hipc_ResultInvalidRequestSize = MakeValue 11 402"
definition hipc_ResultUnknownCommandType :: result where "hipc_ResultUnknownCommandType = MakeValue 11 403"
definition hipc_ResultTargetNotDomain :: result where "hipc_ResultTargetNotDomain = MakeValue 11 491"
definition hipc_ResultDomainObjectNotFound :: result where "hipc_ResultDomainObjectNotFound = MakeValue 11 492"

definition sf_RequestInvalidated :: error_range where "sf_RequestInvalidated = ErrorRange 10 801 809"
definition sf_RequestDeferred :: error_range where "sf_RequestDeferred = ErrorRange 10 811 819"
definition svc_OutOfResource :: error_range where "svc_OutOfResource = ErrorRange 1 103 103"
definition svc_TimedOut :: error_range where "svc_TimedOut = ErrorRange 1 117 117"
definition svc_SessionClosed :: error_range where "svc_SessionClosed = ErrorRange 1 123 123"
definition svc_ReceiveListBroken :: error_range where "svc_ReceiveListBroken = ErrorRange 1 258 258"

section \<open>State\<close>

record 'o ServerSession =
  srv_obj_holder :: "'o option"
  pointer_buffer :: PointerAndSize
  saved_message :: PointerAndSize
  session_handle :: u32
  is_closed :: bool
  has_received :: bool

text \<open>
  A slot: zeroed memory no session was made in yet, a session, or what a destroyed session left
  behind. Destroying what is destroyed would release its object a second time.
\<close>

datatype 'o session_storage = Zeroed | Alive "'o ServerSession" | Destroyed

text \<open>A server accepts the sessions of one port; \<open>MakeShared\<close> makes the object a session talks to.\<close>

record ('o, 'w) ServerBase =
  static_object :: "'o option"
  port_handle :: u32
  service_name :: string
  service_managed :: bool
  MakeShared :: "'w \<Rightarrow> 'o \<times> 'w"

text \<open>The waitable holders of a manager; which one it is, is its user data tag.\<close>

datatype waitable = ServerHolder nat | SessionHolder nat | RequestStopHolder | NotifyHolder

text \<open>
  \<open>services\<close> is everything outside of the manager: the album's objects and the kernel.
  \<open>saved_message_storage\<close> has one buffer for every slot. Servers and sessions are named by
  their index.
\<close>

record ('o, 'w) ServerManager =
  server_storages :: "('o, 'w) ServerBase option list"
  server_allocated :: "bool list"
  session_storages :: "'o session_storage list"
  session_allocated :: "bool list"
  pointer_buffers_start :: u64
  saved_messages_start :: u64
  saved_message_storage :: "u8 list list"
  waitable_manager :: "waitable list"
  waitlist :: "waitable list"
  deferred_session_list :: "nat list"
  request_stop_event :: bool
  notify_event :: bool
  tls :: "u8 list"
  inline_context :: "u8 list"
  out_response :: "HipcResponse option"
  services :: 'w

section \<open>What the manager calls\<close>

text \<open>\<open>libnx\<close>'s types of a message.\<close>

datatype CmifCommandType = CmifCommandType_Invalid | CmifCommandType_Close
  | CmifCommandType_Request | CmifCommandType_RequestWithContext
  | CmifCommandType_Control | CmifCommandType_ControlWithContext | CmifCommandType_Other

record hipc_message = HipcRequest +
  recv_list_address :: u64

text \<open>
  Domains, as \<open>ServerDomainBase\<close> and the domain manager offer them; a domain is named by its index.
  The managers of the program have \<open>MaxDomains = 0\<close> (\<open>no_domains\<close>).
\<close>

record ('o, 'w) domain_calls =
  AllocateDomainServiceObject :: "'w \<Rightarrow> nat option \<times> 'w"
  DestroyDomainServiceObject :: "nat \<Rightarrow> 'w \<Rightarrow> 'w run"
  domain_ReserveIds :: "nat \<Rightarrow> nat \<Rightarrow> 'w \<Rightarrow> (result \<times> u32 list \<times> 'w) run"
  domain_RegisterObject :: "nat \<Rightarrow> u32 \<Rightarrow> 'o option \<Rightarrow> 'w \<Rightarrow> 'w run"
  domain_GetObject :: "nat \<Rightarrow> u32 \<Rightarrow> 'w \<Rightarrow> 'o option"
  domain_holder :: "nat \<Rightarrow> 'o option"
  as_domain :: "'o \<Rightarrow> nat option"

text \<open>
  The kernel, \<open>libnx\<close>'s message format and the services behind the objects. \<open>svcReceive\<close> and
  \<open>svcReply\<close> are \<open>svcReplyAndReceive\<close> with one handle to receive from, and with a handle to
  reply to; the message is the thread's. \<open>make_receive\<close> prepares the message a request is received
  into, \<open>write_reply\<close> puts a response with its result into a message. \<open>PointerBufferSize\<close> is the
  option of the manager, zero here.
\<close>

record ('o, 'w) hipc_lib =
  svcAcceptSession :: "u32 \<Rightarrow> 'w \<Rightarrow> result \<times> u32 \<times> 'w"
  svcCloseHandle :: "u32 \<Rightarrow> 'w \<Rightarrow> result \<times> 'w"
  svcCreateSession :: "'w \<Rightarrow> result \<times> (u32 \<times> u32) \<times> 'w"
  svcReceive :: "u32 \<Rightarrow> u8 list \<Rightarrow> 'w \<Rightarrow> result \<times> u8 list \<times> 'w"
  svcReply :: "u32 \<Rightarrow> u8 list \<Rightarrow> 'w \<Rightarrow> result \<times> u8 list \<times> 'w"
  fsSetPriority :: "u8 \<Rightarrow> 'w \<Rightarrow> 'w"
  sm_RegisterService :: "string \<Rightarrow> nat \<Rightarrow> 'w \<Rightarrow> result \<times> u32 \<times> 'w"
  sm_UnregisterService :: "string \<Rightarrow> 'w \<Rightarrow> result \<times> 'w"
  WaitAny :: "waitable list \<Rightarrow> bool \<Rightarrow> bool \<Rightarrow> 'w \<Rightarrow> waitable \<times> 'w"
  tls_address :: u64
  make_receive :: "PointerAndSize option \<Rightarrow> u8 list \<Rightarrow> u8 list"
  GetCmifCommandType :: "u8 list \<Rightarrow> CmifCommandType"
  hipcParseRequest :: "u8 list \<Rightarrow> hipc_message"
  write_reply :: "HipcResponse \<Rightarrow> result \<Rightarrow> u8 list \<Rightarrow> u8 list"
  HIPC_AUTO_RECV_STATIC :: nat
  HipcRecvListEntry_size :: nat
  PointerBufferSize :: nat
  sf :: sf_lib
  firmware :: Version
  table_of :: "'o \<Rightarrow> string ServiceCommandMeta list"
  signatures_of :: "'o \<Rightarrow> signatures"
  methods_of :: "'o \<Rightarrow> string \<Rightarrow> ('o, 'w) method_call"
  domains :: "('o, 'w) domain_calls"

definition TlsMessageBufferSize :: nat where "TlsMessageBufferSize = 0x100"
definition ServerSessionCountMax :: nat where "ServerSessionCountMax = 0x40"

section \<open>Slots\<close>

text \<open>The first slot that is not allocated.\<close>

definition free_slot :: "bool list \<Rightarrow> nat option" where
  "free_slot allocated = List.find (\<lambda>i. \<not> allocated ! i) [0..<length allocated]"

definition AllocateSession :: "('o, 'w) ServerManager \<Rightarrow> nat option \<times> ('o, 'w) ServerManager" where
  "AllocateSession m =
     (case free_slot (session_allocated m) of
        None \<Rightarrow> (None, m)
      | Some i \<Rightarrow> (Some i, m\<lparr>session_allocated := (session_allocated m)[i := True]\<rparr>))"

definition FreeSession :: "nat \<Rightarrow> ('o, 'w) ServerManager \<Rightarrow> ('o, 'w) ServerManager run" where
  "FreeSession i m =
     (if \<not> i < length (session_allocated m) then Inl Abort
      else if \<not> session_allocated m ! i then Inl Abort
      else Inr (m\<lparr>session_allocated := (session_allocated m)[i := False]\<rparr>))"

definition GetObjectBySessionIndex :: "nat \<Rightarrow> u64 \<Rightarrow> nat \<Rightarrow> PointerAndSize" where
  "GetObjectBySessionIndex i start n = \<lparr>pas_address = start + of_nat i * of_nat n, pas_size = of_nat n\<rparr>"

definition GetSessionPointerBuffer ::
  "('o, 'w) hipc_lib \<Rightarrow> nat \<Rightarrow> ('o, 'w) ServerManager \<Rightarrow> PointerAndSize" where
  "GetSessionPointerBuffer k i m =
     (if PointerBufferSize k > 0
      then GetObjectBySessionIndex i (pointer_buffers_start m) (PointerBufferSize k)
      else \<lparr>pas_address = 0, pas_size = 0\<rparr>)"

definition GetSessionSavedMessageBuffer :: "nat \<Rightarrow> ('o, 'w) ServerManager \<Rightarrow> PointerAndSize" where
  "GetSessionSavedMessageBuffer i m = GetObjectBySessionIndex i (saved_messages_start m) TlsMessageBufferSize"

text \<open>The session in a slot; reading one that is not there is an access outside of its lifetime.\<close>

definition session_in :: "nat \<Rightarrow> ('o, 'w) ServerManager \<Rightarrow> 'o ServerSession run" where
  "session_in i m =
     (if i < length (session_storages m)
      then (case session_storages m ! i of Alive s \<Rightarrow> Inr s | _ \<Rightarrow> Inl OutOfBounds)
      else Inl OutOfBounds)"

definition set_session ::
  "nat \<Rightarrow> 'o ServerSession \<Rightarrow> ('o, 'w) ServerManager \<Rightarrow> ('o, 'w) ServerManager" where
  "set_session i s m = m\<lparr>session_storages := (session_storages m)[i := Alive s]\<rparr>"

section \<open>The wait list\<close>

text \<open>\<open>LinkWaitableHolder\<close> appends; that a holder is not linked already is asserted in debug builds only.\<close>

definition RegisterToWaitList :: "waitable \<Rightarrow> ('o, 'w) ServerManager \<Rightarrow> ('o, 'w) ServerManager" where
  "RegisterToWaitList h m = m\<lparr>waitlist := waitlist m @ [h], notify_event := True\<rparr>"

definition RegisterSessionToWaitList ::
  "nat \<Rightarrow> ('o, 'w) ServerManager \<Rightarrow> ('o, 'w) ServerManager run" where
  "RegisterSessionToWaitList i m =
     then_run (session_in i m) (\<lambda>s.
       Inr (RegisterToWaitList (SessionHolder i) (set_session i (s\<lparr>has_received := False\<rparr>) m)))"

section \<open>Opening and closing sessions\<close>

definition close_handle ::
  "('o, 'w) hipc_lib \<Rightarrow> u32 \<Rightarrow> ('o, 'w) ServerManager \<Rightarrow> ('o, 'w) ServerManager run" where
  "close_handle k h m =
     (let (rc, w) = svcCloseHandle k h (services m)
      in if R_FAILED rc then Inl Abort else Inr (m\<lparr>services := w\<rparr>))"

definition DestroySession :: "nat \<Rightarrow> ('o, 'w) ServerManager \<Rightarrow> ('o, 'w) ServerManager run" where
  "DestroySession i m =
     (if i < length (session_storages m)
      then (case session_storages m ! i of
              Alive s \<Rightarrow> FreeSession i (m\<lparr>session_storages := (session_storages m)[i := Destroyed]\<rparr>)
            | Zeroed \<Rightarrow> FreeSession i m
            | Destroyed \<Rightarrow> Inl OutOfBounds)
      else Inl OutOfBounds)"

definition CloseSessionImpl ::
  "('o, 'w) hipc_lib \<Rightarrow> nat \<Rightarrow> ('o, 'w) ServerManager \<Rightarrow> ('o, 'w) ServerManager run" where
  "CloseSessionImpl k i m =
     then_run (session_in i m) (\<lambda>s.
     then_run (DestroySession i m) (\<lambda>m. close_handle k (session_handle s) m))"

definition RegisterSessionImpl ::
  "('o, 'w) hipc_lib \<Rightarrow> u32 \<Rightarrow> 'o option \<Rightarrow> nat \<Rightarrow> ('o, 'w) ServerManager \<Rightarrow>
     (result \<times> ('o, 'w) ServerManager) run" where
  "RegisterSessionImpl k h obj i m =
     then_run (RegisterSessionToWaitList i (set_session i
         \<lparr>srv_obj_holder = obj, pointer_buffer = GetSessionPointerBuffer k i m,
          saved_message = GetSessionSavedMessageBuffer i m, session_handle = h,
          is_closed = False, has_received = False\<rparr> m)) (\<lambda>m. Inr (ResultSuccess, m))"

definition AcceptSessionImpl ::
  "('o, 'w) hipc_lib \<Rightarrow> u32 \<Rightarrow> 'o option \<Rightarrow> nat \<Rightarrow> ('o, 'w) ServerManager \<Rightarrow>
     (result \<times> ('o, 'w) ServerManager) run" where
  "AcceptSessionImpl k port obj i m =
     (let (rc, h, w) = svcAcceptSession k port (services m); m = m\<lparr>services := w\<rparr> in
      if R_FAILED rc then Inr (rc, m)
      else then_run (RegisterSessionImpl k h obj i m) (\<lambda>(rc, m).
        if R_FAILED rc then then_run (close_handle k h m) (\<lambda>m. Inr (rc, m)) else Inr (ResultSuccess, m)))"

definition CreateSessionImpl ::
  "(nat \<Rightarrow> ('o, 'w) ServerManager \<Rightarrow> (result \<times> ('o, 'w) ServerManager) run) \<Rightarrow>
     ('o, 'w) ServerManager \<Rightarrow> (result \<times> ('o, 'w) ServerManager) run" where
  "CreateSessionImpl ctor m =
     (case AllocateSession m of
        (None, m) \<Rightarrow> Inr (hipc_ResultOutOfSessionMemory, m)
      | (Some i, m) \<Rightarrow> then_run (ctor i m) (\<lambda>(rc, m).
          if R_FAILED rc then then_run (DestroySession i m) (\<lambda>m. Inr (rc, m)) else Inr (ResultSuccess, m)))"

definition RegisterSession ::
  "('o, 'w) hipc_lib \<Rightarrow> u32 \<Rightarrow> 'o option \<Rightarrow> ('o, 'w) ServerManager \<Rightarrow>
     (result \<times> ('o, 'w) ServerManager) run" where
  "RegisterSession k h obj = CreateSessionImpl (RegisterSessionImpl k h obj)"

definition AcceptSession ::
  "('o, 'w) hipc_lib \<Rightarrow> u32 \<Rightarrow> 'o option \<Rightarrow> ('o, 'w) ServerManager \<Rightarrow>
     (result \<times> ('o, 'w) ServerManager) run" where
  "AcceptSession k port obj = CreateSessionImpl (AcceptSessionImpl k port obj)"

definition hipc_CreateSession ::
  "('o, 'w) hipc_lib \<Rightarrow> ('o, 'w) ServerManager \<Rightarrow> result \<times> (u32 \<times> u32) \<times> ('o, 'w) ServerManager" where
  "hipc_CreateSession k m =
     (let (rc, hs, w) = svcCreateSession k (services m); m = m\<lparr>services := w\<rparr> in
      if R_FAILED rc \<and> Includes svc_OutOfResource rc then (hipc_ResultOutOfSessions, hs, m) else (rc, hs, m))"

section \<open>Receiving and replying\<close>

datatype ReceiveResult = ReceiveResult_Success | ReceiveResult_Closed | ReceiveResult_NeedsRetry

definition Receive ::
  "('o, 'w) hipc_lib \<Rightarrow> u32 \<Rightarrow> ('o, 'w) ServerManager \<Rightarrow> result \<times> ReceiveResult \<times> ('o, 'w) ServerManager" where
  "Receive k h m =
     (let (rc, message, w) = svcReceive k h (tls m) (services m); m = m\<lparr>tls := message, services := w\<rparr> in
      if R_FAILED rc then
        if Includes svc_SessionClosed rc then (ResultSuccess, ReceiveResult_Closed, m)
        else if Includes svc_ReceiveListBroken rc then (ResultSuccess, ReceiveResult_NeedsRetry, m)
        else (rc, ReceiveResult_Success, m)
      else (ResultSuccess, ReceiveResult_Success, m))"

definition Reply ::
  "('o, 'w) hipc_lib \<Rightarrow> u32 \<Rightarrow> ('o, 'w) ServerManager \<Rightarrow> (result \<times> ('o, 'w) ServerManager) run" where
  "Reply k h m =
     (let (rc, message, w) = svcReply k h (tls m) (services m); m = m\<lparr>tls := message, services := w\<rparr> in
      if R_FAILED rc then
        if Includes svc_TimedOut rc then Inr (ResultSuccess, m)
        else if Includes svc_SessionClosed rc then Inr (ResultSuccess, m)
        else Inr (rc, m)
      else Inl Abort)"

text \<open>
  The kernel asks for a retry when it could not use the receive list, which could go on for ever; the
  fuel counts the tries.
\<close>

fun ReceiveRequestImpl ::
  "nat \<Rightarrow> ('o, 'w) hipc_lib \<Rightarrow> nat \<Rightarrow> ('o, 'w) ServerManager \<Rightarrow>
     (result \<times> ('o, 'w) ServerManager) run" where
  "ReceiveRequestImpl 0 k i m = Inl OutOfFuel"
| "ReceiveRequestImpl (Suc n) k i m =
     then_run (session_in i m) (\<lambda>s.
     let pb = pointer_buffer s;
         m = m\<lparr>tls := make_receive k (if pas_address pb \<noteq> 0 then Some pb else None) (tls m)\<rparr>;
         (rc, recv_result, m) = Receive k (session_handle s) m
     in if R_FAILED rc then Inr (rc, m)
        else (case recv_result of
                ReceiveResult_Success \<Rightarrow> Inr (ResultSuccess, set_session i (s\<lparr>is_closed := False\<rparr>) m)
              | ReceiveResult_Closed \<Rightarrow> Inr (ResultSuccess, set_session i (s\<lparr>is_closed := True\<rparr>) m)
              | ReceiveResult_NeedsRetry \<Rightarrow> ReceiveRequestImpl n k i m))"

section \<open>Dispatching a message\<close>

text \<open>
  What answers a message: the request, the session's pointer buffer and the raw data. The session
  calls of the generated code are the manager's own.
\<close>

type_synonym ('o, 'w) processor = "HipcRequest \<Rightarrow> PointerAndSize \<Rightarrow> u8 list \<Rightarrow>
  ('o, 'w) ServerManager \<Rightarrow> (result \<times> ('o, 'w) ServerManager) run"

type_synonym ('o, 'w) manager_call = "('o, ('o, 'w) ServerManager) method_call"

definition sessions_of :: "('o, 'w) hipc_lib \<Rightarrow> ('o, ('o, 'w) ServerManager) session_calls" where
  "sessions_of k = \<lparr>create_session = (\<lambda>m. Inr (hipc_CreateSession k m)),
     register_session = (\<lambda>h obj. RegisterSession k h (Some obj))\<rparr>"

definition session_invoke ::
  "('o, 'w) hipc_lib \<Rightarrow> signatures \<Rightarrow> (string \<Rightarrow> ('o, 'w) manager_call) \<Rightarrow> HipcRequest \<Rightarrow>
     PointerAndSize \<Rightarrow> string \<Rightarrow> u8 list \<Rightarrow> ('o, 'w) ServerManager \<Rightarrow>
     (result \<times> bool \<times> ('o, 'w) ServerManager) run" where
  "session_invoke k sigs methods r pb h rest m =
     (case map_of sigs h of
        Some args \<Rightarrow>
          then_run (InvokeServiceCommandImpl (sf k) (sessions_of k) args (methods h) r pb rest m)
            (\<lambda>(rc, response, m). Inr (rc, response \<noteq> None, m\<lparr>out_response := response\<rparr>))
      | None \<Rightarrow> Inr (sf_ResultUnknownCommandId, False, m))"

text \<open>\<open>ServiceObjectHolder::ProcessMessage\<close>: the object's table decides; the response goes into the
  message with the result in its header.\<close>

definition ProcessMessage ::
  "('o, 'w) hipc_lib \<Rightarrow> string ServiceCommandMeta list \<Rightarrow> signatures \<Rightarrow>
     (string \<Rightarrow> ('o, 'w) manager_call) \<Rightarrow> ('o, 'w) processor" where
  "ProcessMessage k entries sigs methods r pb raw m =
     then_run (ProcessMessageImpl (cmif_lib.truncate (sf k)) (firmware k) (session_invoke k sigs methods r pb)
         entries raw (m\<lparr>out_response := None\<rparr>)) (\<lambda>(rc, header, m).
       Inr (rc, case (header, out_response m) of
                  (Some command_result, Some response) \<Rightarrow>
                    m\<lparr>tls := write_reply k response command_result (tls m)\<rparr>
                | _ \<Rightarrow> m))"

text \<open>A method of a service works on the state outside of the manager.\<close>

definition on_services :: "('o, 'w) method_call \<Rightarrow> ('o, 'w) manager_call" where
  "on_services call vs m =
     then_run (call vs (services m)) (\<lambda>(rc, out, w). Inr (rc, out, m\<lparr>services := w\<rparr>))"

definition object_processor :: "('o, 'w) hipc_lib \<Rightarrow> 'o option \<Rightarrow> ('o, 'w) processor" where
  "object_processor k obj =
     (case obj of
        None \<Rightarrow> (\<lambda>r pb raw m. Inl OutOfBounds)
      | Some obj \<Rightarrow> ProcessMessage k (table_of k obj) (signatures_of k obj)
          (\<lambda>h. on_services (methods_of k obj h)))"

text \<open>The raw data of a request begin after padding to 16 bytes, of which there are 16 in all.\<close>

definition in_raw_data :: "hipc_message \<Rightarrow> u8 list" where
  "in_raw_data r =
     (let in_raw_addr = data_address r; in_raw_size = of_nat (num_data_words (hipc_meta r)) * 4 :: u64
      in take (unat (in_raw_size - 0x10)) (drop (unat (AlignUp in_raw_addr 0x10 - in_raw_addr)) (data_words r)))"

text \<open>Nothing puts a handle into the list of handles to close.\<close>

definition DispatchRequest ::
  "('o, 'w) hipc_lib \<Rightarrow> ('o, 'w) processor \<Rightarrow> nat \<Rightarrow> ('o, 'w) ServerManager \<Rightarrow>
     (result \<times> ('o, 'w) ServerManager) run" where
  "DispatchRequest k process i m =
     then_run (session_in i m) (\<lambda>s.
     let r = hipcParseRequest k (tls m);
         in_message_buffer_end = tls_address k + of_nat TlsMessageBufferSize;
         in_raw_addr = data_address r;
         in_raw_size = of_nat (num_data_words (hipc_meta r)) * 4;
         recv_list_size = (if num_recv_statics (hipc_meta r) = HIPC_AUTO_RECV_STATIC k then 1
                           else num_recv_statics (hipc_meta r));
         recv_list_end = recv_list_address r + of_nat (recv_list_size * HipcRecvListEntry_size k)
     in if \<not> 0x10 \<le> in_raw_size then Inr (hipc_ResultInvalidRequestSize, m)
        else if \<not> in_raw_addr + in_raw_size \<le> in_message_buffer_end then Inr (hipc_ResultInvalidRequestSize, m)
        else if \<not> recv_list_end \<le> in_message_buffer_end then Inr (hipc_ResultInvalidRequestSize, m)
        else then_run (process (HipcRequest.truncate r) (pointer_buffer s) (in_raw_data r) m) (\<lambda>(rc, m).
          if R_FAILED rc then Inr (rc, m)
          else then_run (session_in i m) (\<lambda>s. Reply k (session_handle s) m)))"

section \<open>Requests to the manager\<close>

definition no_domains :: "('o, 'w) domain_calls" where
  "no_domains = \<lparr>AllocateDomainServiceObject = (\<lambda>w. (None, w)), DestroyDomainServiceObject = (\<lambda>d w. Inl Abort),
     domain_ReserveIds = (\<lambda>d n w. Inl Abort), domain_RegisterObject = (\<lambda>d j obj w. Inl Abort),
     domain_GetObject = (\<lambda>d j w. None), domain_holder = (\<lambda>d. None), as_domain = (\<lambda>obj. None)\<rparr>"

text \<open>
  The arguments as the generated code binds them: the place of an output value; a place for a handle and
  an object identifier. No other shape can reach a command (\<open>HipcManager_signatures\<close>).
\<close>

definition out_place :: "arg_value list \<Rightarrow> nat run" where
  "out_place vs = (case vs of [OutPlace off n] \<Rightarrow> Inr off | _ \<Rightarrow> Inl Abort)"

definition object_id_argument :: "arg_value list \<Rightarrow> u32 run" where
  "object_id_argument vs =
     (case vs of [OutMovePlace _, InValue object_id] \<Rightarrow> Inr (le_word object_id) | _ \<Rightarrow> Inl Abort)"

definition no_output :: "'o outputs" where
  "no_output = \<lparr>raw_writes = [], move_writes = [], copy_writes = [], object_writes = []\<rparr>"

definition open_session_for :: "('o, 'w) hipc_lib \<Rightarrow> 'o \<Rightarrow> ('o, 'w) ServerManager \<Rightarrow>
    (result \<times> 'o outputs \<times> ('o, 'w) ServerManager) run" where
  "open_session_for k obj m =
     (let (rc, (server_handle, client_handle), m) = hipc_CreateSession k m in
      if R_FAILED rc then Inl Abort
      else then_run (RegisterSession k server_handle (Some obj) m) (\<lambda>(rc, m).
        if R_FAILED rc then Inl Abort
        else Inr (ResultSuccess, no_output\<lparr>move_writes := [(0, client_handle)]\<rparr>, m)))"

definition CloneCurrentObjectImpl :: "('o, 'w) hipc_lib \<Rightarrow> nat \<Rightarrow> ('o, 'w) manager_call" where
  "CloneCurrentObjectImpl k i vs m =
     then_run (session_in i m) (\<lambda>s.
       case srv_obj_holder s of
         None \<Rightarrow> Inr (hipc_ResultDomainObjectNotFound, no_output, m)
       | Some obj \<Rightarrow> open_session_for k obj m)"

definition ConvertCurrentObjectToDomain :: "('o, 'w) hipc_lib \<Rightarrow> nat \<Rightarrow> ('o, 'w) manager_call" where
  "ConvertCurrentObjectToDomain k i vs m =
     (let c = domains k; (domain, w) = AllocateDomainServiceObject c (services m); m = m\<lparr>services := w\<rparr> in
      case domain of
        None \<Rightarrow> Inr (hipc_ResultOutOfDomains, no_output, m)
      | Some d \<Rightarrow>
          then_run (domain_ReserveIds c d 1 (services m)) (\<lambda>(rc, ids, w).
          if R_FAILED rc
          then then_run (DestroyDomainServiceObject c d w) (\<lambda>w. Inr (rc, no_output, m\<lparr>services := w\<rparr>))
          else if hd ids = 0 then Inl Abort
          else if domain_holder c d = None then Inl Abort
          else then_run (session_in i m) (\<lambda>s.
            then_run (domain_RegisterObject c d (hd ids) (srv_obj_holder s) w) (\<lambda>w.
            then_run (out_place vs) (\<lambda>off.
              Inr (ResultSuccess, no_output\<lparr>raw_writes := [(off, le_bytes 4 (hd ids))]\<rparr>,
                set_session i (s\<lparr>srv_obj_holder := domain_holder c d\<rparr>) (m\<lparr>services := w\<rparr>)))))))"

definition CopyFromCurrentDomain :: "('o, 'w) hipc_lib \<Rightarrow> nat \<Rightarrow> ('o, 'w) manager_call" where
  "CopyFromCurrentDomain k i vs m =
     then_run (session_in i m) (\<lambda>s.
       case Option.bind (srv_obj_holder s) (as_domain (domains k)) of
         None \<Rightarrow> Inr (hipc_ResultTargetNotDomain, no_output, m)
       | Some d \<Rightarrow>
           then_run (object_id_argument vs) (\<lambda>object_id.
             case domain_GetObject (domains k) d object_id (services m) of
               None \<Rightarrow> Inr (hipc_ResultDomainObjectNotFound, no_output, m)
             | Some obj \<Rightarrow> open_session_for k obj m))"

definition QueryPointerBufferSize :: "nat \<Rightarrow> ('o, 'w) manager_call" where
  "QueryPointerBufferSize i vs m =
     then_run (session_in i m) (\<lambda>s.
       then_run (out_place vs) (\<lambda>off.
         Inr (ResultSuccess,
           no_output\<lparr>raw_writes := [(off, le_bytes 2 (ucast (pas_size (pointer_buffer s)) :: u16))]\<rparr>, m)))"

text \<open>\<open>GetSessionManagerByTag\<close> returns the manager whatever the tag.\<close>

definition HipcManager_methods :: "('o, 'w) hipc_lib \<Rightarrow> nat \<Rightarrow> string \<Rightarrow> ('o, 'w) manager_call" where
  "HipcManager_methods k i h =
     (if h = ''ConvertCurrentObjectToDomain'' then ConvertCurrentObjectToDomain k i
      else if h = ''CopyFromCurrentDomain'' then CopyFromCurrentDomain k i
      else if h = ''CloneCurrentObject'' then CloneCurrentObjectImpl k i
      else if h = ''QueryPointerBufferSize'' then QueryPointerBufferSize i
      else if h = ''CloneCurrentObjectEx'' then CloneCurrentObjectImpl k i
      else (\<lambda>vs m. Inl Abort))"

definition HipcManager_table :: "string ServiceCommandMeta list" where
  "HipcManager_table =
   [meta ''ConvertCurrentObjectToDomain'' 0 Version_Min Version_Max,
    meta ''CopyFromCurrentDomain'' 1 Version_Min Version_Max,
    meta ''CloneCurrentObject'' 2 Version_Min Version_Max,
    meta ''QueryPointerBufferSize'' 3 Version_Min Version_Max,
    meta ''CloneCurrentObjectEx'' 4 Version_Min Version_Max]"

definition HipcManager_signatures :: signatures where
  "HipcManager_signatures =
   [(''ConvertCurrentObjectToDomain'', [OutDataArg (Data 4 4)]),
    (''CopyFromCurrentDomain'', [OutMoveHandle, InDataArg (Data 4 4)]),
    (''CloneCurrentObject'', [OutMoveHandle]),
    (''QueryPointerBufferSize'', [OutDataArg (Data 2 2)]),
    (''CloneCurrentObjectEx'', [OutMoveHandle, InDataArg (Data 4 4)])]"

definition DispatchManagerRequest ::
  "('o, 'w) hipc_lib \<Rightarrow> nat \<Rightarrow> ('o, 'w) ServerManager \<Rightarrow> (result \<times> ('o, 'w) ServerManager) run" where
  "DispatchManagerRequest k i =
     DispatchRequest k (ProcessMessage k HipcManager_table HipcManager_signatures (HipcManager_methods k i)) i"

section \<open>A request of a session\<close>

definition GetInlineContext :: "('o, 'w) hipc_lib \<Rightarrow> u8 list \<Rightarrow> u8 list" where
  "GetInlineContext k in_message =
     (if GetCmifCommandType k in_message \<in> {CmifCommandType_RequestWithContext, CmifCommandType_ControlWithContext}
         \<and> 0x10 \<le> length in_message
      then take 4 (drop 0xC in_message) else replicate 4 0)"

definition SetInlineContext ::
  "('o, 'w) hipc_lib \<Rightarrow> u8 list \<Rightarrow> ('o, 'w) ServerManager \<Rightarrow> ('o, 'w) ServerManager" where
  "SetInlineContext k ctx m =
     m\<lparr>inline_context := ctx, services := fsSetPriority k (hd ctx) (services m)\<rparr>"

definition ScopedInlineContextChanger ::
  "('o, 'w) hipc_lib \<Rightarrow> u8 list \<Rightarrow> (('o, 'w) ServerManager \<Rightarrow> (result \<times> ('o, 'w) ServerManager) run) \<Rightarrow>
     ('o, 'w) ServerManager \<Rightarrow> (result \<times> ('o, 'w) ServerManager) run" where
  "ScopedInlineContextChanger k ctx scope m =
     then_run (scope (SetInlineContext k ctx m)) (\<lambda>(rc, m').
       Inr (rc, SetInlineContext k (inline_context m) m'))"

definition ProcessRequestImpl ::
  "('o, 'w) hipc_lib \<Rightarrow> nat \<Rightarrow> ('o, 'w) ServerManager \<Rightarrow> (result \<times> ('o, 'w) ServerManager) run" where
  "ProcessRequestImpl k i m =
     (let cmif_command_type = GetCmifCommandType k (tls m) in
      ScopedInlineContextChanger k (GetInlineContext k (tls m)) (\<lambda>m.
        if cmif_command_type \<in> {CmifCommandType_Request, CmifCommandType_RequestWithContext}
        then then_run (session_in i m) (\<lambda>s.
               DispatchRequest k (object_processor k (srv_obj_holder s)) i m)
        else if cmif_command_type \<in> {CmifCommandType_Control, CmifCommandType_ControlWithContext}
        then DispatchManagerRequest k i m
        else Inr (hipc_ResultUnknownCommandType, m)) m)"

definition ProcessRequest ::
  "('o, 'w) hipc_lib \<Rightarrow> nat \<Rightarrow> ('o, 'w) ServerManager \<Rightarrow> (result \<times> ('o, 'w) ServerManager) run" where
  "ProcessRequest k i m =
     then_run (session_in i m) (\<lambda>s.
     if is_closed s then then_run (CloseSessionImpl k i m) (\<lambda>m. Inr (ResultSuccess, m))
     else if GetCmifCommandType k (tls m) = CmifCommandType_Close
     then then_run (CloseSessionImpl k i m) (\<lambda>m. Inr (ResultSuccess, m))
     else then_run (ProcessRequestImpl k i m) (\<lambda>(rc, m).
       if R_FAILED rc then
         if Includes sf_RequestContextChanged rc then Inr (rc, m)
         else then_run (CloseSessionImpl k i m) (\<lambda>m. Inr (ResultSuccess, m))
       else then_run (RegisterSessionToWaitList i m) (\<lambda>m. Inr (ResultSuccess, m))))"

end
