(* ===== verification/HipcSessionFacts.thy ===== *)
theory HipcSessionFacts
  imports HipcSessions
begin

text \<open>
  What a request can do to a session manager: it opens sessions in free slots and puts them on the
  wait list (\<open>grows\<close>); everything else of the manager stays as it is until the session that is
  served is closed or put back on the wait list.
\<close>

section \<open>Slots\<close>

definition is_alive :: "nat \<Rightarrow> ('o, 'w) ServerManager \<Rightarrow> bool" where
  "is_alive i m \<longleftrightarrow> (\<exists>s. session_in i m = Inr s)"

definition slots_ok :: "('o, 'w) ServerManager \<Rightarrow> bool" where
  "slots_ok m \<longleftrightarrow> length (session_allocated m) = length (session_storages m) \<and>
     (\<forall>i < length (session_storages m). session_allocated m ! i = is_alive i m)"

text \<open>What no request touches.\<close>

definition frame :: "('o, 'w) ServerManager \<Rightarrow> _" where
  "frame m = (server_storages m, server_allocated m, length (session_storages m), waitable_manager m,
     deferred_session_list m, request_stop_event m, pointer_buffers_start m, saved_messages_start m)"

definition opened :: "nat list \<Rightarrow> ('o, 'w) ServerManager \<Rightarrow> ('o, 'w) ServerManager \<Rightarrow> bool" where
  "opened js m m' \<longleftrightarrow> waitlist m' = waitlist m @ map SessionHolder js \<and> distinct js \<and>
     (\<forall>j. is_alive j m' \<longleftrightarrow> is_alive j m \<or> j \<in> set js) \<and> (\<forall>j\<in>set js. \<not> is_alive j m)"

definition grows :: "('o, 'w) ServerManager \<Rightarrow> ('o, 'w) ServerManager \<Rightarrow> bool" where
  "grows m m' \<longleftrightarrow> frame m' = frame m \<and> (slots_ok m \<longrightarrow> slots_ok m' \<and> (\<exists>js. opened js m m'))"

lemma session_in_alive: "session_in i m = Inr s \<longleftrightarrow> i < length (session_storages m) \<and> session_storages m ! i = Alive s"
  by (auto simp: session_in_def split: if_splits session_storage.splits)

lemma is_alive_iff: "is_alive i m \<longleftrightarrow> i < length (session_storages m) \<and> (\<exists>s. session_storages m ! i = Alive s)"
  by (auto simp: is_alive_def session_in_alive)

lemma alive_length: "is_alive i m \<Longrightarrow> i < length (session_storages m)"
  by (simp add: is_alive_iff)

lemma grows_refl: "grows m m"
  by (auto simp: grows_def opened_def intro: exI [of _ "[]"])

lemma opened_trans: "opened js m m1 \<Longrightarrow> opened ks m1 m2 \<Longrightarrow> opened (js @ ks) m m2"
  by (auto simp: opened_def)

lemma grows_trans: "grows m m1 \<Longrightarrow> grows m1 m2 \<Longrightarrow> grows m m2"
  unfolding grows_def by (metis opened_trans)

text \<open>Changes that a request may make to anything but the lists and the slots.\<close>

lemma grows_same:
  assumes "frame m' = frame m" and "waitlist m' = waitlist m" and "session_allocated m' = session_allocated m"
    and "\<And>j. is_alive j m' = is_alive j m"
  shows "grows m m'"
  using assms by (auto simp: grows_def slots_ok_def frame_def opened_def intro: exI [of _ "[]"])

lemma is_alive_update [simp]:
  "is_alive j (m\<lparr>services := w\<rparr>) = is_alive j m" "is_alive j (m\<lparr>tls := b\<rparr>) = is_alive j m"
  "is_alive j (m\<lparr>out_response := rsp\<rparr>) = is_alive j m" "is_alive j (m\<lparr>inline_context := b\<rparr>) = is_alive j m"
  "is_alive j (m\<lparr>saved_message_storage := bs\<rparr>) = is_alive j m"
  "is_alive j (m\<lparr>session_allocated := al\<rparr>) = is_alive j m"
  "is_alive j (m\<lparr>deferred_session_list := js\<rparr>) = is_alive j m"
  "is_alive j (m\<lparr>waitlist := hs\<rparr>) = is_alive j m" "is_alive j (m\<lparr>notify_event := b'\<rparr>) = is_alive j m"
  "is_alive j (m\<lparr>waitable_manager := hs\<rparr>) = is_alive j m"
  "is_alive j (RegisterToWaitList h m) = is_alive j m" "is_alive j (SetInlineContext k ctx m) = is_alive j m"
  by (simp_all add: is_alive_iff RegisterToWaitList_def SetInlineContext_def)

lemma session_in_update [simp]:
  "session_in j (m\<lparr>services := w\<rparr>) = session_in j m" "session_in j (m\<lparr>tls := b\<rparr>) = session_in j m"
  "session_in j (m\<lparr>out_response := rsp\<rparr>) = session_in j m"
  "session_in j (m\<lparr>saved_message_storage := bs\<rparr>) = session_in j m"
  "session_in j (m\<lparr>session_allocated := al\<rparr>) = session_in j m"
  "session_in j (m\<lparr>deferred_session_list := js\<rparr>) = session_in j m"
  "session_in j (RegisterToWaitList h m) = session_in j m" "session_in j (SetInlineContext k ctx m) = session_in j m"
  by (simp_all add: session_in_def RegisterToWaitList_def SetInlineContext_def)

lemma frame_update [simp]:
  "frame (m\<lparr>services := w\<rparr>) = frame m" "frame (m\<lparr>tls := b\<rparr>) = frame m"
  "frame (m\<lparr>out_response := rsp\<rparr>) = frame m" "frame (m\<lparr>saved_message_storage := bs\<rparr>) = frame m"
  "frame (m\<lparr>session_allocated := al\<rparr>) = frame m" "frame (set_session i s m) = frame m"
  "frame (RegisterToWaitList h m) = frame m" "frame (SetInlineContext k ctx m) = frame m"
  by (simp_all add: frame_def set_session_def RegisterToWaitList_def SetInlineContext_def)

lemma set_session_simps [simp]:
  "waitlist (set_session i s m) = waitlist m" "session_allocated (set_session i s m) = session_allocated m"
  "services (set_session i s m) = services m" "tls (set_session i s m) = tls m"
  "length (session_storages (set_session i s m)) = length (session_storages m)"
  "set_session i s (set_session i s' m) = set_session i s m"
  by (simp_all add: set_session_def)

lemma is_alive_set_session: "i < length (session_storages m) \<Longrightarrow> is_alive j (set_session i s m) \<longleftrightarrow> j = i \<or> is_alive j m"
  by (auto simp: is_alive_iff set_session_def nth_list_update)

lemma session_in_set_session [simp]:
  "session_in j (set_session i s m) = (if j = i \<and> i < length (session_storages m) then Inr s else session_in j m)"
  by (auto simp: session_in_def set_session_def nth_list_update)

lemma grows_update [simp]:
  "grows m (m\<lparr>services := w\<rparr>)" "grows m (m\<lparr>tls := b\<rparr>)" "grows m (m\<lparr>tls := b, services := w\<rparr>)"
  "grows m (m\<lparr>out_response := rsp\<rparr>)"
  "grows m (m\<lparr>saved_message_storage := bs\<rparr>)" "grows m (SetInlineContext k ctx m)"
  by (auto intro!: grows_same simp: frame_def SetInlineContext_def)

lemma grows_set_session: "session_in i m = Inr s \<Longrightarrow> grows m (set_session i s' m)"
  by (rule grows_same) (auto simp: is_alive_set_session session_in_alive is_alive_def)

section \<open>Allocation\<close>

lemma free_slot_Some: "free_slot al = Some i \<Longrightarrow> i < length al \<and> \<not> al ! i"
  by (auto simp: free_slot_def find_Some_iff)

lemma free_slot_None: "free_slot al = None \<longleftrightarrow> (\<forall>i < length al. al ! i)"
  by (auto simp: free_slot_def find_None_iff)

lemma RegisterSessionImpl_eq:
  assumes "i < length (session_storages m)"
  shows "\<exists>s. RegisterSessionImpl k h obj i m = Inr (ResultSuccess, RegisterToWaitList (SessionHolder i) (set_session i s m)) \<and>
     srv_obj_holder s = obj \<and> session_handle s = h \<and> pointer_buffer s = GetSessionPointerBuffer k i m"
  using assms by (simp add: RegisterSessionImpl_def RegisterSessionToWaitList_def) (rule exI, rule conjI, rule refl, simp)

lemma session_of_RegisterToWaitList [simp]:
  "session_storages (RegisterToWaitList h m) = session_storages m"
  "session_allocated (RegisterToWaitList h m) = session_allocated m"
  "waitlist (RegisterToWaitList h m) = waitlist m @ [h]" "services (RegisterToWaitList h m) = services m"
  "tls (RegisterToWaitList h m) = tls m"
  by (simp_all add: RegisterToWaitList_def)

text \<open>A session that is registered: with every slot taken there is no memory for it, else it gets the
  first free one.\<close>

lemma RegisterSession_full: "free_slot (session_allocated m) = None \<Longrightarrow>
    RegisterSession k h obj m = Inr (hipc_ResultOutOfSessionMemory, m)"
  by (simp add: RegisterSession_def CreateSessionImpl_def AllocateSession_def)

lemma RegisterSession_free:
  assumes "free_slot (session_allocated m) = Some i"
    and "length (session_allocated m) = length (session_storages m)"
  shows "\<exists>s m'. RegisterSession k h obj m = Inr (ResultSuccess, m') \<and> session_in i m' = Inr s \<and>
     m' = RegisterToWaitList (SessionHolder i) (set_session i s (m\<lparr>session_allocated := (session_allocated m)[i := True]\<rparr>)) \<and>
     srv_obj_holder s = obj \<and> session_handle s = h"
proof -
  have i: "i < length (session_storages m)" using free_slot_Some [OF assms(1)] assms(2) by simp
  then obtain s where "RegisterSessionImpl k h obj i (m\<lparr>session_allocated := (session_allocated m)[i := True]\<rparr>) =
      Inr (ResultSuccess, RegisterToWaitList (SessionHolder i)
        (set_session i s (m\<lparr>session_allocated := (session_allocated m)[i := True]\<rparr>)))"
    "srv_obj_holder s = obj" "session_handle s = h"
    using RegisterSessionImpl_eq [of i "m\<lparr>session_allocated := (session_allocated m)[i := True]\<rparr>" k h obj] by auto
  then show ?thesis
    using assms i by (auto simp: RegisterSession_def CreateSessionImpl_def AllocateSession_def)
qed

lemma slots_ok_open:
  assumes "free_slot (session_allocated m) = Some i" and "slots_ok m"
  shows "grows m (RegisterToWaitList (SessionHolder i) (set_session i s (m\<lparr>session_allocated := (session_allocated m)[i := True]\<rparr>)))"
    (is "grows m ?m'")
proof -
  have i: "i < length (session_storages m)" "\<not> is_alive i m"
    using free_slot_Some [OF assms(1)] assms(2) by (auto simp: slots_ok_def)
  have al: "is_alive j ?m' \<longleftrightarrow> j = i \<or> is_alive j m" for j using i by (simp add: is_alive_set_session)
  have "slots_ok ?m'"
    using assms(2) i by (auto simp: slots_ok_def is_alive_set_session nth_list_update)
  moreover have "opened [i] m ?m'" using al i by (auto simp: opened_def)
  ultimately show ?thesis by (auto simp: grows_def)
qed


section \<open>What the generated code does to the state\<close>

text \<open>
  Any relation on states that the method and the two session calls respect is respected by the
  code around the method: it has no other effect.
\<close>

locale request_relation =
  fixes R :: "'g \<Rightarrow> 'g \<Rightarrow> bool" and c :: "('o, 'g) session_calls"
  assumes R_refl: "R g g"
    and R_trans: "R g g1 \<Longrightarrow> R g1 g2 \<Longrightarrow> R g g2"
    and R_create: "create_session c g = Inr (rc, hs, g') \<Longrightarrow> R g g'"
    and R_register: "register_session c h obj g = Inr (rc, g') \<Longrightarrow> R g g'"
begin

lemma set_out_objects_R: "set_out_objects l c i objs (ms, g) = Inr (ms', g') \<Longrightarrow> R g g'"
proof (induction objs arbitrary: i ms g)
  case Nil
  then show ?case by (simp add: R_refl)
next
  case (Cons obj objs)
  then obtain ms1 g1 where s: "SetOutObjectImpl l c i obj (ms, g) = Inr (ms1, g1)"
    and rest: "set_out_objects l c (Suc i) objs (ms1, g1) = Inr (ms', g')"
    by (auto simp: then_run_eq_Inr)
  have "R g g1"
  proof (cases obj)
    case None
    then show ?thesis using s by (auto simp: SetOutObjectImpl_def then_run_eq_Inr R_refl)
  next
    case (Some x)
    then show ?thesis
      using s by (auto simp: SetOutObjectImpl_def then_run_eq_Inr split: if_splits intro: R_trans R_create R_register)
  qed
  then show ?case using Cons.IH [OF rest] R_trans by blast
qed

lemma encode_reply_R: "encode_reply l c args md buffers out g = Inr (rc, response, g') \<Longrightarrow> R g g'"
  by (auto simp: encode_reply_def then_run_eq_Inr R_refl dest: set_out_objects_R
      split: if_splits sum.splits prod.splits)

lemma invoke_R:
  assumes "InvokeServiceCommandImpl l c args call r pb raw g = Inr (rc, response, g')"
    and call: "\<And>vs g rc out g'. call vs g = Inr (rc, out, g') \<Longrightarrow> R g g'"
  shows "R g g'"
proof -
  obtain rsp n where "PrepareForErrorReply (runtime_metadata l args) = (rsp, n)" by fastforce
  then show ?thesis
    using assms(1)
    by (auto simp: InvokeServiceCommandImpl_def GetCmifOutHeaderPointer_def Let_def then_run_eq_Inr R_refl
        split: if_split_asm prod.split_asm dest!: call encode_reply_R intro: R_trans)
qed

lemma process_R:
  assumes "ProcessMessageImpl l v invoke t raw g = Inr (rc, header, g')"
    and invoke: "\<And>h rest g rc hdr g'. invoke h rest g = Inr (rc, hdr, g') \<Longrightarrow> R g g'"
  shows "R g g'"
  using assms(1)
  by (auto simp: ProcessMessageImpl_def answer_def then_run_eq_Inr R_refl
      split: if_splits option.splits dest: invoke)

end

section \<open>A request opens sessions and does nothing else\<close>

lemma RegisterSession_grows: "RegisterSession k h obj m = Inr (rc, m') \<Longrightarrow> grows m m'"
proof -
  assume r: "RegisterSession k h obj m = Inr (rc, m')"
  show "grows m m'"
  proof (cases "free_slot (session_allocated m)")
    case None
    then show ?thesis using r by (simp add: RegisterSession_full grows_refl)
  next
    case (Some i)
    show ?thesis
    proof (cases "i < length (session_storages m)")
      case True
      obtain s where "RegisterSessionImpl k h obj i (m\<lparr>session_allocated := (session_allocated m)[i := True]\<rparr>) =
          Inr (ResultSuccess, RegisterToWaitList (SessionHolder i)
            (set_session i s (m\<lparr>session_allocated := (session_allocated m)[i := True]\<rparr>)))"
        using RegisterSessionImpl_eq [of i "m\<lparr>session_allocated := (session_allocated m)[i := True]\<rparr>" k h obj] True
        by auto
      then have "m' = RegisterToWaitList (SessionHolder i)
            (set_session i s (m\<lparr>session_allocated := (session_allocated m)[i := True]\<rparr>))"
        using r Some by (simp add: RegisterSession_def CreateSessionImpl_def AllocateSession_def)
      then show ?thesis using slots_ok_open [OF Some] by (auto simp: grows_def)
    next
      case False
      then have "RegisterSession k h obj m = Inl OutOfBounds"
        using Some by (simp add: RegisterSession_def CreateSessionImpl_def AllocateSession_def
            RegisterSessionImpl_def RegisterSessionToWaitList_def session_in_def)
      then show ?thesis using r by simp
    qed
  qed
qed

lemma CreateSession_grows: "hipc_CreateSession k m = (rc, hs, m') \<Longrightarrow> grows m m'"
  by (auto simp: hipc_CreateSession_def Let_def split: prod.splits if_splits)

lemma on_services_grows: "on_services call vs m = Inr (rc, out, m') \<Longrightarrow> grows m m'"
  by (auto simp: on_services_def then_run_eq_Inr)

lemma open_session_grows: "open_session_for k obj m = Inr (rc, out, m') \<Longrightarrow> grows m m'"
  by (auto simp: open_session_for_def then_run_eq_Inr Let_def split: prod.splits if_splits
      intro: grows_trans RegisterSession_grows CreateSession_grows)

lemma Convert_grows:
  assumes "ConvertCurrentObjectToDomain k i vs m = Inr (rc, out, m')"
  shows "grows m m'"
proof -
  obtain d w where a: "AllocateDomainServiceObject (domains k) (services m) = (d, w)" by fastforce
  show ?thesis
    using assms
    by (auto simp: ConvertCurrentObjectToDomain_def Let_def a then_run_eq_Inr grows_refl
        split: option.splits if_splits
        intro: grows_trans [OF grows_set_session grows_update(1)] grows_trans [OF grows_update(1) grows_set_session])
qed

lemma HipcManager_grows: "HipcManager_methods k i h vs m = Inr (rc, out, m') \<Longrightarrow> grows m m'"
  by (auto simp: HipcManager_methods_def CloneCurrentObjectImpl_def CopyFromCurrentDomain_def
      QueryPointerBufferSize_def then_run_eq_Inr grows_refl
      split: if_split_asm option.split_asm dest!: Convert_grows open_session_grows)

lemma Reply_grows: "Reply k h m = Inr (rc, m') \<Longrightarrow> grows m m'"
  by (auto simp: Reply_def Let_def split: prod.splits if_splits)

text \<open>
  The same for the code between the message and the generated code: a relation that is respected by the
  calls of the kernel, by the methods and by the manager's own commands is respected by the
  whole way of a request.
\<close>

locale request_handling = request_relation R "sessions_of k"
  for R :: "('o, 'w) ServerManager \<Rightarrow> ('o, 'w) ServerManager \<Rightarrow> bool" and k :: "('o, 'w) hipc_lib" +
  assumes R_tls: "R m (m\<lparr>tls := b\<rparr>)"
    and R_response: "R m (m\<lparr>out_response := rsp\<rparr>)"
    and R_context: "R m (SetInlineContext k ctx m)"
    and R_reply: "Reply k sh m = Inr (rc, m') \<Longrightarrow> R m m'"
    and R_method: "on_services (methods_of k x h) vs m = Inr (rc, out, m') \<Longrightarrow> R m m'"
    and R_manager: "HipcManager_methods k i h vs m = Inr (rc, out, m') \<Longrightarrow> R m m'"
begin

definition admissible_processor :: "('o, 'w) processor \<Rightarrow> bool" where
  "admissible_processor process \<longleftrightarrow> (\<forall>r pb raw m rc m'. process r pb raw m = Inr (rc, m') \<longrightarrow> R m m')"

lemma session_invoke_R:
  assumes "\<And>h vs m rc out m'. methods h vs m = Inr (rc, out, m') \<Longrightarrow> R m m'"
    and "session_invoke k sigs methods r pb h rest m = Inr (rc, hdr, m')"
  shows "R m m'"
  using assms(2)
  by (auto simp: session_invoke_def then_run_eq_Inr R_refl split: option.splits
      dest!: invoke_R [OF _ assms(1)] intro: R_trans [OF _ R_response])

lemma ProcessMessage_R:
  assumes "\<And>h vs m rc out m'. methods h vs m = Inr (rc, out, m') \<Longrightarrow> R m m'"
  shows "admissible_processor (ProcessMessage k entries sigs methods)"
  unfolding admissible_processor_def
proof (intro allI impI)
  fix r pb raw m rc m'
  assume "ProcessMessage k entries sigs methods r pb raw m = Inr (rc, m')"
  then obtain header m1 where
    p: "ProcessMessageImpl (cmif_lib.truncate (sf k)) (firmware k) (session_invoke k sigs methods r pb) entries raw
        (m\<lparr>out_response := None\<rparr>) = Inr (rc, header, m1)"
    and m': "m' = (case (header, out_response m1) of
                  (Some command_result, Some response) \<Rightarrow> m1\<lparr>tls := write_reply k response command_result (tls m1)\<rparr>
                | _ \<Rightarrow> m1)"
    by (auto simp: ProcessMessage_def then_run_eq_Inr)
  have "R (m\<lparr>out_response := None\<rparr>) m1"
    by (rule process_R [OF p session_invoke_R [OF assms]])
  moreover have "R m1 m'" by (simp add: m' R_refl R_tls split: option.splits)
  ultimately show "R m m'" by (blast intro: R_trans [OF R_response R_trans])
qed

lemma object_processor_R: "admissible_processor (object_processor k obj)"
proof (cases obj)
  case None
  then show ?thesis by (simp add: object_processor_def admissible_processor_def)
next
  case (Some x)
  have "admissible_processor (ProcessMessage k (table_of k x) (signatures_of k x) (\<lambda>h. on_services (methods_of k x h)))"
    by (rule ProcessMessage_R) (rule R_method)
  then show ?thesis by (simp add: object_processor_def Some)
qed

lemma DispatchRequest_R:
  assumes "admissible_processor process" and "DispatchRequest k process i m = Inr (rc, m')"
  shows "R m m'"
  using assms(2)
  by (auto simp: DispatchRequest_def Let_def then_run_eq_Inr R_refl split: if_splits
      dest!: assms(1) [unfolded admissible_processor_def, rule_format] R_reply intro: R_trans)

lemma ProcessRequestImpl_R:
  assumes "ProcessRequestImpl k i m = Inr (rc, m')"
  shows "R m m'"
proof -
  let ?m = "SetInlineContext k (GetInlineContext k (tls m)) m"
  obtain m1 where r: "(if GetCmifCommandType k (tls m) \<in> {CmifCommandType_Request, CmifCommandType_RequestWithContext}
        then then_run (session_in i ?m) (\<lambda>s. DispatchRequest k (object_processor k (srv_obj_holder s)) i ?m)
        else if GetCmifCommandType k (tls m) \<in> {CmifCommandType_Control, CmifCommandType_ControlWithContext}
        then DispatchManagerRequest k i ?m
        else Inr (hipc_ResultUnknownCommandType, ?m)) = Inr (rc, m1)"
    and m': "m' = SetInlineContext k (inline_context m) m1"
    using assms by (auto simp: ProcessRequestImpl_def ScopedInlineContextChanger_def Let_def then_run_eq_Inr)
  have d: "DispatchRequest k (ProcessMessage k HipcManager_table HipcManager_signatures (HipcManager_methods k i))
      i ?m = Inr (rc, m1) \<Longrightarrow> R ?m m1"
    by (rule DispatchRequest_R [OF ProcessMessage_R]) (rule R_manager)
  have g: "R ?m m1"
    using r d by (auto simp: then_run_eq_Inr DispatchManagerRequest_def R_refl split: if_splits
        dest: DispatchRequest_R [OF object_processor_R])
  show ?thesis unfolding m' by (rule R_trans [OF R_trans [OF R_context g] R_context])
qed

end

interpretation sessions: request_handling grows k for k :: "('o, 'w) hipc_lib"
  by unfold_locales
    (auto simp: sessions_of_def grows_refl intro: grows_trans RegisterSession_grows CreateSession_grows
      Reply_grows on_services_grows HipcManager_grows)

lemmas ProcessRequestImpl_grows = sessions.ProcessRequestImpl_R

end
