(* ===== verification/HipcServer.thy ===== *)
theory HipcServer
  imports HipcSessionFacts
begin

text \<open>
  The server manager of the framework (\<open>sf/hipc/sf_hipc_server_manager\<close>): servers and their ports,
  the wait for a port or a session, the requests it leads to, deferred sessions, the loop of a
  server thread. One thread runs a manager, so its locks are never contended.
\<close>

section \<open>Servers\<close>

definition AllocateServer :: "('o, 'w) ServerManager \<Rightarrow> nat option \<times> ('o, 'w) ServerManager" where
  "AllocateServer m =
     (case free_slot (server_allocated m) of
        None \<Rightarrow> (None, m)
      | Some i \<Rightarrow> (Some i, m\<lparr>server_allocated := (server_allocated m)[i := True]\<rparr>))"

definition RegisterServerImpl ::
  "u32 \<Rightarrow> string \<Rightarrow> bool \<Rightarrow> 'o option \<Rightarrow> ('w \<Rightarrow> 'o \<times> 'w) \<Rightarrow> ('o, 'w) ServerManager \<Rightarrow>
     ('o, 'w) ServerManager run" where
  "RegisterServerImpl port sn managed static_holder ctor m =
     (case AllocateServer m of
        (None, m) \<Rightarrow> Inl Abort
      | (Some i, m) \<Rightarrow> Inr (m\<lparr>server_storages := (server_storages m)[i := Some
            \<lparr>static_object = static_holder, port_handle = port, service_name = sn, service_managed = managed,
             MakeShared = ctor\<rparr>],
          waitable_manager := waitable_manager m @ [ServerHolder i]\<rparr>))"

definition RegisterServer ::
  "('o, 'w) hipc_lib \<Rightarrow> string \<Rightarrow> nat \<Rightarrow> 'o option \<Rightarrow> ('w \<Rightarrow> 'o \<times> 'w) \<Rightarrow> ('o, 'w) ServerManager \<Rightarrow>
     (result \<times> ('o, 'w) ServerManager) run" where
  "RegisterServer k sn max_sessions static_holder ctor m =
     (let (rc, port, w) = sm_RegisterService k sn max_sessions (services m); m = m\<lparr>services := w\<rparr> in
      if R_FAILED rc then Inr (rc, m)
      else then_run (RegisterServerImpl port sn True static_holder ctor m) (\<lambda>m. Inr (ResultSuccess, m)))"

definition CreateSessionObjectHolder :: "('o, 'w) ServerBase \<Rightarrow> 'w \<Rightarrow> 'o option \<times> 'w" where
  "CreateSessionObjectHolder server w =
     (case static_object server of
        Some obj \<Rightarrow> (Some obj, w)
      | None \<Rightarrow> (let (obj, w) = MakeShared server w in (Some obj, w)))"

definition server_in :: "nat \<Rightarrow> ('o, 'w) ServerManager \<Rightarrow> ('o, 'w) ServerBase run" where
  "server_in i m =
     (if i < length (server_storages m)
      then (case server_storages m ! i of Some s \<Rightarrow> Inr s | None \<Rightarrow> Inl OutOfBounds)
      else Inl OutOfBounds)"

definition ProcessForServer ::
  "('o, 'w) hipc_lib \<Rightarrow> nat \<Rightarrow> ('o, 'w) ServerManager \<Rightarrow> (result \<times> ('o, 'w) ServerManager) run" where
  "ProcessForServer k i m =
     then_run (server_in i m) (\<lambda>server.
     let (obj, w) = CreateSessionObjectHolder server (services m); m = m\<lparr>services := w\<rparr> in
     then_run (AcceptSession k (port_handle server) obj m) (\<lambda>(rc, m).
       Inr (rc, RegisterToWaitList (ServerHolder i) m)))"

section \<open>Sessions\<close>

text \<open>
  The message of a session: received and saved, or, when its request was deferred, the saved one. The
  saved message of a session is the buffer of its slot.
\<close>

definition fetch_message ::
  "nat \<Rightarrow> ('o, 'w) hipc_lib \<Rightarrow> nat \<Rightarrow> ('o, 'w) ServerManager \<Rightarrow> (result \<times> ('o, 'w) ServerManager) run" where
  "fetch_message n k i m =
     then_run (session_in i m) (\<lambda>s.
     if \<not> has_received s
     then then_run (ReceiveRequestImpl n k i m) (\<lambda>(rc, m).
       if R_FAILED rc then Inr (rc, m)
       else then_run (session_in i m) (\<lambda>s.
         Inr (ResultSuccess, (set_session i (s\<lparr>has_received := True\<rparr>) m)
           \<lparr>saved_message_storage := (saved_message_storage m)[i := tls m]\<rparr>)))
     else Inr (ResultSuccess, m\<lparr>tls := saved_message_storage m ! i\<rparr>))"

definition ProcessForSession ::
  "nat \<Rightarrow> ('o, 'w) hipc_lib \<Rightarrow> nat \<Rightarrow> ('o, 'w) ServerManager \<Rightarrow> (result \<times> ('o, 'w) ServerManager) run" where
  "ProcessForSession n k i m =
     then_run (fetch_message n k i m) (\<lambda>(rc, m).
     if R_FAILED rc then Inr (rc, m)
     else then_run (ProcessRequest k i m) (\<lambda>(rc, m).
       if R_FAILED rc \<and> Includes sf_RequestInvalidated rc then Inr (ResultSuccess, m) else Inr (rc, m)))"

text \<open>One walk over the deferred sessions; the flag says whether one of them was undeferred.\<close>

fun undefer_pass ::
  "nat \<Rightarrow> ('o, 'w) hipc_lib \<Rightarrow> nat list \<Rightarrow> bool \<Rightarrow> ('o, 'w) ServerManager \<Rightarrow>
     (bool \<times> ('o, 'w) ServerManager) run" where
  "undefer_pass n k [] needs_undefer_all m = Inr (needs_undefer_all, m)"
| "undefer_pass n k (i # rest) needs_undefer_all m =
     then_run (ProcessForSession n k i m) (\<lambda>(rc, m).
       if R_FAILED rc \<and> Includes sf_RequestDeferred rc then undefer_pass n k rest needs_undefer_all m
       else if R_FAILED rc \<and> \<not> Includes sf_RequestInvalidated rc then Inl Abort
       else undefer_pass n k rest True
         (m\<lparr>deferred_session_list := remove1 i (deferred_session_list m)\<rparr>))"


section \<open>What serving a session does to the lists\<close>

text \<open>
  A request opens sessions; then its session is closed, put back on the wait list, or left in no list
  (its request was deferred or taken over).
\<close>

datatype fate = Closed | Relisted | Held

definition served :: "fate \<Rightarrow> nat \<Rightarrow> ('o, 'w) ServerManager \<Rightarrow> ('o, 'w) ServerManager \<Rightarrow> bool" where
  "served f i m m' \<longleftrightarrow> frame m' = frame m \<and> (slots_ok m \<longrightarrow> slots_ok m' \<and> (\<exists>js.
     distinct js \<and> (\<forall>j\<in>set js. \<not> is_alive j m) \<and>
     waitlist m' = waitlist m @ map SessionHolder js @ (if f = Relisted then [SessionHolder i] else []) \<and>
     (\<forall>j. is_alive j m' \<longleftrightarrow> (is_alive j m \<or> j \<in> set js) \<and> (f = Closed \<longrightarrow> j \<noteq> i))))"

lemma served_held: "grows m m' \<Longrightarrow> served Held i m m'"
  by (auto simp: grows_def served_def opened_def)

lemma close_handle_eq: "close_handle k h m = Inr m' \<longleftrightarrow>
    \<not> R_FAILED (fst (svcCloseHandle k h (services m))) \<and> m' = m\<lparr>services := snd (svcCloseHandle k h (services m))\<rparr>"
  by (auto simp: close_handle_def split_beta Let_def)

lemma CloseSession_eq:
  assumes "CloseSessionImpl k i m = Inr m'"
  shows "\<exists>w. m' = m\<lparr>session_storages := (session_storages m)[i := Destroyed],
      session_allocated := (session_allocated m)[i := False], services := w\<rparr> \<and>
      i < length (session_storages m)"
  using assms
  by (auto simp: CloseSessionImpl_def DestroySession_def FreeSession_def close_handle_eq then_run_eq_Inr
      session_in_alive split: if_split_asm)

lemma served_closed:
  assumes "grows m m1" and "CloseSessionImpl k i m1 = Inr m'"
  shows "served Closed i m m'"
proof -
  obtain w where m': "m' = m1\<lparr>session_storages := (session_storages m1)[i := Destroyed],
      session_allocated := (session_allocated m1)[i := False], services := w\<rparr>" and i: "i < length (session_storages m1)"
    using CloseSession_eq [OF assms(2)] by blast
  have al: "is_alive j m' \<longleftrightarrow> is_alive j m1 \<and> j \<noteq> i" for j
    using i by (auto simp: m' is_alive_iff nth_list_update)
  have "frame m' = frame m1" by (simp add: m' frame_def)
  moreover have "slots_ok m'" if "slots_ok m1"
    using that i unfolding slots_ok_def al by (auto simp: m' nth_list_update)
  moreover have "waitlist m' = waitlist m1" by (simp add: m')
  ultimately show ?thesis using assms(1) by (auto simp: served_def grows_def opened_def al)
qed

lemma served_relisted:
  assumes "grows m m1" and "RegisterSessionToWaitList i m1 = Inr m'"
  shows "served Relisted i m m'"
proof -
  obtain s where s: "session_in i m1 = Inr s"
    and m': "m' = RegisterToWaitList (SessionHolder i) (set_session i (s\<lparr>has_received := False\<rparr>) m1)"
    using assms(2) by (auto simp: RegisterSessionToWaitList_def then_run_eq_Inr)
  have i: "i < length (session_storages m1)" "is_alive i m1" using s by (auto simp: session_in_alive is_alive_iff)
  have al: "is_alive j m' \<longleftrightarrow> is_alive j m1" for j using i by (auto simp: m' is_alive_set_session)
  have "frame m' = frame m1" by (simp add: m')
  moreover have "slots_ok m'" if "slots_ok m1" using that unfolding slots_ok_def al by (simp add: m')
  moreover have "waitlist m' = waitlist m1 @ [SessionHolder i]" by (simp add: m')
  ultimately show ?thesis using assms(1) by (auto simp: served_def grows_def opened_def al)
qed

lemma ReceiveRequest_grows: "ReceiveRequestImpl n k i m = Inr (rc, m') \<Longrightarrow> grows m m'"
proof (induction n arbitrary: m)
  case (Suc n)
  obtain s where s: "session_in i m = Inr s" using Suc.prems by (auto simp: then_run_eq_Inr)
  let ?m = "m\<lparr>tls := make_receive k (if pas_address (pointer_buffer s) \<noteq> 0 then Some (pointer_buffer s) else None) (tls m)\<rparr>"
  obtain rc1 res m1 where r: "Receive k (session_handle s) ?m = (rc1, res, m1)" by (metis prod_cases3)
  have "m1 = m\<lparr>tls := tls m1, services := services m1\<rparr>"
    using r by (auto simp: Receive_def Let_def split: prod.splits if_splits)
  then have g: "grows m m1" and s1: "session_in i m1 = Inr s"
    using grows_update(3) [of m] session_in_update s by metis+
  show ?case
    using Suc.prems s r g Suc.IH grows_trans [OF g grows_set_session [OF s1]]
    by (auto split: if_splits ReceiveResult.splits intro: grows_trans)
qed simp

lemma ProcessRequest_served:
  assumes "ProcessRequest k i m = Inr (rc, m')"
  obtains f where "served f i m m'" "f = Held \<longleftrightarrow> R_FAILED rc"
proof -
  obtain s where s: "session_in i m = Inr s" using assms by (auto simp: ProcessRequest_def then_run_eq_Inr)
  show thesis
  proof (cases "is_closed s \<or> GetCmifCommandType k (tls m) = CmifCommandType_Close")
    case True
    then show thesis
      using assms s served_closed [OF grows_refl] that [of Closed]
      by (auto simp: ProcessRequest_def then_run_eq_Inr split: if_splits)
  next
    case False
    then obtain rc1 m1 where r: "ProcessRequestImpl k i m = Inr (rc1, m1)"
      and k: "(if R_FAILED rc1 then
         if Includes sf_RequestContextChanged rc1 then Inr (rc1, m1)
         else then_run (CloseSessionImpl k i m1) (\<lambda>m. Inr (ResultSuccess, m))
       else then_run (RegisterSessionToWaitList i m1) (\<lambda>m. Inr (ResultSuccess, m))) = Inr (rc, m')"
      using assms s by (auto simp: ProcessRequest_def then_run_eq_Inr)
    note g = ProcessRequestImpl_grows [OF r]
    show thesis
      using k that [of Held] that [of Closed] that [of Relisted] served_held [OF g] served_closed [OF g]
        served_relisted [OF g]
      by (auto simp: then_run_eq_Inr R_FAILED_iff split: if_split_asm)
  qed
qed

lemma served_after: "grows m m1 \<Longrightarrow> served f i m1 m' \<Longrightarrow> served f i m m'"
  unfolding grows_def served_def opened_def
proof (elim conjE, intro conjI impI)
  assume f: "frame m1 = frame m" "frame m' = frame m1" and ok: "slots_ok m"
    and a: "slots_ok m \<longrightarrow> slots_ok m1 \<and> (\<exists>js. waitlist m1 = waitlist m @ map SessionHolder js \<and> distinct js \<and>
        (\<forall>j. is_alive j m1 = (is_alive j m \<or> j \<in> set js)) \<and> (\<forall>j\<in>set js. \<not> is_alive j m))"
    and b: "slots_ok m1 \<longrightarrow> slots_ok m' \<and> (\<exists>js. distinct js \<and> (\<forall>j\<in>set js. \<not> is_alive j m1) \<and>
        waitlist m' = waitlist m1 @ map SessionHolder js @ (if f = Relisted then [SessionHolder i] else []) \<and>
        (\<forall>j. is_alive j m' = ((is_alive j m1 \<or> j \<in> set js) \<and> (f = Closed \<longrightarrow> j \<noteq> i))))"
  then show "slots_ok m'" by blast
  from a b ok obtain js ks where "waitlist m1 = waitlist m @ map SessionHolder js" "distinct js"
    "\<forall>j. is_alive j m1 = (is_alive j m \<or> j \<in> set js)" "\<forall>j\<in>set js. \<not> is_alive j m"
    "distinct ks" "\<forall>j\<in>set ks. \<not> is_alive j m1"
    "waitlist m' = waitlist m1 @ map SessionHolder ks @ (if f = Relisted then [SessionHolder i] else [])"
    "\<forall>j. is_alive j m' = ((is_alive j m1 \<or> j \<in> set ks) \<and> (f = Closed \<longrightarrow> j \<noteq> i))" by blast
  then show "\<exists>js. distinct js \<and> (\<forall>j\<in>set js. \<not> is_alive j m) \<and>
      waitlist m' = waitlist m @ map SessionHolder js @ (if f = Relisted then [SessionHolder i] else []) \<and>
      (\<forall>j. is_alive j m' = ((is_alive j m \<or> j \<in> set js) \<and> (f = Closed \<longrightarrow> j \<noteq> i)))"
    by (intro exI [of _ "js @ ks"]) auto
qed simp

lemma fetch_message_grows:
  assumes "fetch_message n k i m = Inr (rc, m')"
  shows "grows m m'"
proof -
  obtain s where s: "session_in i m = Inr s" using assms by (auto simp: fetch_message_def then_run_eq_Inr)
  show ?thesis
  proof (cases "has_received s")
    case False
    obtain rc1 m1 where r: "ReceiveRequestImpl n k i m = Inr (rc1, m1)"
      using assms s False by (cases "ReceiveRequestImpl n k i m") (auto simp: fetch_message_def)
    then have "grows m1 m'"
      using assms s False by (auto simp: fetch_message_def then_run_eq_Inr grows_refl split: if_splits
          intro: grows_trans [OF grows_set_session grows_update(5)])
    then show ?thesis using ReceiveRequest_grows [OF r] grows_trans by blast
  qed (use assms s in \<open>auto simp: fetch_message_def\<close>)
qed

text \<open>A session is closed or relisted by a call that says success, or held.\<close>

lemma ProcessForSession_served:
  assumes "ProcessForSession n k i m = Inr (rc, m')"
  obtains f where "served f i m m'" "R_FAILED rc \<Longrightarrow> f = Held"
proof -
  obtain rc1 m1 where f: "fetch_message n k i m = Inr (rc1, m1)"
    using assms by (cases "fetch_message n k i m") (auto simp: ProcessForSession_def)
  note g = fetch_message_grows [OF f]
  show thesis
  proof (cases "R_FAILED rc1")
    case True
    then show thesis using assms f g that served_held by (auto simp: ProcessForSession_def)
  next
    case False
    obtain rc2 m2 where p: "ProcessRequest k i m1 = Inr (rc2, m2)"
      using assms f False by (cases "ProcessRequest k i m1") (auto simp: ProcessForSession_def)
    then have r: "(if R_FAILED rc2 \<and> Includes sf_RequestInvalidated rc2 then Inr (ResultSuccess, m2)
        else Inr (rc2, m2)) = (Inr (rc, m') :: (result \<times> _) run)"
      using assms f False by (simp add: ProcessForSession_def)
    obtain f where "served f i m1 m2" "f = Held \<longleftrightarrow> R_FAILED rc2" using ProcessRequest_served [OF p] .
    then show thesis using r served_after [OF g] that by (auto split: if_splits)
  qed
qed

lemma served_deferred: "served f i m m' \<Longrightarrow> deferred_session_list m' = deferred_session_list m"
  by (simp add: served_def frame_def)

section \<open>Deferred sessions\<close>

text \<open>One step of a walk: the session stays deferred, or it is taken from the list.\<close>

lemma undefer_cases:
  assumes "undefer_pass n k (i # rest) b m = Inr y"
  obtains rc m1 where "ProcessForSession n k i m = Inr (rc, m1)" "R_FAILED rc"
      "undefer_pass n k rest b m1 = Inr y" "deferred_session_list m1 = deferred_session_list m"
    | rc m1 m2 where "ProcessForSession n k i m = Inr (rc, m1)"
      "m2 = m1\<lparr>deferred_session_list := remove1 i (deferred_session_list m)\<rparr>"
      "undefer_pass n k rest True m2 = Inr y" "deferred_session_list m1 = deferred_session_list m"
proof -
  obtain rc m1 where p: "ProcessForSession n k i m = Inr (rc, m1)"
    using assms by (cases "ProcessForSession n k i m") auto
  have d: "deferred_session_list m1 = deferred_session_list m"
    using ProcessForSession_served [OF p] served_deferred by metis
  show thesis
  proof (cases "R_FAILED rc \<and> Includes sf_RequestDeferred rc")
    case True
    with assms p have "undefer_pass n k rest b m1 = Inr y" by simp
    then show thesis by (rule that(1) [OF p conjunct1 [OF True] _ d])
  next
    case False
    with assms p d have "undefer_pass n k rest True
        (m1\<lparr>deferred_session_list := remove1 i (deferred_session_list m)\<rparr>) = Inr y"
      by (simp split: if_split_asm)
    then show thesis by (rule that(2) [OF p refl _ d])
  qed
qed

lemma undefer_pass_shorter:
  "undefer_pass n k is b m = Inr (b', m') \<Longrightarrow>
     length (deferred_session_list m') \<le> length (deferred_session_list m)"
proof (induction "is" arbitrary: b m)
  case (Cons i rest)
  from Cons.prems show ?case
  proof (cases rule: undefer_cases)
    case (1 rc m1)
    then show ?thesis using Cons.IH [of b m1] by simp
  next
    case (2 rc m1 m2)
    from Cons.IH [OF 2(3)] show ?thesis by (simp add: 2(2) length_remove1 split: if_splits)
  qed
qed simp

lemma undefer_pass_progress:
  "undefer_pass n k is False m = Inr (True, m') \<Longrightarrow> set is \<subseteq> set (deferred_session_list m) \<Longrightarrow>
     length (deferred_session_list m') < length (deferred_session_list m)"
proof (induction "is" arbitrary: m)
  case (Cons i rest)
  from Cons.prems(1) show ?case
  proof (cases rule: undefer_cases)
    case (1 rc m1)
    then show ?thesis using Cons.IH [of m1] Cons.prems(2) by simp
  next
    case (2 rc m1 m2)
    have i: "i \<in> set (deferred_session_list m)" using Cons.prems(2) by simp
    have "0 < length (deferred_session_list m)" using i by (cases "deferred_session_list m") auto
    moreover have "length (deferred_session_list m') \<le> length (deferred_session_list m) - 1"
      using undefer_pass_shorter [OF 2(3)] i by (simp add: 2(2) length_remove1)
    ultimately show ?thesis by linarith
  qed
qed simp

lemma then_run_cong [fundef_cong]:
  "m = m' \<Longrightarrow> (\<And>a. m' = Inr a \<Longrightarrow> k a = k' a) \<Longrightarrow> then_run m k = then_run m' k'"
  by (cases m') auto

text \<open>The loop goes on until a walk undefers nothing. It ends: see the measure.\<close>

function ProcessDeferredSessions ::
  "nat \<Rightarrow> ('o, 'w) hipc_lib \<Rightarrow> ('o, 'w) ServerManager \<Rightarrow> ('o, 'w) ServerManager run" where
  "ProcessDeferredSessions n k m =
     then_run (undefer_pass n k (deferred_session_list m) False m) (\<lambda>(needs_undefer_all, m).
       if needs_undefer_all then ProcessDeferredSessions n k m else Inr m)"
  by pat_completeness auto
termination
  by (relation "measure (\<lambda>(n, k, m). length (deferred_session_list m))")
    (auto dest: undefer_pass_progress)

declare ProcessDeferredSessions.simps [simp del]

section \<open>The loop of a server thread\<close>

definition Process ::
  "nat \<Rightarrow> ('o, 'w) hipc_lib \<Rightarrow> waitable \<Rightarrow> ('o, 'w) ServerManager \<Rightarrow>
     (result \<times> ('o, 'w) ServerManager) run" where
  "Process n k holder m =
     (case holder of
        ServerHolder i \<Rightarrow> ProcessForServer k i m
      | SessionHolder i \<Rightarrow>
          then_run (ProcessForSession n k i m) (\<lambda>(rc, m).
          if R_FAILED rc then
            if Includes sf_RequestDeferred rc
            then Inr (ResultSuccess, m\<lparr>deferred_session_list := deferred_session_list m @ [i]\<rparr>)
            else Inr (rc, m)
          else then_run (ProcessDeferredSessions n k m) (\<lambda>m. Inr (ResultSuccess, m)))
      | _ \<Rightarrow> Inl Abort)"

definition ProcessWaitList :: "('o, 'w) ServerManager \<Rightarrow> ('o, 'w) ServerManager" where
  "ProcessWaitList m = m\<lparr>waitable_manager := waitable_manager m @ waitlist m, waitlist := []\<rparr>"

text \<open>
  The holder that is signaled, unlinked, or none when the manager was asked to stop. The loop goes
  round once for every time the notification is signaled; \<open>wait_returns\<close> shows that two rounds do.
\<close>

fun WaitSignaled ::
  "nat \<Rightarrow> ('o, 'w) hipc_lib \<Rightarrow> ('o, 'w) ServerManager \<Rightarrow> (waitable option \<times> ('o, 'w) ServerManager) run" where
  "WaitSignaled 0 k m = Inl OutOfFuel"
| "WaitSignaled (Suc n) k m =
     (let m = ProcessWaitList m;
          (selected, w) = WaitAny k (waitable_manager m) (request_stop_event m) (notify_event m) (services m);
          m = m\<lparr>services := w\<rparr>
      in if selected = RequestStopHolder then Inr (None, m)
         else if selected = NotifyHolder then WaitSignaled n k (m\<lparr>notify_event := False\<rparr>)
         else if selected \<notin> set (waitable_manager m) then Inl Abort
         else Inr (Some selected, m\<lparr>waitable_manager := remove1 selected (waitable_manager m)\<rparr>))"

definition ResumeProcessing :: "('o, 'w) ServerManager \<Rightarrow> ('o, 'w) ServerManager" where
  "ResumeProcessing m = m\<lparr>request_stop_event := False\<rparr>"

definition RequestStopProcessing :: "('o, 'w) ServerManager \<Rightarrow> ('o, 'w) ServerManager" where
  "RequestStopProcessing m = m\<lparr>request_stop_event := True\<rparr>"

definition WaitAndProcessImpl ::
  "nat \<Rightarrow> ('o, 'w) hipc_lib \<Rightarrow> ('o, 'w) ServerManager \<Rightarrow> (bool \<times> ('o, 'w) ServerManager) run" where
  "WaitAndProcessImpl n k m =
     then_run (WaitSignaled n k m) (\<lambda>(waitable, m).
       case waitable of
         None \<Rightarrow> Inr (False, m)
       | Some holder \<Rightarrow> then_run (Process n k holder m) (\<lambda>(rc, m).
           if R_FAILED rc then Inl Abort else Inr (True, m)))"

definition WaitAndProcess ::
  "nat \<Rightarrow> ('o, 'w) hipc_lib \<Rightarrow> ('o, 'w) ServerManager \<Rightarrow> ('o, 'w) ServerManager run" where
  "WaitAndProcess n k m = then_run (WaitAndProcessImpl n k m) (\<lambda>(_, m). Inr m)"

text \<open>The loop is left only when the manager is asked to stop; the fuel counts the rounds.\<close>

fun LoopProcess ::
  "nat \<Rightarrow> nat \<Rightarrow> ('o, 'w) hipc_lib \<Rightarrow> ('o, 'w) ServerManager \<Rightarrow> ('o, 'w) ServerManager run" where
  "LoopProcess 0 n k m = Inl OutOfFuel"
| "LoopProcess (Suc rounds) n k m =
     then_run (WaitAndProcessImpl n k m) (\<lambda>(go_on, m). if go_on then LoopProcess rounds n k m else Inr m)"

section \<open>Construction\<close>

text \<open>
  A manager as its constructor leaves it: both events are linked, everything else is empty. The
  buffers start at the next multiple of 16.
\<close>

definition ServerManager_ctor ::
  "nat \<Rightarrow> nat \<Rightarrow> u64 \<Rightarrow> u64 \<Rightarrow> 'w \<Rightarrow> ('o, 'w) ServerManager" where
  "ServerManager_ctor max_servers max_sessions pointer_buffer_storage saved_messages w =
     \<lparr>server_storages = replicate max_servers None, server_allocated = replicate max_servers False,
      session_storages = replicate max_sessions Zeroed, session_allocated = replicate max_sessions False,
      pointer_buffers_start = AlignUp pointer_buffer_storage 0x10,
      saved_messages_start = AlignUp saved_messages 0x10,
      saved_message_storage = replicate max_sessions (replicate TlsMessageBufferSize 0),
      waitable_manager = [RequestStopHolder, NotifyHolder], waitlist = [], deferred_session_list = [],
      request_stop_event = False, notify_event = False, tls = replicate TlsMessageBufferSize 0,
      inline_context = replicate 4 0, out_response = None, services = w\<rparr>"

section \<open>Destruction\<close>

definition DestroyServer ::
  "('o, 'w) hipc_lib \<Rightarrow> nat \<Rightarrow> ('o, 'w) ServerManager \<Rightarrow> ('o, 'w) ServerManager run" where
  "DestroyServer k i m =
     (if \<not> i < length (server_allocated m) then Inl Abort
      else if \<not> server_allocated m ! i then Inl Abort
      else then_run (server_in i m) (\<lambda>server.
        then_run
          (if service_managed server
           then (let (rc, w) = sm_UnregisterService k (service_name server) (services m)
                 in if R_FAILED rc then Inl Abort else close_handle k (port_handle server) (m\<lparr>services := w\<rparr>))
           else Inr m) (\<lambda>m.
        Inr (m\<lparr>server_storages := (server_storages m)[i := None],
               server_allocated := (server_allocated m)[i := False]\<rparr>))))"

text \<open>Sessions, then servers, in the order of their slots.\<close>

fun each_run :: "(nat \<Rightarrow> 's \<Rightarrow> 's run) \<Rightarrow> nat list \<Rightarrow> 's \<Rightarrow> 's run" where
  "each_run f [] m = Inr m"
| "each_run f (i # rest) m = then_run (f i m) (\<lambda>m. each_run f rest m)"

definition ServerManager_dtor ::
  "('o, 'w) hipc_lib \<Rightarrow> ('o, 'w) ServerManager \<Rightarrow> ('o, 'w) ServerManager run" where
  "ServerManager_dtor k m =
     then_run (each_run (\<lambda>i m. if session_allocated m ! i then CloseSessionImpl k i m else Inr m)
         [0..<length (session_allocated m)] m) (\<lambda>m.
     each_run (\<lambda>i m. if server_allocated m ! i then DestroyServer k i m else Inr m)
         [0..<length (server_allocated m)] m)"

end
