(* ===== verification/HipcManagerFacts.thy ===== *)
theory HipcManagerFacts
  imports HipcServer
begin

text \<open>
  The invariant of a server manager: every session is in at most one of its lists and alive while it is in
  one, every server and both events are waited for. Then the properties of the session manager.
\<close>

section \<open>The invariant\<close>

definition listed :: "('o, 'w) ServerManager \<Rightarrow> waitable list" where
  "listed m = waitable_manager m @ waitlist m @ map SessionHolder (deferred_session_list m)"

definition is_server :: "nat \<Rightarrow> ('o, 'w) ServerManager \<Rightarrow> bool" where
  "is_server i m \<longleftrightarrow> (\<exists>s. server_in i m = Inr s)"

definition servers_ok :: "('o, 'w) ServerManager \<Rightarrow> bool" where
  "servers_ok m \<longleftrightarrow> length (server_allocated m) = length (server_storages m) \<and>
     (\<forall>i < length (server_storages m). server_allocated m ! i = is_server i m)"

text \<open>\<open>H\<close> are the holders the manager has in hand, taken out of its lists.\<close>

definition ok_with :: "waitable set \<Rightarrow> ('o, 'w) ServerManager \<Rightarrow> bool" where
  "ok_with H m \<longleftrightarrow> slots_ok m \<and> servers_ok m \<and> distinct (listed m) \<and>
     RequestStopHolder \<in> set (waitable_manager m) \<and> NotifyHolder \<in> set (waitable_manager m) \<and>
     H \<inter> set (listed m) = {} \<and>
     (\<forall>i. SessionHolder i \<in> set (listed m) \<union> H \<longrightarrow> is_alive i m) \<and>
     (\<forall>i. ServerHolder i \<in> set (listed m) \<union> H \<longleftrightarrow> is_server i m)"

definition manager_ok :: "('o, 'w) ServerManager \<Rightarrow> bool" where
  "manager_ok m \<longleftrightarrow> ok_with {} m"

lemma is_server_iff: "is_server i m \<longleftrightarrow> i < length (server_storages m) \<and> server_storages m ! i \<noteq> None"
  by (auto simp: is_server_def server_in_def split: if_splits option.splits)

lemma frame_servers:
  assumes "frame m' = frame m"
  shows "is_server i m' = is_server i m" "servers_ok m' = servers_ok m"
    "waitable_manager m' = waitable_manager m" "deferred_session_list m' = deferred_session_list m"
  using assms by (simp_all add: frame_def servers_ok_def is_server_iff)

lemma ok_with_grows:
  assumes "ok_with H m" and "grows m m'"
  shows "ok_with H m'"
proof -
  obtain js where js: "opened js m m'" and s: "slots_ok m'" and f: "frame m' = frame m"
    using assms by (auto simp: ok_with_def grows_def)
  have w: "waitlist m' = waitlist m @ map SessionHolder js" and d: "distinct js"
    and al: "is_alive j m' \<longleftrightarrow> is_alive j m \<or> j \<in> set js" "j \<in> set js \<Longrightarrow> \<not> is_alive j m" for j
    using js by (auto simp: opened_def)
  have l: "set (listed m') = set (listed m) \<union> SessionHolder ` set js"
    using w frame_servers(3,4) [OF f] by (auto simp: listed_def)
  have fresh: "SessionHolder j \<notin> set (listed m) \<union> H" if "j \<in> set js" for j
    using al(2) [OF that] assms(1) by (auto simp: ok_with_def)
  have "distinct (listed m)" using assms(1) by (simp add: ok_with_def)
  moreover have "distinct (map SessionHolder js)" using d by (simp add: distinct_map inj_on_def)
  moreover have "set (map SessionHolder js) \<inter> set (listed m) = {}" using fresh by auto
  ultimately have "distinct (listed m')"
    unfolding listed_def w frame_servers(3,4) [OF f] by (simp only: distinct_append set_append, auto)
  moreover have "SessionHolder j \<in> set (listed m') \<union> H \<Longrightarrow> is_alive j m'" for j
    using assms(1) by (auto simp: l al(1) ok_with_def)
  moreover have "ServerHolder j \<in> set (listed m') \<union> H \<longleftrightarrow> is_server j m'" for j
    using assms(1) by (auto simp: l ok_with_def frame_servers [OF f])
  moreover have "H \<inter> set (listed m') = {}" using assms(1) fresh unfolding l ok_with_def by blast
  ultimately show ?thesis
    using assms(1) s unfolding ok_with_def by (simp add: frame_servers [OF f])
qed

text \<open>Putting a holder back, or letting a session go.\<close>

lemma ok_with_drop: "ok_with {SessionHolder i} m \<Longrightarrow> ok_with {} m"
  by (auto simp: ok_with_def)

lemma ok_with_relist: "ok_with {h} m \<Longrightarrow> ok_with {} (RegisterToWaitList h m)"
  by (auto simp: ok_with_def listed_def RegisterToWaitList_def slots_ok_def servers_ok_def is_alive_iff
      is_server_iff)

lemma ok_with_defer: "ok_with {SessionHolder i} m \<Longrightarrow>
    ok_with {} (m\<lparr>deferred_session_list := deferred_session_list m @ [i]\<rparr>)"
  by (auto simp: ok_with_def listed_def slots_ok_def servers_ok_def is_alive_iff is_server_iff distinct_map)

lemma ok_with_served:
  assumes "ok_with {SessionHolder i} m" and "served f i m m'"
  shows "if f = Held then ok_with {SessionHolder i} m' else ok_with {} m'"
proof -
  obtain js where s: "slots_ok m'" and f: "frame m' = frame m" and js: "distinct js" "\<forall>j\<in>set js. \<not> is_alive j m"
    "waitlist m' = waitlist m @ map SessionHolder js @ (if f = Relisted then [SessionHolder i] else [])"
    "\<forall>j. is_alive j m' \<longleftrightarrow> (is_alive j m \<or> j \<in> set js) \<and> (f = Closed \<longrightarrow> j \<noteq> i)"
    using assms by (auto simp: ok_with_def served_def)
  have l: "set (listed m') = set (listed m) \<union> SessionHolder ` set js \<union> (if f = Relisted then {SessionHolder i} else {})"
    using js(3) frame_servers(3,4) [OF f] by (auto simp: listed_def)
  have fresh: "SessionHolder j \<notin> set (listed m)" "j \<noteq> i" if "j \<in> set js" for j
    using that js(2) assms(1) by (auto simp: ok_with_def)
  have "distinct (listed m)" "SessionHolder i \<notin> set (listed m)" using assms(1) by (simp_all add: ok_with_def)
  moreover have "distinct (map SessionHolder js)" using js(1) by (simp add: distinct_map inj_on_def)
  moreover have "set (map SessionHolder js) \<inter> set (listed m) = {}" using fresh(1) by auto
  moreover have "SessionHolder i \<notin> set (map SessionHolder js)" using fresh(2) by auto
  ultimately have "distinct (listed m')"
    unfolding listed_def js(3) frame_servers(3,4) [OF f]
    by (cases f) (simp_all only: distinct_append set_append, auto)
  moreover have "SessionHolder j \<in> set (listed m') \<union> (if f = Held then {SessionHolder i} else {}) \<Longrightarrow> is_alive j m'" for j
    using assms(1) js(4) fresh(2) [of i] by (cases f) (auto simp: l ok_with_def)
  moreover have "ServerHolder j \<in> set (listed m') \<longleftrightarrow> is_server j m'" for j
    using assms(1) by (auto simp: l ok_with_def frame_servers [OF f])
  moreover have "f = Held \<Longrightarrow> SessionHolder i \<notin> set (listed m')"
    using assms(1) fresh(2) [of i] by (auto simp: l ok_with_def)
  ultimately show ?thesis
    using assms(1) s unfolding ok_with_def by (cases f) (simp_all add: frame_servers [OF f])
qed

text \<open>A session that is served while it is on the list of deferred sessions.\<close>

lemma served_undeferred: "served f i m m' \<Longrightarrow>
    served f i (m\<lparr>deferred_session_list := ds\<rparr>) (m'\<lparr>deferred_session_list := ds\<rparr>)"
  by (simp add: served_def frame_def slots_ok_def)

lemma ok_with_undefer:
  assumes "ok_with {} m" and "i \<in> set (deferred_session_list m)"
  shows "ok_with {SessionHolder i} (m\<lparr>deferred_session_list := remove1 i (deferred_session_list m)\<rparr>)"
proof -
  have d: "distinct (deferred_session_list m)" using assms(1) by (simp add: ok_with_def listed_def distinct_map)
  then have r: "set (remove1 i (deferred_session_list m)) = set (deferred_session_list m) - {i}" by simp
  let ?m = "m\<lparr>deferred_session_list := remove1 i (deferred_session_list m)\<rparr>"
  have l: "set (listed ?m) = set (listed m) - {SessionHolder i}"
    using assms d by (auto simp: listed_def ok_with_def r)
  have "distinct (listed ?m)"
    using assms(1) d by (auto simp: listed_def ok_with_def distinct_map inj_on_def dest: notin_set_remove1)
  then show ?thesis
    using assms unfolding ok_with_def l
    by (auto simp: slots_ok_def servers_ok_def is_alive_iff is_server_iff listed_def)
qed

lemma ok_with_still_deferred:
  assumes "ok_with {SessionHolder i} (m\<lparr>deferred_session_list := remove1 i ds\<rparr>)" and "distinct ds" "i \<in> set ds"
  shows "ok_with {} (m\<lparr>deferred_session_list := ds\<rparr>)"
proof -
  let ?m = "m\<lparr>deferred_session_list := remove1 i ds\<rparr>" and ?n = "m\<lparr>deferred_session_list := ds\<rparr>"
  have l: "set (listed ?n) = insert (SessionHolder i) (set (listed ?m))"
    using assms(2,3) by (auto simp: listed_def)
  have "distinct (listed ?n)"
    using assms by (auto simp: listed_def ok_with_def distinct_map inj_on_def)
  then show ?thesis
    using assms(1) unfolding ok_with_def l
    by (auto simp: slots_ok_def servers_ok_def is_alive_iff is_server_iff)
qed

section \<open>Every step keeps the invariant\<close>

lemma undefer_pass_ok:
  "undefer_pass n k is b m = Inr (b', m') \<Longrightarrow> ok_with {} m \<Longrightarrow> set is \<subseteq> set (deferred_session_list m) \<Longrightarrow>
     distinct is \<Longrightarrow> ok_with {} m' \<and> set (deferred_session_list m') \<subseteq> set (deferred_session_list m)"
proof (induction "is" arbitrary: b m)
  case (Cons i rest)
  let ?ds = "deferred_session_list m"
  have i: "i \<in> set ?ds" and d: "distinct ?ds" and rest: "distinct rest" "i \<notin> set rest" "set rest \<subseteq> set ?ds"
    using Cons.prems by (auto simp: ok_with_def listed_def distinct_map)
  note taken = ok_with_undefer [OF Cons.prems(2) i]
  from Cons.prems(1) show ?case
  proof (cases rule: undefer_cases)
    case (1 rc m1)
    obtain f where "served f i m m1" "f = Held" using ProcessForSession_served [OF 1(1)] 1(2) by metis
    then have "ok_with {SessionHolder i} (m1\<lparr>deferred_session_list := remove1 i ?ds\<rparr>)"
      using ok_with_served [OF taken served_undeferred] by simp
    then have "ok_with {} (m1\<lparr>deferred_session_list := ?ds\<rparr>)" by (rule ok_with_still_deferred [OF _ d i])
    moreover have "m1\<lparr>deferred_session_list := ?ds\<rparr> = m1" using 1(4) by simp
    ultimately show ?thesis using Cons.IH [OF 1(3)] 1(4) rest by simp
  next
    case (2 rc m1 m2)
    obtain f where "served f i m m1" using ProcessForSession_served [OF 2(1)] by metis
    then have "ok_with {} m2"
      using ok_with_served [OF taken served_undeferred] unfolding 2(2) by (metis ok_with_drop)
    moreover have "set (deferred_session_list m2) = set ?ds - {i}" using d by (simp add: 2(2))
    ultimately show ?thesis using Cons.IH [OF 2(3)] rest by auto
  qed
qed simp

lemma ProcessDeferred_ok:
  "ProcessDeferredSessions n k m = Inr m' \<Longrightarrow> ok_with {} m \<Longrightarrow>
     ok_with {} m' \<and> set (deferred_session_list m') \<subseteq> set (deferred_session_list m) \<and>
     (\<exists>m1. undefer_pass n k (deferred_session_list m1) False m1 = Inr (False, m'))"
proof (induction n k m rule: ProcessDeferredSessions.induct)
  case (1 n k m)
  obtain b m1 where p: "undefer_pass n k (deferred_session_list m) False m = Inr (b, m1)"
    and r: "(if b then ProcessDeferredSessions n k m1 else Inr m1) = Inr m'"
    using "1.prems"(1) by (subst (asm) ProcessDeferredSessions.simps) (auto simp: then_run_eq_Inr)
  have d: "distinct (deferred_session_list m)" using "1.prems"(2) by (simp add: ok_with_def listed_def distinct_map)
  note ok = undefer_pass_ok [OF p "1.prems"(2) order_refl d]
  show ?case
  proof (cases b)
    case True
    with "1.IH" [OF p refl] r ok show ?thesis by auto
  next
    case False
    then show ?thesis using r ok p by auto
  qed
qed

lemma CreateSessionImpl_ok:
  assumes "CreateSessionImpl ctor m = Inr (ResultSuccess, m')"
    and "\<And>i m rc m'. ctor i m = Inr (rc, m') \<Longrightarrow> \<not> R_FAILED rc \<Longrightarrow>
      \<exists>w h obj. RegisterSessionImpl k h obj i (m\<lparr>services := w\<rparr>) = Inr (rc, m')"
  shows "grows m m'"
proof -
  obtain i where f: "free_slot (session_allocated m) = Some i"
    using assms(1) by (auto simp: CreateSessionImpl_def AllocateSession_def hipc_ResultOutOfSessionMemory_def
        MakeValue_def split: option.splits)
  let ?m = "m\<lparr>session_allocated := (session_allocated m)[i := True]\<rparr>"
  have "ctor i ?m = Inr (ResultSuccess, m')"
    using assms(1) f
    by (auto simp: CreateSessionImpl_def AllocateSession_def then_run_eq_Inr R_FAILED_iff split: if_split_asm)
  then obtain w h obj where r: "RegisterSessionImpl k h obj i (?m\<lparr>services := w\<rparr>) = Inr (ResultSuccess, m')"
    using assms(2) by (metis R_simps(2))
  have c: "m\<lparr>services := w, session_allocated := al\<rparr> = m\<lparr>session_allocated := al, services := w\<rparr>" for al
    by simp
  have "RegisterSession k h obj (m\<lparr>services := w\<rparr>) = Inr (ResultSuccess, m')"
    using f r by (simp add: RegisterSession_def CreateSessionImpl_def AllocateSession_def c)
  then show ?thesis using RegisterSession_grows grows_trans grows_update(1) by metis
qed

lemma AcceptSession_grows: "AcceptSession k port obj m = Inr (ResultSuccess, m') \<Longrightarrow> grows m m'"
  unfolding AcceptSession_def
proof (rule CreateSessionImpl_ok [where k = k])
  fix i rc and m m' :: "('a, 'b) ServerManager"
  assume "AcceptSessionImpl k port obj i m = Inr (rc, m')" "\<not> R_FAILED rc"
  then show "\<exists>w h obj. RegisterSessionImpl k h obj i (m\<lparr>services := w\<rparr>) = Inr (rc, m')"
    by (auto simp: AcceptSessionImpl_def Let_def then_run_eq_Inr R_FAILED_iff split: prod.splits if_split_asm)
qed

lemma ProcessForServer_ok:
  assumes "ProcessForServer k i m = Inr (ResultSuccess, m')" and "ok_with {ServerHolder i} m"
  shows "ok_with {} m'"
proof -
  obtain server where server: "server_in i m = Inr server"
    using assms(1) by (auto simp: ProcessForServer_def then_run_eq_Inr)
  obtain obj w where c: "CreateSessionObjectHolder server (services m) = (obj, w)" by fastforce
  obtain m1 where a: "AcceptSession k (port_handle server) obj (m\<lparr>services := w\<rparr>) = Inr (ResultSuccess, m1)"
    and m': "m' = RegisterToWaitList (ServerHolder i) m1"
    using assms(1) by (auto simp: ProcessForServer_def then_run_eq_Inr server c)
  show ?thesis
    unfolding m' by (intro ok_with_relist ok_with_grows [OF assms(2)] grows_trans [OF grows_update(1) AcceptSession_grows [OF a]])
qed

lemma ok_with_services: "ok_with H (m\<lparr>services := w\<rparr>) = ok_with H m" "ok_with H (m\<lparr>notify_event := b\<rparr>) = ok_with H m"
    "ok_with H (m\<lparr>request_stop_event := b\<rparr>) = ok_with H m"
  by (simp_all add: ok_with_def listed_def slots_ok_def servers_ok_def is_alive_iff is_server_iff)

lemma ok_with_ProcessWaitList: "ok_with {} m \<Longrightarrow> ok_with {} (ProcessWaitList m)"
  by (auto simp: ok_with_def listed_def slots_ok_def servers_ok_def is_alive_iff is_server_iff ProcessWaitList_def)

lemma ok_with_take:
  assumes "ok_with {} m" and "h \<in> set (waitable_manager m)" and "h \<noteq> RequestStopHolder" "h \<noteq> NotifyHolder"
  shows "ok_with {h} (m\<lparr>waitable_manager := remove1 h (waitable_manager m)\<rparr>)"
proof -
  let ?m = "m\<lparr>waitable_manager := remove1 h (waitable_manager m)\<rparr>"
  have d: "distinct (waitable_manager m)" using assms(1) by (simp add: ok_with_def listed_def)
  have "listed ?m = remove1 h (listed m)" using assms(2) by (simp add: listed_def remove1_append)
  moreover have "distinct (listed m)" using assms(1) by (simp add: ok_with_def)
  ultimately have l: "set (listed ?m) = set (listed m) - {h}" "distinct (listed ?m)" by simp_all
  have h: "h \<in> set (listed m)" using assms(2) by (simp add: listed_def)
  show ?thesis
    using assms h d unfolding ok_with_def l
    by (auto simp: l slots_ok_def servers_ok_def is_alive_iff is_server_iff)
qed

lemma WaitSignaled_ok:
  "WaitSignaled n k m = Inr (chosen, m') \<Longrightarrow> ok_with {} m \<Longrightarrow>
     (case chosen of None \<Rightarrow> ok_with {} m' | Some h \<Rightarrow> ok_with {h} m')"
proof (induction n arbitrary: m)
  case (Suc n)
  let ?m = "ProcessWaitList m"
  obtain h w where a: "WaitAny k (waitable_manager ?m) (request_stop_event ?m) (notify_event ?m) (services ?m) = (h, w)"
    by fastforce
  let ?n = "?m\<lparr>services := w\<rparr>"
  have ok: "ok_with {} ?n" using ok_with_ProcessWaitList [OF Suc.prems(2)] by (simp add: ok_with_services)
  consider "h = RequestStopHolder" | "h = NotifyHolder" | "h \<noteq> RequestStopHolder" "h \<noteq> NotifyHolder" by blast
  then show ?case
  proof cases
    case 1
    then show ?thesis using Suc.prems(1) ok by (auto simp: Let_def a)
  next
    case 2
    then have "WaitSignaled n k (?n\<lparr>notify_event := False\<rparr>) = Inr (chosen, m')" using Suc.prems(1) by (simp add: Let_def a)
    then show ?thesis by (rule Suc.IH) (use ok in \<open>simp add: ok_with_services\<close>)
  next
    case 3
    then show ?thesis
      using Suc.prems(1) ok_with_take [OF ok, of h] by (auto simp: Let_def a split: if_split_asm)
  qed
qed simp

lemma Process_ok:
  assumes "Process n k h m = Inr (ResultSuccess, m')" and "ok_with {h} m"
  shows "ok_with {} m'"
proof (cases h)
  case (ServerHolder i)
  then show ?thesis using assms ProcessForServer_ok by (simp add: Process_def)
next
  case (SessionHolder i)
  obtain rc m1 where p: "ProcessForSession n k i m = Inr (rc, m1)"
    using assms(1) by (cases "ProcessForSession n k i m") (auto simp: Process_def SessionHolder)
  obtain f where f: "served f i m m1" "R_FAILED rc \<Longrightarrow> f = Held" using ProcessForSession_served [OF p] by metis
  note ok = ok_with_served [OF assms(2) [unfolded SessionHolder] f(1)]
  show ?thesis
  proof (cases "R_FAILED rc")
    case True
    then show ?thesis
      using assms(1) p ok f(2) ok_with_defer
      by (auto simp: Process_def SessionHolder R_FAILED_iff split: if_split_asm)
  next
    case False
    then have "ProcessDeferredSessions n k m1 = Inr m'"
      using assms(1) p by (auto simp: Process_def SessionHolder then_run_eq_Inr)
    moreover have "ok_with {} m1" using ok ok_with_drop by (auto split: if_split_asm)
    ultimately show ?thesis using ProcessDeferred_ok by blast
  qed
qed (use assms in \<open>simp_all add: Process_def\<close>)

lemma WaitAndProcess_ok:
  assumes "WaitAndProcessImpl n k m = Inr (b, m')" and "ok_with {} m"
  shows "ok_with {} m'"
proof -
  obtain h m1 where w: "WaitSignaled n k m = Inr (h, m1)"
    using assms(1) by (cases "WaitSignaled n k m") (auto simp: WaitAndProcessImpl_def)
  note ok = WaitSignaled_ok [OF w assms(2)]
  show ?thesis
    using assms(1) ok
    by (cases h) (auto simp: WaitAndProcessImpl_def w then_run_eq_Inr R_FAILED_iff split: if_split_asm dest: Process_ok)
qed

lemma RegisterServer_ok:
  assumes "RegisterServer k sn max_sessions obj ctor m = Inr (rc, m')" and "ok_with {} m"
  shows "ok_with {} m'"
proof -
  obtain rc1 port w where r: "sm_RegisterService k sn max_sessions (services m) = (rc1, port, w)" by (metis prod_cases3)
  show ?thesis
  proof (cases "R_FAILED rc1")
    case True
    then have "m' = m\<lparr>services := w\<rparr>" using assms(1) by (simp add: RegisterServer_def r)
    then show ?thesis using assms(2) by (simp add: ok_with_services)
  next
    case False
    then obtain i where i: "free_slot (server_allocated m) = Some i"
      and m': "m' = m\<lparr>services := w, server_allocated := (server_allocated m)[i := True],
          server_storages := (server_storages m)[i := Some
            \<lparr>static_object = obj, port_handle = port, service_name = sn, service_managed = True, MakeShared = ctor\<rparr>],
          waitable_manager := waitable_manager m @ [ServerHolder i]\<rparr>"
      using assms(1) by (auto simp: RegisterServer_def r RegisterServerImpl_def AllocateServer_def then_run_eq_Inr
          Let_def split: option.splits)
    have "i < length (server_storages m)" "\<not> is_server i m"
      using free_slot_Some [OF i] assms(2) by (auto simp: ok_with_def servers_ok_def)
    then have sv: "is_server j m' \<longleftrightarrow> j = i \<or> is_server j m" for j
      by (auto simp: m' is_server_iff nth_list_update)
    have al: "is_alive j m' = is_alive j m" for j by (simp add: m' is_alive_iff)
    have l: "set (listed m') = insert (ServerHolder i) (set (listed m))" by (auto simp: m' listed_def)
    have n: "ServerHolder i \<notin> set (listed m)" using \<open>\<not> is_server i m\<close> assms(2) by (auto simp: ok_with_def)
    have "distinct (listed m')" using assms(2) n by (auto simp: m' listed_def ok_with_def)
    moreover have "servers_ok m'"
      using assms(2) \<open>i < _\<close> unfolding servers_ok_def ok_with_def sv by (auto simp: m' nth_list_update)
    moreover have "slots_ok m'" using assms(2) unfolding slots_ok_def ok_with_def al by (simp add: m')
    ultimately show ?thesis
      using assms(2) unfolding ok_with_def l sv al by (auto simp: m')
  qed
qed

section \<open>The manager as a state machine\<close>

text \<open>What the program does with a manager once it is made; the fuel of a step is whatever it needs.\<close>

inductive manager_step :: "('o, 'w) hipc_lib \<Rightarrow> ('o, 'w) ServerManager \<Rightarrow> ('o, 'w) ServerManager \<Rightarrow> bool" for k where
  register: "RegisterServer k sn max_sessions obj ctor m = Inr (rc, m') \<Longrightarrow> manager_step k m m'"
| serve: "WaitAndProcessImpl n k m = Inr (go_on, m') \<Longrightarrow> manager_step k m m'"
| stop: "manager_step k m (RequestStopProcessing m)"
| resume: "manager_step k m (ResumeProcessing m)"

inductive_cases manager_stepE: "manager_step k m m'"

lemma manager_step_ok: "manager_step k m m' \<Longrightarrow> manager_ok m \<Longrightarrow> manager_ok m'"
  unfolding manager_ok_def
  by (erule manager_stepE)
    (auto simp: RequestStopProcessing_def ResumeProcessing_def ok_with_services
      dest: RegisterServer_ok WaitAndProcess_ok)

lemma ctor_ok: "manager_ok (ServerManager_ctor servers sessions pb sm w)"
  by (auto simp: manager_ok_def ok_with_def ServerManager_ctor_def listed_def slots_ok_def servers_ok_def
      is_alive_iff is_server_iff)

definition manager_started :: "('o, 'w) ServerManager \<Rightarrow> bool" where
  "manager_started m \<longleftrightarrow> (\<exists>servers sessions pb sm w. m = ServerManager_ctor servers sessions pb sm w)"

interpretation manager: state_machine manager_started "manager_step k" manager_ok for k :: "('o, 'w) hipc_lib"
  by unfold_locales (auto simp: manager_started_def ctor_ok intro: manager_step_ok)

section \<open>Destruction\<close>

text \<open>A kernel and a service manager that take back what they gave.\<close>

definition releases :: "('o, 'w) hipc_lib \<Rightarrow> bool" where
  "releases k \<longleftrightarrow> (\<forall>h w. fst (svcCloseHandle k h w) = ResultSuccess) \<and>
     (\<forall>sn w. fst (sm_UnregisterService k sn w) = ResultSuccess)"

lemma close_handle_releases: "releases k \<Longrightarrow> \<exists>w. close_handle k h m = Inr (m\<lparr>services := w\<rparr>)"
  by (cases "svcCloseHandle k h (services m)") (auto simp: releases_def close_handle_def dest: spec2 [of _ h "services m"])

lemma CloseSession_releases:
  assumes "releases k" and "slots_ok m" and "i < length (session_allocated m)" and "session_allocated m ! i"
  shows "\<exists>w. CloseSessionImpl k i m = Inr (m\<lparr>session_storages := (session_storages m)[i := Destroyed],
    session_allocated := (session_allocated m)[i := False], services := w\<rparr>)"
proof -
  obtain s where s: "session_in i m = Inr s" using assms by (auto simp: slots_ok_def is_alive_def)
  let ?m = "m\<lparr>session_storages := (session_storages m)[i := Destroyed], session_allocated := (session_allocated m)[i := False]\<rparr>"
  have "DestroySession i m = Inr ?m" using s assms(3,4) by (simp add: DestroySession_def FreeSession_def session_in_alive)
  moreover obtain w where "close_handle k (session_handle s) ?m = Inr (?m\<lparr>services := w\<rparr>)"
    using close_handle_releases [OF assms(1)] by blast
  ultimately have "CloseSessionImpl k i m = Inr (?m\<lparr>services := w\<rparr>)" using s by (simp add: CloseSessionImpl_def)
  then show ?thesis by blast
qed

lemma DestroyServer_releases:
  assumes "releases k" and "servers_ok m" and "i < length (server_allocated m)" and "server_allocated m ! i"
  shows "\<exists>w. DestroyServer k i m = Inr (m\<lparr>services := w, server_storages := (server_storages m)[i := None],
    server_allocated := (server_allocated m)[i := False]\<rparr>)"
proof -
  obtain p where p: "server_in i m = Inr p" using assms by (auto simp: servers_ok_def is_server_def)
  obtain rc w where u: "sm_UnregisterService k (service_name p) (services m) = (rc, w)" by fastforce
  then have "rc = ResultSuccess" using assms(1) by (metis fst_conv releases_def)
  then show ?thesis
    using p u assms close_handle_releases [OF assms(1), of "port_handle p" "m\<lparr>services := w\<rparr>"]
    by (auto simp: DestroyServer_def) (auto intro: exI [of _ "services m"])
qed

lemma close_sessions:
  "releases k \<Longrightarrow> slots_ok m \<Longrightarrow> set is \<subseteq> {..<length (session_allocated m)} \<Longrightarrow>
   \<exists>m'. each_run (\<lambda>i m. if session_allocated m ! i then CloseSessionImpl k i m else Inr m) is m = Inr m' \<and>
     slots_ok m' \<and> length (session_allocated m') = length (session_allocated m) \<and>
     (\<forall>j. session_allocated m' ! j \<longrightarrow> j < length (session_allocated m') \<longrightarrow> session_allocated m ! j \<and> j \<notin> set is) \<and>
     server_storages m' = server_storages m \<and> server_allocated m' = server_allocated m"
proof (induction "is" arbitrary: m)
  case (Cons i rest)
  then have i: "i < length (session_allocated m)" by simp
  show ?case
  proof (cases "session_allocated m ! i")
    case False
    then show ?thesis using Cons.IH [OF Cons.prems(1,2)] Cons.prems(3) by auto
  next
    case True
    let ?m = "\<lambda>w. m\<lparr>session_storages := (session_storages m)[i := Destroyed],
      session_allocated := (session_allocated m)[i := False], services := w\<rparr>"
    obtain w where c: "CloseSessionImpl k i m = Inr (?m w)"
      using CloseSession_releases [OF Cons.prems(1,2) i True] by blast
    have "is_alive j (?m w) \<longleftrightarrow> is_alive j m \<and> j \<noteq> i" for j
      by (cases "j = i") (auto simp: is_alive_iff)
    then have "slots_ok (?m w)"
      using Cons.prems(2) i by (auto simp: slots_ok_def nth_list_update split: if_split_asm)
    moreover have "set rest \<subseteq> {..<length (session_allocated (?m w))}" using Cons.prems(3) by simp
    ultimately obtain m' where m': "each_run (\<lambda>i m. if session_allocated m ! i then CloseSessionImpl k i m else Inr m) rest (?m w) = Inr m'"
      "slots_ok m'" "length (session_allocated m') = length (session_allocated m)"
      "\<And>j. session_allocated m' ! j \<Longrightarrow> j < length (session_allocated m') \<Longrightarrow>
        (session_allocated m)[i := False] ! j \<and> j \<notin> set rest"
      "server_storages m' = server_storages m" "server_allocated m' = server_allocated m"
      using Cons.IH [OF Cons.prems(1), of "?m w"] by auto
    have "session_allocated m ! j \<and> j \<noteq> i \<and> j \<notin> set rest"
      if "session_allocated m' ! j" "j < length (session_allocated m')" for j
      using m'(4) [OF that] i by (cases "j = i") auto
    then show ?thesis using c True m' by auto
  qed
qed simp

lemma destroy_servers:
  "releases k \<Longrightarrow> servers_ok m \<Longrightarrow> set is \<subseteq> {..<length (server_allocated m)} \<Longrightarrow>
   \<exists>m'. each_run (\<lambda>i m. if server_allocated m ! i then DestroyServer k i m else Inr m) is m = Inr m' \<and>
     servers_ok m' \<and> (\<forall>j. is_server j m' \<longrightarrow> is_server j m \<and> j \<notin> set is) \<and>
     session_storages m' = session_storages m \<and> session_allocated m' = session_allocated m"
proof (induction "is" arbitrary: m)
  case (Cons i rest)
  then have i: "i < length (server_allocated m)" by simp
  show ?case
  proof (cases "server_allocated m ! i")
    case False
    moreover have "\<not> is_server i m" using False i Cons.prems(2) by (simp add: servers_ok_def)
    ultimately show ?thesis using Cons.IH [OF Cons.prems(1,2)] Cons.prems(3) by auto
  next
    case True
    let ?m = "\<lambda>w. m\<lparr>services := w, server_storages := (server_storages m)[i := None],
      server_allocated := (server_allocated m)[i := False]\<rparr>"
    obtain w where c: "DestroyServer k i m = Inr (?m w)"
      using DestroyServer_releases [OF Cons.prems(1,2) i True] by blast
    have sv: "is_server j (?m w) \<longleftrightarrow> is_server j m \<and> j \<noteq> i" for j
      by (cases "j = i") (auto simp: is_server_iff)
    then have "servers_ok (?m w)"
      using Cons.prems(2) i unfolding servers_ok_def sv by (auto simp: nth_list_update split: if_split_asm)
    moreover have "set rest \<subseteq> {..<length (server_allocated (?m w))}" using Cons.prems(3) by simp
    ultimately obtain m' where "each_run (\<lambda>i m. if server_allocated m ! i then DestroyServer k i m else Inr m) rest (?m w) = Inr m'"
      "servers_ok m'" "\<And>j. is_server j m' \<Longrightarrow> is_server j (?m w) \<and> j \<notin> set rest"
      "session_storages m' = session_storages m" "session_allocated m' = session_allocated m"
      using Cons.IH [OF Cons.prems(1), of "?m w"] by auto
    then show ?thesis using c True sv by auto
  qed
qed simp

text \<open>The destructor of a consistent manager closes every session and gives back every port.\<close>

lemma dtor_releases:
  assumes "releases k" and "manager_ok m"
  shows "\<exists>m'. ServerManager_dtor k m = Inr m' \<and> (\<forall>i. \<not> is_alive i m' \<and> \<not> is_server i m')"
proof -
  have ok: "slots_ok m" "servers_ok m" using assms(2) by (simp_all add: manager_ok_def ok_with_def)
  have sub: "set [0..<n] \<subseteq> {..<n}" for n by auto
  obtain m1 where m1: "each_run (\<lambda>i m. if session_allocated m ! i then CloseSessionImpl k i m else Inr m)
      [0..<length (session_allocated m)] m = Inr m1" "slots_ok m1"
      "length (session_allocated m1) = length (session_allocated m)"
      "\<forall>j. session_allocated m1 ! j \<longrightarrow> j < length (session_allocated m1) \<longrightarrow>
        session_allocated m ! j \<and> j \<notin> set [0..<length (session_allocated m)]"
      "server_storages m1 = server_storages m" "server_allocated m1 = server_allocated m"
    using close_sessions [OF assms(1) ok(1) sub] by blast
  have "servers_ok m1" using ok(2) m1(5,6) by (simp add: servers_ok_def is_server_iff)
  then obtain m2 where m2: "each_run (\<lambda>i m. if server_allocated m ! i then DestroyServer k i m else Inr m)
      [0..<length (server_allocated m1)] m1 = Inr m2" "servers_ok m2"
      "\<forall>j. is_server j m2 \<longrightarrow> is_server j m1 \<and> j \<notin> set [0..<length (server_allocated m1)]"
      "session_storages m2 = session_storages m1"
    using destroy_servers [OF assms(1) _ sub] by blast
  have "\<not> is_alive j m1" for j
    using m1(2-4) alive_length [of j m1] by (simp add: slots_ok_def) (metis atLeastLessThan_iff zero_le)
  then have "\<not> is_alive j m2" for j by (simp add: is_alive_iff m2(4))
  moreover have "\<not> is_server j m2" for j
    using m2(3) \<open>servers_ok m1\<close> by (auto simp: servers_ok_def is_server_iff)
  ultimately show ?thesis using m1(1) m2(1) by (auto simp: ServerManager_dtor_def)
qed

end
