(* ===== verification/AlbumLoop.thy ===== *)
theory AlbumLoop
  imports HipcManagerFacts
begin

text \<open>
  The album behind its two server managers (\<open>server/capsrv_album_server.cpp\<close>): which object a session
  of a port talks to, how the ports are registered, and the program as two server threads that share
  the album's objects. Whatever the managers do with messages, sessions and lists, what reaches the
  objects is a sequence of methods of the services, so their invariant holds in the whole program.
\<close>

section \<open>Objects\<close>

text \<open>The objects a session can talk to: the three services and the three kinds of movie stream session.\<close>

datatype album_object = AccessorObject | ControlObject | ApplicationObject
  | AccessorSessionObject | ControlSessionObject | AccessorApplicationSessionObject

fun album_table :: "album_object \<Rightarrow> string ServiceCommandMeta list" where
  "album_table AccessorObject = AlbumAccessorService_table"
| "album_table ControlObject = AlbumControlService_table"
| "album_table ApplicationObject = AlbumApplicationService_table"
| "album_table AccessorSessionObject = AccessorSession_table"
| "album_table ControlSessionObject = ControlSession_table"
| "album_table AccessorApplicationSessionObject = AccessorApplicationSession_table"

fun album_signatures :: "libnx_types \<Rightarrow> album_object \<Rightarrow> signatures" where
  "album_signatures y AccessorObject = AlbumAccessorService_signatures y"
| "album_signatures y ControlObject = AlbumControlService_signatures y"
| "album_signatures y ApplicationObject = AlbumApplicationService_signatures y"
| "album_signatures y AccessorSessionObject = AccessorSession_signatures y"
| "album_signatures y ControlSessionObject = ControlSession_signatures y"
| "album_signatures y AccessorApplicationSessionObject = AccessorApplicationSession_signatures y"

fun album_method :: "'w surroundings \<Rightarrow> album_object \<Rightarrow> string \<Rightarrow> 'w effect \<Rightarrow> bool" where
  "album_method x AccessorObject = accessor_method x"
| "album_method x ControlObject = control_method x"
| "album_method x ApplicationObject = application_method"
| "album_method x _ = session_method"

text \<open>What happens to the objects: a method runs to its end, or something happens outside.\<close>

definition quiet :: "'w objects \<Rightarrow> 'w objects \<Rightarrow> bool" where
  "quiet g g' \<longleftrightarrow> (\<exists>w. g' = g\<lparr>g_world := w\<rparr>)"

inductive album_step :: "'w surroundings \<Rightarrow> 'w objects \<Rightarrow> 'w objects \<Rightarrow> bool" for x where
  runs: "album_method x obj h e \<Longrightarrow> e g = Inr (rc, g') \<Longrightarrow> album_step x g g'"
| outside: "quiet g g' \<Longrightarrow> album_step x g g'"

lemma album_step_ok: "album_step x g g' \<Longrightarrow> objects_ok g \<Longrightarrow> objects_ok g'"
proof (induction rule: album_step.induct)
  case (runs obj h e g rc g')
  then show ?case
    by (cases obj)
      (auto dest: accessor_method_ok control_method_ok application_method_ok session_method_aborts [where g = g])
next
  case (outside g g')
  then show ?case by (auto simp: quiet_def objects_ok_def)
qed

lemma album_steps_ok: "(album_step x)\<^sup>*\<^sup>* g g' \<Longrightarrow> objects_ok g \<Longrightarrow> objects_ok g'"
  by (induction rule: rtranclp_induct) (auto dest: album_step_ok)

text \<open>Every step of the server as clients see it (\<open>Server\<close>) is one of these, or nothing.\<close>

lemma dispatched_album:
  assumes "invokes (album_method x obj) invoke (drop (CMIF_IN_HEADER_SIZE l) raw)"
    and "ProcessMessageImpl l v invoke t raw g = Inr (rc, reply, g')"
  shows "(album_step x)\<^sup>*\<^sup>* g g'"
  using assms by (cases rule: dispatched) (auto intro: album_step.runs)

lemma server_step_album: "server_step l v x g g' \<Longrightarrow> (album_step x)\<^sup>*\<^sup>* g g'"
proof (induction rule: server_step.induct)
  case (accessor invoke raw g rc reply g')
  then show ?case using dispatched_album [of x AccessorObject] by simp
next
  case (control invoke raw g rc reply g')
  then show ?case using dispatched_album [of x ControlObject] by simp
next
  case (application invoke raw g rc reply g')
  then show ?case using dispatched_album [of x ApplicationObject] by simp
next
  case (session t invoke raw g rc reply g')
  then show ?case using dispatched_album [of x AccessorSessionObject] by simp
qed

section \<open>What is assumed of the outside\<close>

text \<open>
  The calls of the kernel do not touch the objects of the album. Methods are those of the services: a
  method that returns did what a method of that name does, on some arguments.
\<close>

definition kernel_quiet :: "('o, 'w objects) hipc_lib \<Rightarrow> bool" where
  "kernel_quiet k \<longleftrightarrow> (\<forall>g.
     (\<forall>port. quiet g (snd (snd (svcAcceptSession k port g)))) \<and> (\<forall>h. quiet g (snd (svcCloseHandle k h g))) \<and>
     quiet g (snd (snd (svcCreateSession k g))) \<and> (\<forall>h b. quiet g (snd (snd (svcReceive k h b g)))) \<and>
     (\<forall>h b. quiet g (snd (snd (svcReply k h b g)))) \<and> (\<forall>p. quiet g (fsSetPriority k p g)) \<and>
     (\<forall>sn n. quiet g (snd (snd (sm_RegisterService k sn n g)))) \<and>
     (\<forall>hs stop notify. quiet g (snd (WaitAny k hs stop notify g))))"

definition serves_album ::
  "'w surroundings \<Rightarrow> libnx_types \<Rightarrow> (album_object, 'w objects) hipc_lib \<Rightarrow> bool" where
  "serves_album x y k \<longleftrightarrow> domains k = no_domains \<and> table_of k = album_table \<and>
     signatures_of k = album_signatures y \<and>
     (\<forall>obj h vs g rc out g'. methods_of k obj h vs g = Inr (rc, out, g') \<longrightarrow>
        (\<exists>e. album_method x obj h e \<and> e g = Inr (rc, g')))"

text \<open>The objects of a service have no state of their own: making one changes nothing.\<close>

definition makes_quietly :: "('o, 'w objects) ServerManager \<Rightarrow> bool" where
  "makes_quietly m \<longleftrightarrow> (\<forall>s g. Some s \<in> set (server_storages m) \<longrightarrow> quiet g (snd (MakeShared s g)))"

definition serving :: "'w surroundings \<Rightarrow> libnx_types \<Rightarrow> (album_object, 'w objects) hipc_lib \<Rightarrow>
    (album_object, 'w objects) ServerManager \<Rightarrow> bool" where
  "serving x y k m \<longleftrightarrow> serves_album x y k \<and> kernel_quiet k \<and> makes_quietly m"

section \<open>What the manager does to the objects\<close>

definition acts :: "'w surroundings \<Rightarrow> libnx_types \<Rightarrow> (album_object, 'w objects) hipc_lib \<Rightarrow>
    (album_object, 'w objects) ServerManager \<Rightarrow> (album_object, 'w objects) ServerManager \<Rightarrow> bool" where
  "acts x y k m m' \<longleftrightarrow> server_storages m' = server_storages m \<and>
     (serving x y k m \<longrightarrow> (album_step x)\<^sup>*\<^sup>* (services m) (services m'))"

lemma serving_storages: "server_storages m' = server_storages m \<Longrightarrow> serving x y k m' = serving x y k m"
  by (simp add: serving_def makes_quietly_def)

lemma acts_refl: "acts x y k m m"
  by (simp add: acts_def)

lemma acts_trans: "acts x y k m m1 \<Longrightarrow> acts x y k m1 m2 \<Longrightarrow> acts x y k m m2"
  unfolding acts_def using serving_storages [of m1 m x y k] by (auto intro: rtranclp_trans)

lemma acts_same: "server_storages m' = server_storages m \<Longrightarrow> services m' = services m \<Longrightarrow> acts x y k m m'"
  by (simp add: acts_def)

lemma acts_quiet:
  "server_storages m' = server_storages m \<Longrightarrow> (serving x y k m \<Longrightarrow> quiet (services m) (services m')) \<Longrightarrow>
   acts x y k m m'"
  by (auto simp: acts_def intro: album_step.outside)

lemma quiet_refl: "quiet g g"
  by (auto simp: quiet_def intro: exI [of _ "g_world g"])

lemma quiet_calls:
  assumes "serving x y k m"
  shows "svcAcceptSession k port g = (rc, h, g') \<Longrightarrow> quiet g g'" "svcCloseHandle k h g = (rc, g') \<Longrightarrow> quiet g g'"
    "svcCreateSession k g = (rc, hs, g') \<Longrightarrow> quiet g g'" "svcReceive k h b g = (rc, b', g') \<Longrightarrow> quiet g g'"
    "svcReply k h b g = (rc, b', g') \<Longrightarrow> quiet g g'" "quiet g (fsSetPriority k p g)"
    "WaitAny k waited stop notify g = (holder, g') \<Longrightarrow> quiet g g'"
  using assms unfolding serving_def kernel_quiet_def by (metis snd_conv)+

lemma storages_simps [simp]:
  "server_storages (set_session i s m) = server_storages m"
  "server_storages (RegisterToWaitList holder m) = server_storages m"
  "server_storages (SetInlineContext k ctx m) = server_storages m"
  by (simp_all add: set_session_def RegisterToWaitList_def SetInlineContext_def)

text \<open>Slots and lists are not objects of the album.\<close>

lemma DestroySession_acts: "DestroySession i m = Inr m' \<Longrightarrow> acts x y k m m'"
  by (auto simp: DestroySession_def FreeSession_def intro!: acts_same split: if_splits session_storage.splits)

lemma RegisterSessionToWaitList_acts: "RegisterSessionToWaitList i m = Inr m' \<Longrightarrow> acts x y k m m'"
  by (auto simp: RegisterSessionToWaitList_def then_run_eq_Inr intro!: acts_same)

lemma set_session_acts: "acts x y k m (set_session i s m)"
  by (rule acts_same) simp_all

lemma RegisterSessionImpl_acts: "RegisterSessionImpl k h obj i m = Inr (rc, m') \<Longrightarrow> acts x y k' m m'"
  by (auto simp: RegisterSessionImpl_def then_run_eq_Inr dest!: RegisterSessionToWaitList_acts [of _ _ _ x y k']
      intro: acts_trans [OF set_session_acts])

lemma CreateSessionImpl_acts:
  assumes "CreateSessionImpl ctor m = Inr (rc, m')"
    and ctor: "\<And>i m rc m'. ctor i m = Inr (rc, m') \<Longrightarrow> acts x y k m m'"
  shows "acts x y k m m'"
proof -
  obtain place0 m1 where a: "AllocateSession m = (place0, m1)" by fastforce
  then have same: "acts x y k m m1" by (auto simp: AllocateSession_def intro!: acts_same split: option.splits)
  then show ?thesis
    using assms(1) a
    by (auto simp: CreateSessionImpl_def then_run_eq_Inr split: option.splits if_splits
        dest!: ctor DestroySession_acts [of _ _ _ x y k] intro: acts_trans)
qed

lemma RegisterSession_acts: "RegisterSession k h obj m = Inr (rc, m') \<Longrightarrow> acts x y k' m m'"
  unfolding RegisterSession_def by (erule CreateSessionImpl_acts) (rule RegisterSessionImpl_acts)

lemma close_handle_acts: "close_handle k h m = Inr m' \<Longrightarrow> acts x y k m m'"
  by (auto simp: close_handle_def split: prod.splits if_splits intro!: acts_quiet dest: quiet_calls)

lemma CloseSession_acts: "CloseSessionImpl k i m = Inr m' \<Longrightarrow> acts x y k m m'"
  by (auto simp: CloseSessionImpl_def then_run_eq_Inr dest!: DestroySession_acts [of _ _ _ x y k] close_handle_acts
      [of _ _ _ _ x y] intro: acts_trans)

lemma CreateSession_acts: "hipc_CreateSession k m = (rc, hs, m') \<Longrightarrow> acts x y k m m'"
  by (auto simp: hipc_CreateSession_def Let_def split: prod.splits if_splits intro!: acts_quiet dest: quiet_calls)

lemma AcceptSessionImpl_acts: "AcceptSessionImpl k port obj i m = Inr (rc, m') \<Longrightarrow> acts x y k m m'"
proof -
  assume a: "AcceptSessionImpl k port obj i m = Inr (rc, m')"
  obtain rc1 h w where s: "svcAcceptSession k port (services m) = (rc1, h, w)" by (metis prod_cases3)
  have "acts x y k m (m\<lparr>services := w\<rparr>)" using s by (auto intro!: acts_quiet dest: quiet_calls)
  then show ?thesis
    using a s
    by (auto simp: AcceptSessionImpl_def Let_def then_run_eq_Inr split: if_splits
        dest!: RegisterSessionImpl_acts [of _ _ _ _ _ _ _ x y k] close_handle_acts [of _ _ _ _ x y] intro: acts_trans)
qed

lemma AcceptSession_acts: "AcceptSession k port obj m = Inr (rc, m') \<Longrightarrow> acts x y k m m'"
  unfolding AcceptSession_def by (erule CreateSessionImpl_acts) (rule AcceptSessionImpl_acts)

lemma Reply_acts: "Reply k h m = Inr (rc, m') \<Longrightarrow> acts x y k m m'"
  by (auto simp: Reply_def Let_def split: prod.splits if_splits intro!: acts_quiet dest: quiet_calls)

lemma context_acts: "acts x y k m (SetInlineContext k ctx m)"
  by (rule acts_quiet) (auto simp: SetInlineContext_def quiet_calls)

text \<open>A method of the album is one step.\<close>

lemma method_acts:
  assumes "on_services (methods_of k obj h) vs m = Inr (rc, out, m')"
  shows "acts x y k m m'"
proof -
  obtain w where call: "methods_of k obj h vs (services m) = Inr (rc, out, w)" and m': "m' = m\<lparr>services := w\<rparr>"
    using assms by (auto simp: on_services_def then_run_eq_Inr)
  have "album_step x (services m) w" if "serving x y k m"
    using that call unfolding serving_def serves_album_def by (blast intro: album_step.runs)
  then show ?thesis by (auto simp: acts_def m')
qed

lemma open_session_acts: "open_session_for k obj m = Inr (rc, out, m') \<Longrightarrow> acts x y k m m'"
  by (auto simp: open_session_for_def then_run_eq_Inr Let_def split: prod.splits if_splits
      intro: acts_trans RegisterSession_acts CreateSession_acts)

lemma Convert_acts:
  assumes "ConvertCurrentObjectToDomain k i vs m = Inr (rc, out, m')"
  shows "acts x y k m m'"
proof -
  obtain d w where a: "AllocateDomainServiceObject (domains k) (services m) = (d, w)" by fastforce
  have "d = None \<and> w = services m" if "serving x y k m"
    using that a by (simp add: serving_def serves_album_def no_domains_def)
  moreover have "server_storages m' = server_storages m"
    using assms
    by (auto simp: ConvertCurrentObjectToDomain_def Let_def a then_run_eq_Inr split: option.splits if_splits)
  moreover have "services m' = services m" if "d = None \<and> w = services m"
    using that assms by (auto simp: ConvertCurrentObjectToDomain_def Let_def a)
  ultimately show ?thesis by (auto simp: acts_def)
qed

lemma HipcManager_acts: "HipcManager_methods k i h vs m = Inr (rc, out, m') \<Longrightarrow> acts x y k m m'"
  by (auto simp: HipcManager_methods_def CloneCurrentObjectImpl_def CopyFromCurrentDomain_def
      QueryPointerBufferSize_def then_run_eq_Inr acts_refl
      split: if_split_asm option.split_asm dest!: Convert_acts open_session_acts)

interpretation album: request_handling "acts x y k" k
  for x :: "'w surroundings" and y and k :: "(album_object, 'w objects) hipc_lib"
  by unfold_locales
    (auto simp: sessions_of_def acts_refl context_acts intro: acts_trans acts_same RegisterSession_acts CreateSession_acts
      Reply_acts method_acts HipcManager_acts)

section \<open>The loop of a server thread\<close>

lemma ProcessRequest_acts:
  assumes "ProcessRequest k i m = Inr (rc, m')"
  shows "acts x y k m m'"
  using assms
  by (auto simp: ProcessRequest_def then_run_eq_Inr split: if_splits
      dest!: album.ProcessRequestImpl_R [of _ _ _ _ _ x y] CloseSession_acts [of _ _ _ _ x y]
        RegisterSessionToWaitList_acts [of _ _ _ x y k] intro: acts_trans)

lemma Receive_acts: "Receive k h m = (rc, res, m') \<Longrightarrow> acts x y k m m'"
  by (auto simp: Receive_def Let_def split: prod.splits if_splits intro!: acts_quiet dest: quiet_calls)

lemma ReceiveRequest_acts: "ReceiveRequestImpl n k i m = Inr (rc, m') \<Longrightarrow> acts x y k m m'"
proof (induction n arbitrary: m)
  case (Suc n)
  obtain s where s: "session_in i m = Inr s" using Suc.prems by (auto simp: then_run_eq_Inr)
  let ?m = "m\<lparr>tls := make_receive k (if pas_address (pointer_buffer s) \<noteq> 0 then Some (pointer_buffer s) else None) (tls m)\<rparr>"
  obtain rc1 res m1 where r: "Receive k (session_handle s) ?m = (rc1, res, m1)" by (metis prod_cases3)
  have "acts x y k m ?m" by (rule acts_same) simp_all
  note g = acts_trans [OF this Receive_acts [OF r]]
  show ?case
    using Suc.prems s r g Suc.IH acts_trans [OF g set_session_acts]
    by (auto split: if_splits ReceiveResult.splits intro: acts_trans)
qed simp

lemma fetch_message_acts:
  assumes "fetch_message n k i m = Inr (rc, m')"
  shows "acts x y k m m'"
proof -
  have a: "acts x y k m1 ((set_session i s m1)\<lparr>saved_message_storage := b\<rparr>)" "acts x y k m1 (m1\<lparr>tls := b'\<rparr>)" for m1 s b b'
    by (rule acts_same; simp)+
  show ?thesis
    using assms
    by (auto simp: fetch_message_def then_run_eq_Inr split: if_splits dest!: ReceiveRequest_acts [of _ _ _ _ _ _ x y]
        intro: acts_trans a)
qed

lemma ProcessForSession_acts: "ProcessForSession n k i m = Inr (rc, m') \<Longrightarrow> acts x y k m m'"
  by (auto simp: ProcessForSession_def then_run_eq_Inr split: if_splits dest!: fetch_message_acts [of _ _ _ _ _ _ x y]
      ProcessRequest_acts [of _ _ _ _ _ x y] intro: acts_trans)

lemma undefer_pass_acts: "undefer_pass n k is b m = Inr (b', m') \<Longrightarrow> acts x y k m m'"
proof (induction "is" arbitrary: b m)
  case (Cons i rest)
  from Cons.prems show ?case
  proof (cases rule: undefer_cases)
    case (1 rc m1)
    then show ?thesis using Cons.IH ProcessForSession_acts acts_trans by metis
  next
    case (2 rc m1 m2)
    have "acts x y k m1 m2" unfolding 2(2) by (rule acts_same) simp_all
    then show ?thesis using 2(1,3) Cons.IH ProcessForSession_acts acts_trans by metis
  qed
qed (simp add: acts_refl)

lemma ProcessDeferred_acts: "ProcessDeferredSessions n k m = Inr m' \<Longrightarrow> acts x y k m m'"
proof (induction n k m rule: ProcessDeferredSessions.induct)
  case (1 n k m)
  obtain b m1 where p: "undefer_pass n k (deferred_session_list m) False m = Inr (b, m1)"
    and r: "(if b then ProcessDeferredSessions n k m1 else Inr m1) = Inr m'"
    using "1.prems"(1) by (subst (asm) ProcessDeferredSessions.simps) (auto simp: then_run_eq_Inr)
  note walk = undefer_pass_acts [OF p]
  show ?case
  proof (cases b)
    case True
    then have "acts x y k m1 m'" using "1.IH" [OF p refl] r by simp
    with walk show ?thesis by (rule acts_trans)
  qed (use r walk in simp)
qed

lemma ProcessForServer_acts:
  assumes "ProcessForServer k i m = Inr (rc, m')"
  shows "acts x y k m m'"
proof -
  obtain server where server: "server_in i m = Inr server"
    using assms(1) by (auto simp: ProcessForServer_def then_run_eq_Inr)
  then have mem: "Some server \<in> set (server_storages m)"
    by (auto simp: server_in_def split: if_splits option.splits) (metis nth_mem)
  obtain obj w where c: "CreateSessionObjectHolder server (services m) = (obj, w)" by fastforce
  obtain m1 where a: "AcceptSession k (port_handle server) obj (m\<lparr>services := w\<rparr>) = Inr (rc, m1)"
    and m': "m' = RegisterToWaitList (ServerHolder i) m1"
    using assms(1) by (auto simp: ProcessForServer_def then_run_eq_Inr server c)
  have "quiet (services m) w" if "serving x y k m"
    using that mem c unfolding serving_def makes_quietly_def CreateSessionObjectHolder_def
    by (auto simp: quiet_refl split: option.splits prod.splits) (metis snd_conv)
  then have "acts x y k m (m\<lparr>services := w\<rparr>)" by (intro acts_quiet) auto
  moreover have "acts x y k m1 m'" unfolding m' by (rule acts_same) simp_all
  ultimately show ?thesis using AcceptSession_acts [OF a] acts_trans by metis
qed

lemma WaitSignaled_acts: "WaitSignaled n k m = Inr (chosen, m') \<Longrightarrow> acts x y k m m'"
proof (induction n arbitrary: m)
  case (Suc n)
  let ?m = "ProcessWaitList m"
  obtain h w where a: "WaitAny k (waitable_manager ?m) (request_stop_event ?m) (notify_event ?m) (services ?m) = (h, w)"
    by fastforce
  have s: "services ?m = services m" "server_storages ?m = server_storages m" by (simp_all add: ProcessWaitList_def)
  have q: "acts x y k m m1" if "services m1 = w" "server_storages m1 = server_storages m" for m1
    using that a s by (intro acts_quiet) (auto dest: quiet_calls)
  show ?case
    using Suc.prems Suc.IH [of "?m\<lparr>services := w, notify_event := False\<rparr>"] q
      acts_trans [OF q [of "?m\<lparr>services := w, notify_event := False\<rparr>"]]
    by (auto simp: Let_def a [unfolded s] s split: if_splits)
qed simp

lemma Process_acts:
  assumes "Process n k h m = Inr (rc, m')"
  shows "acts x y k m m'"
proof (cases h)
  case (ServerHolder i)
  then show ?thesis using assms ProcessForServer_acts by (simp add: Process_def)
next
  case (SessionHolder i)
  have d: "acts x y k m1 (m1\<lparr>deferred_session_list := js\<rparr>)" for m1 js by (rule acts_same) simp_all
  show ?thesis
    using assms
    by (auto simp: Process_def SessionHolder then_run_eq_Inr split: if_splits dest!: ProcessForSession_acts
        [of _ _ _ _ _ _ x y] ProcessDeferred_acts [of _ _ _ _ x y] intro: acts_trans d)
qed (use assms in \<open>simp_all add: Process_def\<close>)

lemma WaitAndProcess_acts: "WaitAndProcessImpl n k m = Inr (b, m') \<Longrightarrow> acts x y k m m'"
  by (auto simp: WaitAndProcessImpl_def then_run_eq_Inr split: option.splits if_splits
      dest!: WaitSignaled_acts [of _ _ _ _ _ x y] Process_acts [of _ _ _ _ _ _ x y] intro: acts_trans)

end
