(* ===== verification/HipcProperties.thy ===== *)
theory HipcProperties
  imports HipcManagerFacts
begin

text \<open>
  Properties of the session manager: its lists, deferred sessions, the slots of sessions, the bounds of a
  message, and what a result in the range of the framework's own results does to the process.
\<close>

section \<open>Clones\<close>

lemma free_slots_update:
  "i < length al \<Longrightarrow> \<not> al ! i \<Longrightarrow> Suc (length (filter Not (al[i := True]))) = length (filter Not al)"
proof (induction al arbitrary: i)
  case (Cons a al)
  then show ?case by (cases i) auto
qed simp

lemma free_slots_none: "free_slot al = None \<longleftrightarrow> length (filter Not al) = 0"
  by (simp add: free_slot_None filter_empty_conv all_set_conv_all_nth)

text \<open>A kernel that never runs out of sessions.\<close>

definition kernel_sessions :: "('o, 'w) hipc_lib \<Rightarrow> bool" where
  "kernel_sessions k \<longleftrightarrow> (\<forall>w. fst (svcCreateSession k w) = ResultSuccess)"

lemma clone_full:
  assumes "session_in i m = Inr s" and "srv_obj_holder s = Some obj" and "kernel_sessions k"
    and "free_slot (session_allocated m) = None"
  shows "CloneCurrentObjectImpl k i vs m = Inl Abort"
proof -
  obtain h c w where c: "svcCreateSession k (services m) = (ResultSuccess, (h, c), w)"
    using assms(3) unfolding kernel_sessions_def by (metis fst_conv prod_cases3 prod.collapse)
  have "R_FAILED hipc_ResultOutOfSessionMemory"
    by (simp add: R_FAILED_iff hipc_ResultOutOfSessionMemory_def MakeValue_def)
  then show ?thesis
    using assms
    by (simp add: CloneCurrentObjectImpl_def open_session_for_def hipc_CreateSession_def c RegisterSession_full)
qed

lemma clone_free:
  assumes "session_in i m = Inr s" and "srv_obj_holder s = Some obj" and "kernel_sessions k"
    and "slots_ok m" and j: "free_slot (session_allocated m) = Some j"
  obtains s' m' h client w where
    "svcCreateSession k (services m) = (ResultSuccess, (h, client), w)"
    "CloneCurrentObjectImpl k i vs m = Inr (ResultSuccess, no_output\<lparr>move_writes := [(0, client)]\<rparr>, m')"
    "session_in j m' = Inr s'" "srv_obj_holder s' = Some obj" "session_handle s' = h"
    "\<And>j'. j' \<noteq> j \<Longrightarrow> session_in j' m' = session_in j' m"
    "waitlist m' = waitlist m @ [SessionHolder j]" "services m' = w"
    "session_allocated m' = (session_allocated m)[j := True]" "slots_ok m'" "frame m' = frame m"
proof -
  obtain h client w where c: "svcCreateSession k (services m) = (ResultSuccess, (h, client), w)"
    using assms(3) unfolding kernel_sessions_def by (metis fst_conv prod_cases3 prod.collapse)
  let ?m = "m\<lparr>services := w\<rparr>"
  obtain s' m' where r: "RegisterSession k h (Some obj) ?m = Inr (ResultSuccess, m')"
    and s': "session_in j m' = Inr s'" "srv_obj_holder s' = Some obj" "session_handle s' = h"
    and m': "m' = RegisterToWaitList (SessionHolder j) (set_session j s' (?m\<lparr>session_allocated := (session_allocated ?m)[j := True]\<rparr>))"
    using RegisterSession_free [of ?m j k h "Some obj"] j assms(4) by (auto simp: slots_ok_def)
  have g: "grows m m'" using RegisterSession_grows [OF r] grows_trans grows_update(1) by metis
  show thesis
  proof (rule that [OF c _ s'])
    show "CloneCurrentObjectImpl k i vs m = Inr (ResultSuccess, no_output\<lparr>move_writes := [(0, client)]\<rparr>, m')"
      using assms(1,2) by (simp add: CloneCurrentObjectImpl_def open_session_for_def hipc_CreateSession_def c r)
    show "slots_ok m'" "frame m' = frame m" using g assms(4) by (auto simp: grows_def)
  qed (simp_all add: m')
qed

fun clone_times :: "nat \<Rightarrow> ('o, 'w) hipc_lib \<Rightarrow> nat \<Rightarrow> ('o, 'w) ServerManager \<Rightarrow> ('o, 'w) ServerManager run" where
  "clone_times 0 k i m = Inr m"
| "clone_times (Suc n) k i m =
     then_run (CloneCurrentObjectImpl k i [OutMovePlace 0] m) (\<lambda>(rc, out, m).
       if R_FAILED rc then Inl Abort else clone_times n k i m)"

lemma clone_times_fill:
  "session_in i m = Inr s \<Longrightarrow> srv_obj_holder s = Some obj \<Longrightarrow> kernel_sessions k \<Longrightarrow> slots_ok m \<Longrightarrow>
   n = length (filter Not (session_allocated m)) \<Longrightarrow>
   \<exists>m'. clone_times n k i m = Inr m' \<and> session_in i m' = Inr s \<and> slots_ok m' \<and>
     free_slot (session_allocated m') = None \<and>
     (\<forall>j. is_alive j m \<longrightarrow> session_in j m' = session_in j m) \<and>
     (\<forall>j s'. \<not> is_alive j m \<longrightarrow> session_in j m' = Inr s' \<longrightarrow> srv_obj_holder s' = Some obj)"
proof (induction n arbitrary: m)
  case 0
  then show ?case by (auto simp: free_slots_none is_alive_def)
next
  case (Suc n)
  then obtain j where j: "free_slot (session_allocated m) = Some j"
    using free_slots_none [of "session_allocated m"] by (cases "free_slot (session_allocated m)") auto
  obtain s' m1 h client w where c: "CloneCurrentObjectImpl k i [OutMovePlace 0] m =
      Inr (ResultSuccess, no_output\<lparr>move_writes := [(0, client)]\<rparr>, m1)"
    and s': "session_in j m1 = Inr s'" "srv_obj_holder s' = Some obj"
    and other: "\<And>j'. j' \<noteq> j \<Longrightarrow> session_in j' m1 = session_in j' m"
    and al: "session_allocated m1 = (session_allocated m)[j := True]" and ok: "slots_ok m1"
    using clone_free [OF Suc.prems(1-4) j] by metis
  have dead: "\<not> is_alive j m" using free_slot_Some [OF j] Suc.prems(4) by (auto simp: slots_ok_def)
  then have i: "session_in i m1 = Inr s" using other [of i] Suc.prems(1) by (auto simp: is_alive_def)
  have "n = length (filter Not (session_allocated m1))"
    using Suc.prems(5) free_slots_update [of j "session_allocated m"] free_slot_Some [OF j] al by simp
  from Suc.IH [OF i Suc.prems(2,3) ok this] obtain m' where m': "clone_times n k i m1 = Inr m'" "session_in i m' = Inr s"
    "slots_ok m'" "free_slot (session_allocated m') = None"
    "\<And>j. is_alive j m1 \<Longrightarrow> session_in j m' = session_in j m1"
    "\<And>j s'. \<not> is_alive j m1 \<Longrightarrow> session_in j m' = Inr s' \<Longrightarrow> srv_obj_holder s' = Some obj" by blast
  have "session_in j' m' = session_in j' m" if "is_alive j' m" for j'
    using that dead other [of j'] m'(5) [of j'] by (metis is_alive_def)
  moreover have "srv_obj_holder t = Some obj" if "\<not> is_alive j' m" "session_in j' m' = Inr t" for j' t
    using that other [of j'] m'(5) [of j] m'(6) [of j' t] s' by (metis Inr_inject is_alive_def)
  ultimately show ?case using c m'(1-4) by auto
qed

text \<open>C22: one client exhausts the sessions and takes the service down. From any session that has an
  object, as many clones as there are free slots succeed, each new session serving the same object and
  leaving every other session as it was; the next clone aborts the process.\<close>

theorem clones_exhaust:
  "slots_ok m \<Longrightarrow> session_in i m = Inr s \<Longrightarrow> srv_obj_holder s = Some obj \<Longrightarrow> kernel_sessions k \<Longrightarrow>
   \<exists>m'. clone_times (length (filter Not (session_allocated m))) k i m = Inr m' \<and>
     (\<forall>j. is_alive j m \<longrightarrow> session_in j m' = session_in j m) \<and>
     (\<forall>j s'. \<not> is_alive j m \<longrightarrow> session_in j m' = Inr s' \<longrightarrow> srv_obj_holder s' = Some obj) \<and>
     CloneCurrentObjectImpl k i [OutMovePlace 0] m' = Inl Abort"
  using clone_times_fill [of i m s obj k] clone_full [of i _ s obj k] by metis

section \<open>The bounds of a message\<close>

text \<open>The checks of \<open>DispatchRequest\<close>, one after the other.\<close>

definition request_fits :: "('o, 'w) hipc_lib \<Rightarrow> hipc_message \<Rightarrow> bool" where
  "request_fits k r \<longleftrightarrow>
     (let in_message_buffer_end = tls_address k + of_nat TlsMessageBufferSize;
          in_raw_size = of_nat (num_data_words (hipc_meta r)) * 4;
          recv_list_size = (if num_recv_statics (hipc_meta r) = HIPC_AUTO_RECV_STATIC k then 1
                            else num_recv_statics (hipc_meta r))
      in 0x10 \<le> in_raw_size \<and> data_address r + in_raw_size \<le> in_message_buffer_end \<and>
         recv_list_address r + of_nat (recv_list_size * HipcRecvListEntry_size k) \<le> in_message_buffer_end)"

lemma DispatchRequest_eq:
  "DispatchRequest k process i m =
     then_run (session_in i m) (\<lambda>s.
       let r = hipcParseRequest k (tls m) in
       if \<not> request_fits k r then Inr (hipc_ResultInvalidRequestSize, m)
       else then_run (process (HipcRequest.truncate r) (pointer_buffer s) (in_raw_data r) m) (\<lambda>(rc, m).
         if R_FAILED rc then Inr (rc, m)
         else then_run (session_in i m) (\<lambda>s. Reply k (session_handle s) m)))"
  by (auto simp: DispatchRequest_def request_fits_def Let_def intro!: arg_cong [where f = "then_run _"])

text \<open>The words of a message as \<open>libnx\<close> finds them: inside the address space, the bytes with them.\<close>

definition words_in_memory :: "hipc_message \<Rightarrow> bool" where
  "words_in_memory r \<longleftrightarrow> unat (data_address r) + 4 * num_data_words (hipc_meta r) + 0x10 < 2 ^ 64"

lemma AlignUp_16: "unat a + 16 < 2 ^ 64 \<Longrightarrow> unat (AlignUp a 0x10) = align_up (unat a) 16"
  using AlignUp_unat [of 4 a] by simp

lemma unat_of_nat_u64: "n < 2 ^ 64 \<Longrightarrow> unat (of_nat n :: u64) = n"
  by (simp only: unat_of_nat) simp

lemma unat_add_u64: "unat a + unat b < 2 ^ 64 \<Longrightarrow> unat (a + b :: u64) = unat a + unat b"
  by (simp add: unat_word_ariths)

lemma fitting_raw_data:
  assumes fits: "request_fits k r" and mem: "words_in_memory r"
    and len: "4 * num_data_words (hipc_meta r) \<le> length (data_words r)"
  defines "start \<equiv> unat (AlignUp (data_address r) 0x10)"
  shows "in_raw_data r = take (4 * num_data_words (hipc_meta r) - 0x10)
      (drop (start - unat (data_address r)) (data_words r))"
    and "0x10 \<le> 4 * num_data_words (hipc_meta r)"
    and "length (in_raw_data r) = 4 * num_data_words (hipc_meta r) - 0x10"
    and "16 dvd start" and "unat (data_address r) \<le> start" and "start < unat (data_address r) + 0x10"
    and "unat (data_address r) + 4 * num_data_words (hipc_meta r) \<le>
      unat (tls_address k + of_nat TlsMessageBufferSize)"
proof -
  let ?a = "data_address r" and ?n = "4 * num_data_words (hipc_meta r)"
  have n: "of_nat (num_data_words (hipc_meta r)) * 4 = (of_nat ?n :: u64)" by simp
  have un: "unat (of_nat ?n :: u64) = ?n"
    using mem by (intro unat_of_nat_u64) (simp add: words_in_memory_def)
  have up: "start = align_up (unat ?a) 16"
    unfolding start_def using mem by (intro AlignUp_16) (simp add: words_in_memory_def)
  have b: "unat ?a \<le> align_up (unat ?a) 16" "align_up (unat ?a) 16 < unat ?a + 16"
    using align_up_bounds [of 16 "unat ?a"] by simp_all
  have "0x10 \<le> (of_nat ?n :: u64)" using fits by (simp add: request_fits_def n Let_def)
  then show n16: "0x10 \<le> ?n" using un by (simp add: word_le_nat_alt)
  have d: "unat (AlignUp ?a 0x10 - ?a) = start - unat ?a"
    using b(1) up unfolding start_def by (simp add: unat_sub word_le_nat_alt)
  have s: "unat (of_nat ?n - 0x10 :: u64) = ?n - 0x10"
    using n16 un by (simp add: unat_sub word_le_nat_alt)
  show raw: "in_raw_data r = take (?n - 0x10) (drop (start - unat ?a) (data_words r))"
    unfolding in_raw_data_def Let_def n d s by (rule refl)
  have "unat (?a + of_nat ?n) = unat ?a + ?n"
    using mem un by (subst unat_add_u64) (simp_all add: words_in_memory_def)
  moreover have "?a + of_nat ?n \<le> tls_address k + of_nat TlsMessageBufferSize"
    using fits by (simp add: request_fits_def n Let_def)
  ultimately show "unat ?a + ?n \<le> unat (tls_address k + of_nat TlsMessageBufferSize)"
    by (simp add: word_le_nat_alt)
  show "length (in_raw_data r) = ?n - 0x10"
    using len b n16 up unfolding raw by simp
  show "unat ?a \<le> start" "start < unat ?a + 0x10" "16 dvd start" using b up by simp_all
qed

text \<open>C23: what a command gets as its data lies inside the message that was received. With a message whose
  words are there, \<open>DispatchRequest\<close> either refuses the request because of its size, without processing
  it and changing nothing, or the message has at least the sixteen bytes of padding and the request is
  processed, once, with these raw data: all words but sixteen bytes, from the first multiple of
  sixteen on, which is at most fifteen bytes after the beginning of the words, so that they end within
  the words; the words and the receive list end before the end of the message buffer.\<close>

theorem raw_data_inside_message:
  "session_in i m = Inr s \<Longrightarrow> r = hipcParseRequest k (tls m) \<Longrightarrow> words_in_memory r \<Longrightarrow>
   n = 4 * num_data_words (hipc_meta r) \<Longrightarrow> n \<le> length (data_words r) \<Longrightarrow>
   start = unat (AlignUp (data_address r) 0x10) \<Longrightarrow>
   buffer_end = tls_address k + of_nat TlsMessageBufferSize \<Longrightarrow>
   (\<forall>process. DispatchRequest k process i m = Inr (hipc_ResultInvalidRequestSize, m)) \<or>
   (\<exists>raw.
      (\<forall>process. DispatchRequest k process i m =
         then_run (process (HipcRequest.truncate r) (pointer_buffer s) raw m) (\<lambda>(rc, m).
           if R_FAILED rc then Inr (rc, m)
           else then_run (session_in i m) (\<lambda>s. Reply k (session_handle s) m))) \<and>
      0x10 \<le> n \<and> raw = take (n - 0x10) (drop (start - unat (data_address r)) (data_words r)) \<and>
      length raw = n - 0x10 \<and> 16 dvd start \<and>
      unat (data_address r) \<le> start \<and> start < unat (data_address r) + 0x10 \<and>
      start + length raw \<le> unat (data_address r) + n \<and>
      unat (data_address r) + n \<le> unat buffer_end \<and>
      recv_list_address r + of_nat ((if num_recv_statics (hipc_meta r) = HIPC_AUTO_RECV_STATIC k then 1
        else num_recv_statics (hipc_meta r)) * HipcRecvListEntry_size k) \<le> buffer_end)"
proof -
  assume a: "session_in i m = Inr s" "r = hipcParseRequest k (tls m)" and mem: "words_in_memory r"
    and n: "n = 4 * num_data_words (hipc_meta r)" and len: "n \<le> length (data_words r)"
    and st: "start = unat (AlignUp (data_address r) 0x10)"
    and e: "buffer_end = tls_address k + of_nat TlsMessageBufferSize"
  show ?thesis
  proof (cases "request_fits k r")
    case False
    then show ?thesis using a by (simp add: DispatchRequest_eq Let_def)
  next
    case True
    have recv: "recv_list_address r + of_nat ((if num_recv_statics (hipc_meta r) = HIPC_AUTO_RECV_STATIC k then 1
        else num_recv_statics (hipc_meta r)) * HipcRecvListEntry_size k) \<le> buffer_end"
      using True by (simp add: request_fits_def Let_def e)
    note f = fitting_raw_data [OF True mem len [unfolded n], folded n st e]
    have "DispatchRequest k process i m =
        then_run (process (HipcRequest.truncate r) (pointer_buffer s) (in_raw_data r) m) (\<lambda>(rc, m).
          if R_FAILED rc then Inr (rc, m)
          else then_run (session_in i m) (\<lambda>s. Reply k (session_handle s) m))" for process
      using True a by (simp add: DispatchRequest_eq Let_def)
    then show ?thesis
      using f recv by (intro disjI2 exI [of _ "in_raw_data r"] conjI) (simp_all only: f(3), auto)
  qed
qed

section \<open>Buffers of slots\<close>

text \<open>C24: the slots do not share memory. With storage of the size the manager has and below the end of the
  address space, the saved message of every slot is 256 bytes inside the storage, and those of different
  slots are disjoint.\<close>

theorem saved_messages_disjoint:
  "m = ServerManager_ctor servers sessions pb storage w \<Longrightarrow> sessions \<le> ServerSessionCountMax \<Longrightarrow>
   unat storage + 0x10 + sessions * TlsMessageBufferSize < 2 ^ 64 \<Longrightarrow> i < j \<Longrightarrow> j < sessions \<Longrightarrow>
   (let a = GetSessionSavedMessageBuffer i m; b = GetSessionSavedMessageBuffer j m
    in pas_size a = 0x100 \<and> unat storage \<le> unat (pas_address a) \<and>
       unat (pas_address a) + 0x100 \<le> unat (pas_address b) \<and>
       unat (pas_address b) + 0x100 \<le> unat storage + 0x10 + sessions * TlsMessageBufferSize)"
proof -
  assume m: "m = ServerManager_ctor servers sessions pb storage w" and c: "sessions \<le> ServerSessionCountMax"
    and s: "unat storage + 0x10 + sessions * TlsMessageBufferSize < 2 ^ 64" and ij: "i < j" "j < sessions"
  have start: "unat (saved_messages_start m) = align_up (unat storage) 16"
    using s by (simp add: m ServerManager_ctor_def AlignUp_16)
  have b: "unat storage \<le> align_up (unat storage) 16" "align_up (unat storage) 16 < unat storage + 16"
    using align_up_bounds [of 16 "unat storage"] by simp_all
  have at: "unat (pas_address (GetSessionSavedMessageBuffer l m)) = align_up (unat storage) 16 + l * 256"
    if "l < sessions" for l
  proof -
    have l: "l * 256 + 256 \<le> sessions * 256" using that by (metis Suc_leI add.commute mult_Suc mult_le_mono1)
    have "of_nat l * of_nat TlsMessageBufferSize = (of_nat (l * 256) :: u64)" by (simp add: TlsMessageBufferSize_def)
    moreover have u: "unat (of_nat (l * 256) :: u64) = l * 256"
      using l s by (intro unat_of_nat_u64) (simp add: TlsMessageBufferSize_def)
    moreover have "unat (saved_messages_start m + of_nat (l * 256)) = unat (saved_messages_start m) + l * 256"
      using l s b u start by (subst unat_add_u64) (simp_all add: TlsMessageBufferSize_def)
    ultimately show ?thesis
      by (simp add: GetSessionSavedMessageBuffer_def GetObjectBySessionIndex_def start)
  qed
  have "i * 256 + 256 \<le> j * 256" "j * 256 + 256 \<le> sessions * 256" using ij by simp_all
  then show ?thesis
    using at [of i] at [of j] ij b
    by (simp add: Let_def TlsMessageBufferSize_def)
      (simp add: GetSessionSavedMessageBuffer_def GetObjectBySessionIndex_def TlsMessageBufferSize_def)
qed

section \<open>The lists of a manager\<close>

text \<open>C4: the lists of a manager never contradict each other. Whatever services are registered and whatever
  clients send, a session is in at most one of the three lists, and once; what is in a list is alive; a
  slot is allocated exactly when a session lives in it; both events and every server are waited for
  whenever the manager is between two messages.\<close>

theorem session_lists_consistent:
  "(manager_step k)\<^sup>*\<^sup>* (ServerManager_ctor servers sessions pb storage w) m \<Longrightarrow>
   distinct (listed m) \<and> (\<forall>i. SessionHolder i \<in> set (listed m) \<longrightarrow> is_alive i m) \<and>
   length (session_allocated m) = length (session_storages m) \<and>
   (\<forall>i < length (session_storages m). session_allocated m ! i \<longleftrightarrow> is_alive i m) \<and>
   {RequestStopHolder, NotifyHolder} \<subseteq> set (waitable_manager m) \<and>
   (\<forall>i. ServerHolder i \<in> set (listed m) \<longleftrightarrow> is_server i m)"
  using manager.steps_inv [OF _ ctor_ok, of k servers sessions pb storage w m]
  by (simp add: manager_ok_def ok_with_def slots_ok_def)

section \<open>Deferred sessions\<close>








section \<open>Results in the range of the framework\<close>

text \<open>
  A result that the framework takes for one of its own, although it is neither a request that was
  taken over nor one that was deferred.
\<close>

definition framework_range :: "result \<Rightarrow> bool" where
  "framework_range rc \<longleftrightarrow> R_FAILED rc \<and> Includes sf_RequestContextChanged rc \<and>
     \<not> Includes sf_RequestInvalidated rc \<and> \<not> Includes sf_RequestDeferred rc"

lemma album_results_in_range: "framework_range ResultControlNotOpened" "framework_range ResultControlAlreadyOpen"
    "framework_range ResultControlResourceLimit"
  unfolding framework_range_def R_FAILED_iff by code_simp+

text \<open>
  The message in the buffer is a request of session \<open>i\<close>, whose object is \<open>obj\<close>; it passes every check,
  and runs the method \<open>h\<close> on the arguments \<open>vs\<close>.
\<close>

definition request_runs ::
  "('o, 'w) hipc_lib \<Rightarrow> nat \<Rightarrow> ('o, 'w) ServerManager \<Rightarrow> 'o \<Rightarrow> string \<Rightarrow> arg_value list \<Rightarrow> bool" where
  "request_runs k i m obj h vs \<longleftrightarrow>
     (let r = hipcParseRequest k (tls m); raw = in_raw_data r; l = sf k in
      GetCmifCommandType k (tls m) = CmifCommandType_Request \<and> request_fits k r \<and>
      CMIF_IN_HEADER_SIZE l \<le> length raw \<and> in_magic raw = CMIF_IN_HEADER_MAGIC l \<and>
      in_version raw \<le> max_cmif_version (firmware k) \<and>
      (\<exists>s e args buffers bound.
         session_in i m = Inr s \<and> \<not> is_closed s \<and> srv_obj_holder s = Some obj \<and>
         find (Matches (in_command_id raw) (firmware k)) (table_of k obj) = Some e \<and> handler e = h \<and>
         map_of (signatures_of k obj) h = Some args \<and> of_type InObject args = [] \<and>
         PrepareForProcess (HipcRequest.truncate r) args (runtime_metadata l args) = ResultSuccess \<and>
         ProcessBuffers (HipcRequest.truncate r) (runtime_metadata l args) (pointer_buffer s) args =
           Inr (ResultSuccess, buffers) \<and>
         DeserializeArguments (HipcRequest.truncate r) (drop (CMIF_IN_HEADER_SIZE l) raw) args buffers = Inr bound \<and>
         (if HasInProcessIdHolder args
          then marshal_process_ids (hipc_pid (HipcRequest.truncate r)) (zip args bound)
          else (ResultSuccess, bound)) = (ResultSuccess, vs)))"

text \<open>The generated code then runs the method once; a failure is put into a reply without content.\<close>

lemma invoked:
  assumes "PrepareForProcess r args (runtime_metadata l args) = ResultSuccess" and "of_type InObject args = []"
    and "ProcessBuffers r (runtime_metadata l args) pb args = Inr (ResultSuccess, buffers)"
    and "DeserializeArguments r raw args buffers = Inr bound"
    and "(if HasInProcessIdHolder args then marshal_process_ids (hipc_pid r) (zip args bound)
       else (ResultSuccess, bound)) = (ResultSuccess, vs)"
    and "call vs g = Inr (rc, out, g')"
  shows "InvokeServiceCommandImpl l c args call r pb raw g =
    (if R_FAILED rc then Inr (rc, Some (fst (PrepareForErrorReply (runtime_metadata l args))), g')
     else encode_reply l c args (runtime_metadata l args) buffers out g')"
proof -
  obtain response n where p: "PrepareForErrorReply (runtime_metadata l args) = (response, n)" by fastforce
  then have "n = CMIF_OUT_HEADER_SIZE l"
    by (auto simp: PrepareForErrorReply_def CommandRuntimeMetadata_def Let_def)
  moreover have "in_object_count (runtime_metadata l args) = 0" using assms(2) by (simp add: CommandRuntimeMetadata_def)
  ultimately show ?thesis
    using assms p unfolding InvokeServiceCommandImpl_def Let_def by (auto simp: GetCmifOutHeaderPointer_def)
qed

lemma error_reply:
  assumes "PrepareForProcess r args (runtime_metadata l args) = ResultSuccess" and "of_type InObject args = []"
    and "ProcessBuffers r (runtime_metadata l args) pb args = Inr (ResultSuccess, buffers)"
    and "DeserializeArguments r raw args buffers = Inr bound"
    and "(if HasInProcessIdHolder args then marshal_process_ids (hipc_pid r) (zip args bound)
       else (ResultSuccess, bound)) = (ResultSuccess, vs)"
    and "call vs g = Inr (rc, out, g')" and "R_FAILED rc"
  shows "\<exists>response. InvokeServiceCommandImpl l c args call r pb raw g = Inr (rc, Some response, g')"
  using invoked [where call = call and g = g, OF assms(1-6), of c] assms(7) by auto

text \<open>The outputs of a successful method that returns no object fit into its reply.\<close>

definition outputs_fit :: "arg list \<Rightarrow> 'o outputs \<Rightarrow> bool" where
  "outputs_fit args out \<longleftrightarrow> well_formed args \<and> outputs_ok args out \<and> of_type OutObject args = []"

lemma process_buffers_length:
  "process_buffers r m bs p = Inr (outs, p') \<Longrightarrow> length outs = length bs"
  by (induction r m bs p arbitrary: outs p' rule: process_buffers.induct) (auto simp: then_run_eq_Inr)

lemma ProcessBuffers_length:
  "ProcessBuffers r m pb args = Inr (rc, outs) \<Longrightarrow> length outs = length (filter is_Buffer args)"
  by (auto simp: ProcessBuffers_def then_run_eq_Inr length_buffer_infos [symmetric] process_buffers_length
      split: if_splits)

definition reply_holds :: "arg list \<Rightarrow> result \<Rightarrow> 'o outputs \<Rightarrow> HipcResponse \<Rightarrow> bool" where
  "reply_holds args rc out response \<longleftrightarrow> R_FAILED rc \<or> complete response \<and>
     (\<exists>raw. rsp_raw_data response = Some raw \<and>
        write_raw (raw_writes out) (replicate (OutDataSize args) 0) = Inr raw)"

lemma encoded:
  assumes "outputs_fit args out" and "length buffers = length (filter is_Buffer args)"
  shows "\<exists>response. reply_holds args rc out response \<and>
    encode_reply l c args (runtime_metadata l args) buffers out g = Inr (ResultSuccess, Some response, g)"
proof -
  have a: "well_formed args" "outputs_ok args out" using assms(1) by (simp_all add: outputs_fit_def)
  show ?thesis
  proof (rule encode_reply_objects [OF a assms(2) refl, where c = c and l = l and h = "CMIF_IN_HEADER_SIZE l"])
    fix objs ms response raw
    assume e: "\<And>g. encode_reply l c args (runtime_metadata l args) buffers out g =
        then_run (set_out_objects l c 0 objs (ms, g)) (\<lambda>(moves, g).
          Inr (ResultSuccess, Some (response\<lparr>rsp_move_handles := moves\<rparr>), g))"
      and o: "length objs = length (of_type OutObject args)" "\<forall>k. length objs \<le> k \<longrightarrow> k < length ms \<longrightarrow> ms ! k \<noteq> None"
      and r: "None \<notin> set (rsp_send_statics response)" "None \<notin> set (rsp_copy_handles response)"
        "rsp_raw_data response = Some raw" "write_raw (raw_writes out) (replicate (OutDataSize args) 0) = Inr raw"
    have "objs = []" using o(1) assms(1) by (simp add: outputs_fit_def)
    moreover from this o(2) have "None \<notin> set ms" by (simp add: None_notin_iff)
    ultimately show ?thesis
      using e [of g] r
      by (intro exI [of _ "response\<lparr>rsp_move_handles := ms\<rparr>"]) (simp add: reply_holds_def complete_def)
  qed
qed

text \<open>The dispatcher hands such a result on instead of writing it into a reply.\<close>

lemma ProcessMessage_in_range:
  assumes raw: "CMIF_IN_HEADER_SIZE (sf k) \<le> length raw" "in_magic raw = CMIF_IN_HEADER_MAGIC (sf k)"
      "in_version raw \<le> max_cmif_version (firmware k)"
      "find (Matches (in_command_id raw) (firmware k)) entries = Some e" "map_of sigs (handler e) = Some args"
    and invoke: "InvokeServiceCommandImpl (sf k) (sessions_of k) args (methods (handler e)) r pb
        (drop (CMIF_IN_HEADER_SIZE (sf k)) raw) (m\<lparr>out_response := None\<rparr>) = Inr (rc, Some response, m1)"
    and rc: "framework_range rc"
  shows "\<exists>m'. ProcessMessage k entries sigs methods r pb raw m = Inr (rc, m')"
  using assms
  by (simp add: ProcessMessage_def ProcessMessageImpl_def cmif_lib.truncate_def session_invoke_def answer_def
      framework_range_def sf_RequestContextChanged_def)

lemma request_in_range:
  assumes "request_runs k i m obj h vs"
    and "methods_of k obj h vs (fsSetPriority k 0 (services m)) = Inr (rc, out, w)" and "framework_range rc"
  shows "\<exists>m'. ProcessRequest k i m = Inr (rc, m')"
proof -
  let ?m = "SetInlineContext k (replicate 4 0) m" and ?r = "hipcParseRequest k (tls m)"
  let ?raw = "in_raw_data ?r" and ?args = "\<lambda>args. runtime_metadata (sf k) args"
  obtain s e args buffers bound where s: "session_in i m = Inr s" "\<not> is_closed s" "srv_obj_holder s = Some obj"
    and ty: "GetCmifCommandType k (tls m) = CmifCommandType_Request" and fits: "request_fits k ?r"
    and raw: "CMIF_IN_HEADER_SIZE (sf k) \<le> length ?raw" "in_magic ?raw = CMIF_IN_HEADER_MAGIC (sf k)"
      "in_version ?raw \<le> max_cmif_version (firmware k)"
      "find (Matches (in_command_id ?raw) (firmware k)) (table_of k obj) = Some e" "handler e = h"
      "map_of (signatures_of k obj) h = Some args"
    and p: "PrepareForProcess (HipcRequest.truncate ?r) args (?args args) = ResultSuccess"
      "of_type InObject args = []"
      "ProcessBuffers (HipcRequest.truncate ?r) (?args args) (pointer_buffer s) args = Inr (ResultSuccess, buffers)"
      "DeserializeArguments (HipcRequest.truncate ?r) (drop (CMIF_IN_HEADER_SIZE (sf k)) ?raw) args buffers = Inr bound"
      "(if HasInProcessIdHolder args then marshal_process_ids (hipc_pid (HipcRequest.truncate ?r)) (zip args bound)
        else (ResultSuccess, bound)) = (ResultSuccess, vs)"
    using assms(1) unfolding request_runs_def Let_def by blast
  let ?n = "?m\<lparr>out_response := None\<rparr>"
  have sv: "services ?n = fsSetPriority k 0 (services m)" "tls ?m = tls m" by (simp_all add: SetInlineContext_def)
  have call: "on_services (methods_of k obj h) vs ?n = Inr (rc, out, ?n\<lparr>services := w\<rparr>)"
    using assms(2) sv by (simp add: on_services_def)
  obtain response where
    "InvokeServiceCommandImpl (sf k) (sessions_of k) args (on_services (methods_of k obj h)) (HipcRequest.truncate ?r)
      (pointer_buffer s) (drop (CMIF_IN_HEADER_SIZE (sf k)) ?raw) ?n = Inr (rc, Some response, ?n\<lparr>services := w\<rparr>)"
    using error_reply [where call = "on_services (methods_of k obj h)" and g = ?n, OF p(1,2,3,4,5) call] assms(3) unfolding framework_range_def by blast
  then obtain m1 where m1: "ProcessMessage k (table_of k obj) (signatures_of k obj)
      (\<lambda>h. on_services (methods_of k obj h)) (HipcRequest.truncate ?r) (pointer_buffer s) ?raw ?m = Inr (rc, m1)"
    using ProcessMessage_in_range [OF raw(1-4), of "signatures_of k obj" args
        "\<lambda>h. on_services (methods_of k obj h)"] raw(5,6) assms(3) by blast
  have "DispatchRequest k (object_processor k (Some obj)) i ?m = Inr (rc, m1)"
    using s fits m1 assms(3) by (simp add: DispatchRequest_eq object_processor_def sv framework_range_def)
  then have "ProcessRequestImpl k i m = Inr (rc, SetInlineContext k (inline_context m) m1)"
    using s ty by (simp add: ProcessRequestImpl_def ScopedInlineContextChanger_def GetInlineContext_def)
  then show ?thesis
    using s ty assms(3) by (simp add: ProcessRequest_def framework_range_def)
qed

text \<open>Any other result goes into the reply, and the session waits for its next message.\<close>

lemma ProcessMessage_answers:
  assumes raw: "CMIF_IN_HEADER_SIZE (sf k) \<le> length raw" "in_magic raw = CMIF_IN_HEADER_MAGIC (sf k)"
      "in_version raw \<le> max_cmif_version (firmware k)"
      "find (Matches (in_command_id raw) (firmware k)) entries = Some e" "map_of sigs (handler e) = Some args"
    and invoke: "InvokeServiceCommandImpl (sf k) (sessions_of k) args (methods (handler e)) r pb
        (drop (CMIF_IN_HEADER_SIZE (sf k)) raw) (m\<lparr>out_response := None\<rparr>) = Inr (rc, Some response, m1)"
    and rc: "\<not> (R_FAILED rc \<and> Includes sf_RequestContextChanged rc)"
  shows "ProcessMessage k entries sigs methods r pb raw m =
    Inr (ResultSuccess, m1\<lparr>out_response := Some response, tls := write_reply k response rc (tls m1)\<rparr>)"
  using assms
  by (auto simp: ProcessMessage_def ProcessMessageImpl_def cmif_lib.truncate_def session_invoke_def answer_def)

text \<open>
  The kernel's part in a reply: as the manager waits for nothing when it replies, the call always ends
  with the timeout, or with the session closed by its client.
\<close>

definition reply_ends :: "('o, 'w) hipc_lib \<Rightarrow> bool" where
  "reply_ends k \<longleftrightarrow> (\<forall>h b w. R_FAILED (fst (svcReply k h b w)) \<and>
     (Includes svc_TimedOut (fst (svcReply k h b w)) \<or> Includes svc_SessionClosed (fst (svcReply k h b w))))"

lemma Reply_ends:
  "reply_ends k \<Longrightarrow> svcReply k h (tls m) (services m) = (rc, b, w) \<Longrightarrow>
   Reply k h m = Inr (ResultSuccess, m\<lparr>tls := b, services := w\<rparr>)"
  by (auto simp: reply_ends_def Reply_def Let_def dest!: spec [of _ h] spec [of _ "tls m"] spec [of _ "services m"])

lemma request_served:
  assumes runs: "request_runs k i m obj h vs" and s: "session_in i m = Inr s"
    and args: "map_of (signatures_of k obj) h = Some args"
    and run: "methods_of k obj h vs (fsSetPriority k 0 (services m)) = Inr (rc, out, g)"
    and rc: "\<not> (R_FAILED rc \<and> Includes sf_RequestContextChanged rc)" "R_FAILED rc \<or> outputs_fit args out"
    and ends: "reply_ends k"
  obtains response m' where "reply_holds args rc out response" "ProcessRequest k i m = Inr (ResultSuccess, m')"
    "services m' = fsSetPriority k (hd (inline_context m))
      (snd (snd (svcReply k (session_handle s) (write_reply k response rc (tls m)) g)))"
    "waitlist m' = waitlist m @ [SessionHolder i]" "deferred_session_list m' = deferred_session_list m"
proof -
  let ?m = "SetInlineContext k (replicate 4 0) m" and ?r = "hipcParseRequest k (tls m)"
  let ?raw = "in_raw_data ?r" and ?M = "\<lambda>args. runtime_metadata (sf k) args"
  obtain e buffers bound where alive: "\<not> is_closed s" "srv_obj_holder s = Some obj"
    and ty: "GetCmifCommandType k (tls m) = CmifCommandType_Request" and fits: "request_fits k ?r"
    and raw: "CMIF_IN_HEADER_SIZE (sf k) \<le> length ?raw" "in_magic ?raw = CMIF_IN_HEADER_MAGIC (sf k)"
      "in_version ?raw \<le> max_cmif_version (firmware k)"
      "find (Matches (in_command_id ?raw) (firmware k)) (table_of k obj) = Some e" "handler e = h"
    and p: "PrepareForProcess (HipcRequest.truncate ?r) args (?M args) = ResultSuccess"
      "of_type InObject args = []"
      "ProcessBuffers (HipcRequest.truncate ?r) (?M args) (pointer_buffer s) args = Inr (ResultSuccess, buffers)"
      "DeserializeArguments (HipcRequest.truncate ?r) (drop (CMIF_IN_HEADER_SIZE (sf k)) ?raw) args buffers = Inr bound"
      "(if HasInProcessIdHolder args then marshal_process_ids (hipc_pid (HipcRequest.truncate ?r)) (zip args bound)
        else (ResultSuccess, bound)) = (ResultSuccess, vs)"
    using runs s args unfolding request_runs_def Let_def by (metis Inr_inject option.inject)
  let ?n = "?m\<lparr>out_response := None\<rparr>"
  have sv: "services ?n = fsSetPriority k 0 (services m)" "tls ?m = tls m" by (simp_all add: SetInlineContext_def)
  have call: "on_services (methods_of k obj h) vs ?n = Inr (rc, out, ?n\<lparr>services := g\<rparr>)"
    using run sv by (simp add: on_services_def)
  note inv = invoked [where call = "on_services (methods_of k obj h)" and g = ?n, OF p call, of "sessions_of k"]
  obtain response where holds: "reply_holds args rc out response" and
    "InvokeServiceCommandImpl (sf k) (sessions_of k) args (on_services (methods_of k obj h)) (HipcRequest.truncate ?r)
      (pointer_buffer s) (drop (CMIF_IN_HEADER_SIZE (sf k)) ?raw) ?n = Inr (rc, Some response, ?n\<lparr>services := g\<rparr>)"
  proof (cases "R_FAILED rc")
    case True
    then show thesis using that inv by (simp add: reply_holds_def)
  next
    case False
    then show thesis
      using that inv rc(2) encoded [OF _ ProcessBuffers_length [OF p(3)], of out rc "sf k" "sessions_of k" "?n\<lparr>services := g\<rparr>"]
      by (auto simp: R_FAILED_iff)
  qed
  then have "ProcessMessage k (table_of k obj) (signatures_of k obj) (\<lambda>h. on_services (methods_of k obj h))
      (HipcRequest.truncate ?r) (pointer_buffer s) ?raw ?m = Inr (ResultSuccess,
        ?m\<lparr>out_response := Some response, services := g, tls := write_reply k response rc (tls m)\<rparr>)"
    using ProcessMessage_answers [OF raw(1-4), of "signatures_of k obj" args
        "\<lambda>h. on_services (methods_of k obj h)"] raw(5) args rc(1) sv by simp
  moreover obtain rc1 b w where reply:
    "svcReply k (session_handle s) (write_reply k response rc (tls m)) g = (rc1, b, w)" by (metis prod_cases3)
  ultimately have "DispatchRequest k (object_processor k (Some obj)) i ?m =
      Inr (ResultSuccess, ?m\<lparr>out_response := Some response, services := w, tls := b\<rparr>)"
    using s fits sv Reply_ends [OF ends, of "session_handle s"]
    by (simp add: DispatchRequest_eq object_processor_def Let_def)
  then have "ProcessRequestImpl k i m = Inr (ResultSuccess,
      SetInlineContext k (inline_context m) (?m\<lparr>out_response := Some response, services := w, tls := b\<rparr>))"
    using s ty alive by (simp add: ProcessRequestImpl_def ScopedInlineContextChanger_def GetInlineContext_def)
  then have "ProcessRequest k i m = Inr (ResultSuccess,
      RegisterToWaitList (SessionHolder i) (set_session i (s\<lparr>has_received := False\<rparr>)
        (SetInlineContext k (inline_context m) (?m\<lparr>out_response := Some response, services := w, tls := b\<rparr>))))"
    using s ty alive by (simp add: ProcessRequest_def RegisterSessionToWaitList_def SetInlineContext_def)
  from that [OF holds this] show thesis
    using reply by (simp add: SetInlineContext_def set_session_def RegisterToWaitList_def)
qed

lemma framework_result_aborts:
  assumes "WaitSignaled n k m = Inr (Some (SessionHolder i), m1)"
    and "fetch_message n k i m1 = Inr (ResultSuccess, m2)" and "request_runs k i m2 obj h vs"
    and "methods_of k obj h vs (fsSetPriority k 0 (services m2)) = Inr (rc, out, w)" and "framework_range rc"
  shows "WaitAndProcessImpl n k m = Inl Abort"
proof -
  obtain m3 where "ProcessRequest k i m2 = Inr (rc, m3)" using request_in_range [OF assms(3-5)] by blast
  then have "ProcessForSession n k i m1 = Inr (rc, m3)"
    using assms(2,5) by (simp add: ProcessForSession_def framework_range_def)
  then show ?thesis using assms(1,5) by (simp add: WaitAndProcessImpl_def Process_def framework_range_def)
qed

text \<open>A method without output parameters, as the generated code calls it.\<close>

definition plain_call :: "('a, 'w) service \<Rightarrow> 'w objects \<Rightarrow> (result \<times> 'o outputs \<times> 'w objects) run" where
  "plain_call f g = then_run (f g) (\<lambda>(rc, _, g). Inr (rc, no_output, g))"

text \<open>C5: a request that names an application the album does not know takes the whole service down. The
  range of the framework's results is tested on the whole value, so that the album's results with
  descriptions 820 to 822 fall into it: when a client asks to set the library version of a resource user
  that is not registered, the dispatcher sends no reply, the manager neither closes nor defers the
  session, and the loop of the server thread aborts the process.\<close>

theorem unknown_application_aborts:
  "WaitSignaled n k m = Inr (Some (SessionHolder i), m1) \<Longrightarrow>
   fetch_message n k i m1 = Inr (ResultSuccess, m2) \<Longrightarrow>
   request_runs k i m2 obj h vs \<Longrightarrow>
   methods_of k obj h vs = plain_call (Control_SetShimLibraryVersion version aruid) \<Longrightarrow>
   by_aruid aruid (g_ApplicationAlbumManager (fsSetPriority k 0 (services m2))) = None \<Longrightarrow>
   WaitAndProcessImpl n k m = Inl Abort"
  by (rule framework_result_aborts [where rc = ResultControlNotOpened])
    (assumption | simp add: plain_call_def Control_SetShimLibraryVersion_def converted_def
      SetShimLibraryVersion_def | rule album_results_in_range)+

text \<open>C6: a request is answered by one run of its method. Take a kernel whose replies, which
  wait for nothing, end in a timeout or with the session closed. When a session of the manager is
  signaled and its message, received now or kept since it was deferred, passes every check, the method
  its object's table names runs once on the decoded arguments. Unless its result is in the range of
  the framework's own (or it succeeded and returns an object or wrote where it has no output, which is
  not covered here), the reply carries this result and, on success, exactly what the method wrote. What
  the round leaves outside the manager is the method's effect and the sending of that one reply, at the
  priority from before; the session waits again, and the deferred sessions are served next.\<close>

theorem request_answered:
  "WaitSignaled n k m = Inr (Some (SessionHolder i), m1) \<Longrightarrow>
   fetch_message n k i m1 = Inr (ResultSuccess, m2) \<Longrightarrow>
   request_runs k i m2 obj h vs \<Longrightarrow> session_in i m2 = Inr s \<Longrightarrow>
   methods_of k obj h vs (fsSetPriority k 0 (services m2)) = Inr (rc, out, g) \<Longrightarrow>
   \<not> (R_FAILED rc \<and> Includes sf_RequestContextChanged rc) \<Longrightarrow>
   map_of (signatures_of k obj) h = Some args \<Longrightarrow> R_FAILED rc \<or> outputs_fit args out \<Longrightarrow> reply_ends k \<Longrightarrow>
   \<exists>response m3. reply_holds args rc out response \<and>
     services m3 = fsSetPriority k (hd (inline_context m2))
       (snd (snd (svcReply k (session_handle s) (write_reply k response rc (tls m2)) g))) \<and>
     waitlist m3 = waitlist m2 @ [SessionHolder i] \<and> deferred_session_list m3 = deferred_session_list m2 \<and>
     ProcessForSession n k i m1 = Inr (ResultSuccess, m3) \<and>
     WaitAndProcessImpl n k m = then_run (ProcessDeferredSessions n k m3) (\<lambda>m4. Inr (True, m4))"
proof -
  assume w: "WaitSignaled n k m = Inr (Some (SessionHolder i), m1)"
    and f: "fetch_message n k i m1 = Inr (ResultSuccess, m2)"
    and r: "request_runs k i m2 obj h vs" "session_in i m2 = Inr s"
      "methods_of k obj h vs (fsSetPriority k 0 (services m2)) = Inr (rc, out, g)"
      "\<not> (R_FAILED rc \<and> Includes sf_RequestContextChanged rc)" "map_of (signatures_of k obj) h = Some args"
      "R_FAILED rc \<or> outputs_fit args out" "reply_ends k"
  obtain response m3 where m3: "reply_holds args rc out response" "ProcessRequest k i m2 = Inr (ResultSuccess, m3)"
    "services m3 = fsSetPriority k (hd (inline_context m2))
      (snd (snd (svcReply k (session_handle s) (write_reply k response rc (tls m2)) g)))"
    "waitlist m3 = waitlist m2 @ [SessionHolder i]" "deferred_session_list m3 = deferred_session_list m2"
    by (rule request_served [OF r(1,2,5,3,4,6,7)])
  have p: "ProcessForSession n k i m1 = Inr (ResultSuccess, m3)"
    using f m3(2) by (simp add: ProcessForSession_def)
  have "WaitAndProcessImpl n k m = then_run (ProcessDeferredSessions n k m3) (\<lambda>m4. Inr (True, m4))"
    using w p by (cases "ProcessDeferredSessions n k m3") (simp_all add: WaitAndProcessImpl_def Process_def)
  with m3 p show ?thesis by blast
qed

section \<open>A session that is not accepted\<close>

text \<open>C21: a client that goes away before it is accepted takes the service down. When the kernel does not
  accept a session, the memory taken for it is destroyed though no session was made in it: in a slot that
  had a session before, that session's object would be released a second time; in a fresh slot the
  destructor finds zeros, but the error is returned to the loop, which aborts.\<close>

theorem failed_accept_stops:
  "WaitSignaled n k m = Inr (Some (ServerHolder i), m1) \<Longrightarrow> server_in i m1 = Inr server \<Longrightarrow>
   (\<forall>w. R_FAILED (fst (svcAcceptSession k (port_handle server) w))) \<Longrightarrow> slots_ok m1 \<Longrightarrow>
   free_slot (session_allocated m1) = Some j \<Longrightarrow>
   WaitAndProcessImpl n k m = Inl (if session_storages m1 ! j = Destroyed then OutOfBounds else Abort)"
proof -
  assume w: "WaitSignaled n k m = Inr (Some (ServerHolder i), m1)" and server: "server_in i m1 = Inr server"
    and acc: "\<forall>w. R_FAILED (fst (svcAcceptSession k (port_handle server) w))" and ok: "slots_ok m1"
    and j: "free_slot (session_allocated m1) = Some j"
  obtain obj v where c: "CreateSessionObjectHolder server (services m1) = (obj, v)" by fastforce
  obtain rc h v' where a: "svcAcceptSession k (port_handle server) v = (rc, h, v')" by (metis prod_cases3)
  have rc: "R_FAILED rc" using acc a by (metis fst_conv)
  have len: "j < length (session_allocated m1)" "j < length (session_storages m1)"
    and free: "\<not> session_allocated m1 ! j" "\<not> is_alive j m1"
    using free_slot_Some [OF j] ok by (auto simp: slots_ok_def)
  have "AcceptSession k (port_handle server) obj (m1\<lparr>services := v\<rparr>) =
      then_run (DestroySession j (m1\<lparr>session_allocated := (session_allocated m1)[j := True], services := v'\<rparr>))
        (\<lambda>m. Inr (rc, m))"
    using rc j by (simp add: AcceptSession_def CreateSessionImpl_def AllocateSession_def AcceptSessionImpl_def a)
  then have "session_storages m1 ! j = Destroyed \<Longrightarrow>
      AcceptSession k (port_handle server) obj (m1\<lparr>services := v\<rparr>) = Inl OutOfBounds"
    and "session_storages m1 ! j = Zeroed \<Longrightarrow>
      \<exists>m2. AcceptSession k (port_handle server) obj (m1\<lparr>services := v\<rparr>) = Inr (rc, m2)"
    using len by (auto simp: DestroySession_def FreeSession_def)
  moreover have "session_storages m1 ! j = Destroyed \<or> session_storages m1 ! j = Zeroed"
    using free(2) len by (cases "session_storages m1 ! j") (auto simp: is_alive_iff)
  ultimately show ?thesis
    using rc by (auto simp: WaitAndProcessImpl_def w Process_def ProcessForServer_def server c)
qed

section \<open>Waiting\<close>

text \<open>
  What the wait for many holders is documented to do: it returns a holder that is signaled, an event only
  when it was signaled. It blocks until then; with a port among the holders that is until a client comes.
\<close>

definition is_event :: "waitable \<Rightarrow> bool" where
  "is_event h \<longleftrightarrow> h \<in> {RequestStopHolder, NotifyHolder}"

definition signals_only :: "('o, 'w) hipc_lib \<Rightarrow> bool" where
  "signals_only k \<longleftrightarrow> (\<forall>hs stop notify w. (\<exists>h\<in>set hs. \<not> is_event h) \<longrightarrow>
     (case fst (WaitAny k hs stop notify w) of
        RequestStopHolder \<Rightarrow> stop | NotifyHolder \<Rightarrow> notify | h \<Rightarrow> h \<in> set hs))"

abbreviation waits :: "('o, 'w) hipc_lib \<Rightarrow> ('o, 'w) ServerManager \<Rightarrow> waitable \<times> 'w" where
  "waits k m \<equiv> WaitAny k (waitable_manager m @ waitlist m) (request_stop_event m) (notify_event m) (services m)"

lemma signals_onlyD:
  assumes "signals_only k" and "\<exists>h\<in>set (waitable_manager m @ waitlist m). \<not> is_event h"
  shows "fst (waits k m) = RequestStopHolder \<Longrightarrow> request_stop_event m"
    and "fst (waits k m) = NotifyHolder \<Longrightarrow> notify_event m"
    and "\<not> is_event (fst (waits k m)) \<Longrightarrow> fst (waits k m) \<in> set (waitable_manager m @ waitlist m)"
proof -
  have "case fst (waits k m) of RequestStopHolder \<Rightarrow> request_stop_event m | NotifyHolder \<Rightarrow> notify_event m
      | h \<Rightarrow> h \<in> set (waitable_manager m @ waitlist m)"
    using assms unfolding signals_only_def by blast
  then show "fst (waits k m) = RequestStopHolder \<Longrightarrow> request_stop_event m"
    "fst (waits k m) = NotifyHolder \<Longrightarrow> notify_event m"
    "\<not> is_event (fst (waits k m)) \<Longrightarrow> fst (waits k m) \<in> set (waitable_manager m @ waitlist m)"
    by (auto simp: is_event_def split: waitable.splits)
qed

lemma last_round:
  assumes "signals_only k" and "\<exists>h\<in>set (waitable_manager m @ waitlist m). \<not> is_event h"
    and "fst (waits k m) \<noteq> NotifyHolder"
  shows "\<exists>chosen m'. WaitSignaled (Suc n) k m = Inr (chosen, m') \<and> (chosen = None \<longrightarrow> request_stop_event m) \<and>
    waitlist m' = [] \<and> set (waitable_manager m @ waitlist m) \<subseteq> set_option chosen \<union> set (waitable_manager m')"
proof -
  obtain h w where a: "waits k m = (h, w)" by fastforce
  note h = signals_onlyD [OF assms(1,2), unfolded a fst_conv]
  have r: "set xs \<subseteq> insert h (set (remove1 h xs))" for xs :: "waitable list" by (induction xs) auto
  show ?thesis
  proof (cases "h = RequestStopHolder")
    case True
    then show ?thesis using a h(1) by (simp add: ProcessWaitList_def)
  next
    case False
    then have "\<not> is_event h" using a assms(3) by (auto simp: is_event_def)
    then show ?thesis using a h(3) r [of "waitable_manager m @ waitlist m"]
      by (simp add: ProcessWaitList_def is_event_def)
  qed
qed

text \<open>C13: a wait does not spin. Where the kernel wakes the thread only for what is signaled, the loop goes round
  at most twice: it returns a server or session taken out of the list of the waited-for, or nothing
  because the manager was asked to stop. Whatever was put on the wait list before is waited for
  afterwards, and no holder is lost.\<close>

theorem wait_returns:
  "signals_only k \<Longrightarrow> manager_ok m \<Longrightarrow> is_server i m \<Longrightarrow> 2 \<le> n \<Longrightarrow>
   \<exists>chosen m'. WaitSignaled n k m = Inr (chosen, m') \<and>
     (case chosen of None \<Rightarrow> request_stop_event m \<and> manager_ok m' | Some h \<Rightarrow> ok_with {h} m') \<and>
     waitlist m' = [] \<and> set (waitable_manager m @ waitlist m) \<subseteq> set_option chosen \<union> set (waitable_manager m')"
proof -
  assume k: "signals_only k" and ok: "manager_ok m" and i: "is_server i m" and n: "2 \<le> n"
  obtain n' where n': "n = Suc (Suc n')" using n by (metis Suc_le_D numeral_2_eq_2 Suc_le_mono)
  have "ServerHolder i \<in> set (waitable_manager m @ waitlist m)"
    using ok i by (auto simp: manager_ok_def ok_with_def listed_def)
  then have port: "\<exists>h\<in>set (waitable_manager m @ waitlist m). \<not> is_event h" by (force simp: is_event_def)
  have "\<exists>chosen m'. WaitSignaled n k m = Inr (chosen, m') \<and> (chosen = None \<longrightarrow> request_stop_event m) \<and>
    waitlist m' = [] \<and> set (waitable_manager m @ waitlist m) \<subseteq> set_option chosen \<union> set (waitable_manager m')"
  proof (cases "fst (waits k m) = NotifyHolder")
    case False
    show ?thesis unfolding n' by (rule last_round [OF k port False])
  next
    case True
    then obtain w where a: "waits k m = (NotifyHolder, w)" by (metis prod.collapse)
    let ?m = "(ProcessWaitList m)\<lparr>services := w, notify_event := False\<rparr>"
    have "WaitSignaled n k m = WaitSignaled (Suc n') k ?m"
      using a unfolding n' by (subst WaitSignaled.simps) (simp add: ProcessWaitList_def)
    moreover have again: "\<exists>h\<in>set (waitable_manager ?m @ waitlist ?m). \<not> is_event h"
      using port by (simp add: ProcessWaitList_def)
    moreover have "fst (waits k ?m) \<noteq> NotifyHolder" using signals_onlyD(2) [OF k again] by auto
    ultimately show ?thesis
      using last_round [OF k, of ?m n'] by (simp add: ProcessWaitList_def del: WaitSignaled.simps)
  qed
  then obtain chosen m' where c: "WaitSignaled n k m = Inr (chosen, m')" "chosen = None \<longrightarrow> request_stop_event m"
    "waitlist m' = []" "set (waitable_manager m @ waitlist m) \<subseteq> set_option chosen \<union> set (waitable_manager m')" by blast
  then show ?thesis
    using WaitSignaled_ok [OF c(1)] ok by (cases chosen) (auto simp: manager_ok_def)
qed

section \<open>Witnesses\<close>

text \<open>
  A kernel whose calls all succeed, which has the first session's message ready; the message asks to set
  the library version of the resource user 1, of which a fresh album knows nothing.
\<close>

definition sample_shim_request :: hipc_message where
  "sample_shim_request = HipcRequest.extend (sample_message 12 [])
     \<lparr>recv_list_address = 0\<rparr>\<lparr>data_address := 0x1010,
      data_words := request sample_cmif 0 33 (replicate 4 0) (le_bytes 8 (1 :: u64) @ le_bytes 8 (1 :: u64)) @ replicate 16 0\<rparr>"

definition sample_kernel :: "(unit, nat objects) hipc_lib" where
  "sample_kernel = \<lparr>svcAcceptSession = (\<lambda>port w. (1, 0, w)), svcCloseHandle = (\<lambda>h w. (0, w)),
     svcCreateSession = (\<lambda>w. (0, (5, 6), w)), svcReceive = (\<lambda>h b w. (0, b, w)),
     svcReply = (\<lambda>h b w. (MakeValue 1 117, b, w)), fsSetPriority = (\<lambda>p w. w),
     sm_RegisterService = (\<lambda>sn n w. (0, 3, w)), sm_UnregisterService = (\<lambda>sn w. (0, w)),
     WaitAny = (\<lambda>hs stop notify w. (if SessionHolder 0 \<in> set hs then SessionHolder 0 else ServerHolder 0, w)),
     tls_address = 0x1000, make_receive = (\<lambda>p b. b), GetCmifCommandType = (\<lambda>b. CmifCommandType_Request),
     hipcParseRequest = (\<lambda>b. sample_shim_request), write_reply = (\<lambda>r c b. b), HIPC_AUTO_RECV_STATIC = 2,
     HipcRecvListEntry_size = 8, PointerBufferSize = 0, sf = sample_sf, firmware = Version_7_0_0,
     table_of = (\<lambda>obj. AlbumControlService_table),
     signatures_of = (\<lambda>obj. AlbumControlService_signatures sample_types),
     methods_of = (\<lambda>obj h vs. case vs of
       [InValue v, InValue a] \<Rightarrow> plain_call (Control_SetShimLibraryVersion (le_word v) (le_word a))
     | _ \<Rightarrow> (\<lambda>g. Inl Abort)),
     domains = no_domains\<rparr>"

definition sample_session :: "unit ServerSession" where
  "sample_session = \<lparr>srv_obj_holder = Some (), pointer_buffer = \<lparr>pas_address = 0, pas_size = 0\<rparr>,
     saved_message = \<lparr>pas_address = 0, pas_size = 0x100\<rparr>, session_handle = 7, is_closed = False,
     has_received = False\<rparr>"

definition sample_manager :: "(unit, nat objects) ServerManager" where
  "sample_manager = (ServerManager_ctor 1 2 0 0 (initial_objects 0))
     \<lparr>session_storages := [Alive sample_session, Zeroed], session_allocated := [True, False],
      waitlist := [SessionHolder 0]\<rparr>"

lemma sample_session_in: "session_in 0 sample_manager = Inr sample_session"
  by (simp add: session_in_def sample_manager_def)

lemma sample_slots: "slots_ok sample_manager"
  by (auto simp: slots_ok_def sample_manager_def is_alive_iff less_Suc_eq)

lemma clones_exhaust_witness:
  "\<exists>m'. clone_times 1 sample_kernel 0 sample_manager = Inr m' \<and>
     CloneCurrentObjectImpl sample_kernel 0 [OutMovePlace 0] m' = Inl Abort"
proof -
  have "srv_obj_holder sample_session = Some ()" "kernel_sessions sample_kernel"
    by (simp_all add: sample_session_def kernel_sessions_def sample_kernel_def)
  from clones_exhaust [OF sample_slots sample_session_in this] show ?thesis
    by (auto simp: sample_manager_def)
qed

lemma sample_shim_simps: "data_address sample_shim_request = 0x1010" "recv_list_address sample_shim_request = 0"
  "hipc_meta sample_shim_request = hipc_meta (sample_message 12 [])"
  "data_words sample_shim_request =
     request sample_cmif 0 33 (replicate 4 0) (le_bytes 8 (1 :: u64) @ le_bytes 8 (1 :: u64)) @ replicate 16 0"
  "num_data_words (hipc_meta (sample_message 12 [])) = 12" "num_recv_statics (hipc_meta (sample_message 12 [])) = 0"
  by (simp_all add: sample_shim_request_def HipcRequest.extend_def sample_message_def)

lemma sample_fits: "request_fits sample_kernel sample_shim_request"
  by (simp add: request_fits_def sample_shim_simps sample_kernel_def TlsMessageBufferSize_def)

lemma sample_raw_data: "in_raw_data sample_shim_request =
    request sample_cmif 0 33 (replicate 4 0) (le_bytes 8 (1 :: u64) @ le_bytes 8 (1 :: u64))"
proof -
  have "AlignUp 0x1010 0x10 = (0x1010 :: u64)" by code_simp
  moreover have "length (request sample_cmif 0 33 (replicate 4 0) (le_bytes 8 (1 :: u64) @ le_bytes 8 (1 :: u64))) = 32"
    by (simp add: request_def sample_cmif_def)
  ultimately show ?thesis by (simp add: in_raw_data_def sample_shim_simps)
qed

lemma raw_data_inside_message_witness:
  "\<exists>raw. length raw = 32 \<and>
     DispatchRequest sample_kernel (\<lambda>r pb bytes m. if bytes = raw then Inr (1, m) else Inl Abort) 0
       sample_manager = Inr (1, sample_manager)"
proof -
  have w: "words_in_memory sample_shim_request" by (simp add: words_in_memory_def sample_shim_simps)
  have l: "48 \<le> length (data_words sample_shim_request)"
    by (simp add: sample_shim_simps request_def sample_cmif_def)
  have r: "sample_shim_request = hipcParseRequest sample_kernel (tls sample_manager)"
    by (simp add: sample_kernel_def)
  have n: "48 = 4 * num_data_words (hipc_meta sample_shim_request)" by (simp add: sample_shim_simps)
  have ok: "DispatchRequest sample_kernel (\<lambda>r pb raw m. Inl Abort) 0 sample_manager = Inl Abort"
    using sample_session_in sample_fits by (simp add: DispatchRequest_eq sample_kernel_def Let_def)
  from raw_data_inside_message [OF sample_session_in r w n l refl refl] show ?thesis
  proof (elim disjE exE conjE)
    fix raw :: "u8 list"
    assume d: "\<forall>process. DispatchRequest sample_kernel process 0 sample_manager =
        then_run (process (HipcRequest.truncate sample_shim_request) (pointer_buffer sample_session) raw
          sample_manager) (\<lambda>(rc, m). if R_FAILED rc then Inr (rc, m)
            else then_run (session_in 0 m) (\<lambda>s. Reply sample_kernel (session_handle s) m))"
      and "length raw = 48 - 0x10"
    then have "length raw = 32" by simp
    then show ?thesis using d by (intro exI [of _ raw]) (simp add: R_FAILED_iff)
  qed (use ok in \<open>metis Inl_Inr_False\<close>)
qed

lemma saved_messages_disjoint_witness:
  "unat (pas_address (GetSessionSavedMessageBuffer 3 (ServerManager_ctor 1 63 0 0x40000 () :: (unit, unit) ServerManager))) + 0x100 \<le>
   unat (pas_address (GetSessionSavedMessageBuffer 4 (ServerManager_ctor 1 63 0 0x40000 () :: (unit, unit) ServerManager)))"
  using saved_messages_disjoint [where m = "ServerManager_ctor 1 63 0 0x40000 () :: (unit, unit) ServerManager",
      OF refl, of 3 4]
  by (simp add: ServerSessionCountMax_def TlsMessageBufferSize_def Let_def)

lemma session_lists_consistent_witness:
  "\<exists>m. (manager_step sample_kernel)\<^sup>*\<^sup>* (ServerManager_ctor 1 63 0 0 (initial_objects 0)) m \<and> is_server 0 m \<and>
     ServerHolder 0 \<in> set (listed m) \<and> distinct (listed m)"
proof -
  obtain m where r: "RegisterServer sample_kernel ''caps:c'' 16 None (\<lambda>w. ((), w))
      (ServerManager_ctor 1 63 0 0 (initial_objects 0)) = Inr (ResultSuccess, m)" and s: "is_server 0 m"
    by (simp add: RegisterServer_def sample_kernel_def RegisterServerImpl_def AllocateServer_def
        ServerManager_ctor_def free_slot_def is_server_iff)
  then have "(manager_step sample_kernel)\<^sup>*\<^sup>* (ServerManager_ctor 1 63 0 0 (initial_objects 0)) m"
    by (intro r_into_rtranclp manager_step.register)
  from session_lists_consistent [OF this] this s show ?thesis by blast
qed


text \<open>One server, one slot, fresh or used.\<close>

definition sample_port :: "unit session_storage \<Rightarrow> (unit, nat objects) ServerManager" where
  "sample_port storage0 = (ServerManager_ctor 1 1 0 0 (initial_objects 0))
     \<lparr>server_storages := [Some \<lparr>static_object = None, port_handle = 3, service_name = ''caps:c'',
        service_managed = True, MakeShared = (\<lambda>w. ((), w))\<rparr>],
      session_storages := [storage0],
      waitable_manager := [RequestStopHolder, NotifyHolder, ServerHolder 0]\<rparr>"

lemma failed_accept_stops_witness:
  "WaitAndProcessImpl 1 sample_kernel (sample_port Zeroed) = Inl Abort \<and>
   WaitAndProcessImpl 1 sample_kernel (sample_port Destroyed) = Inl OutOfBounds"
proof -
  have k: "\<forall>w. R_FAILED (fst (svcAcceptSession sample_kernel p w))" for p
    by (simp add: sample_kernel_def R_FAILED_iff)
  have w: "\<exists>m1 server. WaitSignaled 1 sample_kernel (sample_port storage0) = Inr (Some (ServerHolder 0), m1) \<and>
      server_in 0 m1 = Inr server \<and> session_storages m1 = [storage0] \<and> session_allocated m1 = [False]" for storage0
    by (simp add: sample_port_def sample_kernel_def ServerManager_ctor_def ProcessWaitList_def server_in_def)
  have "WaitAndProcessImpl 1 sample_kernel (sample_port storage0) =
      Inl (if storage0 = Destroyed then OutOfBounds else Abort)" if "storage0 \<in> {Zeroed, Destroyed}" for storage0
  proof -
    obtain m1 server where m1: "WaitSignaled 1 sample_kernel (sample_port storage0) = Inr (Some (ServerHolder 0), m1)"
      "server_in 0 m1 = Inr server" "session_storages m1 = [storage0]" "session_allocated m1 = [False]"
      using w by blast
    have "slots_ok m1" using m1(3,4) that by (auto simp: slots_ok_def is_alive_iff)
    moreover have "free_slot (session_allocated m1) = Some 0" by (simp add: m1(4) free_slot_def)
    ultimately show ?thesis using failed_accept_stops [OF m1(1,2) k] m1(3) by simp
  qed
  then show ?thesis by simp
qed

lemma sample_request_runs:
  assumes "session_in 0 m = Inr s" and "\<not> is_closed s" and "srv_obj_holder s = Some ()"
    and "pointer_buffer s = \<lparr>pas_address = 0, pas_size = 0\<rparr>"
  shows "request_runs sample_kernel 0 m () ''SetShimLibraryVersion''
    [InValue (le_bytes 8 (1 :: u64)), InValue (le_bytes 8 (1 :: u64))]"
proof -
  let ?args = "[InDataArg u64_t, InDataArg u64_t]"
  let ?r = "HipcRequest.truncate sample_shim_request"
  have l: "sf sample_kernel = sample_sf" "CMIF_IN_HEADER_SIZE sample_sf = 16"
    "CMIF_IN_HEADER_MAGIC sample_sf = CMIF_IN_HEADER_MAGIC sample_cmif" "CMIF_IN_HEADER_SIZE sample_cmif = 16"
    by (simp_all add: sample_kernel_def sample_sf_def sample_cmif_def)
  have h: "length (replicate 4 (0 :: u8)) + 12 = CMIF_IN_HEADER_SIZE sample_cmif" by (simp add: l)
  note raw = request_header [OF h, of 0 33 "le_bytes 8 (1 :: u64) @ le_bytes 8 (1 :: u64)", folded sample_raw_data]
  have f: "find (Matches 33 Version_7_0_0) AlbumControlService_table =
      Some (meta ''SetShimLibraryVersion'' 33 Version_Min Version_Max)"
    by (simp add: AlbumControlService_table_def Matches_def MakeServiceCommandMeta_def) code_simp
  have sig: "map_of (AlbumControlService_signatures sample_types) ''SetShimLibraryVersion'' = Some ?args"
    by (simp add: AlbumControlService_signatures_def)
  have c: "GetCount P ?args = 0" "buffer_infos ?args = []" "HasInProcessIdHolder ?args = False"
    "of_type InObject ?args = []" for P
    by (simp_all add: GetCount_def Buffers_def buffer_infos_def ArgumentSerializationInfos_def ProcessUpdate_def
        Let_def initial_info_def HasInProcessIdHolder_def InProcessIdHolders_def InDatas_def IsProcessIdHolder_def
        u64_t_def of_type_def GetArgumentType_def)
  have o: "InDataSize ?args = 16" "InDataOffsets ?args = [0, 8, 16]" by code_simp+
  have r: "hipc_meta ?r = hipc_meta (sample_message 12 [])"
    by (simp add: HipcRequest.truncate_def sample_shim_simps)
  have p: "PrepareForProcess ?r ?args (runtime_metadata sample_sf ?args) = ResultSuccess"
    by (simp add: PrepareForProcess_success r c sample_message_def GetUnfixedOutPointerSizeOffset_def
        CommandRuntimeMetadata_def o l NumUnfixedSizeOutHipcPointerBuffers_def align_up_def)
  have b: "ProcessBuffers ?r (runtime_metadata sample_sf ?args) pb ?args = Inr (ResultSuccess, [])" for pb
    by (simp add: ProcessBuffers_def c)
  have i: "ArgumentSerializationInfos ?args =
      [initial_info\<lparr>arg_type := InData\<rparr>, initial_info\<lparr>arg_type := InData, in_raw_data_index := 1\<rparr>]"
    by (simp add: ArgumentSerializationInfos_def ProcessUpdate_def Let_def initial_info_def GetArgumentType_def)
  have d: "DeserializeArguments ?r (le_bytes 8 (1 :: u64) @ le_bytes 8 (1 :: u64)) ?args [] =
      Inr [InValue (le_bytes 8 (1 :: u64)), InValue (le_bytes 8 (1 :: u64))]"
    unfolding DeserializeArguments_def i
    by (simp add: DeserializeArgumentImpl_def Let_def o [unfolded u64_t_def] initial_info_def u64_t_def size_of_def
        bytes_at_def)
  have k: "hipcParseRequest sample_kernel (tls m) = sample_shim_request"
    "GetCmifCommandType sample_kernel (tls m) = CmifCommandType_Request" "firmware sample_kernel = Version_7_0_0"
    "table_of sample_kernel () = AlbumControlService_table"
    "signatures_of sample_kernel () = AlbumControlService_signatures sample_types"
    by (simp_all add: sample_kernel_def)
  show ?thesis
    unfolding request_runs_def Let_def k l
    using raw sample_fits f sig p b d assms c
    by (intro conjI exI [of _ s] exI [of _ "meta ''SetShimLibraryVersion'' 33 Version_Min Version_Max"]
        exI [of _ ?args] exI [of _ "[] :: (PointerAndSize \<times> bool) list"]
        exI [of _ "[InValue (le_bytes 8 (1 :: u64)), InValue (le_bytes 8 (1 :: u64))]"])
      (simp_all add: handler_meta l)
qed

lemma sample_round:
  obtains m1 m2 where
    "WaitSignaled 1 sample_kernel (sample_manager\<lparr>services := g\<rparr>) = Inr (Some (SessionHolder 0), m1)"
    "fetch_message 1 sample_kernel 0 m1 = Inr (ResultSuccess, m2)"
    "session_in 0 m2 = Inr (sample_session\<lparr>has_received := True\<rparr>)" "services m2 = g"
    "waitlist m2 = []" "deferred_session_list m2 = []"
    "request_runs sample_kernel 0 m2 () ''SetShimLibraryVersion''
      [InValue (le_bytes 8 (1 :: u64)), InValue (le_bytes 8 (1 :: u64))]"
proof -
  obtain m1 where w: "WaitSignaled 1 sample_kernel (sample_manager\<lparr>services := g\<rparr>) = Inr (Some (SessionHolder 0), m1)"
    and s: "session_in 0 m1 = Inr sample_session" and g1: "services m1 = g" "waitlist m1 = []"
      "deferred_session_list m1 = []"
    by (simp add: sample_manager_def sample_kernel_def ServerManager_ctor_def ProcessWaitList_def session_in_def)
  obtain m2 where f: "fetch_message 1 sample_kernel 0 m1 = Inr (ResultSuccess, m2)"
    and s2: "session_in 0 m2 = Inr (sample_session\<lparr>has_received := True\<rparr>)" and g2: "services m2 = g"
      "waitlist m2 = []" "deferred_session_list m2 = []"
  proof -
    have "0 < length (session_storages m1)" using s by (simp add: session_in_alive)
    moreover have "deferred_session_list (set_session 0 s' m1) = []" for s'
      using g1 by (simp add: set_session_def)
    ultimately show thesis
      using that s g1
      by (simp add: fetch_message_def sample_session_def Receive_def sample_kernel_def Let_def)
  qed
  have "request_runs sample_kernel 0 m2 () ''SetShimLibraryVersion''
      [InValue (le_bytes 8 (1 :: u64)), InValue (le_bytes 8 (1 :: u64))]"
    by (rule sample_request_runs [OF s2]) (simp_all add: sample_session_def)
  then show thesis by (rule that [OF w f s2 g2])
qed

lemma sample_method: "methods_of sample_kernel () ''SetShimLibraryVersion''
    [InValue (le_bytes 8 (1 :: u64)), InValue (le_bytes 8 (1 :: u64))] = plain_call (Control_SetShimLibraryVersion 1 1)"
  by (simp add: sample_kernel_def)

lemma unknown_application_aborts_witness:
  "WaitAndProcessImpl 1 sample_kernel sample_manager = Inl Abort"
proof -
  have same: "sample_manager\<lparr>services := initial_objects 0\<rparr> = sample_manager"
    by (simp add: sample_manager_def ServerManager_ctor_def)
  show ?thesis
  proof (rule sample_round [of "initial_objects 0", unfolded same])
    fix m1 m2
    assume w: "WaitSignaled 1 sample_kernel sample_manager = Inr (Some (SessionHolder 0), m1)"
      "fetch_message 1 sample_kernel 0 m1 = Inr (ResultSuccess, m2)"
      and g2: "services m2 = initial_objects 0"
      and runs: "request_runs sample_kernel 0 m2 () ''SetShimLibraryVersion''
        [InValue (le_bytes 8 (1 :: u64)), InValue (le_bytes 8 (1 :: u64))]"
    have "by_aruid 1 (g_ApplicationAlbumManager (fsSetPriority sample_kernel 0 (services m2))) = None"
      by (simp add: g2 sample_kernel_def initial_objects_def ApplicationAlbumManager_ctor_def by_aruid_def
          find_None_iff zero_resource_def)
    then show ?thesis by (rule unknown_application_aborts [OF w runs sample_method])
  qed
qed

text \<open>With the resource user registered, the same request is answered.\<close>

lemma request_answered_witness:
  "\<exists>m'. WaitAndProcessImpl 1 sample_kernel (sample_manager\<lparr>services :=
      (initial_objects 0)\<lparr>g_ApplicationAlbumManager := sample_apps [1, 2, 3, 4]\<rparr>\<rparr>) = Inr (True, m') \<and>
    waitlist m' = [SessionHolder 0]"
proof (rule sample_round [of "(initial_objects 0)\<lparr>g_ApplicationAlbumManager := sample_apps [1, 2, 3, 4]\<rparr>"])
  let ?g = "(initial_objects 0)\<lparr>g_ApplicationAlbumManager := sample_apps [1, 2, 3, 4]\<rparr>" and ?h = "''SetShimLibraryVersion''"
  let ?vs = "[InValue (le_bytes 8 (1 :: u64)), InValue (le_bytes 8 (1 :: u64))]"
  fix m1 m2
  assume w: "WaitSignaled 1 sample_kernel (sample_manager\<lparr>services := ?g\<rparr>) = Inr (Some (SessionHolder 0), m1)"
    "fetch_message 1 sample_kernel 0 m1 = Inr (ResultSuccess, m2)"
    and s: "session_in 0 m2 = Inr (sample_session\<lparr>has_received := True\<rparr>)" and g2: "services m2 = ?g"
    and m2: "waitlist m2 = []" "deferred_session_list m2 = []"
    and runs: "request_runs sample_kernel 0 m2 () ?h ?vs"
  have shim: "SetShimLibraryVersion 1 1 (sample_apps [1, 2, 3, 4]) = (ResultSuccess, sample_apps [1, 2, 3, 4])"
    by (simp add: SetShimLibraryVersion_def by_aruid_def sample_apps_def sample_app_def Let_def)
  have call: "methods_of sample_kernel () ?h ?vs (fsSetPriority sample_kernel 0 (services m2)) =
      Inr (ResultSuccess, no_output, ?g)"
    unfolding sample_method
    by (simp add: g2 plain_call_def Control_SetShimLibraryVersion_def converted_def) (simp add: sample_kernel_def shim)
  have sig: "map_of (signatures_of sample_kernel ()) ?h = Some [InDataArg u64_t, InDataArg u64_t]"
    by (simp add: sample_kernel_def AlbumControlService_signatures_def)
  have fit: "outputs_fit [InDataArg u64_t, InDataArg u64_t] (no_output :: unit outputs)"
    by (simp add: outputs_fit_def outputs_ok_def no_output_def well_formed_def u64_t_def align_of_def of_type_def
        GetArgumentType_def)
  have "Includes svc_TimedOut (MakeValue 1 117) \<and> R_FAILED (MakeValue 1 117)" unfolding R_FAILED_iff by code_simp
  then have ends: "reply_ends sample_kernel" by (simp add: reply_ends_def sample_kernel_def)
  from request_answered [OF w runs s call _ sig _ ends] fit
  obtain m3 where "waitlist m3 = [SessionHolder 0]" "deferred_session_list m3 = []"
    "WaitAndProcessImpl 1 sample_kernel (sample_manager\<lparr>services := ?g\<rparr>) =
      then_run (ProcessDeferredSessions 1 sample_kernel m3) (\<lambda>m4. Inr (True, m4))"
    by (auto simp: m2 R_FAILED_iff)
  then show ?thesis by (subst (asm) ProcessDeferredSessions.simps) simp
qed

text \<open>The same kernel, waiting for the events first.\<close>

definition waiting_kernel :: "(unit, nat objects) hipc_lib" where
  "waiting_kernel = sample_kernel\<lparr>WaitAny := (\<lambda>hs stop notify w.
     (if stop then RequestStopHolder else if notify then NotifyHolder
      else case List.find (\<lambda>h. \<not> is_event h) hs of Some h \<Rightarrow> h | None \<Rightarrow> NotifyHolder, w))\<rparr>"

lemma wait_returns_witness:
  "\<exists>m m' h. (manager_step waiting_kernel)\<^sup>*\<^sup>* (ServerManager_ctor 1 63 0 0 (initial_objects 0)) m \<and>
     WaitSignaled 2 waiting_kernel m = Inr (Some h, m') \<and> ok_with {h} m'"
proof -
  obtain m where r: "RegisterServer waiting_kernel ''caps:c'' 16 None (\<lambda>w. ((), w))
      (ServerManager_ctor 1 63 0 0 (initial_objects 0)) = Inr (ResultSuccess, m)" and s: "is_server 0 m"
    and stop: "\<not> request_stop_event m"
    by (simp add: RegisterServer_def waiting_kernel_def sample_kernel_def RegisterServerImpl_def AllocateServer_def
        ServerManager_ctor_def free_slot_def is_server_iff)
  have st: "manager_step waiting_kernel (ServerManager_ctor 1 63 0 0 (initial_objects 0)) m"
    by (rule manager_step.register [OF r])
  have ok: "manager_ok m" by (rule manager_step_ok [OF st ctor_ok])
  have "case fst (WaitAny waiting_kernel hs stop notify w) of
      RequestStopHolder \<Rightarrow> stop | NotifyHolder \<Rightarrow> notify | h \<Rightarrow> h \<in> set hs"
    if h: "\<exists>h\<in>set hs. \<not> is_event h" for hs stop notify and w :: "nat objects"
  proof (cases "stop \<or> notify")
    case False
    obtain h where "List.find (\<lambda>h. \<not> is_event h) hs = Some h"
      using h by (cases "List.find (\<lambda>h. \<not> is_event h) hs") (auto simp: find_None_iff)
    moreover from this have "\<not> is_event h" "h \<in> set hs" by (auto simp: find_Some_iff)
    ultimately show ?thesis using False
      by (cases h) (simp_all add: waiting_kernel_def is_event_def)
  qed (auto simp: waiting_kernel_def)
  then have k: "signals_only waiting_kernel" unfolding signals_only_def by blast
  obtain chosen m' where c: "WaitSignaled 2 waiting_kernel m = Inr (chosen, m')"
    "case chosen of None \<Rightarrow> request_stop_event m \<and> manager_ok m' | Some h \<Rightarrow> ok_with {h} m'"
    using wait_returns [OF k ok s order_refl] by blast
  then show ?thesis using r_into_rtranclp [of "manager_step waiting_kernel", OF st] stop
    by (cases chosen) auto
qed

end
