(* ===== verification/Capsrv.thy ===== *)
theory Capsrv
  imports AlbumLoop HipcProperties
begin

text \<open>
  The whole program: its two server managers (\<open>server/capsrv_album_server.cpp\<close>) with the ports they
  register, its objects, and the two threads that serve. A step is one message of one thread, from
  the wait to the reply; the mutex of the album makes it one step for the methods that take it.
\<close>

section \<open>State\<close>

text \<open>A manager's \<open>services\<close> are the shared objects while its thread runs, and old in between.\<close>

record 'w capsrv =
  g_AlbumControlServerManager :: "(album_object, 'w objects) ServerManager"
  g_AlbumServerManager :: "(album_object, 'w objects) ServerManager"
  album_objects :: "'w objects"

definition AlbumSystemNumServers :: nat where "AlbumSystemNumServers = 1"
definition AlbumApplicationNumServers :: nat where "AlbumApplicationNumServers = 2"

text \<open>A manager for so many servers, its buffers at the given addresses.\<close>

definition new_manager :: "nat \<Rightarrow> u64 \<times> u64 \<Rightarrow> 'w objects \<Rightarrow> (album_object, 'w objects) ServerManager" where
  "new_manager servers a g = ServerManager_ctor servers (ServerSessionCountMax - servers) (fst a) (snd a) g"

section \<open>Start-up\<close>

definition register_service ::
  "(album_object, 'w objects) hipc_lib \<Rightarrow> string \<Rightarrow> nat \<Rightarrow> album_object \<Rightarrow>
     (album_object, 'w objects) ServerManager \<Rightarrow> (album_object, 'w objects) ServerManager run" where
  "register_service k sn max_sessions obj m =
     then_run (RegisterServer k sn max_sessions None (\<lambda>g. (obj, g)) m) (\<lambda>(rc, m).
       if R_FAILED rc then Inl Abort else Inr m)"

definition register_control_services ::
  "(album_object, 'w objects) hipc_lib \<Rightarrow> (album_object, 'w objects) ServerManager \<Rightarrow>
     (album_object, 'w objects) ServerManager run" where
  "register_control_services k = register_service k ''caps:c'' 0x10 ControlObject"

definition register_album_services ::
  "(album_object, 'w objects) hipc_lib \<Rightarrow> (album_object, 'w objects) ServerManager \<Rightarrow>
     (album_object, 'w objects) ServerManager run" where
  "register_album_services k m =
     then_run (register_service k ''caps:a'' 0x10 AccessorObject m) (\<lambda>m.
       if Version_5_0_0 \<le> firmware k then register_service k ''caps:u'' 0x10 ApplicationObject m else Inr m)"

text \<open>\<open>Initialize\<close> with the managers it registers its services with.\<close>

definition capsrv_Initialize ::
  "(album_object, 'w objects) hipc_lib \<Rightarrow> (album_object, 'w objects) hipc_lib \<Rightarrow> u64 \<times> u64 \<Rightarrow> u64 \<times> u64 \<Rightarrow>
     'w surroundings \<Rightarrow> 'w objects \<Rightarrow> 'w capsrv run" where
  "capsrv_Initialize kc ka control_storage album_storage x g =
     (if IsInitialized g then Inl Abort else
      then_run (Initialize_objects x g) (\<lambda>g.
      then_run (register_control_services kc (new_manager AlbumSystemNumServers control_storage g)) (\<lambda>mc.
      then_run (register_album_services ka
          (new_manager AlbumApplicationNumServers album_storage (services mc))) (\<lambda>ma.
      then_run (on_manager x (\<lambda>x. MountImageDirectory x Nand) (services ma)) (\<lambda>(_, _, g).
      then_run (on_manager x (\<lambda>x. RefreshCache x Nand) g) (\<lambda>(_, _, g).
      Inr \<lparr>g_AlbumControlServerManager = mc, g_AlbumServerManager = ma,
           album_objects = g\<lparr>IsInitialized := True\<rparr>\<rparr>))))))"

section \<open>The two threads\<close>

inductive capsrv_step ::
  "(album_object, 'w objects) hipc_lib \<Rightarrow> (album_object, 'w objects) hipc_lib \<Rightarrow>
     'w capsrv \<Rightarrow> 'w capsrv \<Rightarrow> bool" for kc ka where
  control: "WaitAndProcessImpl n kc ((g_AlbumControlServerManager s)\<lparr>services := album_objects s\<rparr>) = Inr (go_on, m) \<Longrightarrow>
    capsrv_step kc ka s (s\<lparr>g_AlbumControlServerManager := m, album_objects := services m\<rparr>)"
| album: "WaitAndProcessImpl n ka ((g_AlbumServerManager s)\<lparr>services := album_objects s\<rparr>) = Inr (go_on, m) \<Longrightarrow>
    capsrv_step kc ka s (s\<lparr>g_AlbumServerManager := m, album_objects := services m\<rparr>)"

section \<open>The invariant\<close>

text \<open>The ports of a manager: these objects, one after the other, and room for more.\<close>

definition offers :: "album_object \<Rightarrow> (album_object, 'w objects) ServerBase option \<Rightarrow> bool" where
  "offers obj s \<longleftrightarrow> (\<exists>p. s = Some p \<and> static_object p = None \<and> MakeShared p = (\<lambda>g. (obj, g)))"

definition ports_are :: "album_object list \<Rightarrow> (album_object, 'w objects) ServerManager \<Rightarrow> bool" where
  "ports_are objs m \<longleftrightarrow>
     (\<exists>ps rest. server_storages m = ps @ replicate rest None \<and> list_all2 offers objs ps)"

definition album_ports :: "Version \<Rightarrow> album_object list" where
  "album_ports v = (if Version_5_0_0 \<le> v then [AccessorObject, ApplicationObject] else [AccessorObject])"

definition capsrv_ok :: "Version \<Rightarrow> 'w capsrv \<Rightarrow> bool" where
  "capsrv_ok v s \<longleftrightarrow> objects_ok (album_objects s) \<and>
     manager_ok (g_AlbumControlServerManager s) \<and> ports_are [ControlObject] (g_AlbumControlServerManager s) \<and>
     manager_ok (g_AlbumServerManager s) \<and> ports_are (album_ports v) (g_AlbumServerManager s)"

lemma ports_are_servers:
  assumes "ports_are objs m"
  shows "is_server i m \<longleftrightarrow> i < length objs" and "makes_quietly m"
proof -
  obtain ps rest where ps: "server_storages m = ps @ replicate rest None" "list_all2 offers objs ps"
    using assms by (auto simp: ports_are_def)
  then have len: "length ps = length objs" by (simp add: list_all2_lengthD)
  have "ps ! i \<noteq> None" if "i < length ps" for i
    using list_all2_nthD2 [OF ps(2) that] by (auto simp: offers_def)
  then show "is_server i m \<longleftrightarrow> i < length objs"
    by (auto simp: is_server_iff ps(1) len nth_append)
  have "quiet g (snd (MakeShared p g))" if "Some p \<in> set ps" for p g
    using ps(2) that by (auto simp: in_set_conv_nth list_all2_conv_all_nth offers_def quiet_refl)
  then show "makes_quietly m" by (auto simp: makes_quietly_def ps(1))
qed

lemma ports_are_same: "server_storages m' = server_storages m \<Longrightarrow> ports_are objs m' = ports_are objs m"
  by (simp add: ports_are_def)

lemma free_slot_after: "free_slot (replicate n True @ False # al) = Some n"
  by (auto simp: free_slot_def find_Some_iff nth_append intro!: exI [of _ n])

text \<open>Registering a service takes the next port, if there is one.\<close>

lemma register_service_next:
  assumes "manager_ok m" and "ports_are objs m" and "length objs < length (server_storages m)"
    and r: "sm_RegisterService k sn n (services m) = (ResultSuccess, port, w)"
  shows "\<exists>m'. register_service k sn n obj m = Inr m' \<and> services m' = w \<and> manager_ok m' \<and>
    ports_are (objs @ [obj]) m' \<and> length (server_storages m') = length (server_storages m)"
proof -
  obtain ps rest where ps: "server_storages m = ps @ replicate rest None" "list_all2 offers objs ps"
    using assms(2) by (auto simp: ports_are_def)
  have len: "length ps = length objs" using ps(2) by (simp add: list_all2_lengthD)
  obtain rest' where rest: "rest = Suc rest'" using assms(3) by (cases rest) (auto simp: ps(1) len)
  have "server_allocated m = map (\<lambda>i. is_server i m) [0..<length (server_storages m)]"
    using assms(1) by (auto simp: manager_ok_def ok_with_def servers_ok_def intro: nth_equalityI)
  also have "\<dots> = map (\<lambda>i. i < length objs) [0..<length objs + Suc rest']"
    unfolding ports_are_servers(1) [OF assms(2)] by (simp add: ps(1) len rest)
  also have "\<dots> = replicate (length objs) True @ False # replicate rest' False"
    by (rule nth_equalityI) (auto simp: nth_append nth_Cons' less_Suc_eq simp del: upt_Suc)
  finally have free: "free_slot (server_allocated m) = Some (length objs)" by (simp add: free_slot_after)
  let ?p = "\<lparr>static_object = None, port_handle = port, service_name = sn, service_managed = True, MakeShared = \<lambda>g. (obj, g)\<rparr>"
  obtain m' where reg: "RegisterServer k sn n None (\<lambda>g. (obj, g)) m = Inr (ResultSuccess, m')"
    and m': "services m' = w" "server_storages m' = (server_storages m)[length objs := Some ?p]"
    using free by (simp add: RegisterServer_def r RegisterServerImpl_def AllocateServer_def)
  have "server_storages m' = (ps @ [Some ?p]) @ replicate rest' None"
    by (simp add: m'(2) ps(1) rest len [symmetric])
  moreover have "list_all2 offers (objs @ [obj]) (ps @ [Some ?p])"
    using ps(2) len by (auto simp: offers_def list_all2_append)
  ultimately have "ports_are (objs @ [obj]) m'" unfolding ports_are_def by blast
  moreover have "manager_ok m'" using RegisterServer_ok [OF reg] assms(1) by (simp add: manager_ok_def)
  ultimately show ?thesis using m' reg by (simp add: register_service_def)
qed

lemma register_service_ok:
  assumes "register_service k sn n obj m = Inr m'" and "manager_ok m" and "ports_are objs m"
    and "length objs < length (server_storages m)" and "kernel_quiet k"
  shows "manager_ok m' \<and> ports_are (objs @ [obj]) m' \<and> length (server_storages m') = length (server_storages m) \<and>
    quiet (services m) (services m')"
proof -
  obtain rc port w where r: "sm_RegisterService k sn n (services m) = (rc, port, w)" by (metis prod_cases3)
  have rc: "rc = ResultSuccess"
    using assms(1) by (auto simp: register_service_def RegisterServer_def r then_run_eq_Inr R_FAILED_iff Let_def
      split: if_splits)
  have "quiet (services m) w" using assms(5) r unfolding kernel_quiet_def by (metis snd_conv)
  then show ?thesis using register_service_next [OF assms(2-4) r [unfolded rc], of obj] assms(1) by auto
qed

lemma new_manager_ok: "manager_ok (new_manager n a g)" "ports_are [] (new_manager n a g)"
  "length (server_storages (new_manager n a g)) = n" "services (new_manager n a g) = g"
  by (auto simp: new_manager_def ctor_ok ports_are_def) (simp_all add: ServerManager_ctor_def)

lemma quiet_ok: "quiet g g' \<Longrightarrow> objects_ok g \<Longrightarrow> objects_ok g'"
  by (auto simp: quiet_def objects_ok_def)

lemma capsrv_Initialize_ok:
  assumes "capsrv_Initialize kc ka a b x g = Inr s" and "kernel_quiet kc" and "kernel_quiet ka"
    and "man_ok (g_AlbumManager g)" and "app_ok (g_ApplicationAlbumManager g)"
  shows "capsrv_ok (firmware ka) s"
proof -
  obtain g1 mc ma rc1 g2 rc2 g3 where i: "Initialize_objects x g = Inr g1"
    and c: "register_control_services kc (new_manager AlbumSystemNumServers a g1) = Inr mc"
    and m: "register_album_services ka (new_manager AlbumApplicationNumServers b (services mc)) = Inr ma"
    and mount: "on_manager x (\<lambda>x. MountImageDirectory x Nand) (services ma) = Inr (rc1, (), g2)"
    and refresh: "on_manager x (\<lambda>x. RefreshCache x Nand) g2 = Inr (rc2, (), g3)"
    and s: "s = \<lparr>g_AlbumControlServerManager = mc, g_AlbumServerManager = ma, album_objects = g3\<lparr>IsInitialized := True\<rparr>\<rparr>"
    using assms(1) by (auto simp: capsrv_Initialize_def then_run_eq_Inr split: if_splits)
  have cs: "manager_ok mc" "ports_are [ControlObject] mc" "quiet g1 (services mc)"
    using register_service_ok [OF c [unfolded register_control_services_def] new_manager_ok(1,2) _ assms(2)]
    by (simp_all add: new_manager_ok AlbumSystemNumServers_def)
  obtain m1 where m1: "register_service ka ''caps:a'' 0x10 AccessorObject
      (new_manager AlbumApplicationNumServers b (services mc)) = Inr m1"
    and m2: "(if Version_5_0_0 \<le> firmware ka then register_service ka ''caps:u'' 0x10 ApplicationObject m1 else Inr m1) = Inr ma"
    using m by (auto simp: register_album_services_def then_run_eq_Inr)
  have as: "manager_ok m1" "ports_are [AccessorObject] m1" "length (server_storages m1) = 2"
    "quiet (services mc) (services m1)"
    using register_service_ok [OF m1 new_manager_ok(1,2) _ assms(3)]
    by (simp_all add: new_manager_ok AlbumApplicationNumServers_def)
  have us: "manager_ok ma \<and> ports_are (album_ports (firmware ka)) ma \<and> quiet (services m1) (services ma)"
  proof (cases "Version_5_0_0 \<le> firmware ka")
    case True
    then have "register_service ka ''caps:u'' 0x10 ApplicationObject m1 = Inr ma" using m2 by simp
    from register_service_ok [OF this as(1,2) _ assms(3)] show ?thesis using as(3) True by (simp add: album_ports_def)
  qed (use m2 as in \<open>simp add: album_ports_def quiet_refl\<close>)
  have "objects_ok g1" by (rule Initialize_objects_ok(1) [OF i assms(4,5)])
  then have "objects_ok (services ma)" using cs(3) as(4) us quiet_ok by blast
  then have "objects_ok g3"
    using preservesD [OF preserves_manager [OF keeps_RefreshCache] _ refresh]
      preservesD [OF preserves_manager [OF keeps_mount(1)] _ mount] by blast
  then have "objects_ok (album_objects s)" by (simp add: s objects_ok_def)
  then show ?thesis using cs us by (simp add: capsrv_ok_def s)
qed

section \<open>Every message keeps it\<close>

lemma manager_ok_services: "manager_ok (m\<lparr>services := g\<rparr>) = manager_ok m"
  by (simp add: manager_ok_def ok_with_services)

lemma serve_ok:
  assumes "WaitAndProcessImpl n k (m\<lparr>services := g\<rparr>) = Inr (go_on, m')" and "serves_album x y k" "kernel_quiet k"
    and "manager_ok m" "ports_are objs m" "objects_ok g"
  shows "manager_ok m' \<and> ports_are objs m' \<and> objects_ok (services m')"
proof -
  have ok: "manager_ok m'"
    using WaitAndProcess_ok [OF assms(1)] assms(4) by (simp add: manager_ok_def ok_with_services)
  have p: "ports_are objs (m\<lparr>services := g\<rparr>)" using assms(5) by (simp add: ports_are_def)
  then have "serving x y k (m\<lparr>services := g\<rparr>)" using assms(2,3) ports_are_servers(2) by (simp add: serving_def)
  with WaitAndProcess_acts [OF assms(1), of x y]
  have "server_storages m' = server_storages (m\<lparr>services := g\<rparr>)" "(album_step x)\<^sup>*\<^sup>* g (services m')"
    by (auto simp: acts_def)
  then show ?thesis using ok p album_steps_ok assms(6) ports_are_same by metis
qed

lemma capsrv_step_ok:
  assumes "capsrv_step kc ka s s'" and "capsrv_ok v s"
    and "serves_album x y kc" "kernel_quiet kc" "serves_album x y ka" "kernel_quiet ka"
  shows "capsrv_ok v s'"
  using assms(1)
proof cases
  case (control n go_on m)
  have "manager_ok m \<and> ports_are [ControlObject] m \<and> objects_ok (services m)"
    by (rule serve_ok [OF control(2) assms(3,4)]) (use assms(2) in \<open>simp_all add: capsrv_ok_def\<close>)
  then show ?thesis using assms(2) by (simp add: capsrv_ok_def control(1))
next
  case (album n go_on m)
  have "manager_ok m \<and> ports_are (album_ports v) m \<and> objects_ok (services m)"
    by (rule serve_ok [OF album(2) assms(5,6)]) (use assms(2) in \<open>simp_all add: capsrv_ok_def\<close>)
  then show ?thesis using assms(2) by (simp add: capsrv_ok_def album(1))
qed

text \<open>What both threads need of their surroundings.\<close>

definition capsrv_outside :: "'w surroundings \<Rightarrow> libnx_types \<Rightarrow>
    (album_object, 'w objects) hipc_lib \<Rightarrow> (album_object, 'w objects) hipc_lib \<Rightarrow> bool" where
  "capsrv_outside x y kc ka \<longleftrightarrow> serves_album x y kc \<and> kernel_quiet kc \<and> serves_album x y ka \<and> kernel_quiet ka"

definition capsrv_started :: "'w surroundings \<Rightarrow> (album_object, 'w objects) hipc_lib \<Rightarrow>
    (album_object, 'w objects) hipc_lib \<Rightarrow> 'w capsrv \<Rightarrow> bool" where
  "capsrv_started x kc ka s \<longleftrightarrow> (\<exists>a b g. man_ok (g_AlbumManager g) \<and> app_ok (g_ApplicationAlbumManager g) \<and>
     capsrv_Initialize kc ka a b x g = Inr s)"

interpretation capsrv: state_machine "capsrv_started x kc ka" "capsrv_step kc ka"
    "\<lambda>s. capsrv_outside x y kc ka \<longrightarrow> capsrv_ok (firmware ka) s"
  for x :: "'w surroundings" and y and kc ka :: "(album_object, 'w objects) hipc_lib"
  by unfold_locales
    (auto simp: capsrv_started_def capsrv_outside_def intro: capsrv_Initialize_ok capsrv_step_ok)

section \<open>Start-up succeeds\<close>

definition registers :: "(album_object, 'w objects) hipc_lib \<Rightarrow> bool" where
  "registers k \<longleftrightarrow> (\<forall>sn n g. fst (sm_RegisterService k sn n g) = ResultSuccess)"

lemma next_port:
  assumes "registers k" and "manager_ok m" "ports_are objs m" "length objs < length (server_storages m)"
  shows "\<exists>m' port w. register_service k sn n obj m = Inr m' \<and> manager_ok m' \<and> ports_are (objs @ [obj]) m' \<and>
      length (server_storages m') = length (server_storages m) \<and>
      sm_RegisterService k sn n (services m) = (ResultSuccess, port, services m')"
proof -
  obtain rc port w where r: "sm_RegisterService k sn n (services m) = (rc, port, w)" by (metis prod_cases3)
  moreover have "rc = ResultSuccess"
    using assms(1) [unfolded registers_def, rule_format, of sn n "services m"] r by simp
  ultimately show ?thesis using register_service_next [OF assms(2-4), of k sn n port w obj] by auto
qed

lemma services_fit:
  assumes "registers kc" and "registers ka"
  shows "\<exists>mc. register_control_services kc (new_manager AlbumSystemNumServers a g) = Inr mc \<and>
      manager_ok mc \<and> ports_are [ControlObject] mc"
    and "\<exists>ma. register_album_services ka (new_manager AlbumApplicationNumServers b g) = Inr ma \<and>
      manager_ok ma \<and> ports_are (album_ports (firmware ka)) ma"
proof -
  have room: "length [] < length (server_storages (new_manager AlbumSystemNumServers a g))"
    "length [] < length (server_storages (new_manager AlbumApplicationNumServers b g))"
    by (simp_all add: new_manager_ok AlbumSystemNumServers_def AlbumApplicationNumServers_def)
  show "\<exists>mc. register_control_services kc (new_manager AlbumSystemNumServers a g) = Inr mc \<and>
      manager_ok mc \<and> ports_are [ControlObject] mc"
    using next_port [OF assms(1) new_manager_ok(1,2) room(1), of "''caps:c''" "0x10" ControlObject]
    unfolding register_control_services_def by auto
  obtain m1 where m1: "register_service ka ''caps:a'' 0x10 AccessorObject
      (new_manager AlbumApplicationNumServers b g) = Inr m1"
    "manager_ok m1" "ports_are [AccessorObject] m1" "length (server_storages m1) = 2"
    using next_port [OF assms(2) new_manager_ok(1,2) room(2), of "''caps:a''" "0x10" AccessorObject]
    by (auto simp: new_manager_ok AlbumApplicationNumServers_def)
  obtain m2 where "register_service ka ''caps:u'' 0x10 ApplicationObject m1 = Inr m2"
    "manager_ok m2" "ports_are [AccessorObject, ApplicationObject] m2"
    using next_port [OF assms(2) m1(2,3), of "''caps:u''" "0x10" ApplicationObject] m1(4) by auto
  then show "\<exists>ma. register_album_services ka (new_manager AlbumApplicationNumServers b g) = Inr ma \<and>
      manager_ok ma \<and> ports_are (album_ports (firmware ka)) ma"
    using m1 by (simp add: register_album_services_def album_ports_def)
qed

lemma quiet_same: "quiet g g' \<Longrightarrow> g_AlbumManager g' = g_AlbumManager g"
  by (auto simp: quiet_def)

lemma quiet_trans: "quiet g g1 \<Longrightarrow> quiet g1 g2 \<Longrightarrow> quiet g g2"
  by (auto simp: quiet_def)

lemma capsrv_Initialize_returns:
  assumes "Initialize_objects x g = Inr g1" and "\<not> IsInitialized g" and "registers kc" "registers ka"
    and "kernel_quiet kc" "kernel_quiet ka" "man_ok (g_AlbumManager g)" "app_ok (g_ApplicationAlbumManager g)"
  shows "\<exists>s. capsrv_Initialize kc ka a b x g = Inr s"
proof -
  obtain mc where mc: "register_control_services kc (new_manager AlbumSystemNumServers a g1) = Inr mc"
    using services_fit(1) [OF assms(3,4)] by blast
  obtain ma where ma: "register_album_services ka (new_manager AlbumApplicationNumServers b (services mc)) = Inr ma"
    using services_fit(2) [OF assms(3,4)] by blast
  have q: "quiet m (services m')" if "register_service k sn n obj m0 = Inr m'" "manager_ok m0" "ports_are objs m0"
    "length objs < length (server_storages m0)" "kernel_quiet k" "services m0 = m" for k sn n obj m0 m' objs m
    using register_service_ok [OF that(1-5)] that(6) by blast
  have c: "quiet g1 (services mc)"
    using q [OF mc [unfolded register_control_services_def] new_manager_ok(1,2) _ assms(5) new_manager_ok(4)]
    by (simp add: new_manager_ok AlbumSystemNumServers_def)
  have "quiet (services mc) (services ma)"
  proof -
    obtain m1 where m1: "register_service ka ''caps:a'' 0x10 AccessorObject
        (new_manager AlbumApplicationNumServers b (services mc)) = Inr m1"
      and m2: "(if Version_5_0_0 \<le> firmware ka then register_service ka ''caps:u'' 0x10 ApplicationObject m1 else Inr m1) = Inr ma"
      using ma by (auto simp: register_album_services_def then_run_eq_Inr)
    have as: "manager_ok m1" "ports_are [AccessorObject] m1" "length (server_storages m1) = 2"
      "quiet (services mc) (services m1)"
      using register_service_ok [OF m1 new_manager_ok(1,2) _ assms(6)]
      by (simp_all add: new_manager_ok AlbumApplicationNumServers_def)
    show ?thesis
      using m2 as(4) q [OF _ as(1,2) _ assms(6) refl] as(3) by (auto split: if_splits intro: quiet_trans)
  qed
  with c have man: "g_AlbumManager (services ma) = g_AlbumManager g1" using quiet_trans quiet_same by metis
  note ok = Initialize_objects_ok [OF assms(1,7,8)]
  have s: "with_status Nand (g_AlbumManager g1) = MountStatus_ctor" "StorageValid Nand"
    using ok(2) [of Nand] by (simp_all add: StorageValid_def)
  have m: "man_ok (g_AlbumManager g1)" using ok(1) by (simp add: objects_ok_def)
  show ?thesis
    using s(1) man assms(2)
    by (simp add: capsrv_Initialize_def assms(1) mc ma on_manager_def mount_refused [OF s(2)]
        refresh_refused [OF m s(2) _ ok(3)])
qed

section \<open>Properties\<close>

text \<open>C1: the whole program stays consistent. However the two server threads take turns, and whatever
  messages, malformed or not, their clients send, open, clone or close: in every state after a start-up
  the objects of the album are consistent, the lists of both managers are, and the ports of the
  three services (\<open>caps:u\<close> from firmware 5.0.0 on) are waited for by their threads.\<close>

theorem capsrv_consistent:
  "capsrv_outside x y kc ka \<Longrightarrow> man_ok (g_AlbumManager g) \<Longrightarrow> app_ok (g_ApplicationAlbumManager g) \<Longrightarrow>
   capsrv_Initialize kc ka a b x g = Inr s \<Longrightarrow> (capsrv_step kc ka)\<^sup>*\<^sup>* s s' \<Longrightarrow>
   objects_ok (album_objects s') \<and>
   manager_ok (g_AlbumControlServerManager s') \<and> manager_ok (g_AlbumServerManager s') \<and>
   (\<forall>i. ServerHolder i \<in> set (listed (g_AlbumControlServerManager s')) \<longleftrightarrow> i = 0) \<and>
   (\<forall>i. ServerHolder i \<in> set (listed (g_AlbumServerManager s')) \<longleftrightarrow>
      i = 0 \<or> i = 1 \<and> Version_5_0_0 \<le> firmware ka)"
proof -
  assume o: "capsrv_outside x y kc ka" and "man_ok (g_AlbumManager g)" "app_ok (g_ApplicationAlbumManager g)"
    "capsrv_Initialize kc ka a b x g = Inr s" and steps: "(capsrv_step kc ka)\<^sup>*\<^sup>* s s'"
  then have "capsrv_started x kc ka s" unfolding capsrv_started_def by blast
  from capsrv.reachable_inv [of x kc ka s s' y, OF this steps] o have ok: "capsrv_ok (firmware ka) s'" by blast
  have l: "ServerHolder i \<in> set (listed m) \<longleftrightarrow> i < length objs" if "manager_ok m" "ports_are objs m" for i objs
    and m :: "(album_object, 'a objects) ServerManager"
    using that ports_are_servers(1) [OF that(2)] by (simp add: manager_ok_def ok_with_def)
  have "\<forall>i. ServerHolder i \<in> set (listed (g_AlbumControlServerManager s')) \<longleftrightarrow> i = 0"
    using ok l [of _ "[ControlObject]"] by (simp add: capsrv_ok_def)
  moreover have "\<forall>i. ServerHolder i \<in> set (listed (g_AlbumServerManager s')) \<longleftrightarrow>
      i = 0 \<or> i = 1 \<and> Version_5_0_0 \<le> firmware ka"
    using ok l [of _ "album_ports (firmware ka)"] by (auto simp: capsrv_ok_def album_ports_def)
  ultimately show ?thesis using ok by (simp add: capsrv_ok_def)
qed

text \<open>C20: the managers have room for the ports they need. With a service manager that registers every name,
  start-up registers the one service of the control thread and the one or two of the album thread
  and never aborts for want of a server.\<close>

theorem ports_fit:
  "registers kc \<Longrightarrow> registers ka \<Longrightarrow>
   (\<exists>mc. register_control_services kc (new_manager AlbumSystemNumServers a g) = Inr mc \<and>
      ports_are [ControlObject] mc) \<and>
   (\<exists>ma. register_album_services ka (new_manager AlbumApplicationNumServers b g) = Inr ma \<and>
      ports_are (album_ports (firmware ka)) ma)"
  using services_fit [of kc ka] by blast

section \<open>Witnesses\<close>

text \<open>A kernel that accepts every session and has the first session's message ready.\<close>

definition album_kernel :: "Version \<Rightarrow> (album_object, nat objects) hipc_lib" where
  "album_kernel v = \<lparr>svcAcceptSession = (\<lambda>port g. (0, 7, g)), svcCloseHandle = (\<lambda>h g. (0, g)),
     svcCreateSession = (\<lambda>g. (0, (5, 6), g)), svcReceive = (\<lambda>h b g. (0, b, g)),
     svcReply = (\<lambda>h b g. (MakeValue 1 117, b, g)), fsSetPriority = (\<lambda>p g. g),
     sm_RegisterService = (\<lambda>sn n g. (0, 3, g)), sm_UnregisterService = (\<lambda>sn g. (0, g)),
     WaitAny = (\<lambda>hs stop notify g. (if SessionHolder 0 \<in> set hs then SessionHolder 0 else ServerHolder 0, g)),
     tls_address = 0x1000, make_receive = (\<lambda>p b. b), GetCmifCommandType = (\<lambda>b. CmifCommandType_Request),
     hipcParseRequest = (\<lambda>b. sample_shim_request), write_reply = (\<lambda>r c b. b), HIPC_AUTO_RECV_STATIC = 2,
     HipcRecvListEntry_size = 8, PointerBufferSize = 0, sf = sample_sf, firmware = v,
     table_of = album_table, signatures_of = album_signatures sample_types,
     methods_of = (\<lambda>obj h vs g. case (obj, vs) of
       (ControlObject, [InValue version, InValue aruid]) \<Rightarrow>
         if h = ''SetShimLibraryVersion''
         then plain_call (Control_SetShimLibraryVersion (le_word version) (le_word aruid)) g else Inl Abort
     | _ \<Rightarrow> Inl Abort),
     domains = no_domains\<rparr>"

lemma album_kernel_ok: "registers (album_kernel v)" "kernel_quiet (album_kernel v)"
    "serves_album x sample_types (album_kernel v)"
proof -
  show "registers (album_kernel v)" "kernel_quiet (album_kernel v)"
    by (simp_all add: registers_def kernel_quiet_def album_kernel_def quiet_refl)
  have "\<exists>e. album_method x obj h e \<and> e g = Inr (rc, g')"
    if r: "methods_of (album_kernel v) obj h vs g = Inr (rc, out, g')" for obj h vs g rc out g'
  proof -
    obtain version aruid where c: "obj = ControlObject" "h = ''SetShimLibraryVersion''"
      "plain_call (Control_SetShimLibraryVersion (le_word version) (le_word aruid)) g = Inr (rc, out, g')"
      using r by (auto simp: album_kernel_def split: album_object.splits list.splits arg_value.splits if_splits)
    then have "effect (Control_SetShimLibraryVersion (le_word version) (le_word aruid)) g = Inr (rc, g')"
      by (auto simp: plain_call_def effect_def then_run_eq_Inr)
    then show ?thesis using c(1,2) control_method.intros(3) [of x] by auto
  qed
  then show "serves_album x sample_types (album_kernel v)"
    unfolding serves_album_def by (auto simp: album_kernel_def)
qed

lemma sample_capsrv:
  obtains s where "capsrv_Initialize (album_kernel v) (album_kernel v) (0, 0) (0, 0) (sample_site 0x40000)
    (initial_objects 0) = Inr s"
proof (rule sample_start)
  fix g
  assume "server_Initialize (\<lambda>_ _ w. (0, w)) (sample_site 0x40000) (initial_objects 0) = Inr (0, (), g)"
  then obtain g1 where g1: "Initialize_objects (sample_site 0x40000) (initial_objects 0) = Inr g1"
    by (auto simp: server_Initialize_def then_run_eq_Inr split: if_splits)
  have "\<not> IsInitialized (initial_objects 0)" by (simp add: initial_objects_def)
  from capsrv_Initialize_returns [OF g1 this album_kernel_ok(1,1,2,2) initial_ok] that
  show thesis by blast
qed

text \<open>The control thread accepts its first session.\<close>

lemma first_session:
  assumes "waitable_manager m = [RequestStopHolder, NotifyHolder, ServerHolder 0]" "waitlist m = []"
    and "server_storages m = [Some p]" "static_object p = None" "MakeShared p = (\<lambda>g. (ControlObject, g))"
    and "session_storages m = replicate 63 Zeroed" "session_allocated m = replicate 63 False"
  shows "\<exists>m' t. WaitAndProcessImpl 1 (album_kernel v) m = Inr (True, m') \<and>
    session_in 0 m' = Inr t \<and> srv_obj_holder t = Some ControlObject"
proof -
  have f: "free_slot (replicate 63 False) = Some 0" by code_simp
  show ?thesis
    using assms f
    by (simp add: WaitAndProcessImpl_def ProcessWaitList_def Process_def ProcessForServer_def server_in_def Let_def
        album_kernel_def CreateSessionObjectHolder_def AcceptSession_def CreateSessionImpl_def AllocateSession_def
        AcceptSessionImpl_def RegisterSessionImpl_def RegisterSessionToWaitList_def R_FAILED_iff)
qed

lemma control_manager:
  assumes "register_control_services (album_kernel v) (new_manager AlbumSystemNumServers a g) = Inr m"
  shows "\<exists>p. waitable_manager m = [RequestStopHolder, NotifyHolder, ServerHolder 0] \<and> waitlist m = [] \<and>
    server_storages m = [Some p] \<and> static_object p = None \<and> MakeShared p = (\<lambda>g. (ControlObject, g)) \<and>
    session_storages m = replicate 63 Zeroed \<and> session_allocated m = replicate 63 False"
proof -
  have "free_slot [False] = Some 0" by code_simp
  then show ?thesis
    using assms
    by (auto simp: register_control_services_def register_service_def RegisterServer_def album_kernel_def
        RegisterServerImpl_def AllocateServer_def new_manager_def ServerManager_ctor_def
        AlbumSystemNumServers_def ServerSessionCountMax_def R_FAILED_iff Let_def)
qed

lemma capsrv_consistent_witness:
  "\<exists>s s' t. capsrv_Initialize (album_kernel Version_7_0_0) (album_kernel Version_7_0_0) (0, 0) (0, 0)
      (sample_site 0x40000) (initial_objects 0) = Inr s \<and>
     capsrv_step (album_kernel Version_7_0_0) (album_kernel Version_7_0_0) s s' \<and>
     session_in 0 (g_AlbumControlServerManager s') = Inr t \<and> srv_obj_holder t = Some ControlObject \<and>
     objects_ok (album_objects s') \<and> ServerHolder 1 \<in> set (listed (g_AlbumServerManager s'))"
proof -
  let ?k = "album_kernel Version_7_0_0"
  obtain s where s: "capsrv_Initialize ?k ?k (0, 0) (0, 0) (sample_site 0x40000) (initial_objects 0) = Inr s"
    by (rule sample_capsrv)
  then obtain g1 where c: "register_control_services ?k (new_manager AlbumSystemNumServers (0, 0) g1) =
      Inr (g_AlbumControlServerManager s)"
    by (auto simp: capsrv_Initialize_def then_run_eq_Inr split: if_splits)
  obtain p where p: "waitable_manager (g_AlbumControlServerManager s) = [RequestStopHolder, NotifyHolder, ServerHolder 0]"
    "waitlist (g_AlbumControlServerManager s) = []" "server_storages (g_AlbumControlServerManager s) = [Some p]"
    "static_object p = None" "MakeShared p = (\<lambda>g. (ControlObject, g))"
    "session_storages (g_AlbumControlServerManager s) = replicate 63 Zeroed"
    "session_allocated (g_AlbumControlServerManager s) = replicate 63 False"
    using control_manager [OF c] by blast
  obtain m t where m: "WaitAndProcessImpl 1 ?k ((g_AlbumControlServerManager s)\<lparr>services := album_objects s\<rparr>) = Inr (True, m)"
    and t: "session_in 0 m = Inr t" "srv_obj_holder t = Some ControlObject"
    using first_session [of "(g_AlbumControlServerManager s)\<lparr>services := album_objects s\<rparr>" p Version_7_0_0] p by auto
  note step = capsrv_step.control [of 1 ?k s True m ?k, OF m]
  have outside: "capsrv_outside (sample_site 0x40000) sample_types ?k ?k"
    by (simp add: capsrv_outside_def album_kernel_ok)
  have v: "Version_5_0_0 \<le> firmware ?k" by (simp add: album_kernel_def) code_simp
  from capsrv_consistent [OF outside initial_ok s r_into_rtranclp [of "capsrv_step ?k ?k", OF step]]
  show ?thesis using s step t v
    by (intro exI [of _ s] exI [of _ "s\<lparr>g_AlbumControlServerManager := m, album_objects := services m\<rparr>"] exI [of _ t])
      (simp del: One_nat_def)
qed

lemma ports_fit_witness:
  "\<exists>ma :: (album_object, nat objects) ServerManager.
     register_album_services (album_kernel Version_4_0_0)
       (new_manager AlbumApplicationNumServers (0, 0) (initial_objects 0)) = Inr ma \<and> ports_are [AccessorObject] ma"
proof -
  have "\<not> Version_5_0_0 \<le> firmware (album_kernel Version_4_0_0)" by (simp add: album_kernel_def) code_simp
  then have "album_ports (firmware (album_kernel Version_4_0_0)) = [AccessorObject]" by (simp add: album_ports_def)
  with ports_fit [OF album_kernel_ok(1,1), of Version_4_0_0 "(0, 0)" "initial_objects 0" Version_4_0_0]
  show ?thesis by (metis (no_types))
qed

end
