(* ===== verification/Spec2Isabelle.thy ===== *)
theory Spec2Isabelle
  imports StorageTree FileIdGen Overlay AppManager ExifFacts ExifVerify ExifBuilder Video Capsrv
begin

text \<open>
  Verification of \<open>capsrv\<close>, a reimplementation of the Switch's album service
  (\<open>src/capsrv/source\<close>), with the parts of the Atmosphere libraries that its answers depend on.

  \<^bold>\<open>The program.\<close> The process keeps one set of objects (\<open>server/capsrv_album_object.cpp\<close>) and
  offers three services: \<open>caps:a\<close> reads and manages the album, \<open>caps:c\<close> is told by the system of
  storages, applications and new thumbnails, \<open>caps:u\<close> serves applications. A request arrives as a
  message; the framework finds the method by command number and firmware version; the method takes
  the album mutex and calls the album manager, which mounts storages on demand, walks their
  directories, copies and deletes files, and keeps counts of files per storage and type. File names
  carry an encrypted application identifier; entries handed to applications are encrypted or signed;
  screenshots carry an EXIF block with a signed maker note.

  \<^bold>\<open>Theories.\<close> Each models the files it names; definitions keep the names of the code, with a prefix
  where two classes share one (\<open>Manager_DeleteFile\<close>, \<open>Overlay_Signal\<close>, \<open>Accessor_...\<close>).

    \<^item> \<open>Prelude\<close>: runs that may fault, byte lists, little-endian words, the locale \<open>state_machine\<close>
      (an invariant of reachable states) with its lemmas.
    \<^item> \<open>Results\<close> (\<open>results_common.hpp\<close>, \<open>capsrv_results.hpp\<close>): result codes, ranges, \<open>R_TRY\<close>, scope
      guards.
    \<^item> \<open>Content\<close>, \<open>Platform\<close>, \<open>Settings\<close>, \<open>Types\<close>: content types and storages, the services of the
      system as one record of functions, the album settings, the types with their byte layouts and
      \<open>AlbumFileId::Verify\<close>.
    \<^item> \<open>CtrMode\<close> (\<open>libvapours/.../crypto_ctr_mode_impl.hpp\<close>, its routine for AES-128 on ARM, and
      the one-shot functions): counter mode as a state machine over blocks, its key stream as
      specification, the equality of the hand-written routine with the template. Assertions that
      only auditing builds check are an argument, so theorems hold for both builds.
    \<^item> \<open>Crypto\<close>, \<open>FileName\<close> (\<open>capsrv_crypto.cpp\<close>, \<open>capsrv_types.cpp\<close>): keys, MACs, entries; printing of
      paths and parsing of names.
    \<^item> \<open>Cache\<close>, \<open>Reserve\<close>, \<open>Movie\<close>: the counts, the reserved files (a multiset), streams and temporary
      files.
    \<^item> \<open>Directory\<close>, \<open>Mount\<close>, \<open>Manager\<close>, \<open>ManagerFacts\<close> (\<open>capsrv_album_manager.cpp\<close>): the four nested
      loops of the directory walk, the mount states, every operation, and what they achieve.
    \<^item> \<open>StorageTree\<close>: a storage as a tree of folders and files with the file system's contract for listing
      it; the walk gives the callback exactly the entries of the tree, in order, so counting, listing and
      refreshing are stated of the tree (\<open>stored_entries\<close>).
    \<^item> \<open>FileIdGen\<close>, \<open>Overlay\<close>, \<open>AppManager\<close>: identifiers of new files, the shared thumbnails, the
      registered applications.
    \<^item> \<open>Exif\<close>, \<open>ExifFacts\<close>, \<open>ExifVerify\<close>, \<open>ExifBuilder\<close> (\<open>image/\<close>), \<open>Video\<close> (\<open>video/\<close>): the EXIF reader,
      a specification of directories it refines, the verification of screenshots, the builder and
      the regions of a movie file.
    \<^item> \<open>Hos\<close>, \<open>Dispatch\<close>: firmware versions, and how a request finds its handler.
    \<^item> \<open>Layout\<close>, \<open>Serialization\<close>, \<open>SerializationFacts\<close> (\<open>sf_impl_command_serialization.hpp\<close>,
      \<open>sf_buffers.hpp\<close>): the code the framework generates for a command from the types of its
      parameters, with a parameter list as data (\<open>arg list\<close>): where raw data lie, the check of a
      request, buffers, arguments, process identifiers, the call, the reply; and that every index it
      computes counts the parameters of its kind, from which all bounds follow.
    \<^item> \<open>Commands\<close> (\<open>hipc/*.hpp\<close>), \<open>Messages\<close>: the parameter lists of the album's commands, and the
      properties of the generated code.
    \<^item> \<open>Objects\<close>, \<open>AccessorService\<close>, \<open>ControlService\<close>, \<open>ApplicationService\<close>, \<open>Services\<close> (\<open>hipc/\<close>): the
      objects, the methods of the services and sessions, and the join of methods and tables.
    \<^item> \<open>Server\<close> (\<open>server/\<close>, \<open>capsrv_main.cpp\<close>): start-up, shut-down, \<open>main\<close>, and the server as a state
      machine whose steps are the answers to arbitrary messages.
    \<^item> \<open>ServerMessages\<close>: the dispatcher with the generated code in place of the abstract one that
      \<open>Server\<close> assumes: \<open>generated_code_invokes\<close> shows that it is an instance, which refuses a request,
      answers it, or aborts where a method that returns a session finds no room for one.
    \<^item> \<open>HipcSessions\<close>, \<open>HipcSessionFacts\<close> (\<open>sf/hipc/sf_hipc_server_session_manager\<close>, the slots of
      \<open>sf_hipc_server_manager.hpp\<close>, \<open>sf_hipc_server_domain_session_manager.cpp\<close>, \<open>sf_hipc_api.cpp\<close>): the
      sessions of a server thread, how one message is received, dispatched by the generated code,
      answered, and what a request does to the slots.
    \<^item> \<open>HipcServer\<close>, \<open>HipcManagerFacts\<close>, \<open>HipcProperties\<close> (\<open>sf_hipc_server_manager\<close>): ports, wait lists,
      deferred sessions and the loop around them; the invariant of its lists; what clients can and
      cannot do to it, down to the service behind an object. \<open>request_answered\<close> follows one request from
      the wait for it through the method to the reply that is sent.
    \<^item> \<open>AlbumLoop\<close>, \<open>Capsrv\<close> (\<open>server/capsrv_album_server.cpp\<close>): what a round of a server thread
      does to the album is a sequence of methods of the services; start-up with the real managers and the program as two threads
      that share the album, whose invariant joins that of the managers with that of the objects.

  \<^bold>\<open>How code is modelled.\<close> A method is a function of its arguments and the state. Its value is a
  fault (an abort, an access out of bounds, no fuel left) or the result code, the output and the
  new state. \<open>R_TRY\<close>, \<open>R_TRY_CATCH\<close> and scope guards are combinators, so every early return of the code
  is a branch. Machine integers are words of their width; \<open>s64\<close> sizes and offsets are integers.
  Memory a C++ object does not initialise is an argument (\<open>junk\<close>). The file system, clock, random
  numbers and system settings are a record of functions on an abstract world \<open>'w\<close>; ciphers, hashes
  and the security processor are a second one. Theorems hold for every such record, or name what
  they need of it (a block cipher decrypts what it encrypted, a directory ends).

  \<^bold>\<open>Loops.\<close> The loops over directories, the copy loop and the draw of a random key end only if the
  outside lets them, so they have fuel. \<open>directory_walk_returns\<close>, \<open>copy_loop_copies\<close> and the theorems on
  listing, counting and refreshing (\<open>StorageTree\<close>) show that fuel above the number of entries of any one
  directory, or of reads, is enough;
  \<open>copy_loop_hangs\<close> shows a file on which no fuel is. In the server loop fuel counts the tries to receive
  a message (\<open>ReceiveRequestImpl\<close>; the kernel may ask for another for ever), the rounds of a wait
  (\<open>WaitSignaled\<close>; \<open>wait_returns\<close> shows that two are enough) and the messages served (\<open>LoopProcess\<close>, which
  only a request to stop ends). The loop over deferred sessions needs none: it ends
  (\<open>ProcessDeferredSessions\<close>).

  \<^bold>\<open>What the lemmas show.\<close> The manager's invariant \<open>man_ok\<close> is kept by every operation (\<open>keeps\<close>,
  proved with a collection of composition rules), and the objects' invariant \<open>objects_ok\<close> by every
  method (\<open>preserves\<close>, likewise); \<open>server_invariant\<close> composes both with the dispatcher. The
  specification theorems give results and new states on every branch. Interfaces are locales:
  \<open>state_machine\<close>, interpreted on the manager, the generator, the overlay, the registrations, the
  builder, the server, the manager of its sessions and the whole program; \<open>request_relation\<close> and its
  extension \<open>request_handling\<close> (what a request respects on its way from the message to the method),
  interpreted on what it may do to the slots of the session manager and on what it may do to the
  album; \<open>byte_order\<close>, interpreted on both orders of the EXIF reader; \<open>counts\<close>, interpreted on the
  fourteen indices of a parameter; those of the prelude and of the reservations on the code's own
  data.

  \<^bold>\<open>Not modelled.\<close> Threads that interleave within one request (\<open>Overlay\<close> has the interleaving of a
  writer with a reader; elsewhere a request is one step, which the album mutex guarantees for the
  methods that take it; \<open>Capsrv\<close> interleaves the threads message by message). Sessions that forward
  their requests to another service, and domains (the servers of the program allow none; their
  operations are an argument of the session manager). The wait for many holders, threads and the
  rest of the Atmosphere libraries: the service only calls them. Of messages, the parsing of the
  header (\<open>libnx\<close>); of the memory behind the buffers of a request, the contents. AES and SHA-256,
  which \<open>libnx\<close> provides (the rounds inside the routine for AES-128 are one call of the cipher).
  \<open>__appInit\<close> and the other hooks of the C runtime. Functions that are declared and have no body:
  loading and decoding of images are stubs in the code and modelled as the stubs they are.
\<close>

end
